(* ===== verification/Prelude.thy ===== *)
theory Prelude
  imports Main "HOL-Library.Word" "HOL-Library.List_Lexorder" "HOL-Library.Char_ord"
begin

text \<open>
  What every component of the model shares: Go strings and byte slices as lists of bytes, the
  functions of Go's \<^verbatim>\<open>strings\<close> package the agent calls, machine integers with their wrap-around
  written out, and the outcomes a Go function can have (it returns, it panics, or its loop has not
  ended when the fuel of the model runs out).
\<close>

named_theorems go_string_simps \<open>unfolding rules of the string functions\<close>
named_theorems outcome_simps \<open>rules for running a sequence of fallible steps\<close>

section \<open>Outcomes\<close>

text \<open>
  A Go call returns a value, panics (a slice or index out of range), or is still running when the
  fuel given to the model is used up. A theorem that says a function returns is about
  \<open>Returns\<close>, so neither a panic nor an endless loop can satisfy it.
\<close>

datatype 'a outcome = Returns 'a | Panics | Diverges

definition and_then :: "'a outcome \<Rightarrow> ('a \<Rightarrow> 'b outcome) \<Rightarrow> 'b outcome" where
  "and_then m f = (case m of Returns a \<Rightarrow> f a | Panics \<Rightarrow> Panics | Diverges \<Rightarrow> Diverges)"

lemma and_then_simps [simp, outcome_simps]:
  "and_then (Returns a) f = f a"
  "and_then Panics f = Panics"
  "and_then Diverges f = Diverges"
  by (simp_all add: and_then_def)

lemma and_then_eq_Returns:
  "and_then m f = Returns b \<longleftrightarrow> (\<exists>a. m = Returns a \<and> f a = Returns b)"
  by (cases m) simp_all

lemma and_then_not_Panics:
  "m \<noteq> Panics \<Longrightarrow> (\<And>a. m = Returns a \<Longrightarrow> f a \<noteq> Panics) \<Longrightarrow> and_then m f \<noteq> Panics"
  by (cases m) simp_all

text \<open>
  \<open>safely P m\<close>: \<open>m\<close> does not panic, and what it returns satisfies \<open>P\<close>. The rule for sequences lets a
  proof follow the code step by step.
\<close>

definition safely :: "('a \<Rightarrow> bool) \<Rightarrow> 'a outcome \<Rightarrow> bool" where
  "safely P m = (case m of Returns a \<Rightarrow> P a | Panics \<Rightarrow> False | Diverges \<Rightarrow> True)"

lemma safely_simps [simp]:
  "safely P (Returns a) = P a" "safely P Panics = False" "safely P Diverges = True"
  by (simp_all add: safely_def)

lemma safely_and_then:
  "safely P m \<Longrightarrow> (\<And>a. P a \<Longrightarrow> safely Q (f a)) \<Longrightarrow> safely Q (and_then m f)"
  by (cases m) simp_all

lemma safely_mono: "safely P m \<Longrightarrow> (\<And>a. P a \<Longrightarrow> Q a) \<Longrightarrow> safely Q m"
  by (cases m) simp_all

lemma safely_not_Panics: "safely P m \<Longrightarrow> m \<noteq> Panics"
  by (cases m) simp_all

lemma safely_Returns: "safely P m \<Longrightarrow> m = Returns a \<Longrightarrow> P a"
  by simp

text \<open>
  Two runs of an operation from related states: they return the same value and related states, or
  both panic, or neither has ended.
\<close>

definition agrees ::
  "('s \<Rightarrow> 't \<Rightarrow> bool) \<Rightarrow> ('a \<times> 's) outcome \<Rightarrow> ('a \<times> 't) outcome \<Rightarrow> bool" where
  "agrees R m n = (case (m, n) of
      (Returns (x, s), Returns (y, t)) \<Rightarrow> x = y \<and> R s t
    | (Panics, Panics) \<Rightarrow> True
    | (Diverges, Diverges) \<Rightarrow> True
    | _ \<Rightarrow> False)"

lemma agrees_simps [simp]:
  "agrees R (Returns (x, s)) (Returns (y, t)) = (x = y \<and> R s t)"
  "agrees R Panics Panics" "agrees R Diverges Diverges"
  by (simp_all add: agrees_def)

lemma agrees_cases:
  assumes "agrees R m n"
  obtains (ret) x s t where "m = Returns (x, s)" "n = Returns (x, t)" "R s t"
  | (pan) "m = Panics" "n = Panics" | (div) "m = Diverges" "n = Diverges"
  using assms by (cases m; cases n) (auto simp: agrees_def split: prod.splits)

lemma agrees_and_then:
  assumes "agrees R m n" "\<And>x s t. R s t \<Longrightarrow> agrees S (f (x, s)) (g (x, t))"
  shows "agrees S (and_then m f) (and_then n g)"
  using assms(1) by (cases rule: agrees_cases) (use assms(2) in auto)

text \<open>\<open>surely P m\<close>: \<open>m\<close> returns, and what it returns satisfies \<open>P\<close>.\<close>

definition surely :: "('a \<Rightarrow> bool) \<Rightarrow> 'a outcome \<Rightarrow> bool" where
  "surely P m = (\<exists>a. m = Returns a \<and> P a)"

lemma surely_simps [simp]:
  "surely P (Returns a) = P a" "\<not> surely P Panics" "\<not> surely P Diverges"
  by (simp_all add: surely_def)

definition halts :: "'a outcome \<Rightarrow> bool" where
  "halts m = (m \<noteq> Diverges)"

lemma halts_simps [simp]: "halts (Returns a)" "halts Panics" "\<not> halts Diverges"
  by (simp_all add: halts_def)

lemma surely_safely: "surely P m \<longleftrightarrow> safely P m \<and> halts m"
  by (cases m) simp_all

lemma surely_and_then:
  "surely P m \<Longrightarrow> (\<And>a. P a \<Longrightarrow> surely Q (f a)) \<Longrightarrow> surely Q (and_then m f)"
  by (cases m) simp_all

lemma surely_mono: "surely P m \<Longrightarrow> (\<And>a. P a \<Longrightarrow> Q a) \<Longrightarrow> surely Q m"
  by (cases m) simp_all

lemma halts_and_then:
  "halts m \<Longrightarrow> (\<And>a. halts (f a)) \<Longrightarrow> halts (and_then m f)"
  by (cases m) simp_all

text \<open>\<open>yields P m\<close>: whatever \<open>m\<close> returns, if it returns, satisfies \<open>P\<close>; for invariants along a run.\<close>

definition yields :: "('a \<Rightarrow> bool) \<Rightarrow> 'a outcome \<Rightarrow> bool" where
  "yields P m = (case m of Returns a \<Rightarrow> P a | Panics \<Rightarrow> True | Diverges \<Rightarrow> True)"

lemma yields_simps [simp]:
  "yields P (Returns a) = P a" "yields P Panics" "yields P Diverges"
  by (simp_all add: yields_def)

lemma yields_and_then:
  "yields P m \<Longrightarrow> (\<And>a. P a \<Longrightarrow> yields Q (f a)) \<Longrightarrow> yields Q (and_then m f)"
  by (cases m) simp_all

lemma yields_any: "(\<And>a. yields Q (f a)) \<Longrightarrow> yields Q (and_then m f)"
  by (cases m) simp_all

lemma yields_Returns: "yields P m \<Longrightarrow> m = Returns a \<Longrightarrow> P a"
  by simp

text \<open>An operation run on a list of arguments one after the other; and the value of a run, its state left out.\<close>

fun run_all :: "('k \<Rightarrow> 's \<Rightarrow> ('a \<times> 's) outcome) \<Rightarrow> 'k list \<Rightarrow> 's \<Rightarrow> ('a list \<times> 's) outcome" where
  "run_all op [] s = Returns ([], s)"
| "run_all op (k # ks) s =
     and_then (op k s) (\<lambda>(x, s). and_then (run_all op ks s) (\<lambda>(xs, s). Returns (x # xs, s)))"

definition answer :: "('a \<times> 's) outcome \<Rightarrow> 'a outcome" where
  "answer m = and_then m (\<lambda>(x, s). Returns x)"

lemma agrees_answer: "agrees R m n \<Longrightarrow> answer m = answer n"
  by (erule agrees_cases) (simp_all add: answer_def)

text \<open>
  An operation whose answers do not depend on which of two related states it runs in: a cache that
  cannot be seen.
\<close>

locale unseen_cache =
  fixes alike :: "'s \<Rightarrow> 's \<Rightarrow> bool"
    and oper :: "'k \<Rightarrow> 's \<Rightarrow> ('a \<times> 's) outcome"
  assumes oper_agrees: "alike s t \<Longrightarrow> agrees alike (oper k s) (oper k t)"
begin

lemma runs_agree: "alike s t \<Longrightarrow> agrees alike (run_all oper ks s) (run_all oper ks t)"
proof (induction ks arbitrary: s t)
  case (Cons k ks)
  show ?case
    unfolding run_all.simps
    by (rule agrees_and_then [OF oper_agrees [OF Cons.prems]])
      (auto intro!: agrees_and_then [OF Cons.IH])
qed simp

lemma same_answers: "alike s t \<Longrightarrow> answer (run_all oper ks s) = answer (run_all oper ks t)"
  by (rule agrees_answer) (rule runs_agree)

end

section \<open>Machine integers\<close>

text \<open>
  Go's \<^verbatim>\<open>int\<close> is as wide as the platform: 64 bits on amd64 and arm64, 32 bits on 386 and arm,
  all of which are built. \<open>wrap_int w\<close> reads any integer modulo \<open>2 ^ w\<close> as a signed \<open>w\<close>-bit one.
\<close>

definition wrap_int :: "nat \<Rightarrow> int \<Rightarrow> int" where
  "wrap_int w x = (x + 2 ^ (w - 1)) mod 2 ^ w - 2 ^ (w - 1)"

lemma wrap_int_id:
  assumes "0 < w" "- (2 ^ (w - 1)) \<le> x" "x < 2 ^ (w - 1)"
  shows "wrap_int w x = x"
proof -
  have "(2::int) ^ w = 2 * 2 ^ (w - 1)"
    using assms(1) by (cases w) simp_all
  then have "(x + 2 ^ (w - 1)) mod 2 ^ w = x + 2 ^ (w - 1)"
    using assms by (intro mod_pos_pos_trivial) simp_all
  then show ?thesis by (simp add: wrap_int_def)
qed

lemma wrap_int_neg:
  assumes "0 < w" "2 ^ (w - 1) \<le> x" "x < 2 ^ w"
  shows "wrap_int w x = x - 2 ^ w"
proof -
  have p: "(2::int) ^ w = 2 * 2 ^ (w - 1)"
    using assms(1) by (cases w) simp_all
  have "(x + 2 ^ (w - 1)) mod 2 ^ w = (x + 2 ^ (w - 1) - 2 ^ w + 2 ^ w) mod 2 ^ w"
    by simp
  also have "\<dots> = x + 2 ^ (w - 1) - 2 ^ w"
    unfolding mod_add_self2 using assms p by (intro mod_pos_pos_trivial) linarith+
  finally show ?thesis by (simp add: wrap_int_def)
qed

lemma wrap_int_range:
  assumes "0 < w"
  shows "- (2 ^ (w - 1)) \<le> wrap_int w x \<and> wrap_int w x < 2 ^ (w - 1)"
proof -
  have "(2::int) ^ w = 2 * 2 ^ (w - 1)"
    using assms by (cases w) simp_all
  moreover have "0 \<le> (x + 2 ^ (w - 1)) mod 2 ^ w" "(x + 2 ^ (w - 1)) mod 2 ^ w < 2 ^ w"
    by simp_all
  ultimately show ?thesis unfolding wrap_int_def by linarith
qed

abbreviation i64 :: "int \<Rightarrow> int" where
  "i64 \<equiv> wrap_int 64"

lemma i64_id: "- 9223372036854775808 \<le> x \<Longrightarrow> x < 9223372036854775808 \<Longrightarrow> i64 x = x"
  by (rule wrap_int_id) simp_all

section \<open>Bytes and little-endian numbers\<close>

text \<open>A Go string or byte slice is the list of its bytes; a byte is a \<^typ>\<open>char\<close>, of value 0 to 255.\<close>

abbreviation byte_val :: "char \<Rightarrow> nat" where
  "byte_val c \<equiv> of_char c"

fun le_nat :: "string \<Rightarrow> nat" where
  "le_nat [] = 0"
| "le_nat (c # cs) = byte_val c + 256 * le_nat cs"

fun le_bytes :: "nat \<Rightarrow> nat \<Rightarrow> string" where
  "le_bytes 0 n = []"
| "le_bytes (Suc k) n = char_of (n mod 256) # le_bytes k (n div 256)"

lemma length_le_bytes [simp]: "length (le_bytes k n) = k"
  by (induction k arbitrary: n) simp_all

lemma le_bytes_eq_Nil [simp]: "le_bytes k n = [] \<longleftrightarrow> k = 0"
  by (cases k) simp_all

lemma le_bytes_4:
  "le_bytes 4 n = [char_of (n mod 256), char_of (n div 256 mod 256),
     char_of (n div 256 div 256 mod 256), char_of (n div 256 div 256 div 256 mod 256)]"
proof -
  have four: "(4::nat) = Suc (Suc (Suc (Suc 0)))" by simp
  show ?thesis unfolding four by simp
qed

lemma le_nat_le_bytes: "le_nat (le_bytes k n) = n mod 256 ^ k"
proof (induction k arbitrary: n)
  case 0
  then show ?case by simp
next
  case (Suc k)
  then show ?case
    by (simp add: of_char_of mod_mult2_eq [of n 256 "256 ^ k"] algebra_simps)
qed

lemma byte_val_less [simp]: "byte_val c < 256"
proof -
  have "byte_val (char_of (byte_val c)) < 256"
    by (simp only: of_char_of)
  then show ?thesis by simp
qed

lemma le_nat_bound: "le_nat cs < 256 ^ length cs"
proof (induction cs)
  case (Cons c cs)
  have "byte_val c + 256 * le_nat cs < 256 * Suc (le_nat cs)"
    using byte_val_less [of c] by simp
  also have "\<dots> \<le> 256 * 256 ^ length cs"
    using Cons by (intro mult_le_mono2) simp
  finally show ?case by simp
qed simp

section \<open>Slices\<close>

text \<open>
  The Go slice expression \<^verbatim>\<open>s[lo:hi]\<close>: it panics unless \<^verbatim>\<open>0 <= lo <= hi <= len(s)\<close>.
\<close>

definition go_slice :: "string \<Rightarrow> int \<Rightarrow> int \<Rightarrow> string outcome" where
  "go_slice s lo hi =
     (if 0 \<le> lo \<and> lo \<le> hi \<and> hi \<le> int (length s)
      then Returns (take (nat (hi - lo)) (drop (nat lo) s)) else Panics)"

section \<open>The strings package\<close>

definition has_prefix :: "string \<Rightarrow> string \<Rightarrow> bool" where
  "has_prefix s p = (take (length p) s = p)"

definition has_suffix :: "string \<Rightarrow> string \<Rightarrow> bool" where
  "has_suffix s p = (length p \<le> length s \<and> drop (length s - length p) s = p)"

definition trim_prefix :: "string \<Rightarrow> string \<Rightarrow> string" where
  "trim_prefix s p = (if has_prefix s p then drop (length p) s else s)"

definition trim_suffix :: "string \<Rightarrow> string \<Rightarrow> string" where
  "trim_suffix s p = (if has_suffix s p then take (length s - length p) s else s)"

definition cut_prefix :: "string \<Rightarrow> string \<Rightarrow> string option" where
  "cut_prefix s p = (if has_prefix s p then Some (drop (length p) s) else None)"

definition cut_suffix :: "string \<Rightarrow> string \<Rightarrow> string option" where
  "cut_suffix s p = (if has_suffix s p then Some (take (length s - length p) s) else None)"

text \<open>\<^verbatim>\<open>strings.IndexByte\<close>, \<^verbatim>\<open>LastIndexByte\<close> and \<^verbatim>\<open>Index\<close>, with \<open>None\<close> for -1.\<close>

fun index_byte :: "string \<Rightarrow> char \<Rightarrow> nat option" where
  "index_byte [] c = None"
| "index_byte (x # xs) c = (if x = c then Some 0 else map_option Suc (index_byte xs c))"

fun last_index_byte :: "string \<Rightarrow> char \<Rightarrow> nat option" where
  "last_index_byte [] c = None"
| "last_index_byte (x # xs) c =
     (case last_index_byte xs c of Some i \<Rightarrow> Some (Suc i)
      | None \<Rightarrow> if x = c then Some 0 else None)"

fun index_of :: "string \<Rightarrow> string \<Rightarrow> nat option" where
  "index_of [] p = (if p = [] then Some 0 else None)"
| "index_of (x # xs) p =
     (if has_prefix (x # xs) p then Some 0 else map_option Suc (index_of xs p))"

definition contains :: "string \<Rightarrow> string \<Rightarrow> bool" where
  "contains s p = (index_of s p \<noteq> None)"

text \<open>\<^verbatim>\<open>strings.Split\<close> on a one-byte separator, and \<^verbatim>\<open>strings.Join\<close>.\<close>

fun split_on :: "char \<Rightarrow> string \<Rightarrow> string list" where
  "split_on c [] = [[]]"
| "split_on c (x # xs) =
     (if x = c then [] # split_on c xs
      else (case split_on c xs of [] \<Rightarrow> [[x]] | y # ys \<Rightarrow> (x # y) # ys))"

fun join_with :: "string \<Rightarrow> string list \<Rightarrow> string" where
  "join_with sep [] = []"
| "join_with sep [x] = x"
| "join_with sep (x # y # ys) = x @ sep @ join_with sep (y # ys)"

text \<open>\<^verbatim>\<open>strings.TrimRight\<close> and \<^verbatim>\<open>TrimLeft\<close> with a set of single bytes.\<close>

definition trim_left_of :: "char list \<Rightarrow> string \<Rightarrow> string" where
  "trim_left_of cs s = dropWhile (\<lambda>c. c \<in> set cs) s"

definition trim_right_of :: "char list \<Rightarrow> string \<Rightarrow> string" where
  "trim_right_of cs s = rev (dropWhile (\<lambda>c. c \<in> set cs) (rev s))"

lemma has_prefix_append [simp]: "has_prefix (p @ s) p"
  by (simp add: has_prefix_def)

lemma has_suffix_append [simp]: "has_suffix (s @ p) p"
  by (simp add: has_suffix_def)

lemma has_prefix_iff: "has_prefix s p \<longleftrightarrow> (\<exists>r. s = p @ r)"
  by (metis append_take_drop_id has_prefix_append has_prefix_def)

lemma has_suffix_iff: "has_suffix s p \<longleftrightarrow> (\<exists>r. s = r @ p)"
  by (metis append_take_drop_id has_suffix_append has_suffix_def)

lemma has_prefix_Nil [simp]: "has_prefix s []"
  by (simp add: has_prefix_def)

lemma has_prefix_Cons [simp]: "has_prefix (x # xs) (p # ps) \<longleftrightarrow> x = p \<and> has_prefix xs ps"
  by (simp add: has_prefix_def)

lemma has_prefix_empty [simp]: "has_prefix [] (p # ps) = False"
  by (simp add: has_prefix_def)

lemma trim_suffix_append [simp]: "trim_suffix (s @ p) p = s"
  by (simp add: trim_suffix_def)

lemma trim_prefix_append [simp]: "trim_prefix (p @ s) p = s"
  by (simp add: trim_prefix_def)

lemma index_byte_None: "index_byte s c = None \<longleftrightarrow> c \<notin> set s"
  by (induction s) auto

lemma index_byte_Some:
  "index_byte s c = Some i \<Longrightarrow> i < length s \<and> s ! i = c \<and> c \<notin> set (take i s)"
proof (induction s arbitrary: i)
  case (Cons x xs)
  then show ?case by (cases i) (auto split: if_splits)
qed simp

lemma last_index_byte_None: "last_index_byte s c = None \<longleftrightarrow> c \<notin> set s"
  by (induction s) (auto split: option.splits)

lemma last_index_byte_Some:
  "last_index_byte s c = Some i \<Longrightarrow> i < length s \<and> s ! i = c \<and> c \<notin> set (drop (Suc i) s)"
proof (induction s arbitrary: i)
  case (Cons x xs)
  then show ?case
    by (auto split: option.splits if_splits simp: last_index_byte_None)
qed simp

lemma split_on_not_Nil [simp]: "split_on c s \<noteq> []"
  by (induction s) (auto split: list.splits)

lemma join_split_on: "join_with [c] (split_on c s) = s"
proof (induction s)
  case (Cons x xs)
  show ?case
  proof (cases "split_on c xs")
    case Nil
    then show ?thesis by simp
  next
    case (Cons y ys)
    with Cons.IH show ?thesis by (cases ys) auto
  qed
qed simp

lemma split_on_no_sep: "p \<in> set (split_on c s) \<Longrightarrow> c \<notin> set p"
  by (induction s arbitrary: p) (auto split: list.splits if_splits)

lemma split_on_id: "c \<notin> set s \<Longrightarrow> split_on c s = [s]"
  by (induction s) auto

text \<open>
  \<^verbatim>\<open>strings.TrimSpace\<close>: white space is the six ASCII characters and, in UTF-8, U+0085, U+00A0,
  U+1680, U+2000 to U+200A, U+2028, U+2029, U+202F, U+205F and U+3000.
\<close>

definition byte :: "nat \<Rightarrow> char" where
  "byte n = char_of n"

definition space_runes :: "string list" where
  "space_runes =
     [[CHR 0x20], [CHR 0x09], [CHR 0x0A], [CHR 0x0B], [CHR 0x0C], [CHR 0x0D],
      [CHR 0xC2, CHR 0x85], [CHR 0xC2, CHR 0xA0], [CHR 0xE1, CHR 0x9A, CHR 0x80]]
     @ map (\<lambda>c. [CHR 0xE2, CHR 0x80, c])
         [CHR 0x80, CHR 0x81, CHR 0x82, CHR 0x83, CHR 0x84, CHR 0x85, CHR 0x86, CHR 0x87, CHR 0x88, CHR 0x89, CHR 0x8A, CHR 0xA8, CHR 0xA9, CHR 0xAF]
     @ [[CHR 0xE2, CHR 0x81, CHR 0x9F], [CHR 0xE3, CHR 0x80, CHR 0x80]]"

fun strip_left :: "string list \<Rightarrow> nat \<Rightarrow> string \<Rightarrow> string" where
  "strip_left rs 0 s = s"
| "strip_left rs (Suc n) s =
     (case List.find (\<lambda>r. has_prefix s r) rs of
        None \<Rightarrow> s
      | Some r \<Rightarrow> strip_left rs n (drop (length r) s))"

definition trim_space :: "string \<Rightarrow> string" where
  "trim_space s =
     (let l = strip_left space_runes (length s) s
      in rev (strip_left (map rev space_runes) (length l) (rev l)))"

text \<open>
  \<^verbatim>\<open>strings.ToLower\<close> lowers the ASCII letters of a string that is all ASCII; for any other string it
  maps every rune through the Unicode tables, which are the parameter \<open>ulower\<close> of the model.
\<close>

definition is_ascii :: "string \<Rightarrow> bool" where
  "is_ascii s = list_all (\<lambda>c. byte_val c < 128) s"

definition lower_byte :: "char \<Rightarrow> char" where
  "lower_byte c = (if 65 \<le> byte_val c \<and> byte_val c \<le> 90 then byte (byte_val c + 32) else c)"

definition to_lower :: "(string \<Rightarrow> string) \<Rightarrow> string \<Rightarrow> string" where
  "to_lower ulower s = (if is_ascii s then map lower_byte s else ulower s)"

text \<open>
  \<^verbatim>\<open>binary.LittleEndian.Uint32(b[i:])\<close> and \<^verbatim>\<open>Uint64\<close>: they panic when fewer bytes are left.
\<close>

definition le_at :: "nat \<Rightarrow> string \<Rightarrow> nat \<Rightarrow> nat outcome" where
  "le_at k b i = (if i + k \<le> length b then Returns (le_nat (take k (drop i b))) else Panics)"

text \<open>The conversion \<^verbatim>\<open>int64(...)\<close> of an unsigned 64-bit number.\<close>

definition signed64 :: "nat \<Rightarrow> int" where
  "signed64 n = i64 (int n)"

text \<open>
  Times are nanoseconds since the epoch; \<^verbatim>\<open>time.Time{}\<close>, the first instant of year 1, is
  \<open>zero_time\<close>.
\<close>

type_synonym go_time = int

definition zero_time :: go_time where
  "zero_time = - 62135596800000000000"

definition unix_micro :: "int \<Rightarrow> go_time" where
  "unix_micro us = us * 1000"

text \<open>\<^verbatim>\<open>strconv.Atoi\<close> where \<^verbatim>\<open>int\<close> has 64 bits: an optional sign, then at least one decimal digit.\<close>

definition is_digit :: "char \<Rightarrow> bool" where
  "is_digit c = (48 \<le> byte_val c \<and> byte_val c \<le> 57)"

definition digits_value :: "string \<Rightarrow> nat" where
  "digits_value s = foldl (\<lambda>n c. 10 * n + (byte_val c - 48)) 0 s"

definition parse_uint :: "string \<Rightarrow> nat option" where
  "parse_uint s = (if s \<noteq> [] \<and> list_all is_digit s then Some (digits_value s) else None)"

definition atoi :: "string \<Rightarrow> int option" where
  "atoi s =
     (let neg = has_prefix s ''-'';
          digits = (if neg \<or> has_prefix s ''+'' then tl s else s)
      in case parse_uint digits of None \<Rightarrow> None
         | Some n \<Rightarrow>
           (let v = (if neg then - int n else int n) in
            if - 9223372036854775808 \<le> v \<and> v \<le> 9223372036854775807 then Some v else None))"

section \<open>Lists\<close>

text \<open>\<^verbatim>\<open>xs[len(xs)-n:]\<close>, the idiom the agent uses everywhere to keep the last \<open>n\<close> elements.\<close>

definition last_n :: "nat \<Rightarrow> 'a list \<Rightarrow> 'a list" where
  "last_n n xs = drop (length xs - n) xs"

lemma length_last_n [simp]: "length (last_n n xs) = min n (length xs)"
  by (simp add: last_n_def)

lemma last_n_all: "length xs \<le> n \<Longrightarrow> last_n n xs = xs"
  by (simp add: last_n_def)

lemma set_last_n_subset: "set (last_n n xs) \<subseteq> set xs"
  by (simp add: last_n_def set_drop_subset)

lemma last_n_append: "last_n n (xs @ ys) = last_n (n - length ys) xs @ last_n n ys"
  by (cases "length ys \<le> n") (simp_all add: last_n_def algebra_simps)

lemma last_n_last_n: "m \<le> n \<Longrightarrow> last_n m (last_n n xs) = last_n m xs"
  by (cases "length xs \<le> n") (simp_all add: last_n_def)

lemma last_n_snoc: "0 < n \<Longrightarrow> last_n n (xs @ [x]) = last_n (n - 1) xs @ [x]"
  by (simp add: last_n_append last_n_all)

lemma last_n_last_n_snoc: "last_n n (last_n n xs @ [x]) = last_n n (xs @ [x])"
  by (cases "n = 0") (simp_all add: last_n_snoc last_n_last_n last_n_def [of 0])

text \<open>A list in order, cut: what is missing ranks no lower than anything that is there.\<close>

lemma cut_sorted:
  assumes "x \<in> set xs" "x \<notin> set (take n (sort_key k xs))" "y \<in> set (take n (sort_key k xs))"
  shows "k y \<le> k x \<and> length (take n (sort_key k xs)) = n"
proof -
  let ?s = "sort_key k xs"
  have "x \<in> set (drop n ?s)"
    using assms(1,2) by (metis append_take_drop_id set_append set_sort Un_iff)
  moreover have "sorted (map k (take n ?s) @ map k (drop n ?s))"
    unfolding map_append [symmetric] append_take_drop_id by simp
  ultimately show ?thesis
    using assms(3) by (auto simp: sorted_append min_def)
qed

text \<open>Wrapping twice is wrapping once.\<close>

lemma wrap_int_add: "wrap_int w (wrap_int w a + b) = wrap_int w (a + b)"
proof -
  have "((a + 2 ^ (w - 1)) mod 2 ^ w - 2 ^ (w - 1) + b + 2 ^ (w - 1)) mod 2 ^ w
      = ((a + 2 ^ (w - 1)) mod 2 ^ w + b) mod 2 ^ w" by simp
  also have "\<dots> = (a + 2 ^ (w - 1) + b) mod 2 ^ w" by (rule mod_add_left_eq)
  finally show ?thesis by (simp add: wrap_int_def algebra_simps)
qed

lemma wrap_int_add_right: "wrap_int w (a + wrap_int w b) = wrap_int w (a + b)"
  using wrap_int_add [of w b a] by (simp add: add.commute)

end
