(* ===== verification/Dbus_Wire.thy ===== *)
theory Dbus_Wire
  imports Prelude
begin

text \<open>
  The D-Bus wire format (\<^verbatim>\<open>internal/dbus/wire.go\<close>): the encoder, the bounds-checked decoder, \<open>skip\<close>,
  which walks past a value of which only the signature is known, and \<open>after_one\<close>, which finds the end
  of one complete type in a signature. The width \<open>w\<close> of the platform's \<^verbatim>\<open>int\<close> is a parameter, because a
  length read off the wire is a \<^verbatim>\<open>uint32\<close> converted to it.
\<close>

section \<open>Alignment\<close>

definition align :: "int \<Rightarrow> int \<Rightarrow> int" where
  "align offset boundary =
     (let rem = offset mod boundary in if rem \<noteq> 0 then offset + boundary - rem else offset)"

definition alignment_of :: "char \<Rightarrow> int" where
  "alignment_of sig =
     (if sig \<in> set ''ygv'' then 1
      else if sig \<in> set ''nq'' then 2
      else if sig \<in> set ''biusoa'' then 4
      else if sig \<in> set ''xtd({'' then 8
      else 1)"

section \<open>The encoder\<close>

text \<open>The encoder's whole state is the bytes written so far.\<close>

definition enc_pad :: "int \<Rightarrow> string \<Rightarrow> string" where
  "enc_pad boundary ebuf =
     ebuf @ replicate (nat (align (int (length ebuf)) boundary) - length ebuf) (byte 0)"

definition enc_byte :: "char \<Rightarrow> string \<Rightarrow> string" where
  "enc_byte v ebuf = ebuf @ [v]"

definition enc_uint32 :: "32 word \<Rightarrow> string \<Rightarrow> string" where
  "enc_uint32 v ebuf = enc_pad 4 ebuf @ le_bytes 4 (unat v)"

definition enc_str :: "string \<Rightarrow> string \<Rightarrow> string" where
  "enc_str v ebuf = enc_uint32 (word_of_nat (length v)) ebuf @ v @ [byte 0]"

definition enc_signature :: "string \<Rightarrow> string \<Rightarrow> string" where
  "enc_signature v ebuf = ebuf @ [byte (length v)] @ v @ [byte 0]"

section \<open>The decoder\<close>

datatype derr =
    EndedEarly int int int
  | EndedInPadding int
  | ArrayOfNothing string
  | ArrayTooLong int
  | CannotAdvance string
  | UnsupportedType char

record decoder =
  buf :: string
  pos :: int
  err :: "derr option"

definition new_decoder :: "string \<Rightarrow> decoder" where
  "new_decoder b = \<lparr>buf = b, pos = 0, err = None\<rparr>"

definition fail :: "derr \<Rightarrow> decoder \<Rightarrow> decoder" where
  "fail e d = (if err d = None then d\<lparr>err := Some e\<rparr> else d)"

definition need :: "nat \<Rightarrow> int \<Rightarrow> decoder \<Rightarrow> bool \<times> decoder" where
  "need w n d =
     (if err d \<noteq> None then (False, d)
      else if int (length (buf d)) < wrap_int w (pos d + n)
      then (False, fail (EndedEarly n (pos d) (int (length (buf d)))) d)
      else (True, d))"

definition dec_pad :: "int \<Rightarrow> decoder \<Rightarrow> decoder" where
  "dec_pad boundary d =
     (let nxt = align (pos d) boundary
      in if int (length (buf d)) < nxt then fail (EndedInPadding (pos d)) d
         else d\<lparr>pos := nxt\<rparr>)"

definition dec_byte :: "nat \<Rightarrow> decoder \<Rightarrow> char \<times> decoder" where
  "dec_byte w d =
     (let (ok, d) = need w 1 d
      in if \<not> ok then (byte 0, d)
         else (buf d ! nat (pos d), d\<lparr>pos := pos d + 1\<rparr>))"

definition dec_uint32 :: "nat \<Rightarrow> decoder \<Rightarrow> 32 word \<times> decoder" where
  "dec_uint32 w d =
     (let (ok, d) = need w 4 (dec_pad 4 d)
      in if \<not> ok then (0, d)
         else (word_of_nat (le_nat (take 4 (drop (nat (pos d)) (buf d)))), d\<lparr>pos := pos d + 4\<rparr>))"

definition dec_uint64 :: "nat \<Rightarrow> decoder \<Rightarrow> 64 word \<times> decoder" where
  "dec_uint64 w d =
     (let (ok, d) = need w 8 (dec_pad 8 d)
      in if \<not> ok then (0, d)
         else (word_of_nat (le_nat (take 8 (drop (nat (pos d)) (buf d)))), d\<lparr>pos := pos d + 8\<rparr>))"

text \<open>A run of \<open>n\<close> bytes and the NUL after it; the slice panics when \<open>n\<close> is not a length.\<close>

definition dec_run :: "nat \<Rightarrow> int \<Rightarrow> decoder \<Rightarrow> (string \<times> decoder) outcome" where
  "dec_run w n d =
     (let (ok, d) = need w (wrap_int w (n + 1)) d
      in if \<not> ok then Returns ([], d)
         else and_then (go_slice (buf d) (pos d) (wrap_int w (pos d + n)))
                (\<lambda>v. Returns (v, d\<lparr>pos := pos d + (n + 1)\<rparr>)))"

definition dec_str :: "nat \<Rightarrow> decoder \<Rightarrow> (string \<times> decoder) outcome" where
  "dec_str w d = (let (n, d) = dec_uint32 w d in dec_run w (wrap_int w (uint n)) d)"

definition dec_signature :: "nat \<Rightarrow> decoder \<Rightarrow> (string \<times> decoder) outcome" where
  "dec_signature w d = (let (n, d) = dec_byte w d in dec_run w (int (byte_val n)) d)"

section \<open>Signatures\<close>

fun after_close :: "char \<Rightarrow> int \<Rightarrow> string \<Rightarrow> string" where
  "after_close closing depth [] = []"
| "after_close closing depth (c # s) =
     (if c \<in> set ''({'' then after_close closing (depth + 1) s
      else if c \<in> set '')}''
      then (if depth - 1 = 0 \<and> c = closing then s else after_close closing (depth - 1) s)
      else after_close closing depth s)"

fun after_one :: "string \<Rightarrow> string" where
  "after_one [] = []"
| "after_one (c # s) =
     (if c = CHR ''a'' then after_one s
      else if c \<in> set ''({''
      then after_close (if c = CHR ''{'' then CHR ''}'' else CHR '')'') 0 (c # s)
      else s)"

section \<open>skip\<close>

text \<open>
  \<open>skip w fuel sig d\<close> is \<^verbatim>\<open>d.skip(sig)\<close>: the rest of the signature and the decoder past one value. Its
  two loops, over an array's elements and over a struct's fields, are \<open>skip_elems\<close> and \<open>skip_fields\<close>.
  The three share the fuel; the loop over elements has no bound of its own in the code. The bodies
  take the recursive calls as arguments, and \<open>skip\<close> ties the knot below.
\<close>

definition skip_body ::
  "nat \<Rightarrow> (string \<Rightarrow> decoder \<Rightarrow> (string \<times> decoder) outcome)
   \<Rightarrow> (string \<Rightarrow> int \<Rightarrow> decoder \<Rightarrow> decoder outcome)
   \<Rightarrow> (string \<Rightarrow> decoder \<Rightarrow> (string \<times> decoder) outcome)
   \<Rightarrow> string \<Rightarrow> decoder \<Rightarrow> (string \<times> decoder) outcome" where
  "skip_body w rec_skip rec_elems rec_fields sig d =
     (if err d \<noteq> None \<or> sig = [] then Returns ([], d)
      else
       (let c = hd sig; rest = tl sig in
        if c = CHR ''y'' then Returns (rest, snd (dec_byte w d))
        else if c \<in> set ''biu'' then Returns (rest, snd (dec_uint32 w d))
        else if c \<in> set ''xtd'' then Returns (rest, snd (dec_uint64 w d))
        else if c \<in> set ''so'' then and_then (dec_str w d) (\<lambda>(_, d). Returns (rest, d))
        else if c = CHR ''g'' then and_then (dec_signature w d) (\<lambda>(_, d). Returns (rest, d))
        else if c = CHR ''v'' then
          and_then (dec_signature w d) (\<lambda>(inner, d).
          and_then (rec_skip inner d) (\<lambda>(_, d). Returns (rest, d)))
        else if c = CHR ''a'' then
          (if rest = [] then Returns ([], fail (ArrayOfNothing sig) d)
           else
            (let (v, d) = dec_uint32 w d; n = wrap_int w (uint v) in
             if n < 0 \<or> int (length (buf d)) < n then Returns ([], fail (ArrayTooLong n) d)
             else
              (let d = dec_pad (alignment_of (hd rest)) d; end_pos = pos d + n in
               and_then (rec_elems rest end_pos d) (\<lambda>d.
               Returns (after_one rest, d\<lparr>pos := end_pos\<rparr>)))))
        else if c = CHR ''('' then rec_fields rest (dec_pad 8 d)
        else Returns ([], fail (UnsupportedType c) d)))"

definition skip_elems_body ::
  "(string \<Rightarrow> decoder \<Rightarrow> (string \<times> decoder) outcome)
   \<Rightarrow> (string \<Rightarrow> int \<Rightarrow> decoder \<Rightarrow> decoder outcome)
   \<Rightarrow> string \<Rightarrow> int \<Rightarrow> decoder \<Rightarrow> decoder outcome" where
  "skip_elems_body rec_skip rec_elems rest end_pos d =
     (if pos d < end_pos \<and> err d = None
      then and_then (rec_skip rest d) (\<lambda>(_, d). rec_elems rest end_pos d)
      else Returns d)"

definition skip_fields_body ::
  "(string \<Rightarrow> decoder \<Rightarrow> (string \<times> decoder) outcome)
   \<Rightarrow> (string \<Rightarrow> decoder \<Rightarrow> (string \<times> decoder) outcome)
   \<Rightarrow> string \<Rightarrow> decoder \<Rightarrow> (string \<times> decoder) outcome" where
  "skip_fields_body rec_skip rec_fields rest d =
     (if rest \<noteq> [] \<and> hd rest \<noteq> CHR '')'' \<and> err d = None
      then and_then (rec_skip rest d) (\<lambda>(rest', d).
           if rest' = rest then Returns ([], fail (CannotAdvance rest') d)
           else rec_fields rest' d)
      else Returns (trim_prefix rest '')'', d))"

fun skip :: "nat \<Rightarrow> nat \<Rightarrow> string \<Rightarrow> decoder \<Rightarrow> (string \<times> decoder) outcome"
and skip_elems :: "nat \<Rightarrow> nat \<Rightarrow> string \<Rightarrow> int \<Rightarrow> decoder \<Rightarrow> decoder outcome"
and skip_fields :: "nat \<Rightarrow> nat \<Rightarrow> string \<Rightarrow> decoder \<Rightarrow> (string \<times> decoder) outcome" where
  "skip w 0 sig d = Diverges"
| "skip w (Suc f) sig d = skip_body w (skip w f) (skip_elems w f) (skip_fields w f) sig d"
| "skip_elems w 0 rest end_pos d = Diverges"
| "skip_elems w (Suc f) rest end_pos d = skip_elems_body (skip w f) (skip_elems w f) rest end_pos d"
| "skip_fields w 0 rest d = Diverges"
| "skip_fields w (Suc f) rest d = skip_fields_body (skip w f) (skip_fields w f) rest d"

section \<open>Message sizes\<close>

definition max_message :: nat where
  "max_message = 16 * 2 ^ 20"

definition checked_len :: "32 word \<Rightarrow> int option" where
  "checked_len v =
     (if max_message < unat v \<or> 2147483647 < unat v then None else Some (uint v))"

end
