(* ===== verification/Dbus_Values.thy ===== *)
theory Dbus_Values
  imports Dbus_Wire
begin

text \<open>
  What the wire format means: D-Bus types and values, and their encoding as the specification gives
  it, padding included, for a value that starts at an absolute position of the message. The decoder
  of \<^verbatim>\<open>internal/dbus/wire.go\<close> is proved against it: \<open>skip\<close> walks past exactly one encoded value.
\<close>

section \<open>Types and values\<close>

datatype dtype = TBasic char | TArray dtype | TStruct "dtype list"

fun sig_of :: "dtype \<Rightarrow> string" and sigs_of :: "dtype list \<Rightarrow> string" where
  "sig_of (TBasic c) = [c]"
| "sig_of (TArray t) = CHR ''a'' # sig_of t"
| "sig_of (TStruct ts) = CHR ''('' # sigs_of ts @ '')''"
| "sigs_of [] = []"
| "sigs_of (t # ts) = sig_of t @ sigs_of ts"

fun wf_type :: "dtype \<Rightarrow> bool" and wf_types :: "dtype list \<Rightarrow> bool" where
  "wf_type (TBasic c) = (c \<in> set ''ybiuxtdsogv'')"
| "wf_type (TArray t) = wf_type t"
| "wf_type (TStruct ts) = (ts \<noteq> [] \<and> wf_types ts)"
| "wf_types [] = True"
| "wf_types (t # ts) = (wf_type t \<and> wf_types ts)"

datatype dval =
    VByte char
  | V32 char "32 word"
  | V64 char "64 word"
  | VStr char string
  | VSig string
  | VVariant dval
  | VArray dtype "dval list"
  | VStruct "dval list"

fun type_of :: "dval \<Rightarrow> dtype" and types_of :: "dval list \<Rightarrow> dtype list" where
  "type_of (VByte c) = TBasic (CHR ''y'')"
| "type_of (V32 k x) = TBasic k"
| "type_of (V64 k x) = TBasic k"
| "type_of (VStr k s) = TBasic k"
| "type_of (VSig s) = TBasic (CHR ''g'')"
| "type_of (VVariant v) = TBasic (CHR ''v'')"
| "type_of (VArray t vs) = TArray t"
| "type_of (VStruct vs) = TStruct (types_of vs)"
| "types_of [] = []"
| "types_of (v # vs) = type_of v # types_of vs"

fun wf_val :: "dval \<Rightarrow> bool" and wf_vals :: "dval list \<Rightarrow> bool" where
  "wf_val (VByte c) = True"
| "wf_val (V32 k x) = (k \<in> set ''biu'')"
| "wf_val (V64 k x) = (k \<in> set ''xtd'')"
| "wf_val (VStr k s) = (k \<in> set ''so'')"
| "wf_val (VSig s) = (length s < 256)"
| "wf_val (VVariant v) = (wf_val v \<and> length (sig_of (type_of v)) < 256)"
| "wf_val (VArray t vs) = (wf_type t \<and> wf_vals vs \<and> (\<forall>t' \<in> set (types_of vs). t' = t))"
| "wf_val (VStruct vs) = (vs \<noteq> [] \<and> wf_vals vs)"
| "wf_vals [] = True"
| "wf_vals (v # vs) = (wf_val v \<and> wf_vals vs)"

lemma wf_val_type:
  "wf_val v \<Longrightarrow> wf_type (type_of v)"
  "wf_vals vs \<Longrightarrow> wf_types (types_of vs)"
  by (induction v and vs rule: type_of_types_of.induct) (auto simp: neq_Nil_conv)

section \<open>The encoding\<close>

definition pad_len :: "nat \<Rightarrow> int \<Rightarrow> nat" where
  "pad_len p b = nat (align (int p) b) - p"

definition padding :: "nat \<Rightarrow> int \<Rightarrow> string" where
  "padding p b = replicate (pad_len p b) (byte 0)"

fun enc_val :: "nat \<Rightarrow> dval \<Rightarrow> string" and enc_vals :: "nat \<Rightarrow> dval list \<Rightarrow> string" where
  "enc_val p (VByte c) = [c]"
| "enc_val p (V32 k x) = padding p 4 @ le_bytes 4 (unat x)"
| "enc_val p (V64 k x) = padding p 8 @ le_bytes 8 (unat x)"
| "enc_val p (VStr k s) = padding p 4 @ le_bytes 4 (length s) @ s @ [byte 0]"
| "enc_val p (VSig s) = [byte (length s)] @ s @ [byte 0]"
| "enc_val p (VVariant v) =
     (let sg = sig_of (type_of v)
      in [byte (length sg)] @ sg @ [byte 0] @ enc_val (p + length sg + 2) v)"
| "enc_val p (VArray t vs) =
     (let p4 = p + pad_len p 4 + 4;
          al = alignment_of (hd (sig_of t));
          body = enc_vals (p4 + pad_len p4 al) vs
      in padding p 4 @ le_bytes 4 (length body) @ padding p4 al @ body)"
| "enc_val p (VStruct vs) = padding p 8 @ enc_vals (p + pad_len p 8) vs"
| "enc_vals p [] = []"
| "enc_vals p (v # vs) = (let e = enc_val p v in e @ enc_vals (p + length e) vs)"

text \<open>Fuel that is enough to skip a value: its depth of nesting plus the lengths of its lists.\<close>

fun cost :: "dval \<Rightarrow> nat" and costs :: "dval list \<Rightarrow> nat" where
  "cost (VVariant v) = Suc (cost v)"
| "cost (VArray t vs) = Suc (costs vs)"
| "cost (VStruct vs) = Suc (costs vs)"
| "cost (VByte c) = 1"
| "cost (V32 k x) = 1"
| "cost (V64 k x) = 1"
| "cost (VStr k s) = 1"
| "cost (VSig s) = 1"
| "costs [] = 1"
| "costs (v # vs) = Suc (max (cost v) (costs vs))"

section \<open>Signatures\<close>

lemma sig_of_not_Nil [simp]: "sig_of t \<noteq> []"
  by (cases t) simp_all

lemma after_close_sig:
  "wf_type t \<Longrightarrow> 1 \<le> k \<Longrightarrow> after_close c k (sig_of t @ r) = after_close c k r"
  "wf_types ts \<Longrightarrow> 1 \<le> k \<Longrightarrow> after_close c k (sigs_of ts @ r) = after_close c k r"
  by (induction t and ts arbitrary: k r and k r rule: sig_of_sigs_of.induct) auto

lemma after_one_sig: "wf_type t \<Longrightarrow> after_one (sig_of t @ r) = r"
proof (induction t)
  case (TStruct ts)
  then show ?case by (simp add: after_close_sig)
qed auto

section \<open>Reading\<close>

text \<open>\<open>reads d xs\<close>: the decoder has not failed and the bytes at its position are \<open>xs\<close>.\<close>

definition reads :: "decoder \<Rightarrow> string \<Rightarrow> bool" where
  "reads d xs \<longleftrightarrow> err d = None \<and> 0 \<le> pos d \<and> pos d \<le> int (length (buf d))
     \<and> has_prefix (drop (nat (pos d)) (buf d)) xs"

definition advance :: "decoder \<Rightarrow> nat \<Rightarrow> decoder" where
  "advance d n = d\<lparr>pos := pos d + int n\<rparr>"

definition small :: "decoder \<Rightarrow> bool" where
  "small d \<longleftrightarrow> length (buf d) \<le> max_message"

lemma advance_simps [simp]:
  "buf (advance d n) = buf d" "err (advance d n) = err d" "pos (advance d n) = pos d + int n"
  "advance (advance d m) n = advance d (m + n)" "advance d 0 = d" "small (advance d n) = small d"
  by (simp_all add: advance_def small_def)

lemma reads_length: "reads d xs \<Longrightarrow> pos d + int (length xs) \<le> int (length (buf d))"
  by (auto simp: reads_def has_prefix_iff dest!: arg_cong [where f = length])

lemma reads_append:
  assumes "reads d (xs @ ys)"
  shows "reads d xs \<and> reads (advance d (length xs)) ys"
proof -
  from assms obtain zs where z: "drop (nat (pos d)) (buf d) = (xs @ ys) @ zs"
    and p: "0 \<le> pos d" and e: "err d = None"
    by (auto simp: reads_def has_prefix_iff)
  have "drop (nat (pos d + int (length xs))) (buf d) = drop (length xs) (drop (nat (pos d)) (buf d))"
    using p by (simp add: nat_add_distrib add.commute)
  then have "drop (nat (pos d + int (length xs))) (buf d) = ys @ zs"
    using z by simp
  moreover have "pos d + int (length (xs @ ys)) \<le> int (length (buf d))"
    using assms by (rule reads_length)
  ultimately show ?thesis
    using z p e unfolding reads_def has_prefix_iff by auto
qed

lemma reads_take: "reads d (xs @ ys) \<Longrightarrow> take (length xs) (drop (nat (pos d)) (buf d)) = xs"
  by (auto simp: reads_def has_prefix_iff)

lemma need_reads:
  assumes "reads d xs" "small d" "32 \<le> w" "0 \<le> n" "n \<le> int (length xs)"
  shows "need w n d = (True, d)"
proof -
  have b: "pos d + int (length xs) \<le> int (length (buf d))"
    using assms(1) by (rule reads_length)
  have "(2::int) ^ 31 \<le> 2 ^ (w - 1)"
    using assms(3) by (intro power_increasing) auto
  then have "wrap_int w (pos d + n) = pos d + n"
    using assms b by (intro wrap_int_id) (auto simp: reads_def small_def max_message_def)
  then show ?thesis
    using assms b by (auto simp: need_def reads_def)
qed

end
