(* ===== verification/Dbus_Conn.thy ===== *)
theory Dbus_Conn
  imports Dbus_Skip
begin

text \<open>
  The connection to the bus (\<^verbatim>\<open>internal/dbus/conn.go\<close>): the handshake, a method call's message, and the
  loop that reads messages until the one answering our serial arrives. The transport is the bytes
  sent so far, the bytes still to be read, and how many more writes succeed; reading past the last
  byte is the error the code reports for a closed or timed-out socket.
\<close>

section \<open>Header fields of a reply\<close>

abbreviation (input) "field_path \<equiv> (1::nat)"
abbreviation (input) "field_interface \<equiv> (2::nat)"
abbreviation (input) "field_member \<equiv> (3::nat)"
abbreviation (input) "field_error_name \<equiv> (4::nat)"
abbreviation (input) "field_reply_serial \<equiv> (5::nat)"
abbreviation (input) "field_destination \<equiv> (6::nat)"
abbreviation (input) "field_signature \<equiv> (8::nat)"

abbreviation (input) "msg_method_call \<equiv> (1::nat)"
abbreviation (input) "msg_method_return \<equiv> (2::nat)"
abbreviation (input) "msg_error \<equiv> (3::nat)"

record reply_fields =
  reply_serial :: "32 word"
  reply_sig :: string
  err_name :: string

definition no_fields :: reply_fields where
  "no_fields = \<lparr>reply_serial = 0, reply_sig = [], err_name = []\<rparr>"

text \<open>One field: its code, its type, and the value the code asks for or \<open>skip\<close> walks past.\<close>

definition parse_field ::
  "nat \<Rightarrow> nat \<Rightarrow> decoder \<Rightarrow> reply_fields \<Rightarrow> (decoder \<times> reply_fields) outcome" where
  "parse_field w f d acc =
     (let (code, d) = dec_byte w d in
      and_then (dec_signature w d) (\<lambda>(typ, d).
        if byte_val code = field_reply_serial
        then (let (v, d) = dec_uint32 w d in Returns (d, acc\<lparr>reply_serial := v\<rparr>))
        else if byte_val code = field_signature
        then and_then (dec_signature w d) (\<lambda>(v, d). Returns (d, acc\<lparr>reply_sig := v\<rparr>))
        else if byte_val code = field_error_name
        then and_then (dec_str w d) (\<lambda>(v, d). Returns (d, acc\<lparr>err_name := v\<rparr>))
        else and_then (skip w f typ d) (\<lambda>(_, d). Returns (d, acc))))"

fun parse_loop :: "nat \<Rightarrow> nat \<Rightarrow> decoder \<Rightarrow> reply_fields \<Rightarrow> reply_fields outcome" where
  "parse_loop w 0 d acc = Diverges"
| "parse_loop w (Suc f) d acc =
     (if pos d < int (length (buf d)) \<and> err d = None
      then (let d = dec_pad 8 d in
            if int (length (buf d)) \<le> pos d then Returns acc
            else and_then (parse_field w f d acc) (\<lambda>(d, acc). parse_loop w f d acc))
      else Returns acc)"

definition parse_fields :: "nat \<Rightarrow> nat \<Rightarrow> string \<Rightarrow> reply_fields outcome" where
  "parse_fields w f b =
     and_then (parse_loop w f (new_decoder b) no_fields) (\<lambda>acc.
     Returns (if err_name acc = [] then acc\<lparr>err_name := ''the system bus returned an error''\<rparr> else acc))"

section \<open>The connection\<close>

datatype call_err =
    WriteFailed
  | NoReply
  | BigEndian
  | TooLarge
  | TruncatedHeader
  | TruncatedPadding
  | TruncatedBody
  | BusError string string
  | NothingAnswering
  | HandshakeClosed
  | Refused string
  | WrongSignature string
  | WrongType string
  | NotABoolean "32 word"
  | ArrayClaims int
  | DecodeFailed derr

record conn =
  sent :: string
  input :: string
  serial :: "32 word"
  writes_left :: nat

definition conn_write :: "string \<Rightarrow> conn \<Rightarrow> conn option" where
  "conn_write b c =
     (if writes_left c = 0 then None
      else Some (c\<lparr>sent := sent c @ b, writes_left := writes_left c - 1\<rparr>))"

text \<open>\<^verbatim>\<open>io.ReadFull\<close>: exactly \<open>n\<close> bytes, or an error.\<close>

definition read_full :: "nat \<Rightarrow> string \<Rightarrow> (string \<times> string) option" where
  "read_full n inp = (if n \<le> length inp then Some (take n inp, drop n inp) else None)"

text \<open>
  One turn of the loop of \<^verbatim>\<open>readReply\<close>: \<open>Inr None\<close> is somebody else's message, which has been consumed.
\<close>

type_synonym reply = "string \<times> string"

definition read_message ::
  "nat \<Rightarrow> nat \<Rightarrow> 32 word \<Rightarrow> string \<Rightarrow> ((call_err + reply option) \<times> string) outcome" where
  "read_message w f ser inp =
     (case read_full 16 inp of None \<Rightarrow> Returns (Inl NoReply, inp)
      | Some (head, inp) \<Rightarrow>
     (let (endian, d) = dec_byte w (new_decoder head) in
      if endian \<noteq> CHR ''l'' then Returns (Inl BigEndian, inp)
      else
     (let (mtype, d) = dec_byte w d; (flags, d) = dec_byte w d; (version, d) = dec_byte w d;
          (blen, d) = dec_uint32 w d in
      case checked_len blen of None \<Rightarrow> Returns (Inl TooLarge, inp)
      | Some body_len \<Rightarrow>
     (let (own_serial, d) = dec_uint32 w d; (flen, d) = dec_uint32 w d in
      case checked_len flen of None \<Rightarrow> Returns (Inl TooLarge, inp)
      | Some fields_len \<Rightarrow>
     (case read_full (nat fields_len) inp of None \<Rightarrow> Returns (Inl TruncatedHeader, inp)
      | Some (flds, inp) \<Rightarrow>
     (case read_full (nat (align (16 + fields_len) 8 - (16 + fields_len))) inp of
        None \<Rightarrow> Returns (Inl TruncatedPadding, inp)
      | Some (_, inp) \<Rightarrow>
     (case read_full (nat body_len) inp of None \<Rightarrow> Returns (Inl TruncatedBody, inp)
      | Some (body, inp) \<Rightarrow>
      and_then (parse_fields w f flds) (\<lambda>r.
        if byte_val mtype = msg_error \<and> reply_serial r = ser
        then (if has_prefix (reply_sig r) ''s''
              then and_then (dec_str w (new_decoder body)) (\<lambda>(detail, _).
                   Returns (Inl (BusError (err_name r) detail), inp))
              else Returns (Inl (BusError (err_name r) []), inp))
        else if byte_val mtype = msg_method_return \<and> reply_serial r = ser
        then Returns (Inr (Some (body, reply_sig r)), inp)
        else Returns (Inr None, inp)))))))))"

fun read_reply ::
  "nat \<Rightarrow> nat \<Rightarrow> nat \<Rightarrow> 32 word \<Rightarrow> string \<Rightarrow> ((call_err + reply) \<times> string) outcome" where
  "read_reply w f 0 ser inp = Returns (Inl NothingAnswering, inp)"
| "read_reply w f (Suc attempts) ser inp =
     and_then (read_message w f ser inp) (\<lambda>(r, inp).
       case r of Inl e \<Rightarrow> Returns (Inl e, inp)
       | Inr (Some m) \<Rightarrow> Returns (Inr m, inp)
       | Inr None \<Rightarrow> read_reply w f attempts ser inp)"

abbreviation (input) "reply_attempts \<equiv> (16::nat)"

definition append_field :: "nat \<Rightarrow> char \<Rightarrow> string \<Rightarrow> string \<Rightarrow> string" where
  "append_field code typ v e =
     (let e = enc_signature [typ] (enc_byte (byte code) (enc_pad 8 e))
      in if typ = CHR ''g'' then enc_signature v e else enc_str v e)"

definition call_message ::
  "32 word \<Rightarrow> string \<Rightarrow> string \<Rightarrow> string \<Rightarrow> string \<Rightarrow> string \<Rightarrow> string list \<Rightarrow> string" where
  "call_message ser destination path iface mem sg args =
     (let body = fold enc_str args [];
          msg = enc_uint32 ser (enc_uint32 (word_of_nat (length body))
                  [CHR ''l'', byte msg_method_call, byte 0, byte 1]);
          flds = append_field field_member CHR ''s'' mem
                    (append_field field_interface CHR ''s'' iface
                    (append_field field_destination CHR ''s'' destination
                    (append_field field_path CHR ''o'' path [])));
          flds = (if sg \<noteq> [] then append_field field_signature CHR ''g'' sg flds else flds)
      in enc_pad 8 (enc_uint32 (word_of_nat (length flds)) msg @ flds) @ body)"

definition call ::
  "nat \<Rightarrow> nat \<Rightarrow> conn \<Rightarrow> string \<Rightarrow> string \<Rightarrow> string \<Rightarrow> string \<Rightarrow> string \<Rightarrow> string list
   \<Rightarrow> ((call_err + reply) \<times> conn) outcome" where
  "call w f c destination path iface mem sg args =
     (let c = c\<lparr>serial := serial c + 1\<rparr> in
      case conn_write (call_message (serial c) destination path iface mem sg args) c of
        None \<Rightarrow> Returns (Inl WriteFailed, c)
      | Some c \<Rightarrow> and_then (read_reply w f reply_attempts (serial c) (input c)) (\<lambda>(r, inp).
                  Returns (r, c\<lparr>input := inp\<rparr>)))"

section \<open>The handshake\<close>

definition hex_digits :: string where
  "hex_digits = ''0123456789abcdef''"

definition hex_of :: "string \<Rightarrow> string" where
  "hex_of s = concat (map (\<lambda>c. [hex_digits ! (byte_val c div 16), hex_digits ! (byte_val c mod 16)]) s)"

definition crlf :: string where
  "crlf = [byte 13, byte 10]"

definition read_line :: "conn \<Rightarrow> (string \<times> conn) option" where
  "read_line c =
     (case index_byte (input c) (byte 10) of None \<Rightarrow> None
      | Some i \<Rightarrow> Some (take (Suc i) (input c), c\<lparr>input := drop (Suc i) (input c)\<rparr>))"

definition handshake :: "nat \<Rightarrow> nat \<Rightarrow> string \<Rightarrow> conn \<Rightarrow> ((call_err + unit) \<times> conn) outcome" where
  "handshake w f uid c =
     (case conn_write [byte 0] c of None \<Rightarrow> Returns (Inl WriteFailed, c)
      | Some c \<Rightarrow>
     (case conn_write (''AUTH EXTERNAL '' @ hex_of uid @ crlf) c of None \<Rightarrow> Returns (Inl WriteFailed, c)
      | Some c \<Rightarrow>
     (case read_line c of None \<Rightarrow> Returns (Inl HandshakeClosed, c)
      | Some (line, c) \<Rightarrow>
      if \<not> has_prefix line ''OK '' then Returns (Inl (Refused (trim_space line)), c)
      else
     (case conn_write (''BEGIN'' @ crlf) c of None \<Rightarrow> Returns (Inl WriteFailed, c)
      | Some c \<Rightarrow>
      and_then (call w f c ''org.freedesktop.DBus'' ''/org/freedesktop/DBus''
                  ''org.freedesktop.DBus'' ''Hello'' [] []) (\<lambda>(r, c).
        Returns (case r of Inl e \<Rightarrow> Inl e | Inr _ \<Rightarrow> Inr (), c))))))"

end
