(* ===== verification/Dbus_Reply.thy ===== *)
theory Dbus_Reply
  imports Dbus_Conn
begin

text \<open>
  What a reply means, and that the reader finds it: header fields encoded as the specification says
  are read back, a method call is encoded as a message of the specification, and \<open>read_reply\<close> returns
  the body and signature of the message that answers our serial, whatever other messages come first.
\<close>

section \<open>Header fields\<close>

definition field_val :: "nat \<times> dval \<Rightarrow> dval" where
  "field_val h = VStruct [VByte (byte (fst h)), VVariant (snd h)]"

definition enc_fields :: "(nat \<times> dval) list \<Rightarrow> string" where
  "enc_fields hs = enc_vals 0 (map field_val hs)"

fun apply_field :: "nat \<times> dval \<Rightarrow> reply_fields \<Rightarrow> reply_fields" where
  "apply_field (c, V32 k x) r = (if c = field_reply_serial then r\<lparr>reply_serial := x\<rparr> else r)"
| "apply_field (c, VSig s) r = (if c = field_signature then r\<lparr>reply_sig := s\<rparr> else r)"
| "apply_field (c, VStr k s) r = (if c = field_error_name then r\<lparr>err_name := s\<rparr> else r)"
| "apply_field (c, v) r = r"

text \<open>A field of the three codes the reader uses has the type the specification gives it.\<close>

fun wf_field :: "nat \<times> dval \<Rightarrow> bool" where
  "wf_field (c, v) = (c < 256 \<and> wf_val v \<and> length (sig_of (type_of v)) < 256
     \<and> (c = field_reply_serial \<longrightarrow> (case v of V32 k x \<Rightarrow> True | _ \<Rightarrow> False))
     \<and> (c = field_signature \<longrightarrow> (case v of VSig s \<Rightarrow> True | _ \<Rightarrow> False))
     \<and> (c = field_error_name \<longrightarrow> (case v of VStr k s \<Rightarrow> True | _ \<Rightarrow> False)))"

definition fields_of :: "(nat \<times> dval) list \<Rightarrow> reply_fields" where
  "fields_of hs =
     (let r = fold apply_field hs no_fields
      in if err_name r = [] then r\<lparr>err_name := ''the system bus returned an error''\<rparr> else r)"

fun fields_cost :: "(nat \<times> dval) list \<Rightarrow> nat" where
  "fields_cost [] = 1"
| "fields_cost (h # hs) = Suc (max (cost (snd h)) (fields_cost hs))"

lemma apply_field_other:
  "c \<noteq> field_reply_serial \<Longrightarrow> c \<noteq> field_signature \<Longrightarrow> c \<noteq> field_error_name \<Longrightarrow>
     apply_field (c, v) r = r"
  by (cases v) simp_all

text \<open>One field, from the byte of its code to past its value.\<close>

lemma parse_field_reads:
  assumes r: "reads d (byte c # enc_val (nat (pos d) + 1) (VVariant v) @ xs)"
    and sm: "small d" and w: "32 \<le> w" and wf: "wf_field (c, v)" and f: "cost v \<le> f"
  defines "d' \<equiv> advance d (1 + length (enc_val (nat (pos d) + 1) (VVariant v)))"
  shows "parse_field w f d acc = Returns (d', apply_field (c, v) acc) \<and> reads d' xs"
proof -
  let ?sg = "sig_of (type_of v)"
  let ?d1 = "advance d 1" and ?d2 = "advance d (length ?sg + 3)"
  from wf have c: "byte_val (byte c) = c" and sg: "length ?sg < 256" and wv: "wf_val v"
    by (simp_all add: byte_def)
  have p: "0 \<le> pos d" using r by (rule reads_pos)
  have b: "dec_byte w d = (byte c, ?d1)"
    and r1: "reads ?d1 (enc_val (nat (pos d) + 1) (VVariant v) @ xs)"
    using dec_byte_reads [OF r sm w] by simp_all
  have "reads ?d1 ([byte (length ?sg)] @ ?sg @ [byte 0] @ enc_val (nat (pos d) + length ?sg + 3) v @ xs)"
    using r1 by (simp add: Let_def numeral_3_eq_3)
  from dec_signature_reads [OF this _ w sg] sm
  have s: "dec_signature w ?d1 = Returns (?sg, ?d2)"
    and r2: "reads ?d2 (enc_val (nat (pos d) + length ?sg + 3) v @ xs)"
    by (simp_all add: numeral_3_eq_3)
  have p2: "nat (pos ?d2) = nat (pos d) + length ?sg + 3" using p by simp
  have d': "d' = advance ?d2 (length (enc_val (nat (pos d) + length ?sg + 3) v))"
    by (simp add: d'_def Let_def numeral_3_eq_3 add_ac)
  have rd': "reads d' xs" using reads_append [OF r2] d' by simp
  have r2': "reads ?d2 (enc_val (nat (pos ?d2)) v @ xs)" using r2 p2 by simp
  have fin: "advance ?d2 (length (enc_val (nat (pos ?d2)) v)) = d'" using d' p2 by simp
  have "and_then (skip w f ?sg ?d2) (\<lambda>(_, d). Returns (d, acc)) = Returns (d', acc)"
    using skip_enc_val(1) [OF wv r2' _ w f, of "[]"] sm fin by simp
  moreover have "(let (x, d) = dec_uint32 w ?d2 in Returns (d, acc\<lparr>reply_serial := x\<rparr>))
      = Returns (d', acc\<lparr>reply_serial := x\<rparr>)" if "v = V32 k x" for k x
    using dec_uint32_reads [of ?d2 "unat x" xs w] that r2' w sm unat_word_less [of x] fin
    by (auto simp: Let_def)
  moreover have "and_then (dec_signature w ?d2) (\<lambda>(x, d). Returns (d, acc\<lparr>reply_sig := x\<rparr>))
      = Returns (d', acc\<lparr>reply_sig := x\<rparr>)" if "v = VSig x" for x
    using dec_signature_reads [of ?d2 x "byte 0" xs w] that r2' w sm wv fin by simp
  moreover have "and_then (dec_str w ?d2) (\<lambda>(x, d). Returns (d, acc\<lparr>err_name := x\<rparr>))
      = Returns (d', acc\<lparr>err_name := x\<rparr>)" if "v = VStr k x" for k x
    using dec_str_reads [of ?d2 x "byte 0" xs w] that r2' w sm fin by simp
  ultimately show ?thesis
    using wf rd' b s c
    by (auto simp: parse_field_def apply_field_other split: dval.splits)
qed

lemma enc_field_val:
  "enc_val p (field_val (c, v))
   = padding p 8 @ byte c # enc_val (p + pad_len p 8 + 1) (VVariant v)"
  by (simp add: field_val_def Let_def)

lemma parse_loop_reads:
  "reads d (enc_vals (nat (pos d)) (map field_val hs)) \<Longrightarrow>
   pos d + int (length (enc_vals (nat (pos d)) (map field_val hs))) = int (length (buf d)) \<Longrightarrow>
   small d \<Longrightarrow> 32 \<le> w \<Longrightarrow> list_all wf_field hs \<Longrightarrow> fields_cost hs \<le> f \<Longrightarrow>
   parse_loop w f d acc = Returns (fold apply_field hs acc)"
proof (induction hs arbitrary: d f acc)
  case Nil
  then obtain g where "f = Suc g" by (cases f) simp_all
  with Nil show ?case by simp
next
  case (Cons h hs)
  obtain c v where h: "h = (c, v)" by (cases h)
  from Cons.prems(6) obtain g where g: "f = Suc g" "cost v \<le> g" "fields_cost hs \<le> g"
    by (cases f) (auto simp: h)
  let ?p = "nat (pos d)"
  let ?d1 = "advance d (pad_len ?p 8)"
  let ?var = "enc_val (?p + pad_len ?p 8 + 1) (VVariant v)"
  let ?n = "pad_len ?p 8 + (1 + length ?var)"
  let ?tl = "enc_vals (?p + ?n) (map field_val hs)"
  have enc: "enc_vals ?p (map field_val (h # hs)) = padding ?p 8 @ byte c # ?var @ ?tl"
    by (simp add: h enc_field_val Let_def add_ac del: enc_val.simps)
  have p: "0 \<le> pos d" using Cons.prems(1) by (rule reads_pos)
  have pad: "dec_pad 8 d = ?d1" and r1: "reads ?d1 (byte c # ?var @ ?tl)"
    using dec_pad_reads [of d 8 "byte c # ?var @ ?tl"] Cons.prems(1) unfolding enc by simp_all
  have p1: "nat (pos ?d1) = ?p + pad_len ?p 8" using p by simp
  have wf: "wf_field (c, v)" using Cons.prems(5) by (simp add: h)
  let ?d2 = "advance ?d1 (1 + length ?var)"
  have pf: "parse_field w g ?d1 acc = Returns (?d2, apply_field h acc)" and r2: "reads ?d2 ?tl"
    using parse_field_reads [of ?d1 c v ?tl w g acc] r1 p1 Cons.prems(3,4) wf g(2) h
    by (simp_all del: enc_val.simps wf_field.simps)
  have p2: "nat (pos ?d2) = ?p + ?n" using p by simp
  have "pos d + int (length (padding ?p 8 @ byte c # ?var @ ?tl)) = int (length (buf d))"
    using Cons.prems(2) unfolding enc .
  then have len: "pos ?d2 + int (length ?tl) = int (length (buf d))" by simp
  have "parse_loop w g ?d2 (apply_field h acc) = Returns (fold apply_field hs (apply_field h acc))"
    by (rule Cons.IH) (use r2 p2 len Cons.prems(3-5) g(3) in simp_all)
  moreover have "pos ?d1 < int (length (buf d))" "pos d < int (length (buf d))"
    using len by simp_all
  ultimately show ?case
    using pad pf reads_err [OF Cons.prems(1)] by (simp add: g(1) del: enc_val.simps)
qed

lemma reads_new: "reads (new_decoder b) b"
  by (simp add: reads_def new_decoder_def has_prefix_def)

lemma parse_fields_enc:
  assumes "list_all wf_field hs" "length (enc_fields hs) \<le> max_message" "32 \<le> w" "fields_cost hs \<le> f"
  shows "parse_fields w f (enc_fields hs) = Returns (fields_of hs)"
proof -
  let ?d = "new_decoder (enc_fields hs)"
  have "parse_loop w f ?d no_fields = Returns (fold apply_field hs no_fields)"
    by (rule parse_loop_reads)
      (use assms reads_new [of "enc_fields hs"] in \<open>simp_all add: new_decoder_def small_def enc_fields_def\<close>)
  then show ?thesis by (simp add: parse_fields_def fields_of_def Let_def)
qed

section \<open>Messages\<close>

record message =
  m_type :: nat
  m_serial :: "32 word"
  m_fields :: "(nat \<times> dval) list"
  m_body :: string

text \<open>
  A message of the specification: the fixed header, the array of header fields, padding to a multiple
  of eight, the body. The field array starts at byte 16, a multiple of eight, so its own padding is
  counted from its start.
\<close>

definition enc_message :: "message \<Rightarrow> string" where
  "enc_message m =
     (let flds = enc_fields (m_fields m)
      in [CHR ''l'', byte (m_type m), byte 0, byte 1] @ le_bytes 4 (length (m_body m))
         @ le_bytes 4 (unat (m_serial m)) @ le_bytes 4 (length flds) @ flds
         @ padding (16 + length flds) 8 @ m_body m)"

definition wf_message :: "message \<Rightarrow> bool" where
  "wf_message m \<longleftrightarrow> m_type m < 256 \<and> list_all wf_field (m_fields m)
     \<and> length (enc_fields (m_fields m)) \<le> max_message \<and> length (m_body m) \<le> max_message"

text \<open>A message answers a serial when it is a return or an error whose reply serial is that one.\<close>

definition answers :: "32 word \<Rightarrow> message \<Rightarrow> bool" where
  "answers ser m \<longleftrightarrow> (m_type m = msg_method_return \<or> m_type m = msg_error)
     \<and> reply_serial (fields_of (m_fields m)) = ser"

lemma checked_len_word:
  assumes "n \<le> max_message"
  shows "checked_len (word_of_nat n) = Some (int n)"
proof -
  have "n < 2 ^ 32" using assms by (simp add: max_message_def)
  then have "uint (word_of_nat n :: 32 word) = int n" "unat (word_of_nat n :: 32 word) = n"
    by (simp_all add: uint_word_of_nat_32 unat_of_nat)
  then show ?thesis using assms by (simp add: checked_len_def max_message_def)
qed

lemma read_full_append: "length xs = n \<Longrightarrow> read_full n (xs @ ys) = Some (xs, ys)"
  by (auto simp: read_full_def)

text \<open>The sixteen bytes of the fixed header, read as the code reads them.\<close>

lemma head_reads:
  assumes "32 \<le> w" "blen < 2 ^ 32" "flen < 2 ^ 32"
    and hd: "head = [CHR ''l'', t, fl, ver] @ le_bytes 4 blen @ le_bytes 4 ser @ le_bytes 4 flen"
    and "ser < 2 ^ 32"
  obtains d1 d2 d3 d4 d5 d6 d7 where
    "dec_byte w (new_decoder head) = (CHR ''l'', d1)" "dec_byte w d1 = (t, d2)"
    "dec_byte w d2 = (fl, d3)" "dec_byte w d3 = (ver, d4)"
    "dec_uint32 w d4 = (word_of_nat blen, d5)" "dec_uint32 w d5 = (word_of_nat ser, d6)"
    "dec_uint32 w d6 = (word_of_nat flen, d7)"
proof -
  let ?d = "new_decoder head"
  have sm: "small (advance ?d n)" for n
    by (simp add: hd small_def new_decoder_def max_message_def)
  have pos: "pos (advance ?d n) = int n" for n by (simp add: new_decoder_def)
  have pl: "pad_len n 4 = 0" if "n = 4 \<or> n = 8 \<or> n = 12" for n
    using that by (auto simp: pad_len_def align_def)
  have r0: "reads (advance ?d 0) (CHR ''l'' # t # fl # ver # le_bytes 4 blen @ le_bytes 4 ser @ le_bytes 4 flen)"
    using reads_new [of head] by (simp add: hd)
  let ?tl = "le_bytes 4 blen @ le_bytes 4 ser @ le_bytes 4 flen"
  have b0: "dec_byte w ?d = (CHR ''l'', advance ?d 1)" and r1: "reads (advance ?d 1) (t # fl # ver # ?tl)"
    using dec_byte_reads [OF r0 sm assms(1)] by simp_all
  have b1: "dec_byte w (advance ?d 1) = (t, advance ?d 2)" and r2: "reads (advance ?d 2) (fl # ver # ?tl)"
    using dec_byte_reads [OF r1 sm assms(1)] by (simp_all add: numeral_2_eq_2)
  have b2: "dec_byte w (advance ?d 2) = (fl, advance ?d 3)" and r3: "reads (advance ?d 3) (ver # ?tl)"
    using dec_byte_reads [OF r2 sm assms(1)] by (simp_all add: numeral_2_eq_2 numeral_3_eq_3)
  have b3: "dec_byte w (advance ?d 3) = (ver, advance ?d 4)" and r4: "reads (advance ?d 4) ?tl"
    using dec_byte_reads [OF r3 sm assms(1)] by simp_all
  have u4: "dec_uint32 w (advance ?d 4) = (word_of_nat blen, advance ?d 8)"
    and r8: "reads (advance ?d 8) (le_bytes 4 ser @ le_bytes 4 flen)"
    using dec_uint32_reads [of "advance ?d 4" blen] r4 sm assms(1,2) pos pl by (simp_all add: padding_def)
  have u8: "dec_uint32 w (advance ?d 8) = (word_of_nat ser, advance ?d 12)"
    and r12: "reads (advance ?d 12) (le_bytes 4 flen)"
    using dec_uint32_reads [of "advance ?d 8" ser] r8 sm assms(1,5) pos pl by (simp_all add: padding_def)
  have u12: "dec_uint32 w (advance ?d 12) = (word_of_nat flen, advance ?d 16)"
    using dec_uint32_reads [of "advance ?d 12" flen "[]"] r12 sm assms(1,3) pos pl by (simp add: padding_def)
  show ?thesis
    by (rule that [OF b0 b1 b2 b3 u4 u8 u12])
qed

text \<open>What reading one message yields, and that it is consumed whole.\<close>

definition message_result :: "nat \<Rightarrow> 32 word \<Rightarrow> message \<Rightarrow> (call_err + reply option) outcome" where
  "message_result w ser m =
     (let r = fields_of (m_fields m) in
      if m_type m = msg_error \<and> reply_serial r = ser
      then (if has_prefix (reply_sig r) ''s''
            then and_then (dec_str w (new_decoder (m_body m))) (\<lambda>(detail, _). Returns (Inl (BusError (err_name r) detail)))
            else Returns (Inl (BusError (err_name r) [])))
      else if m_type m = msg_method_return \<and> reply_serial r = ser
      then Returns (Inr (Some (m_body m, reply_sig r)))
      else Returns (Inr None))"

lemma read_message_enc:
  assumes wf: "wf_message m" and w: "32 \<le> w" and f: "fields_cost (m_fields m) \<le> f"
  shows "read_message w f ser (enc_message m @ inp)
    = and_then (message_result w ser m) (\<lambda>r. Returns (r, inp))"
proof -
  let ?flds = "enc_fields (m_fields m)" and ?body = "m_body m"
  define head where "head = [CHR ''l'', byte (m_type m), byte 0, byte 1] @ le_bytes 4 (length ?body)
      @ le_bytes 4 (unat (m_serial m)) @ le_bytes 4 (length ?flds)"
  from wf have t: "byte_val (byte (m_type m)) = m_type m" and fl: "length ?flds \<le> max_message"
    and bl: "length ?body \<le> max_message" and wff: "list_all wf_field (m_fields m)"
    by (simp_all add: wf_message_def byte_def)
  have enc: "enc_message m @ inp = head @ ?flds @ padding (16 + length ?flds) 8 @ ?body @ inp"
    by (simp add: enc_message_def head_def Let_def)
  have len: "length head = 16" by (simp add: head_def)
  have "length ?body < 2 ^ 32" "length ?flds < 2 ^ 32" "unat (m_serial m) < 2 ^ 32"
    using fl bl unat_word_less [of "m_serial m"] by (simp_all add: max_message_def)
  from head_reads [OF w this(1,2) head_def this(3)] obtain d1 d2 d3 d4 d5 d6 d7 where
    d: "dec_byte w (new_decoder head) = (CHR ''l'', d1)" "dec_byte w d1 = (byte (m_type m), d2)"
    "dec_byte w d2 = (byte 0, d3)" "dec_byte w d3 = (byte 1, d4)"
    "dec_uint32 w d4 = (word_of_nat (length ?body), d5)" "dec_uint32 w d5 = (word_of_nat (unat (m_serial m)), d6)"
    "dec_uint32 w d6 = (word_of_nat (length ?flds), d7)"
    by metis
  have pad: "nat (align (16 + int (length ?flds)) 8 - (16 + int (length ?flds))) = pad_len (16 + length ?flds) 8"
    using align_pad_len [of 8 "16 + int (length ?flds)"] by (simp add: nat_add_distrib)
  note pf = parse_fields_enc [OF wff fl w f]
  show ?thesis
    unfolding enc read_message_def
    using d len pad t checked_len_word [OF fl] checked_len_word [OF bl] pf
    by (simp add: read_full_append message_result_def Let_def case_prod_unfold
        and_then_def split: outcome.split)
qed

lemma message_result_other: "\<not> answers ser m \<Longrightarrow> message_result w ser m = Returns (Inr None)"
  by (auto simp: message_result_def answers_def Let_def)

lemma message_result_return:
  "m_type m = msg_method_return \<Longrightarrow> reply_serial (fields_of (m_fields m)) = ser \<Longrightarrow>
     message_result w ser m = Returns (Inr (Some (m_body m, reply_sig (fields_of (m_fields m)))))"
  by (simp add: message_result_def Let_def)

lemma read_reply_skips:
  assumes "list_all wf_message ms" "32 \<le> w" "list_all (\<lambda>m. \<not> answers ser m) ms"
    and "list_all (\<lambda>m. fields_cost (m_fields m) \<le> f) ms"
  shows "read_reply w f (length ms + n) ser (concat (map enc_message ms) @ inp) = read_reply w f n ser inp"
  using assms
proof (induction ms)
  case (Cons m ms)
  then show ?case by (simp add: read_message_enc message_result_other)
qed simp

section \<open>A method call is a message of the specification\<close>

lemma enc_pad_padding: "0 < b \<Longrightarrow> enc_pad b e = e @ padding (length e) b"
  by (simp add: enc_pad_def padding_def pad_len_def)

lemma enc_uint32_spec: "enc_uint32 x e = e @ padding (length e) 4 @ le_bytes 4 (unat x)"
  by (simp add: enc_uint32_def enc_pad_padding)

lemma enc_uint32_aligned: "length e mod 4 = 0 \<Longrightarrow> enc_uint32 x e = e @ le_bytes 4 (unat x)"
proof -
  assume "length e mod 4 = 0"
  then have "int (length e) mod 4 = 0" by presburger
  then show ?thesis by (simp add: enc_uint32_spec padding_def pad_len_def align_def)
qed

lemma enc_str_spec: "length v < 2 ^ 32 \<Longrightarrow> enc_str v e = e @ enc_val (length e) (VStr k v)"
  by (simp add: enc_str_def enc_uint32_spec unat_of_nat)

lemma enc_vals_append:
  "enc_vals p (vs @ us) = enc_vals p vs @ enc_vals (p + length (enc_vals p vs)) us"
  by (induction vs arbitrary: p) (simp_all add: Let_def add.assoc)

lemma fold_enc_str:
  "list_all (\<lambda>a. length a < 2 ^ 32) args \<Longrightarrow>
     fold enc_str args e = e @ enc_vals (length e) (map (VStr k) args)"
proof (induction args arbitrary: e)
  case (Cons a args)
  then show ?case
    using enc_str_spec [of a e k] by (simp add: Let_def del: enc_val.simps)
qed simp

lemma append_field_str:
  "length v < 2 ^ 32 \<Longrightarrow> typ \<noteq> CHR ''g'' \<Longrightarrow>
     append_field code typ v e = e @ enc_val (length e) (field_val (code, VStr typ v))"
  by (simp add: append_field_def enc_signature_def enc_byte_def enc_pad_padding enc_field_val
      enc_str_spec [of v _ "typ"] byte_def Let_def add_ac)

lemma append_field_sig:
  "append_field code (CHR ''g'') v e = e @ enc_val (length e) (field_val (code, VSig v))"
  by (simp add: append_field_def enc_signature_def enc_byte_def enc_pad_padding enc_field_val
      byte_def Let_def)

definition call_fields :: "string \<Rightarrow> string \<Rightarrow> string \<Rightarrow> string \<Rightarrow> string \<Rightarrow> (nat \<times> dval) list" where
  "call_fields destination path iface mem sg =
     [(field_path, VStr (CHR ''o'') path), (field_destination, VStr (CHR ''s'') destination),
      (field_interface, VStr (CHR ''s'') iface), (field_member, VStr (CHR ''s'') mem)]
     @ (if sg \<noteq> [] then [(field_signature, VSig sg)] else [])"

definition call_spec ::
  "32 word \<Rightarrow> string \<Rightarrow> string \<Rightarrow> string \<Rightarrow> string \<Rightarrow> string \<Rightarrow> string list \<Rightarrow> message" where
  "call_spec ser destination path iface mem sg args =
     \<lparr>m_type = msg_method_call, m_serial = ser,
      m_fields = call_fields destination path iface mem sg,
      m_body = enc_vals 0 (map (VStr (CHR ''s'')) args)\<rparr>"

lemma call_message_spec:
  assumes "list_all (\<lambda>a. length a < 2 ^ 32) ([destination, path, iface, mem] @ args)"
    and "length (m_body (call_spec ser destination path iface mem sg args)) < 2 ^ 32"
    and "length (enc_fields (call_fields destination path iface mem sg)) < 2 ^ 32"
  shows "call_message ser destination path iface mem sg args
    = enc_message (call_spec ser destination path iface mem sg args)"
proof -
  let ?flds = "enc_fields (call_fields destination path iface mem sg)"
  have body: "fold enc_str args [] = m_body (call_spec ser destination path iface mem sg args)"
    using assms(1) fold_enc_str [of args "[]" "CHR ''s''"] by (simp add: call_spec_def)
  have f4: "append_field field_member CHR ''s'' mem
              (append_field field_interface CHR ''s'' iface
              (append_field field_destination CHR ''s'' destination
              (append_field field_path CHR ''o'' path [])))
      = enc_fields (call_fields destination path iface mem [])"
    using assms(1) by (simp add: append_field_str enc_fields_def call_fields_def Let_def add.assoc)
  have f5: "append_field field_signature CHR ''g'' sg (enc_fields (call_fields destination path iface mem []))
      = enc_fields (call_fields destination path iface mem sg)" if "sg \<noteq> []"
    using that
    by (simp add: append_field_sig enc_fields_def call_fields_def enc_vals_append [of 0 "_ # _"] Let_def add.assoc)
  have flds: "(if sg \<noteq> [] then append_field field_signature CHR ''g'' sg
                 (enc_fields (call_fields destination path iface mem []))
               else enc_fields (call_fields destination path iface mem [])) = ?flds"
    using f5 by simp
  have u: "unat (word_of_nat (length ?flds) :: 32 word) = length ?flds"
    "unat (word_of_nat (length (m_body (call_spec ser destination path iface mem sg args))) :: 32 word)
      = length (m_body (call_spec ser destination path iface mem sg args))"
    using assms(2,3) by (simp_all add: unat_of_nat)
  show ?thesis
    unfolding call_message_def body Let_def f4 flds
    using u by (simp add: enc_uint32_aligned enc_pad_padding enc_message_def call_spec_def Let_def byte_def)
qed

section \<open>No reply makes the reader panic where int is 64 bits wide\<close>

lemma parse_field_safe:
  assumes "dec_inv d"
  shows "safely (\<lambda>(d', acc). keeps d d') (parse_field 64 f d acc)"
proof (cases "dec_byte 64 d")
  case (Pair c d1)
  have k: "keeps d d1" using dec_byte_keeps [OF assms Pair] .
  have tr: "safely (\<lambda>(d', acc). keeps d d') m"
    if "safely (\<lambda>(d', acc). keeps d2 d') m" "keeps d1 d2" for d2 and m :: "(decoder \<times> reply_fields) outcome"
    using that keeps_trans [OF keeps_trans [OF k]] by (auto elim!: safely_mono)
  have sub: "safely (\<lambda>(d', acc). keeps d2 d')
       (and_then m (\<lambda>(v, d). Returns (d, g v)))" if "safely (\<lambda>(v, d'). keeps d2 d') m"
    for m :: "('a \<times> decoder) outcome" and g :: "'a \<Rightarrow> reply_fields" and d2
    by (rule safely_and_then [OF that]) auto
  show ?thesis
    unfolding parse_field_def Pair Let_def prod.case
  proof (rule safely_and_then [OF dec_signature_safe [OF keeps_inv [OF k]]], clarify)
    fix ty d2
    assume k2: "keeps d1 d2"
    note inv = keeps_inv [OF k2]
    show "safely (\<lambda>(d', acc). keeps d d')
       (if byte_val c = field_reply_serial then (case dec_uint32 64 d2 of (v, d) \<Rightarrow> Returns (d, acc\<lparr>reply_serial := v\<rparr>))
        else if byte_val c = field_signature
        then and_then (dec_signature 64 d2) (\<lambda>(v, d). Returns (d, acc\<lparr>reply_sig := v\<rparr>))
        else if byte_val c = field_error_name
        then and_then (dec_str 64 d2) (\<lambda>(v, d). Returns (d, acc\<lparr>err_name := v\<rparr>))
        else and_then (skip 64 f ty d2) (\<lambda>(_, d). Returns (d, acc)))"
      using tr [OF sub [OF dec_signature_safe [OF inv]] k2] tr [OF sub [OF dec_str_safe [OF inv]] k2]
        tr [OF sub [OF skip_safe(1) [OF inv]] k2]
        dec_uint32_keeps [OF inv] keeps_trans [OF k] keeps_trans [OF k2]
      by (auto split: prod.splits)
  qed
qed

lemma parse_loop_safe: "dec_inv d \<Longrightarrow> safely (\<lambda>_. True) (parse_loop 64 f d acc)"
proof (induction f arbitrary: d acc)
  case (Suc f)
  then show ?case
    by (auto simp: Let_def intro!: safely_and_then [OF parse_field_safe] Suc.IH
        intro: keeps_inv dest: dec_pad_keeps [of d 8])
qed simp

lemma new_decoder_inv: "length b \<le> max_message \<Longrightarrow> dec_inv (new_decoder b)"
  by (simp add: new_decoder_def dec_inv_def small_def)

lemma parse_fields_safe: "length b \<le> max_message \<Longrightarrow> safely (\<lambda>_. True) (parse_fields 64 f b)"
  unfolding parse_fields_def
  by (rule safely_and_then [OF parse_loop_safe [OF new_decoder_inv]]) simp_all

lemma checked_len_bound: "checked_len v = Some n \<Longrightarrow> 0 \<le> n \<and> nat n \<le> max_message"
  by (auto simp: checked_len_def max_message_def split: if_splits)

lemma read_full_length: "read_full n xs = Some (ys, zs) \<Longrightarrow> length ys = n \<and> xs = ys @ zs"
  by (auto simp: read_full_def split: if_splits)

lemma read_message_safe: "safely (\<lambda>_. True) (read_message 64 f ser inp)"
proof -
  have "safely (\<lambda>_. True) (and_then (parse_fields 64 f flds) g)"
    if "checked_len v = Some n" "read_full (nat n) a = Some (flds, b)" "\<And>r. safely (\<lambda>_. True) (g r)"
    for v n a flds b and g :: "reply_fields \<Rightarrow> ((call_err + reply option) \<times> string) outcome"
    using that checked_len_bound [OF that(1)] read_full_length [OF that(2)]
    by (intro safely_and_then [OF parse_fields_safe]) auto
  moreover have "safely (\<lambda>_. True) (and_then (dec_str 64 (new_decoder body)) g)"
    if "checked_len v = Some n" "read_full (nat n) a = Some (body, b)" "\<And>r. safely (\<lambda>_. True) (g r)"
    for v n a body b and g :: "string \<times> decoder \<Rightarrow> ((call_err + reply option) \<times> string) outcome"
    using that checked_len_bound [OF that(1)] read_full_length [OF that(2)]
    by (intro safely_and_then [OF dec_str_safe [OF new_decoder_inv]]) auto
  ultimately show ?thesis
    unfolding read_message_def Let_def
    by (auto split: option.splits prod.splits)
qed

lemma read_reply_safe: "safely (\<lambda>_. True) (read_reply 64 f n ser inp)"
proof (induction n arbitrary: inp)
  case (Suc n)
  then show ?case
    by (auto intro!: safely_and_then [OF read_message_safe] split: sum.splits option.splits)
qed simp

end
