(* ===== verification/Dbus_Systemd.thy ===== *)
theory Dbus_Systemd
  imports Dbus_Reply
begin

text \<open>
  The questions the agent asks over the bus (\<^verbatim>\<open>internal/dbus/systemd.go\<close>, \<^verbatim>\<open>timedate.go\<close>): the list of
  units, a unit's file state, and single properties of a unit, each a method call whose reply is
  decoded only when its signature is the expected one. Times are microseconds since the epoch, with
  \<open>None\<close> for Go's zero time.
\<close>

unbundle bit_operations_syntax

abbreviation (input) "manager_destination \<equiv> ''org.freedesktop.systemd1''"
abbreviation (input) "manager_path \<equiv> ''/org/freedesktop/systemd1''"
abbreviation (input) "manager_interface \<equiv> ''org.freedesktop.systemd1.Manager''"
abbreviation (input) "unit_interface \<equiv> ''org.freedesktop.systemd1.Unit''"
abbreviation (input) "service_interface \<equiv> ''org.freedesktop.systemd1.Service''"
abbreviation (input) "scope_interface \<equiv> ''org.freedesktop.systemd1.Scope''"
abbreviation (input) "timer_interface \<equiv> ''org.freedesktop.systemd1.Timer''"
abbreviation (input) "properties_get \<equiv> ''org.freedesktop.DBus.Properties''"
abbreviation (input) "timedate_name \<equiv> ''org.freedesktop.timedate1''"
abbreviation (input) "timedate_path \<equiv> ''/org/freedesktop/timedate1''"

type_synonym 'a answer = "((call_err + 'a) \<times> conn) outcome"

definition on_reply ::
  "((call_err + reply) \<times> conn) outcome \<Rightarrow> (string \<Rightarrow> string \<Rightarrow> (call_err + 'a) outcome) \<Rightarrow> 'a answer" where
  "on_reply m k = and_then m (\<lambda>(r, c). case r of Inl e \<Rightarrow> Returns (Inl e, c)
     | Inr (body, sg) \<Rightarrow> and_then (k body sg) (\<lambda>x. Returns (x, c)))"

definition decoded :: "decoder \<Rightarrow> 'a \<Rightarrow> call_err + 'a" where
  "decoded d x = (case err d of None \<Rightarrow> Inr x | Some e \<Rightarrow> Inl (DecodeFailed e))"

section \<open>The unit list\<close>

record unit_info =
  u_name :: string
  u_description :: string
  u_load_state :: string
  u_active_state :: string
  u_sub_state :: string
  u_path :: string

definition decode_unit :: "nat \<Rightarrow> decoder \<Rightarrow> (unit_info \<times> decoder) outcome" where
  "decode_unit w d =
     and_then (dec_str w (dec_pad 8 d)) (\<lambda>(name, d).
     and_then (dec_str w d) (\<lambda>(description, d).
     and_then (dec_str w d) (\<lambda>(load_state, d).
     and_then (dec_str w d) (\<lambda>(active_state, d).
     and_then (dec_str w d) (\<lambda>(sub_state, d).
     and_then (dec_str w d) (\<lambda>(followed, d).
     and_then (dec_str w d) (\<lambda>(path, d).
     (let (job_id, d) = dec_uint32 w d in
     and_then (dec_str w d) (\<lambda>(job_type, d).
     and_then (dec_str w d) (\<lambda>(job_path, d).
     Returns (\<lparr>u_name = name, u_description = description, u_load_state = load_state,
               u_active_state = active_state, u_sub_state = sub_state, u_path = path\<rparr>, d)))))))))))"

fun decode_unit_loop ::
  "nat \<Rightarrow> nat \<Rightarrow> int \<Rightarrow> decoder \<Rightarrow> unit_info list \<Rightarrow> (unit_info list \<times> decoder) outcome" where
  "decode_unit_loop w 0 end_pos d us = Diverges"
| "decode_unit_loop w (Suc f) end_pos d us =
     (if pos d < end_pos \<and> err d = None
      then and_then (decode_unit w d) (\<lambda>(u, d).
           decode_unit_loop w f end_pos d (if u_name u \<noteq> [] then us @ [u] else us))
      else Returns (us, d))"

definition decode_units :: "nat \<Rightarrow> nat \<Rightarrow> string \<Rightarrow> (call_err + unit_info list) outcome" where
  "decode_units w f body =
     (let (v, d) = dec_uint32 w (new_decoder body) in
      case checked_len v of None \<Rightarrow> Returns (Inl TooLarge)
      | Some count \<Rightarrow>
        if int (length body) < count then Returns (Inl (ArrayClaims count))
        else (let d = dec_pad 8 d; end_pos = pos d + count in
              and_then (decode_unit_loop w f end_pos d []) (\<lambda>(us, d). Returns (decoded d us))))"

definition list_units :: "nat \<Rightarrow> nat \<Rightarrow> conn \<Rightarrow> unit_info list answer" where
  "list_units w f c =
     on_reply (call w f c manager_destination manager_path manager_interface ''ListUnits'' [] [])
       (\<lambda>body sg. if sg \<noteq> ''a(ssssssouso)'' then Returns (Inl (WrongSignature sg))
                  else decode_units w f body)"

definition unit_file_state :: "nat \<Rightarrow> nat \<Rightarrow> conn \<Rightarrow> string \<Rightarrow> string answer" where
  "unit_file_state w f c name =
     on_reply (call w f c manager_destination manager_path manager_interface ''GetUnitFileState'' ''s'' [name])
       (\<lambda>body sg. if sg \<noteq> ''s'' then Returns (Inl (WrongSignature sg))
                  else and_then (dec_str w (new_decoder body)) (\<lambda>(state, d). Returns (decoded d state)))"

section \<open>Single properties\<close>

definition memory_unknown :: "64 word" where
  "memory_unknown = NOT 0"

definition decode_variant_uint64 :: "nat \<Rightarrow> string \<Rightarrow> (call_err + 64 word) outcome" where
  "decode_variant_uint64 w body =
     and_then (dec_signature w (new_decoder body)) (\<lambda>(inner, d).
       if inner = ''t'' then (let (v, d) = dec_uint64 w d in Returns (decoded d v))
       else if inner = ''u'' then (let (v, d) = dec_uint32 w d in Returns (decoded d (ucast v)))
       else Returns (Inl (WrongType inner)))"

definition unit_property_uint64 ::
  "nat \<Rightarrow> nat \<Rightarrow> conn \<Rightarrow> string \<Rightarrow> string \<Rightarrow> string \<Rightarrow> 64 word answer" where
  "unit_property_uint64 w f c unit_path iface name =
     on_reply (call w f c manager_destination unit_path properties_get ''Get'' ''ss'' [iface, name])
       (\<lambda>body sg. if sg \<noteq> ''v'' then Returns (Inl (WrongSignature sg))
                  else decode_variant_uint64 w body)"

definition decode_variant_string :: "nat \<Rightarrow> string \<Rightarrow> (call_err + string) outcome" where
  "decode_variant_string w body =
     and_then (dec_signature w (new_decoder body)) (\<lambda>(inner, d).
       if inner \<noteq> ''s'' then Returns (Inl (WrongType inner))
       else and_then (dec_str w d) (\<lambda>(v, d). Returns (decoded d v)))"

definition unit_property_string ::
  "nat \<Rightarrow> nat \<Rightarrow> conn \<Rightarrow> string \<Rightarrow> string \<Rightarrow> string \<Rightarrow> string answer" where
  "unit_property_string w f c unit_path iface name =
     on_reply (call w f c manager_destination unit_path properties_get ''Get'' ''ss'' [iface, name])
       (\<lambda>body sg. if sg \<noteq> ''v'' then Returns (Inl (WrongSignature sg))
                  else decode_variant_string w body)"

definition decode_variant_int32 :: "nat \<Rightarrow> string \<Rightarrow> (call_err + int) outcome" where
  "decode_variant_int32 w body =
     and_then (dec_signature w (new_decoder body)) (\<lambda>(inner, d).
       if inner \<noteq> ''i'' then Returns (Inl (WrongType inner))
       else (let (v, d) = dec_uint32 w d in Returns (decoded d (sint v))))"

definition unit_property_int32 ::
  "nat \<Rightarrow> nat \<Rightarrow> conn \<Rightarrow> string \<Rightarrow> string \<Rightarrow> string \<Rightarrow> int answer" where
  "unit_property_int32 w f c unit_path iface name =
     on_reply (call w f c manager_destination unit_path properties_get ''Get'' ''ss'' [iface, name])
       (\<lambda>body sg. if sg \<noteq> ''v'' then Returns (Inl (WrongSignature sg))
                  else decode_variant_int32 w body)"

definition decode_variant_bool :: "nat \<Rightarrow> string \<Rightarrow> (call_err + bool) outcome" where
  "decode_variant_bool w body =
     and_then (dec_signature w (new_decoder body)) (\<lambda>(inner, d).
       if inner \<noteq> ''b'' then Returns (Inl (WrongType inner))
       else (let (v, d) = dec_uint32 w d in
             Returns (case err d of Some e \<Rightarrow> Inl (DecodeFailed e)
                      | None \<Rightarrow> if 1 < v then Inl (NotABoolean v) else Inr (v = 1))))"

definition ntp_synchronized :: "nat \<Rightarrow> nat \<Rightarrow> conn \<Rightarrow> bool answer" where
  "ntp_synchronized w f c =
     on_reply (call w f c timedate_name timedate_path properties_get ''Get'' ''ss''
                 [timedate_name, ''NTPSynchronized''])
       (\<lambda>body sg. if sg \<noteq> ''v'' then Returns (Inl (WrongSignature sg))
                  else decode_variant_bool w body)"

definition unit_result :: "nat \<Rightarrow> nat \<Rightarrow> conn \<Rightarrow> string \<Rightarrow> string answer" where
  "unit_result w f c unit_path = unit_property_string w f c unit_path service_interface ''Result''"

definition exec_main_status :: "nat \<Rightarrow> nat \<Rightarrow> conn \<Rightarrow> string \<Rightarrow> int answer" where
  "exec_main_status w f c unit_path = unit_property_int32 w f c unit_path service_interface ''ExecMainStatus''"

definition exec_main_code :: "nat \<Rightarrow> nat \<Rightarrow> conn \<Rightarrow> string \<Rightarrow> int answer" where
  "exec_main_code w f c unit_path = unit_property_int32 w f c unit_path service_interface ''ExecMainCode''"

definition restarts :: "nat \<Rightarrow> nat \<Rightarrow> conn \<Rightarrow> string \<Rightarrow> 64 word answer" where
  "restarts w f c unit_path = unit_property_uint64 w f c unit_path service_interface ''NRestarts''"

definition memory_current :: "nat \<Rightarrow> nat \<Rightarrow> conn \<Rightarrow> string \<Rightarrow> 64 word answer" where
  "memory_current w f c unit_path = unit_property_uint64 w f c unit_path service_interface ''MemoryCurrent''"

definition fragment_path :: "nat \<Rightarrow> nat \<Rightarrow> conn \<Rightarrow> string \<Rightarrow> string answer" where
  "fragment_path w f c unit_path = unit_property_string w f c unit_path unit_interface ''FragmentPath''"

definition scope_control_group :: "nat \<Rightarrow> nat \<Rightarrow> conn \<Rightarrow> string \<Rightarrow> string answer" where
  "scope_control_group w f c unit_path = unit_property_string w f c unit_path scope_interface ''ControlGroup''"

definition scope_memory_current :: "nat \<Rightarrow> nat \<Rightarrow> conn \<Rightarrow> string \<Rightarrow> 64 word answer" where
  "scope_memory_current w f c unit_path = unit_property_uint64 w f c unit_path scope_interface ''MemoryCurrent''"

section \<open>Times\<close>

definition timer_timestamp :: "nat \<Rightarrow> nat \<Rightarrow> conn \<Rightarrow> string \<Rightarrow> string \<Rightarrow> int option answer" where
  "timer_timestamp w f c unit_path name =
     and_then (unit_property_uint64 w f c unit_path timer_interface name) (\<lambda>(r, c).
       Returns (case r of Inl e \<Rightarrow> Inl e
                | Inr micros \<Rightarrow> Inr (if micros = 0 \<or> micros = NOT 0 then None else Some (sint micros)), c))"

definition timer_last_trigger :: "nat \<Rightarrow> nat \<Rightarrow> conn \<Rightarrow> string \<Rightarrow> int option answer" where
  "timer_last_trigger w f c unit_path = timer_timestamp w f c unit_path ''LastTriggerUSec''"

definition timer_next_elapse :: "nat \<Rightarrow> nat \<Rightarrow> conn \<Rightarrow> string \<Rightarrow> int option answer" where
  "timer_next_elapse w f c unit_path = timer_timestamp w f c unit_path ''NextElapseUSecRealtime''"

definition decode_timestamp :: "nat \<Rightarrow> string \<Rightarrow> (call_err + int option) outcome" where
  "decode_timestamp w body =
     and_then (dec_signature w (new_decoder body)) (\<lambda>(inner, d).
       if inner \<noteq> ''t'' then Returns (Inl (WrongType inner))
       else (let (micros, d) = dec_uint64 w d in
             Returns (decoded d (if micros = 0 then None else Some (sint micros)))))"

definition unit_timestamp :: "nat \<Rightarrow> nat \<Rightarrow> conn \<Rightarrow> string \<Rightarrow> string \<Rightarrow> int option answer" where
  "unit_timestamp w f c unit_path name =
     on_reply (call w f c manager_destination unit_path properties_get ''Get'' ''ss'' [unit_interface, name])
       (\<lambda>body sg. if sg \<noteq> ''v'' then Returns (Inl (WrongSignature sg))
                  else decode_timestamp w body)"

definition state_changed_at :: "nat \<Rightarrow> nat \<Rightarrow> conn \<Rightarrow> string \<Rightarrow> int option answer" where
  "state_changed_at w f c unit_path = unit_timestamp w f c unit_path ''StateChangeTimestamp''"

definition active_entered_at :: "nat \<Rightarrow> nat \<Rightarrow> conn \<Rightarrow> string \<Rightarrow> int option answer" where
  "active_entered_at w f c unit_path = unit_timestamp w f c unit_path ''ActiveEnterTimestamp''"

end
