(* ===== verification/Dbus_Readers.thy ===== *)
theory Dbus_Readers
  imports Dbus_Systemd
begin

text \<open>
  The contract between the wire decoder and the code that reads whole replies with it: a reader of
  one type returns the value that was encoded and stands past it. Replies, variants and the unit list
  are read by chaining such readers; their correctness is proved from the contract alone, and the
  decoder's four readers meet it.
\<close>

section \<open>The contract of a reader\<close>

text \<open>\<open>stands d vs xs e\<close>: the values \<open>vs\<close> are next, they end at \<open>e\<close>, and \<open>xs\<close> comes after them.\<close>

definition stands :: "decoder \<Rightarrow> dval list \<Rightarrow> string \<Rightarrow> int \<Rightarrow> bool" where
  "stands d vs xs e \<longleftrightarrow> reads d (enc_vals (nat (pos d)) vs @ xs) \<and> small d
     \<and> pos d + int (length (enc_vals (nat (pos d)) vs)) = e"

locale wire_reader =
  fixes read :: "nat \<Rightarrow> decoder \<Rightarrow> ('a \<times> decoder) outcome"
    and val :: "'a \<Rightarrow> dval"
    and ok :: "'a \<Rightarrow> bool"
    and sg :: string
  assumes read_val:
    "32 \<le> w \<Longrightarrow> ok x \<Longrightarrow> reads d (enc_val (nat (pos d)) (val x) @ xs) \<Longrightarrow> small d \<Longrightarrow>
       read w d = Returns (x, advance d (length (enc_val (nat (pos d)) (val x))))"
    and val_sig: "ok x \<Longrightarrow> sig_of (type_of (val x)) = sg"
    and sig_short: "length sg < 256"
begin

lemma read_then:
  assumes "32 \<le> w" "ok x" "reads d (enc_val (nat (pos d)) (val x) @ xs)" "small d"
  shows "\<exists>d'. read w d = Returns (x, d') \<and> d' = advance d (length (enc_val (nat (pos d)) (val x)))
    \<and> reads d' xs \<and> small d'"
  using read_val [OF assms] reads_append [OF assms(3)] assms(4) by simp

lemma read_next:
  assumes "32 \<le> w" "ok x" "stands d (val x # vs) xs e"
  shows "\<exists>d'. read w d = Returns (x, d') \<and> stands d' vs xs e"
proof -
  let ?e = "enc_val (nat (pos d)) (val x)"
  have r: "reads d (?e @ enc_vals (nat (pos d) + length ?e) vs @ xs)" and sm: "small d"
    using assms(3) by (simp_all add: stands_def Let_def)
  have "nat (pos (advance d (length ?e))) = nat (pos d) + length ?e"
    using reads_pos [OF r] by simp
  with read_then [OF assms(1,2) r sm] assms(3) show ?thesis
    by (simp add: stands_def Let_def)
qed

lemma read_body:
  assumes "32 \<le> w" "ok x" "length (enc_val 0 (val x)) \<le> max_message"
  shows "\<exists>d. read w (new_decoder (enc_val 0 (val x))) = Returns (x, d) \<and> err d = None"
proof -
  let ?d = "new_decoder (enc_val 0 (val x))"
  have "reads ?d (enc_val (nat (pos ?d)) (val x) @ [])" "small ?d"
    using reads_new assms(3) by (simp_all add: new_decoder_def small_def)
  from read_val [OF assms(1,2) this] show ?thesis by (auto simp: new_decoder_def)
qed

text \<open>A \<^verbatim>\<open>Properties.Get\<close> reply: the signature inside the variant, then the value.\<close>

lemma read_variant:
  assumes "32 \<le> w" "ok x" "length (enc_val 0 (VVariant (val x))) \<le> max_message"
  shows "\<exists>d d'. dec_signature w (new_decoder (enc_val 0 (VVariant (val x)))) = Returns (sg, d)
    \<and> read w d = Returns (x, d') \<and> err d' = None"
proof -
  let ?d = "new_decoder (enc_val 0 (VVariant (val x)))"
  let ?e = "enc_val (length sg + 2) (val x)"
  have sm: "small ?d" using assms(3) by (simp add: new_decoder_def small_def)
  have "reads ?d ([byte (length sg)] @ sg @ [byte 0] @ ?e)"
    using reads_new [of "enc_val 0 (VVariant (val x))"] val_sig [OF assms(2)] by (simp add: Let_def)
  from dec_signature_reads [OF this sm assms(1) sig_short]
  have s: "dec_signature w ?d = Returns (sg, advance ?d (length sg + 2))"
    and r: "reads (advance ?d (length sg + 2)) ?e" by simp_all
  have "nat (pos (advance ?d (length sg + 2))) = length sg + 2" by (simp add: new_decoder_def)
  with r read_then [OF assms(1,2), of "advance ?d (length sg + 2)" "[]"] sm s show ?thesis
    by (auto dest: reads_err)
qed

end

section \<open>The decoder's readers meet it\<close>

definition read_u32 :: "nat \<Rightarrow> decoder \<Rightarrow> (32 word \<times> decoder) outcome" where
  "read_u32 w d = Returns (dec_uint32 w d)"

definition read_u64 :: "nat \<Rightarrow> decoder \<Rightarrow> (64 word \<times> decoder) outcome" where
  "read_u64 w d = Returns (dec_uint64 w d)"

lemma read_string_law:
  "32 \<le> w \<Longrightarrow> reads d (enc_val (nat (pos d)) (VStr k s) @ xs) \<Longrightarrow> small d \<Longrightarrow>
     dec_str w d = Returns (s, advance d (length (enc_val (nat (pos d)) (VStr k s))))"
  using dec_str_reads [of d s "byte 0" xs w] by simp

lemma read_u32_law:
  "32 \<le> w \<Longrightarrow> reads d (enc_val (nat (pos d)) (V32 k x) @ xs) \<Longrightarrow> small d \<Longrightarrow>
     read_u32 w d = Returns (x, advance d (length (enc_val (nat (pos d)) (V32 k x))))"
  using dec_uint32_reads [of d "unat x" xs w] unat_word_less [of x] by (simp add: read_u32_def)

lemma read_u64_law:
  "32 \<le> w \<Longrightarrow> reads d (enc_val (nat (pos d)) (V64 k x) @ xs) \<Longrightarrow> small d \<Longrightarrow>
     read_u64 w d = Returns (x, advance d (length (enc_val (nat (pos d)) (V64 k x))))"
  using dec_uint64_reads [of d "unat x" xs w] unat_word_less [of x] by (simp add: read_u64_def)

interpretation rd_str: wire_reader dec_str "VStr (CHR ''s'')" "\<lambda>_. True" "''s''"
  by unfold_locales (auto intro: read_string_law simp del: enc_val.simps)

interpretation rd_path: wire_reader dec_str "VStr (CHR ''o'')" "\<lambda>_. True" "''o''"
  by unfold_locales (auto intro: read_string_law simp del: enc_val.simps)

interpretation rd_uint32: wire_reader read_u32 "V32 (CHR ''u'')" "\<lambda>_. True" "''u''"
  by unfold_locales (auto intro: read_u32_law simp del: enc_val.simps)

interpretation rd_int32: wire_reader read_u32 "V32 (CHR ''i'')" "\<lambda>_. True" "''i''"
  by unfold_locales (auto intro: read_u32_law simp del: enc_val.simps)

interpretation rd_bool: wire_reader read_u32 "V32 (CHR ''b'')" "\<lambda>_. True" "''b''"
  by unfold_locales (auto intro: read_u32_law simp del: enc_val.simps)

interpretation rd_uint64: wire_reader read_u64 "V64 (CHR ''t'')" "\<lambda>_. True" "''t''"
  by unfold_locales (auto intro: read_u64_law simp del: enc_val.simps)

section \<open>The unit list\<close>

text \<open>One entry of the reply \<^verbatim>\<open>a(ssssssouso)\<close>: the unit and the four parts the code reads and discards.\<close>

record unit_entry =
  e_unit :: unit_info
  e_followed :: string
  e_job_id :: "32 word"
  e_job_type :: string
  e_job_path :: string

definition unit_vals :: "unit_entry \<Rightarrow> dval list" where
  "unit_vals e =
     map (VStr (CHR ''s''))
       [u_name (e_unit e), u_description (e_unit e), u_load_state (e_unit e),
        u_active_state (e_unit e), u_sub_state (e_unit e), e_followed e]
     @ [VStr (CHR ''o'') (u_path (e_unit e)), V32 (CHR ''u'') (e_job_id e),
        VStr (CHR ''s'') (e_job_type e), VStr (CHR ''o'') (e_job_path e)]"

definition unit_val :: "unit_entry \<Rightarrow> dval" where
  "unit_val e = VStruct (unit_vals e)"

lemma decode_unit_stands:
  assumes "32 \<le> w" "stands d (unit_val u # vs) xs e"
  shows "\<exists>d'. decode_unit w d = Returns (e_unit u, d') \<and> stands d' vs xs e"
proof -
  let ?d0 = "dec_pad 8 d"
  have r: "reads d (padding (nat (pos d)) 8 @ enc_vals (nat (pos d) + pad_len (nat (pos d)) 8) (unit_vals u @ vs) @ xs)"
    and sm: "small d"
    using assms(2) by (simp_all add: stands_def unit_val_def Let_def enc_vals_append add.assoc)
  have p0: "nat (pos (advance d (pad_len (nat (pos d)) 8))) = nat (pos d) + pad_len (nat (pos d)) 8"
    using reads_pos [OF r] by simp
  have 0: "stands ?d0 (unit_vals u @ vs) xs e"
    using dec_pad_reads [OF r] sm assms(2) p0
    by (simp add: stands_def unit_val_def Let_def enc_vals_append add.assoc)
  note s0 = 0 [unfolded unit_vals_def list.map append.simps]
  obtain d1 where 1: "dec_str w ?d0 = Returns (u_name (e_unit u), d1)" and s1: "stands d1 (tl (unit_vals u) @ vs) xs e"
    using rd_str.read_next [OF assms(1) TrueI s0] by (auto simp: unit_vals_def)
  obtain d2 where 2: "dec_str w d1 = Returns (u_description (e_unit u), d2)" and s2: "stands d2 (drop 2 (unit_vals u) @ vs) xs e"
    using rd_str.read_next [OF assms(1) TrueI s1 [unfolded unit_vals_def list.map append.simps list.sel]]
    by (auto simp: unit_vals_def)
  obtain d3 where 3: "dec_str w d2 = Returns (u_load_state (e_unit u), d3)" and s3: "stands d3 (drop 3 (unit_vals u) @ vs) xs e"
    using rd_str.read_next [OF assms(1) TrueI, of d2] s2 by (force simp: unit_vals_def)
  obtain d4 where 4: "dec_str w d3 = Returns (u_active_state (e_unit u), d4)" and s4: "stands d4 (drop 4 (unit_vals u) @ vs) xs e"
    using rd_str.read_next [OF assms(1) TrueI, of d3] s3 by (force simp: unit_vals_def)
  obtain d5 where 5: "dec_str w d4 = Returns (u_sub_state (e_unit u), d5)" and s5: "stands d5 (drop 5 (unit_vals u) @ vs) xs e"
    using rd_str.read_next [OF assms(1) TrueI, of d4] s4 by (force simp: unit_vals_def)
  obtain d6 where 6: "dec_str w d5 = Returns (e_followed u, d6)" and s6: "stands d6 (drop 6 (unit_vals u) @ vs) xs e"
    using rd_str.read_next [OF assms(1) TrueI, of d5] s5 by (force simp: unit_vals_def)
  obtain d7 where 7: "dec_str w d6 = Returns (u_path (e_unit u), d7)" and s7: "stands d7 (drop 7 (unit_vals u) @ vs) xs e"
    using rd_path.read_next [OF assms(1) TrueI, of d6] s6 by (force simp: unit_vals_def)
  obtain d8 where 8: "dec_uint32 w d7 = (e_job_id u, d8)" and s8: "stands d8 (drop 8 (unit_vals u) @ vs) xs e"
    using rd_uint32.read_next [OF assms(1) TrueI, of d7] s7 by (force simp: unit_vals_def read_u32_def)
  obtain d9 where 9: "dec_str w d8 = Returns (e_job_type u, d9)" and s9: "stands d9 (drop 9 (unit_vals u) @ vs) xs e"
    using rd_str.read_next [OF assms(1) TrueI, of d8] s8 by (force simp: unit_vals_def)
  obtain d10 where 10: "dec_str w d9 = Returns (e_job_path u, d10)" and s10: "stands d10 vs xs e"
    using rd_path.read_next [OF assms(1) TrueI, of d9] s9 by (force simp: unit_vals_def)
  show ?thesis
    using s10 by (simp add: decode_unit_def 1 2 3 4 5 6 7 8 9 10)
qed

lemma unit_val_not_Nil: "enc_val p (unit_val u) \<noteq> []"
proof -
  have "wf_val (unit_val u)" by (simp add: unit_val_def unit_vals_def)
  then show ?thesis by (rule enc_val_not_Nil)
qed

lemma decode_unit_loop_stands:
  assumes "32 \<le> w"
  shows "stands d (map unit_val es) xs e \<Longrightarrow> length es < f \<Longrightarrow>
    \<exists>d'. decode_unit_loop w f e d us = Returns (us @ filter (\<lambda>u. u_name u \<noteq> []) (map e_unit es), d') \<and> err d' = None"
proof (induction es arbitrary: d f us)
  case Nil
  then obtain g where "f = Suc g" by (cases f) simp_all
  with Nil show ?case by (auto simp: stands_def reads_def)
next
  case (Cons u es)
  then obtain g where g: "f = Suc g" "length es < g" by (cases f) simp_all
  have st: "stands d (unit_val u # map unit_val es) xs e" using Cons.prems(1) by simp
  then obtain d' where d': "decode_unit w d = Returns (e_unit u, d')" "stands d' (map unit_val es) xs e"
    using decode_unit_stands [OF assms] by blast
  have "0 < length (enc_val (nat (pos d)) (unit_val u))"
    using unit_val_not_Nil by simp
  moreover have "e = pos d + int (length (enc_val (nat (pos d)) (unit_val u)))
      + int (length (enc_vals (nat (pos d) + length (enc_val (nat (pos d)) (unit_val u))) (map unit_val es)))"
    using st by (simp add: stands_def Let_def)
  ultimately have "pos d < e" by linarith
  moreover have "err d = None"
    using st by (simp add: stands_def reads_def)
  ultimately show ?case
    using Cons.IH [OF d'(2) g(2), of "if u_name (e_unit u) \<noteq> [] then us @ [e_unit u] else us"] d'(1) g(1)
    by auto
qed

definition unit_type :: dtype where
  "unit_type = TStruct (map TBasic ''ssssssouso'')"

lemma unit_list_signature: "sig_of (TArray unit_type) = ''a(ssssssouso)''"
  by (simp add: unit_type_def)

lemma unit_val_type: "type_of (unit_val u) = unit_type"
  by (simp add: unit_val_def unit_vals_def unit_type_def)

definition units_body :: "unit_entry list \<Rightarrow> string" where
  "units_body es = enc_val 0 (VArray unit_type (map unit_val es))"

lemma decode_units_body:
  assumes "32 \<le> w" "length (units_body es) \<le> max_message" "length es < f"
  shows "decode_units w f (units_body es) = Returns (Inr (filter (\<lambda>u. u_name u \<noteq> []) (map e_unit es)))"
proof -
  let ?body = "enc_vals 8 (map unit_val es)"
  have eq: "units_body es = le_bytes 4 (length ?body) @ replicate 4 (byte 0) @ ?body"
    by (simp add: units_body_def unit_type_def Let_def padding_def pad_len_def align_def alignment_of_def)
  let ?d = "new_decoder (units_body es)"
  have sm: "small ?d" using assms(2) by (simp add: new_decoder_def small_def)
  have n: "length ?body \<le> max_message" using assms(2) by (simp add: eq)
  then have n32: "length ?body < 2 ^ 32" by (simp add: max_message_def)
  have "reads ?d (padding (nat (pos ?d)) 4 @ le_bytes 4 (length ?body) @ replicate 4 (byte 0) @ ?body)"
    using reads_new [of "units_body es"] by (simp add: eq new_decoder_def padding_def pad_len_def align_def)
  from dec_uint32_reads [OF this sm assms(1) n32]
  have u: "dec_uint32 w ?d = (word_of_nat (length ?body), advance ?d 4)"
    and r: "reads (advance ?d 4) (replicate 4 (byte 0) @ ?body)"
    by (simp_all add: new_decoder_def pad_len_def align_def)
  have p4: "nat (pos (advance ?d 4)) = 4" by (simp add: new_decoder_def)
  have pl: "pad_len 4 8 = 4" by (simp add: pad_len_def align_def)
  have pad: "dec_pad 8 (advance ?d 4) = advance ?d 8" and r8: "reads (advance ?d 8) ?body"
    using dec_pad_reads [of "advance ?d 4" 8 ?body] r unfolding p4 by (simp_all add: padding_def pl)
  have p8: "pos (advance ?d 8) = 8" by (simp add: new_decoder_def)
  have "stands (advance ?d 8) (map unit_val es) [] (8 + int (length ?body))"
    using r8 sm unfolding stands_def p8 by simp
  from decode_unit_loop_stands [OF assms(1) this assms(3), of "[]"]
  obtain d' where l: "decode_unit_loop w f (8 + int (length ?body)) (advance ?d 8) []
      = Returns (filter (\<lambda>u. u_name u \<noteq> []) (map e_unit es), d')" and e: "err d' = None"
    by auto
  have "length ?body \<le> length (units_body es)" by (simp add: eq)
  then show ?thesis
    using u pad p8 l e checked_len_word [OF n] by (simp add: decode_units_def decoded_def)
qed

end
