(* ===== verification/Dbus_Props.thy ===== *)
theory Dbus_Props
  imports Dbus_Readers
begin

text \<open>The properties of the D-Bus client.\<close>

section \<open>The decoder\<close>

text \<open>
  C7: On the encoding of any well-formed D-Bus value (bytes, 32- and 64-bit numbers, strings, paths,
  signatures, variants, arrays, structs, nested in any way), skip returns the rest of the signature
  and a decoder that stands exactly past the value, on 32- and 64-bit platforms alike. It returns:
  the fuel the value needs is \<open>cost v\<close>, its nesting depth plus the lengths of its lists.
\<close>

theorem skip_walks_one_value:
  assumes "wf_val v" "reads d (enc_val (nat (pos d)) v @ xs)" "small d" "32 \<le> w" "cost v \<le> f"
  shows "skip w f (sig_of (type_of v) @ r) d
    = Returns (r, d\<lparr>pos := pos d + int (length (enc_val (nat (pos d)) v))\<rparr>)"
  using skip_enc_val(1) [OF assms] by (simp add: advance_def)

lemma skip_walks_one_value_witness:
  "skip 64 9 ''asu'' (new_decoder (enc_val 0 (VArray (TBasic CHR ''s'') [VStr CHR ''s'' ''ab''])))
   = Returns (''u'', (new_decoder (enc_val 0 (VArray (TBasic CHR ''s'') [VStr CHR ''s'' ''ab''])))\<lparr>pos := 11\<rparr>)"
proof -
  define v where "v = VArray (TBasic CHR ''s'') [VStr CHR ''s'' ''ab'']"
  define d where "d = new_decoder (enc_val 0 v)"
  have len: "length (enc_val 0 v) = 11"
    unfolding v_def by code_simp
  have v: "wf_val v" "cost v \<le> 9" "sig_of (type_of v) = ''as''"
    by (simp_all add: v_def)
  have d: "pos d = 0" "reads d (enc_val (nat (pos d)) v @ [])" "small d"
    using reads_new len by (simp_all add: d_def new_decoder_def small_def max_message_def)
  have "skip 64 9 (sig_of (type_of v) @ ''u'') d
      = Returns (''u'', d\<lparr>pos := pos d + int (length (enc_val (nat (pos d)) v))\<rparr>)"
    by (rule skip_walks_one_value [OF v(1) d(2,3) _ v(2)]) simp
  then show ?thesis
    unfolding v(3) d(1) using len by (simp add: d_def v_def [symmetric] del: skip.simps)
qed



text \<open>
  On the 32-bit builds a string whose length field is 2147483647 or more panics instead of being
  recorded as a failure: the length converted to int is negative, or adding one to it is, so the
  bounds check passes and the slice is out of range.
\<close>

theorem long_string_panics_32:
  assumes "2147483647 \<le> n" "n < 2 ^ 32" "length rest \<le> max_message"
  shows "dec_str 32 (new_decoder (le_bytes 4 n @ rest)) = Panics"
proof -
  let ?d = "new_decoder (le_bytes 4 n @ rest)"
  have sm: "need 32 4 ?d = (True, ?d)"
    using assms(3) by (simp add: need_def new_decoder_def wrap_int_def max_message_def)
  have "dec_pad 4 ?d = ?d" by (simp add: dec_pad_def new_decoder_def align_def)
  then have u: "dec_uint32 32 ?d = (word_of_nat n, ?d\<lparr>pos := 4\<rparr>)"
    using sm assms(2) by (simp add: dec_uint32_def new_decoder_def le_nat_le_bytes)
  have n: "uint (word_of_nat n :: 32 word) = int n" using assms(2) by (rule uint_word_of_nat_32)
  show ?thesis
  proof (cases "n = 2147483647")
    case True
    have "need 32 (wrap_int 32 (wrap_int 32 (int n) + 1)) (?d\<lparr>pos := 4\<rparr>) = (True, ?d\<lparr>pos := 4\<rparr>)"
      by (simp add: need_def new_decoder_def wrap_int_def True)
    then show ?thesis
      by (simp add: dec_str_def u n dec_run_def go_slice_def) (simp add: True wrap_int_def new_decoder_def)
  next
    case False
    have w: "wrap_int 32 (int n) = int n - 4294967296"
      using assms(1,2) False wrap_int_neg [of 32 "int n"] by simp
    have w1: "wrap_int 32 (int n - 4294967295) = int n - 4294967295"
      "wrap_int 32 (int n - 4294967291) = int n - 4294967291"
      "wrap_int 32 (int n - 4294967292) = int n - 4294967292"
      using assms False by (auto intro!: wrap_int_id [THEN trans])
    have "need 32 (int n - 4294967295) (?d\<lparr>pos := 4\<rparr>) = (True, ?d\<lparr>pos := 4\<rparr>)"
      using assms(2) w1(2) by (simp add: need_def new_decoder_def)
    then have "dec_run 32 (int n - 4294967296) (?d\<lparr>pos := 4\<rparr>) = Panics"
      using assms(2) w1(3) by (simp add: dec_run_def w1(1)) (simp add: new_decoder_def go_slice_def)
    then show ?thesis by (simp add: dec_str_def u n w)
  qed
qed

lemma long_string_panics_32_witness:
  "dec_str 32 (new_decoder (le_bytes 4 4294967295 @ ''systemd'')) = Panics"
  by (rule long_string_panics_32) (simp_all add: max_message_def)

text \<open>
  A header field of the signature a() that claims one byte of elements makes the reader loop for
  ever: an empty struct takes no bytes, so the position never reaches the array's end. No fuel is
  enough.
\<close>

theorem empty_struct_array_never_ends: "parse_fields 64 f hang_bytes = Diverges"
proof (cases f)
  case (Suc g)
  let ?d = "new_decoder hang_bytes"
  let ?d6 = "?d\<lparr>pos := 6\<rparr>" and ?d16 = "?d\<lparr>pos := 16\<rparr>"
  have hb: "length hang_bytes = 16" by (simp add: hang_bytes_list)
  have b: "dec_byte 64 ?d = (byte 9, ?d\<lparr>pos := 1\<rparr>)"
    by (simp add: dec_byte_def need_def new_decoder_def hang_bytes_list wrap_int_def)
  have s: "dec_signature 64 (?d\<lparr>pos := 1\<rparr>) = Returns (''a()'', ?d6)"
    by (simp add: dec_signature_def dec_byte_def dec_run_def go_slice_def need_def new_decoder_def
        hang_bytes_list wrap_int_def byte_def)
  have u: "dec_uint32 64 ?d6 = (1, ?d\<lparr>pos := 12\<rparr>)"
    by (simp add: dec_uint32_def dec_pad_def align_def need_def new_decoder_def hang_bytes_list
        wrap_int_def byte_def)
  have p: "dec_pad 8 (?d\<lparr>pos := 12\<rparr>) = ?d16" "dec_pad 8 ?d = ?d"
    by (simp_all add: dec_pad_def align_def new_decoder_def hb)
  have "skip 64 g ''a()'' ?d6 = Diverges"
    using u p skip_elems_empty_struct [of ?d16 17 64]
    by (cases g) (simp_all add: skip_body_def alignment_of_def wrap_int_def hb new_decoder_def
        Let_def hang_bytes_def)
  then have "parse_loop 64 f ?d no_fields = Diverges"
    using b s p by (simp add: Suc parse_field_def hb byte_def) (simp add: new_decoder_def hb)
  then show ?thesis by (simp add: parse_fields_def)
qed (simp add: parse_fields_def)

section \<open>Calls and replies\<close>

text \<open>
  A method call is sent as exactly the message the specification describes: little-endian fixed
  header with the lengths of body and header fields, the path, destination, interface, member and
  (if any) signature fields each on an eight-byte boundary, padding, and a body of the string
  arguments that starts on an eight-byte boundary.
\<close>

theorem call_message_is_spec:
  assumes "list_all (\<lambda>a. length a < 2 ^ 32) ([destination, path, iface, mem] @ args)"
    and "length (m_body (call_spec ser destination path iface mem sg args)) < 2 ^ 32"
    and "length (enc_fields (call_fields destination path iface mem sg)) < 2 ^ 32"
  shows "call_message ser destination path iface mem sg args
    = enc_message (call_spec ser destination path iface mem sg args)"
  using assms by (rule call_message_spec)

lemma call_message_is_spec_witness:
  "call_message 7 ''d'' ''/p'' ''i'' ''Get'' ''s'' [''x''] = enc_message (call_spec 7 ''d'' ''/p'' ''i'' ''Get'' ''s'' [''x''])"
proof (rule call_message_is_spec)
  show "length (m_body (call_spec 7 ''d'' ''/p'' ''i'' ''Get'' ''s'' [''x''])) < 2 ^ 32"
    by (simp add: call_spec_def padding_def pad_len_def align_def)
  have "length (enc_fields (call_fields ''d'' ''/p'' ''i'' ''Get'' ''s'')) \<le> 200" by code_simp
  then show "length (enc_fields (call_fields ''d'' ''/p'' ''i'' ''Get'' ''s'')) < 2 ^ 32" by simp
qed simp

text \<open>
  The reader finds the answer to its own serial: with up to fifteen messages of other
  conversations (signals, calls, replies to other serials) in front of it, the body and the signature
  returned are those of the method return that carries our serial, and what follows it stays unread.
\<close>

theorem read_reply_finds_answer:
  assumes "list_all wf_message ms" "list_all (\<lambda>m. \<not> answers ser m) ms" "length ms < 16"
    and "wf_message m" "m_type m = 2" "reply_serial (fields_of (m_fields m)) = ser"
    and "list_all (\<lambda>m. fields_cost (m_fields m) \<le> f) (m # ms)" "32 \<le> w"
  shows "read_reply w f 16 ser (concat (map enc_message ms) @ enc_message m @ rest)
    = Returns (Inr (m_body m, reply_sig (fields_of (m_fields m))), rest)"
proof -
  obtain n where n: "16 = length ms + Suc n"
    using assms(3) less_imp_Suc_add by (metis add_Suc_right)
  have "read_reply w f (Suc n) ser (enc_message m @ rest)
      = Returns (Inr (m_body m, reply_sig (fields_of (m_fields m))), rest)"
    using assms(4-8) by (simp add: read_message_enc message_result_return)
  then show ?thesis
    unfolding n using read_reply_skips [OF assms(1,8,2), of f "Suc n" "enc_message m @ rest"] assms(7)
    by (simp del: read_reply.simps)
qed

definition sample_signal :: message where
  "sample_signal = \<lparr>m_type = 4, m_serial = 1, m_fields = [(6, VStr CHR ''s'' '':1.5'')], m_body = ''xyz''\<rparr>"

definition sample_return :: message where
  "sample_return = \<lparr>m_type = 2, m_serial = 2, m_fields = [(5, V32 CHR ''u'' 7), (8, VSig ''s'')], m_body = ''body''\<rparr>"

lemma read_reply_finds_answer_witness:
  "read_reply 64 9 16 7 (concat (map enc_message [sample_signal]) @ enc_message sample_return @ ''more'')
   = Returns (Inr (''body'', ''s''), ''more'')"
proof -
  have l: "length (enc_fields [(6, VStr CHR ''s'' '':1.5'')]) = 13"
    "length (enc_fields [(5, V32 CHR ''u'' 7), (8, VSig ''s'')]) = 15" by code_simp+
  have "read_reply 64 9 16 7 (concat (map enc_message [sample_signal]) @ enc_message sample_return @ ''more'')
     = Returns (Inr (m_body sample_return, reply_sig (fields_of (m_fields sample_return))), ''more'')"
    by (rule read_reply_finds_answer)
      (simp_all add: sample_signal_def sample_return_def wf_message_def answers_def fields_of_def
        no_fields_def l max_message_def)
  then show ?thesis by (simp add: sample_return_def fields_of_def no_fields_def)
qed

text \<open>
  No sequence of bytes from the bus makes the reply reader panic where int is 64 bits wide: every
  input yields a reply, an error, or (see the endless array above) no answer.
\<close>

theorem read_reply_never_panics_64: "read_reply 64 f n ser inp \<noteq> Panics"
  by (rule safely_not_Panics [OF read_reply_safe])

section \<open>The questions asked of systemd\<close>

text \<open>
  The unit list is decoded back exactly: from the encoded reply a(ssssssouso), the units with a
  name, in order, each with its name, description, states and path; the followed unit and the job are
  read and dropped.
\<close>

theorem decode_units_roundtrip:
  assumes "32 \<le> w" "length (units_body es) \<le> max_message" "length es < f"
  shows "decode_units w f (units_body es) = Returns (Inr (filter (\<lambda>u. u_name u \<noteq> []) (map e_unit es)))"
  using assms by (rule decode_units_body)

definition sample_unit :: "string \<Rightarrow> unit_entry" where
  "sample_unit n = \<lparr>e_unit = \<lparr>u_name = n, u_description = ''d'', u_load_state = ''loaded'',
     u_active_state = ''active'', u_sub_state = ''running'', u_path = ''/o''\<rparr>, e_followed = [],
     e_job_id = 3, e_job_type = [], e_job_path = ''/''\<rparr>"

lemma decode_units_roundtrip_witness:
  "decode_units 64 5 (units_body [sample_unit ''a.service'', sample_unit []])
   = Returns (Inr [e_unit (sample_unit ''a.service'')])"
proof -
  have "length (units_body [sample_unit ''a.service'', sample_unit []]) \<le> 300" by code_simp
  then have "decode_units 64 5 (units_body [sample_unit ''a.service'', sample_unit []])
    = Returns (Inr (filter (\<lambda>u. u_name u \<noteq> []) (map e_unit [sample_unit ''a.service'', sample_unit []])))"
    by (intro decode_units_roundtrip) (simp_all add: max_message_def)
  then show ?thesis by (simp add: sample_unit_def)
qed

text \<open>
  A 32-bit property is read as a signed number only when its inner signature says it is one: for i
  the answer is the two's complement value of the four bytes, for u or b (the same four bytes) it is
  refused.
\<close>

theorem decode_variant_int32_exact:
  assumes "32 \<le> w" "k \<in> set ''biu''"
  shows "decode_variant_int32 w (enc_val 0 (VVariant (V32 k x)))
    = Returns (if k = CHR ''i'' then Inr (sint x) else Inl (WrongType [k]))"
proof -
  have len: "length (enc_val 0 (VVariant (V32 k x))) = 8"
    by (simp add: padding_def pad_len_def align_def)
  consider "k = CHR ''i''" | "k = CHR ''u''" | "k = CHR ''b''" using assms(2) by auto
  then show ?thesis
  proof cases
    case 1
    with rd_int32.read_variant [OF assms(1) TrueI, of x] len show ?thesis
      by (auto simp: decode_variant_int32_def read_u32_def decoded_def max_message_def simp del: enc_val.simps)
  next
    case 2
    with rd_uint32.read_variant [OF assms(1) TrueI, of x] len show ?thesis
      by (auto simp: decode_variant_int32_def max_message_def simp del: enc_val.simps)
  next
    case 3
    with rd_bool.read_variant [OF assms(1) TrueI, of x] len show ?thesis
      by (auto simp: decode_variant_int32_def max_message_def simp del: enc_val.simps)
  qed
qed

lemma decode_variant_int32_exact_witness:
  "decode_variant_int32 64 (enc_val 0 (VVariant (V32 CHR ''i'' 4294967295))) = Returns (Inr (- 1))"
  using decode_variant_int32_exact [of 64 "CHR ''i''" 4294967295] by simp

end
