(* ===== verification/Journal_File.thy ===== *)
theory Journal_File
  imports Prelude "HOL-Library.Signed_Division"
begin

text \<open>
  The reader of systemd's journal files (\<^verbatim>\<open>internal/journal/file.go\<close>): the block cache under every
  read, the checks on an object's header, the chain of entry arrays, the walk over the entries from
  the newest, and the fields of one entry with the memo of the data objects already classified.

  The file on disk is the parameter \<open>source\<close> of a reader: \<open>source off n\<close> is what
  \<^verbatim>\<open>io.ReaderAt.ReadAt\<close> puts in a buffer of \<open>n\<close> bytes (fewer at the end of the file), \<open>None\<close> when
  it fails; the file does not change while it is read. Offsets are \<^verbatim>\<open>int64\<close>: the sums that the code
  forms before it has checked an offset wrap around, the sums after the check are within the file.
\<close>

section \<open>The block reader\<close>

record block_reader =
  source :: "int \<Rightarrow> nat \<Rightarrow> string option"
  rsize :: int
  order :: "int list"
  cache :: "int \<rightharpoonup> string"

definition block_size :: int where "block_size = 65536"
definition max_blocks :: nat where "max_blocks = 32"

definition new_block_reader :: "(int \<Rightarrow> nat \<Rightarrow> string option) \<Rightarrow> int \<Rightarrow> block_reader" where
  "new_block_reader src n = \<lparr>source = src, rsize = n, order = [], cache = (\<lambda>_. None)\<rparr>"

text \<open>A buffer of \<open>n\<close> zero bytes after \<open>got\<close> has been read into it.\<close>

definition filled :: "nat \<Rightarrow> string \<Rightarrow> string" where
  "filled n got = take n got @ replicate (n - length got) (byte 0)"

definition block :: "int \<Rightarrow> block_reader \<Rightarrow> (string option \<times> block_reader) outcome" where
  "block i b = (case cache b i of Some blk \<Rightarrow> Returns (Some blk, b)
     | None \<Rightarrow>
       (let n = min block_size (rsize b - i * block_size) in
        if n < 0 then Panics
        else case source b (i * block_size) (nat n) of None \<Rightarrow> Returns (None, b)
        | Some got \<Rightarrow>
          (let blk = filled (nat n) got;
               b = (if max_blocks \<le> length (order b)
                    then b\<lparr>cache := (cache b)(hd (order b) := None), order := tl (order b)\<rparr> else b)
           in Returns (Some blk, b\<lparr>cache := (cache b)(i \<mapsto> blk), order := order b @ [i]\<rparr>))))"

text \<open>The loop over the blocks \<open>i\<close> to \<open>final\<close>, \<open>k\<close> of them.\<close>

fun gather ::
  "int \<Rightarrow> int \<Rightarrow> int \<Rightarrow> int \<Rightarrow> nat \<Rightarrow> int \<Rightarrow> string \<Rightarrow> block_reader
     \<Rightarrow> (string option \<times> block_reader) outcome" where
  "gather off n first final 0 i out b = Returns (Some out, b)"
| "gather off n first final (Suc k) i out b =
     and_then (block i b) (\<lambda>(blk, b).
       case blk of None \<Rightarrow> Returns (None, b)
       | Some blk \<Rightarrow>
         (let lo = (if i = first then off - first * block_size else 0);
              hi = (if i = final then off + n - final * block_size else int (length blk))
          in if hi < lo \<or> int (length blk) < hi then Returns (None, b)
             else and_then (go_slice blk lo hi) (\<lambda>s.
                  gather off n first final k (i + 1) (out @ s) b)))"

definition read :: "int \<Rightarrow> int \<Rightarrow> block_reader \<Rightarrow> (string option \<times> block_reader) outcome" where
  "read off n b =
     (if off < 0 \<or> n < 0 \<or> rsize b < i64 (off + n) \<or> 1048576 < n then Returns (None, b)
      else (let first = off div block_size; final = i64 (i64 (off + n) - 1) sdiv block_size in
        if n = 0 then Returns (Some [], b)
        else if first = final
        then and_then (block first b) (\<lambda>(blk, b).
          case blk of None \<Rightarrow> Returns (None, b)
          | Some blk \<Rightarrow>
            (let start = off - first * block_size in
             if int (length blk) < start + n then Returns (None, b)
             else and_then (go_slice blk start (start + n)) (\<lambda>s. Returns (Some s, b))))
        else gather off n first final (nat (final - first + 1)) first [] b))"

section \<open>The file\<close>

abbreviation (input) "object_data \<equiv> 1::nat"
abbreviation (input) "object_entry \<equiv> 3::nat"
abbreviation (input) "object_entry_array \<equiv> 6::nat"
abbreviation (input) "min_header_size \<equiv> 200::int"
abbreviation (input) "max_entry_arrays \<equiv> 4096::nat"
abbreviation (input) "max_items \<equiv> 512::int"
abbreviation (input) "max_field_name \<equiv> 64::int"
abbreviation (input) "max_value \<equiv> 256::int"
abbreviation (input) "journal_max_message \<equiv> 2048::int"
abbreviation (input) "items_chunk \<equiv> 4096::int"

datatype field_kind = KindOther | KindUnit | KindAbout | KindPriority | KindMessage | KindCompressed
  | KindFacility | KindIdentifier | KindTransport

record field =
  fd_kind :: field_kind
  fd_val :: string
  fd_at :: int
  fd_len :: int

record jfile =
  rd :: block_reader
  jsize :: int
  compact :: bool
  header_size :: int
  entry_array :: int
  tail_realtime :: nat
  known :: "(int \<times> field) list"
  entries_scanned :: nat
  compressed_items :: nat

text \<open>A read of the file through its block reader.\<close>

definition fread :: "int \<Rightarrow> int \<Rightarrow> jfile \<Rightarrow> (string option \<times> jfile) outcome" where
  "fread off n f = and_then (read off n (rd f)) (\<lambda>(s, b). Returns (s, f\<lparr>rd := b\<rparr>))"

text \<open>
  \<^verbatim>\<open>Open\<close>; \<open>None\<close> is \<^verbatim>\<open>ErrFormat\<close>. The known incompatible flags are the five lowest bits, so a flag
  outside them makes the number 32 or more; the fifth (16) is the compact layout.
\<close>

definition open_journal :: "(int \<Rightarrow> nat \<Rightarrow> string option) \<Rightarrow> int \<Rightarrow> jfile option outcome" where
  "open_journal src filesize =
     and_then (read 0 min_header_size (new_block_reader src filesize)) (\<lambda>(h, b).
     case h of None \<Rightarrow> Returns None
     | Some h \<Rightarrow>
       if take 8 h \<noteq> ''LPKSHHRH'' then Returns None
       else and_then (le_at 4 h 12) (\<lambda>incompatible.
         if 32 \<le> incompatible then Returns None
         else and_then (le_at 8 h 88) (\<lambda>hs.
           if signed64 hs < min_header_size \<or> filesize < signed64 hs then Returns None
           else and_then (le_at 8 h 176) (\<lambda>ea.
           and_then (le_at 8 h 192) (\<lambda>tail.
             Returns (Some \<lparr>rd = b, jsize = filesize, compact = odd (incompatible div 16),
               header_size = signed64 hs, entry_array = signed64 ea, tail_realtime = tail,
               known = [], entries_scanned = 0, compressed_items = 0\<rparr>))))))"

definition tail_time :: "jfile \<Rightarrow> go_time" where
  "tail_time f =
     (if tail_realtime f = 0 then zero_time else unix_micro (signed64 (tail_realtime f)))"

text \<open>An object's header: its size and flags, when the object is the wanted one.\<close>

definition object :: "int \<Rightarrow> nat \<Rightarrow> jfile \<Rightarrow> ((int \<times> nat) option \<times> jfile) outcome" where
  "object off want f =
     (if off < header_size f \<or> off mod 8 \<noteq> 0 \<or> jsize f < i64 (off + 16) then Returns (None, f)
      else and_then (fread off 16 f) (\<lambda>(b, f).
        case b of None \<Rightarrow> Returns (None, f)
        | Some b \<Rightarrow>
          and_then (le_at 1 b 0) (\<lambda>ty.
          if ty \<noteq> want then Returns (None, f)
          else and_then (le_at 8 b 8) (\<lambda>s.
            let sz = signed64 s in
            if sz < 16 \<or> jsize f - off < sz then Returns (None, f)
            else and_then (le_at 1 b 1) (\<lambda>flags. Returns (Some (sz, flags), f))))))"

definition item_size :: "jfile \<Rightarrow> int" where
  "item_size f = (if compact f then 4 else 8)"

text \<open>The chain of entry arrays: each an offset and how many items it holds.\<close>

fun arrays_from ::
  "nat \<Rightarrow> int \<Rightarrow> (int \<times> int) list \<Rightarrow> jfile \<Rightarrow> ((int \<times> int) list \<times> jfile) outcome" where
  "arrays_from 0 off out f = Returns (out, f)"
| "arrays_from (Suc i) off out f =
     (if off = 0 then Returns (out, f)
      else and_then (object off object_entry_array f) (\<lambda>(o', f).
        case o' of None \<Rightarrow> Returns (out, f)
        | Some (sz, flags) \<Rightarrow>
          if sz < 24 then Returns (out, f)
          else and_then (fread (off + 16) 8 f) (\<lambda>(b, f).
            case b of None \<Rightarrow> Returns (out, f)
            | Some b \<Rightarrow>
              and_then (le_at 8 b 0) (\<lambda>nx.
              let out = out @ [(off, (sz - 24) div item_size f)] in
              if signed64 nx \<le> off then Returns (out, f)
              else arrays_from i (signed64 nx) out f))))"

definition arrays :: "jfile \<Rightarrow> ((int \<times> int) list \<times> jfile) outcome" where
  "arrays f = arrays_from max_entry_arrays (entry_array f) [] f"

text \<open>
  \<^verbatim>\<open>eachEntry\<close>: the loop over the items of one chunk (newest first), over the chunks of an array
  and over the arrays. The callback \<open>fn\<close> gets an entry's offset and returns whether to go on; it may
  change the file's caches and counters and a state \<open>'s\<close> of its caller. \<open>True\<close> in the result of
  a loop means that it ran to its end.
\<close>

type_synonym 's visitor = "int \<Rightarrow> jfile \<Rightarrow> 's \<Rightarrow> ((bool \<times> 's) \<times> jfile) outcome"

text \<open>The item at index \<open>k\<close> of a chunk.\<close>

definition item_at :: "bool \<Rightarrow> string \<Rightarrow> nat \<Rightarrow> int outcome" where
  "item_at cmp b k =
     (if cmp then and_then (le_at 4 b (k * 4)) (\<lambda>n. Returns (int n))
      else and_then (le_at 8 b (k * 8)) (\<lambda>n. Returns (signed64 n)))"

fun each_item :: "'s visitor \<Rightarrow> string \<Rightarrow> nat \<Rightarrow> jfile \<Rightarrow> 's \<Rightarrow> ((bool \<times> 's) \<times> jfile) outcome" where
  "each_item fn b 0 f s = Returns ((True, s), f)"
| "each_item fn b (Suc k) f s =
     and_then (item_at (compact f) b k) (\<lambda>e.
       if e = 0 then each_item fn b k f s
       else and_then (fn e f s) (\<lambda>((go, s), f).
            if go then each_item fn b k f s else Returns ((False, s), f)))"

function each_chunk ::
  "'s visitor \<Rightarrow> int \<Rightarrow> int \<Rightarrow> jfile \<Rightarrow> 's \<Rightarrow> ((bool \<times> 's) \<times> jfile) outcome" where
  "each_chunk fn off hi f s =
     (if hi \<le> 0 then Returns ((True, s), f)
      else (let lo = max 0 (hi - items_chunk); item = item_size f in
        and_then (fread (off + 24 + lo * item) ((hi - lo) * item) f) (\<lambda>(b, f).
          case b of None \<Rightarrow> Returns ((False, s), f)
          | Some b \<Rightarrow>
            and_then (each_item fn b (nat (hi - lo)) f s) (\<lambda>((go, s), f).
              if go then each_chunk fn off lo f s else Returns ((False, s), f)))))"
  by pat_completeness auto
termination
  by (relation "measure (\<lambda>(fn, off, hi, f, s). nat hi)") auto

declare each_chunk.simps [simp del]

fun each_array ::
  "'s visitor \<Rightarrow> (int \<times> int) list \<Rightarrow> jfile \<Rightarrow> 's \<Rightarrow> ((bool \<times> 's) \<times> jfile) outcome" where
  "each_array fn [] f s = Returns ((True, s), f)"
| "each_array fn ((off, n) # as) f s =
     and_then (each_chunk fn off n f s) (\<lambda>((go, s), f).
       if go then each_array fn as f s else Returns ((False, s), f))"

definition each_entry :: "'s visitor \<Rightarrow> jfile \<Rightarrow> 's \<Rightarrow> ('s \<times> jfile) outcome" where
  "each_entry fn f s =
     and_then (arrays f) (\<lambda>(as, f).
     and_then (each_array fn (rev as) f s) (\<lambda>((_, s), f). Returns (s, f)))"

section \<open>Data objects\<close>

definition other_field :: field where
  "other_field = \<lparr>fd_kind = KindOther, fd_val = [], fd_at = 0, fd_len = 0\<rparr>"

text \<open>The fields this reader looks at, the message apart.\<close>

definition kind_of_name :: "string \<Rightarrow> field_kind option" where
  "kind_of_name name =
     (if name = ''_SYSTEMD_UNIT'' then Some KindUnit
      else if name = ''UNIT'' then Some KindAbout
      else if name = ''PRIORITY'' then Some KindPriority
      else if name = ''SYSLOG_FACILITY'' then Some KindFacility
      else if name = ''SYSLOG_IDENTIFIER'' then Some KindIdentifier
      else if name = ''_TRANSPORT'' then Some KindTransport
      else None)"

definition read_data :: "int \<Rightarrow> jfile \<Rightarrow> (field \<times> jfile) outcome" where
  "read_data off f =
     and_then (object off object_data f) (\<lambda>(o', f).
       let payload_at = (if compact f then 72 else 64) in
       case o' of None \<Rightarrow> Returns (other_field, f)
       | Some (sz, flags) \<Rightarrow>
         if sz \<le> payload_at then Returns (other_field, f)
         else if flags mod 8 \<noteq> 0 then Returns (other_field\<lparr>fd_kind := KindCompressed\<rparr>, f)
         else (let plen = sz - payload_at in
           and_then (fread (off + payload_at) (min plen (max_field_name + 1)) f) (\<lambda>(head, f).
             case head of None \<Rightarrow> Returns (other_field, f)
             | Some head \<Rightarrow>
               (case index_byte head CHR ''='' of None \<Rightarrow> Returns (other_field, f)
                | Some q \<Rightarrow>
                  if q = 0 then Returns (other_field, f)
                  else (let name = take q head;
                            value_at = off + payload_at + int q + 1;
                            value_len = plen - int q - 1 in
                    if name = ''MESSAGE''
                    then Returns (\<lparr>fd_kind = KindMessage, fd_val = [], fd_at = value_at, fd_len = value_len\<rparr>, f)
                    else (case kind_of_name name of None \<Rightarrow> Returns (other_field, f)
                      | Some k \<Rightarrow>
                        if max_value < value_len then Returns (other_field, f)
                        else and_then (fread value_at value_len f) (\<lambda>(v, f).
                          case v of None \<Rightarrow> Returns (other_field, f)
                          | Some v \<Rightarrow>
                            Returns (\<lparr>fd_kind = k, fd_val = v, fd_at = 0, fd_len = 0\<rparr>, f))))))))"

text \<open>
  \<^verbatim>\<open>data\<close>: the memo of the fields already read, emptied when it holds 16384. A key is added only when it is
  not there, so the length of the list is the number of the map's keys.
\<close>

definition data :: "int \<Rightarrow> jfile \<Rightarrow> (field \<times> jfile) outcome" where
  "data off f = (case map_of (known f) off of Some fd \<Rightarrow> Returns (fd, f)
     | None \<Rightarrow>
       and_then (read_data off f) (\<lambda>(fd, f).
         Returns (fd, f\<lparr>known := (off, fd) # (if 16384 \<le> length (known f) then [] else known f)\<rparr>)))"

section \<open>Entries\<close>

record entry =
  at_time :: go_time
  e_unit :: string
  e_priority :: int
  e_facility :: int
  e_identifier :: string
  e_transport :: string
  message_at :: int
  message_len :: int
  is_compressed :: bool

definition has_message :: "entry \<Rightarrow> bool" where
  "has_message e = (0 < message_at e)"

text \<open>What the loop over an entry's items keeps: the entry, and the three local variables.\<close>

record gathered =
  g_entry :: entry
  g_unit :: string
  g_about :: string
  g_compressed :: bool

text \<open>The \<^verbatim>\<open>switch\<close> on one item's field.\<close>

definition in_range :: "string \<Rightarrow> int \<Rightarrow> int option" where
  "in_range s hi = (case atoi s of Some p \<Rightarrow> if 0 \<le> p \<and> p \<le> hi then Some p else None | None \<Rightarrow> None)"

definition add_field :: "field \<Rightarrow> gathered \<Rightarrow> gathered" where
  "add_field fd g = (case fd_kind fd of
      KindOther \<Rightarrow> g
    | KindUnit \<Rightarrow> g\<lparr>g_unit := fd_val fd\<rparr>
    | KindAbout \<Rightarrow> g\<lparr>g_about := fd_val fd\<rparr>
    | KindPriority \<Rightarrow> (case in_range (fd_val fd) 7 of Some p \<Rightarrow> g\<lparr>g_entry := (g_entry g)\<lparr>e_priority := p\<rparr>\<rparr>
        | None \<Rightarrow> g)
    | KindFacility \<Rightarrow> (case in_range (fd_val fd) 23 of Some v \<Rightarrow> g\<lparr>g_entry := (g_entry g)\<lparr>e_facility := v\<rparr>\<rparr>
        | None \<Rightarrow> g)
    | KindIdentifier \<Rightarrow> g\<lparr>g_entry := (g_entry g)\<lparr>e_identifier := fd_val fd\<rparr>\<rparr>
    | KindTransport \<Rightarrow> g\<lparr>g_entry := (g_entry g)\<lparr>e_transport := fd_val fd\<rparr>\<rparr>
    | KindMessage \<Rightarrow> g\<lparr>g_entry := (g_entry g)\<lparr>message_at := fd_at fd, message_len := fd_len fd\<rparr>\<rparr>
    | KindCompressed \<Rightarrow> g\<lparr>g_compressed := True\<rparr>)"

text \<open>The loop over the items, the \<open>k\<close> from index \<open>i\<close> on.\<close>

fun entry_items :: "string \<Rightarrow> nat \<Rightarrow> nat \<Rightarrow> gathered \<Rightarrow> jfile \<Rightarrow> (gathered \<times> jfile) outcome" where
  "entry_items items 0 i g f = Returns (g, f)"
| "entry_items items (Suc k) i g f =
     and_then (if compact f then and_then (le_at 4 items (i * 4)) (\<lambda>n. Returns (int n))
               else and_then (le_at 8 items (i * 16)) (\<lambda>n. Returns (signed64 n))) (\<lambda>d.
     and_then (data d f) (\<lambda>(fd, f).
       entry_items items k (Suc i) (add_field fd g)
         (if fd_kind fd = KindCompressed then f\<lparr>compressed_items := Suc (compressed_items f)\<rparr> else f)))"

definition blank_entry :: "go_time \<Rightarrow> entry" where
  "blank_entry t = \<lparr>at_time = t, e_unit = [], e_priority = -1, e_facility = -1, e_identifier = [],
     e_transport = [], message_at = 0, message_len = 0, is_compressed = False\<rparr>"

definition finish_entry :: "gathered \<Rightarrow> entry" where
  "finish_entry g =
     (g_entry g)\<lparr>e_unit := (if g_about g \<noteq> [] \<and> (g_unit g = [] \<or> g_unit g = ''init.scope'')
                         then g_about g else g_unit g),
              is_compressed := g_compressed g \<and> message_at (g_entry g) = 0\<rparr>"

definition entry :: "int \<Rightarrow> jfile \<Rightarrow> (entry option \<times> jfile) outcome" where
  "entry off f =
     and_then (object off object_entry f) (\<lambda>(o', f).
       case o' of None \<Rightarrow> Returns (None, f)
       | Some (sz, flags) \<Rightarrow>
         if sz < 64 then Returns (None, f)
         else and_then (fread off 64 f) (\<lambda>(b, f).
           case b of None \<Rightarrow> Returns (None, f)
           | Some b \<Rightarrow>
             and_then (le_at 8 b 24) (\<lambda>t.
             let item = (if compact f then 4 else 16); n = min ((sz - 64) div item) max_items in
             and_then (fread (off + 64) (n * item) f) (\<lambda>(items, f).
               case items of None \<Rightarrow> Returns (None, f)
               | Some items \<Rightarrow>
                 and_then (entry_items items (nat n) 0
                     \<lparr>g_entry = blank_entry (unix_micro (signed64 t)), g_unit = [], g_about = [],
                      g_compressed = False\<rparr> f) (\<lambda>(g, f).
                 Returns (Some (finish_entry g), f))))))"

text \<open>\<^verbatim>\<open>Backward\<close>: the callback handed to \<^verbatim>\<open>eachEntry\<close>, and the walk with it.\<close>

type_synonym 's entry_visitor = "entry \<Rightarrow> jfile \<Rightarrow> 's \<Rightarrow> ((bool \<times> 's) \<times> jfile) outcome"

definition backward_visit :: "go_time \<Rightarrow> nat \<Rightarrow> 's entry_visitor \<Rightarrow> 's visitor" where
  "backward_visit since limit fn off f s =
     (if limit \<le> entries_scanned f then Returns ((False, s), f)
      else and_then (entry off f) (\<lambda>(e, f).
        case e of None \<Rightarrow> Returns ((True, s), f)
        | Some e \<Rightarrow>
          (let f = f\<lparr>entries_scanned := Suc (entries_scanned f)\<rparr> in
           if at_time e < since then Returns ((False, s), f) else fn e f s)))"

definition backward :: "go_time \<Rightarrow> nat \<Rightarrow> 's entry_visitor \<Rightarrow> jfile \<Rightarrow> 's \<Rightarrow> ('s \<times> jfile) outcome" where
  "backward since limit fn f s = each_entry (backward_visit since limit fn) f s"

definition message :: "entry \<Rightarrow> jfile \<Rightarrow> ((string \<times> bool) \<times> jfile) outcome" where
  "message e f =
     (if message_at e = 0 then Returns (([], False), f)
      else (let n = min (message_len e) journal_max_message in
        and_then (fread (message_at e) n f) (\<lambda>(b, f).
          case b of None \<Rightarrow> Returns (([], False), f)
          | Some b \<Rightarrow> Returns ((b, n < message_len e), f))))"

end
