(* ===== verification/Journal_Cache.thy ===== *)
theory Journal_Cache
  imports Journal_File
begin

text \<open>
  The caches of the journal reader are invisible: the block cache returns what is on disk, within its
  bound of 32 blocks, and every operation on a file (reading an object, the chain of arrays, a data
  object through the memo, an entry, a message) gives the same result whatever is already cached.
\<close>

section \<open>The block cache\<close>

definition disk_block :: "block_reader \<Rightarrow> int \<Rightarrow> string option" where
  "disk_block b i =
     (let n = nat (min block_size (rsize b - i * block_size)) in
      map_option (filled n) (source b (i * block_size) n))"

definition sound :: "block_reader \<Rightarrow> bool" where
  "sound b \<longleftrightarrow> 0 \<le> rsize b \<and> rsize b < 2 ^ 63
     \<and> (\<forall>i blk. cache b i = Some blk \<longrightarrow> i * block_size \<le> rsize b \<and> disk_block b i = Some blk)
     \<and> distinct (order b) \<and> set (order b) = dom (cache b) \<and> length (order b) \<le> max_blocks"

definition same_disk :: "block_reader \<Rightarrow> block_reader \<Rightarrow> bool" where
  "same_disk b c \<longleftrightarrow> source b = source c \<and> rsize b = rsize c \<and> sound b \<and> sound c"

lemma same_diskD:
  assumes "same_disk b c"
  shows "source b = source c" "rsize b = rsize c" "sound b" "sound c"
  using assms by (auto simp: same_disk_def)

lemma sound_new: "0 \<le> n \<Longrightarrow> n < 2 ^ 63 \<Longrightarrow> sound (new_block_reader src n)"
  by (simp add: sound_def new_block_reader_def)

lemma disk_block_cong: "source b = source c \<Longrightarrow> rsize b = rsize c \<Longrightarrow> disk_block b = disk_block c"
  by (simp add: disk_block_def fun_eq_iff)

definition keeps_disk :: "block_reader \<Rightarrow> block_reader \<Rightarrow> bool" where
  "keeps_disk b c \<longleftrightarrow> sound c \<and> source c = source b \<and> rsize c = rsize b"

lemma sound_insert:
  assumes b: "sound b" and i: "cache b i = None" "i * block_size \<le> rsize b" "disk_block b i = Some blk"
  defines "b' \<equiv> (if max_blocks \<le> length (order b)
                 then b\<lparr>cache := (cache b)(hd (order b) := None), order := tl (order b)\<rparr> else b)"
  shows "keeps_disk b (b'\<lparr>cache := (cache b')(i \<mapsto> blk), order := order b' @ [i]\<rparr>)"
proof -
  have dom: "set (order b) = dom (cache b)" and dist: "distinct (order b)"
    and len: "length (order b) \<le> max_blocks"
    and old: "\<And>j x. cache b j = Some x \<Longrightarrow> j * block_size \<le> rsize b \<and> disk_block b j = Some x"
    using b by (auto simp: sound_def)
  have new: "i \<notin> set (order b)" using i(1) dom by auto
  have eq: "disk_block (b'\<lparr>cache := m, order := xs\<rparr>) = disk_block b" for m xs
    by (intro disk_block_cong) (simp_all add: b'_def)
  have ord': "distinct (order b')" "set (order b') = dom (cache b')" "length (order b') < max_blocks"
    "i \<notin> set (order b')"
  proof -
    have "distinct (order b') \<and> set (order b') = dom (cache b') \<and> length (order b') < max_blocks
      \<and> i \<notin> set (order b')"
    proof (cases "max_blocks \<le> length (order b)")
      case True
      then obtain h t where o: "order b = h # t"
        by (cases "order b") (auto simp: max_blocks_def)
      then have "set t = dom (cache b) - {h}" using dist dom by auto
      with True o dist new len show ?thesis
        by (auto simp: b'_def)
    next
      case False
      then show ?thesis using dist dom new by (simp add: b'_def)
    qed
    then show "distinct (order b')" "set (order b') = dom (cache b')" "length (order b') < max_blocks"
      "i \<notin> set (order b')" by auto
  qed
  have sub: "cache b' j = Some x \<Longrightarrow> cache b j = Some x" for j x
    by (auto simp: b'_def split: if_splits)
  have "source b' = source b" "rsize b' = rsize b" by (simp_all add: b'_def)
  then show ?thesis
    unfolding keeps_disk_def sound_def
    using ord' old sub i b by (auto simp: eq sound_def fun_upd_def)
qed

lemma block_sound:
  assumes b: "sound b"
  shows "if i * block_size \<le> rsize b
    then \<exists>b'. block i b = Returns (disk_block b i, b') \<and> keeps_disk b b'
    else block i b = Panics"
proof (cases "cache b i")
  case (Some blk)
  then have "i * block_size \<le> rsize b \<and> disk_block b i = Some blk" using b by (auto simp: sound_def)
  with Some b show ?thesis by (simp add: block_def keeps_disk_def)
next
  case None
  show ?thesis
  proof (cases "i * block_size \<le> rsize b")
    case True
    have nn: "\<not> min block_size (rsize b - i * block_size) < 0"
      using True by (simp add: block_size_def)
    show ?thesis
    proof (cases "source b (i * block_size) (nat (min block_size (rsize b - i * block_size)))")
      case none: None
      then show ?thesis using True None b nn by (simp add: block_def Let_def keeps_disk_def disk_block_def)
    next
      case (Some got)
      then have d: "disk_block b i = Some (filled (nat (min block_size (rsize b - i * block_size))) got)"
        by (simp add: disk_block_def)
      show ?thesis
        using sound_insert [OF b None True d] True None Some nn d
        by (simp add: block_def Let_def)
    qed
  next
    case False
    then have "min block_size (rsize b - i * block_size) < 0" by simp
    then show ?thesis using False None by (simp add: block_def)
  qed
qed

definition disk_twin :: "block_reader \<Rightarrow> block_reader \<Rightarrow> block_reader \<Rightarrow> bool" where
  "disk_twin b0 b c \<longleftrightarrow> same_disk b0 b \<and> same_disk b c"

lemma block_agrees: "disk_twin b0 b c \<Longrightarrow> agrees (disk_twin b0) (block i b) (block i c)"
  using block_sound [of b i] block_sound [of c i] disk_block_cong [of b c]
  by (auto simp: disk_twin_def same_disk_def keeps_disk_def split: if_splits)

lemma gather_agrees:
  "disk_twin b0 b c \<Longrightarrow> agrees (disk_twin b0) (gather off n first final k i out b) (gather off n first final k i out c)"
proof (induction k arbitrary: i out b c final)
  case (Suc k)
  show ?case
    unfolding gather.simps
    by (rule agrees_and_then [OF block_agrees [OF Suc.prems]])
      (auto simp: Let_def go_slice_def split: option.splits intro: Suc.IH)
qed simp

lemma read_agrees: "disk_twin b0 b c \<Longrightarrow> agrees (disk_twin b0) (read off n b) (read off n c)"
  unfolding read_def Let_def
  by (auto simp: disk_twin_def same_disk_def go_slice_def split: option.splits
      intro!: gather_agrees agrees_and_then [OF block_agrees])


text \<open>A file given by its contents, read as \<^verbatim>\<open>os.File.ReadAt\<close> reads it, and the bytes a read stands for.\<close>

definition file_source :: "string \<Rightarrow> int \<Rightarrow> nat \<Rightarrow> string option" where
  "file_source s off n = Some (take n (drop (nat off) s))"

definition segment :: "string \<Rightarrow> int \<Rightarrow> int \<Rightarrow> string" where
  "segment s off n = take (nat n) (drop (nat off) s)"

lemma segment_append:
  "0 \<le> off \<Longrightarrow> 0 \<le> n \<Longrightarrow> 0 \<le> m \<Longrightarrow> segment s off n @ segment s (off + n) m = segment s off (n + m)"
  by (simp add: segment_def nat_add_distrib take_add add.commute [of "nat off"] flip: drop_drop)

lemma length_segment:
  "0 \<le> off \<Longrightarrow> 0 \<le> n \<Longrightarrow> off + n \<le> int (length s) \<Longrightarrow> int (length (segment s off n)) = n"
  by (simp add: segment_def min_def) linarith

lemma segment_segment:
  "0 \<le> off \<Longrightarrow> 0 \<le> lo \<Longrightarrow> lo \<le> hi \<Longrightarrow> hi \<le> n
    \<Longrightarrow> go_slice (segment s off n) lo hi = Returns (segment s (off + lo) (hi - lo)) \<or> int (length (segment s off n)) < hi"
  by (auto simp: go_slice_def segment_def drop_take nat_add_distrib nat_diff_distrib min_def ac_simps)

lemma disk_block_file:
  assumes "source b = file_source s" "rsize b = int (length s)" "0 \<le> i" "i * block_size \<le> rsize b"
  shows "disk_block b i = Some (segment s (i * block_size) (min block_size (rsize b - i * block_size)))"
proof -
  let ?n = "min block_size (rsize b - i * block_size)"
  have "int (length (segment s (i * block_size) ?n)) = ?n"
    using assms by (intro length_segment) (simp_all add: block_size_def)
  then have "length (take (nat ?n) (drop (nat (i * block_size)) s)) = nat ?n"
    unfolding segment_def by linarith
  then show ?thesis
    using assms(1) by (simp add: disk_block_def file_source_def filled_def segment_def Let_def)
qed


lemma block_file:
  assumes "sound b" "source b = file_source s" "rsize b = int (length s)" "0 \<le> i"
    "i * block_size \<le> int (length s)"
  shows "\<exists>b'. block i b = Returns
      (Some (segment s (i * block_size) (min block_size (int (length s) - i * block_size))), b')
    \<and> keeps_disk b b'"
  using block_sound [OF assms(1), of i] disk_block_file [OF assms(2,3), of i] assms by auto

lemma slice_segment:
  assumes "0 \<le> base" "0 \<le> lo" "lo \<le> hi" "hi \<le> m" "base + m \<le> int (length s)"
  shows "go_slice (segment s base m) lo hi = Returns (segment s (base + lo) (hi - lo))"
  using segment_segment [OF assms(1-4), of s] length_segment [of base m s] assms by auto

lemma gather_file:
  assumes disk: "source b = file_source s" "rsize b = int (length s)" "sound b"
    and bounds: "0 \<le> first * block_size" "first * block_size \<le> off" "off < (first + 1) * block_size"
      "final * block_size \<le> off + n - 1" "off + n - 1 < (final + 1) * block_size"
      "off + n \<le> int (length s)" "0 < n"
    and k: "first \<le> i" "int k = final - i + 1"
  shows "\<exists>b'. gather off n first final k i out b
      = Returns (Some (out @ segment s (max off (i * block_size)) (off + n - max off (i * block_size))), b')
    \<and> keeps_disk b b'"
  using disk k
proof (induction k arbitrary: i out b)
  case 0
  then have "i = final + 1" by simp
  then have "off + n - max off (i * block_size) \<le> 0" using bounds by auto
  then show ?case using 0 by (simp add: segment_def keeps_disk_def)
next
  case (Suc k)
  define m where "m = min block_size (int (length s) - i * block_size)"
  define lo where "lo = (if i = first then off - first * block_size else 0)"
  define hi where "hi = (if i = final then off + n - final * block_size else m)"
  have i: "first \<le> i" "i \<le> final" using Suc.prems by auto
  have le: "first * block_size \<le> i * block_size" "i * block_size \<le> final * block_size"
    using i by (simp_all add: block_size_def)
  have i0: "0 \<le> i" using le bounds(1) i by (simp add: block_size_def)
  have nxt: "i < final \<Longrightarrow> (i + 1) * block_size \<le> final * block_size"
    by (simp add: block_size_def)
  have fst: "first < i \<Longrightarrow> off < i * block_size"
    using bounds(3) by (simp add: block_size_def)
  have mlen: "i * block_size + m \<le> int (length s)" "0 \<le> m"
    using le bounds by (simp_all add: m_def block_size_def)
  have mfull: "i < final \<Longrightarrow> m = block_size"
    using nxt bounds by (simp add: m_def algebra_simps)
  have last: "i = final \<Longrightarrow> off + n - final * block_size \<le> m"
    using bounds by (simp add: m_def algebra_simps)
  have lohi: "0 \<le> lo" "lo \<le> hi" "hi \<le> m"
    using i le bounds mfull last fst mlen by (auto simp: lo_def hi_def algebra_simps)
  have pos: "i * block_size + lo = max off (i * block_size)"
    using i le bounds fst by (cases "i = first") (auto simp: lo_def max_def)
  have seglen: "int (length (segment s (i * block_size) m)) = m"
    using i0 mlen by (intro length_segment) (simp_all add: block_size_def)
  obtain b1 where b1: "block i b = Returns (Some (segment s (i * block_size) m), b1)" "keeps_disk b b1"
    using block_file [OF Suc.prems(3,1,2) i0] le bounds unfolding m_def by auto
  have base: "0 \<le> i * block_size" using i0 by (simp add: block_size_def)
  have slice: "go_slice (segment s (i * block_size) m) lo hi
      = Returns (segment s (max off (i * block_size)) (hi - lo))"
    using slice_segment [OF base lohi mlen(1)] by (simp add: pos)
  have b1k: "source b1 = file_source s" "rsize b1 = int (length s)" "sound b1"
    using b1(2) Suc.prems by (auto simp: keeps_disk_def)
  have k': "first \<le> i + 1" "int k = final - (i + 1) + 1" using i Suc.prems by auto
  obtain b2 where b2: "gather off n first final k (i + 1) (out @ segment s (max off (i * block_size)) (hi - lo)) b1
      = Returns (Some ((out @ segment s (max off (i * block_size)) (hi - lo))
          @ segment s (max off ((i + 1) * block_size)) (off + n - max off ((i + 1) * block_size))), b2)"
    "keeps_disk b1 b2"
    using Suc.IH [OF b1k k'] by blast
  have join: "segment s (max off (i * block_size)) (hi - lo)
      @ segment s (max off ((i + 1) * block_size)) (off + n - max off ((i + 1) * block_size))
      = segment s (max off (i * block_size)) (off + n - max off (i * block_size))"
  proof (cases "i = final")
    case True
    then have "off + n - max off ((i + 1) * block_size) \<le> 0" using bounds by auto
    moreover have "hi - lo = off + n - max off (i * block_size)"
      using True pos by (simp add: hi_def)
    ultimately show ?thesis by (simp add: segment_def)
  next
    case False
    then have "i < final" using i by simp
    then have step: "max off ((i + 1) * block_size) = max off (i * block_size) + (hi - lo)"
      using mfull nxt bounds pos i fst by (auto simp: hi_def max_def algebra_simps block_size_def)
    moreover have "0 \<le> max off (i * block_size)" using bounds by auto
    moreover have "0 \<le> off + n - max off ((i + 1) * block_size)"
      using nxt \<open>i < final\<close> bounds by auto
    ultimately have "segment s (max off (i * block_size)) (hi - lo)
        @ segment s (max off ((i + 1) * block_size)) (off + n - max off ((i + 1) * block_size))
      = segment s (max off (i * block_size)) (hi - lo + (off + n - max off ((i + 1) * block_size)))"
      using segment_append [of "max off (i * block_size)" "hi - lo"
          "off + n - max off ((i + 1) * block_size)" s] lohi by simp
    also have "hi - lo + (off + n - max off ((i + 1) * block_size)) = off + n - max off (i * block_size)"
      using step by simp
    finally show ?thesis .
  qed
  have nle: "\<not> (hi < lo \<or> int (length (segment s (i * block_size) m)) < hi)"
    using lohi seglen by simp
  have hi': "(if i = final then off + n - final * block_size
      else int (length (segment s (i * block_size) m))) = hi"
    by (simp add: hi_def seglen)
  show ?case
    using b2 b1(2)
    by (simp add: b1(1) hi' nle slice Let_def join flip: lo_def) (auto simp: keeps_disk_def)
qed

lemma read_file:
  assumes disk: "source b = file_source s" "rsize b = int (length s)" "sound b"
    and n: "0 \<le> off" "0 \<le> n" "n \<le> 1048576" "off + n \<le> int (length s)"
  shows "\<exists>b'. read off n b = Returns (Some (segment s off n), b') \<and> keeps_disk b b'"
proof (cases "n = 0")
  case True
  then show ?thesis
    using disk n by (simp add: read_def i64_id sound_def segment_def keeps_disk_def)
next
  case False
  have big: "off + n < 2 ^ 63" using disk n by (simp add: sound_def)
  have w: "i64 (off + n) = off + n" "i64 (off + n - 1) = off + n - 1"
    using n big by (simp_all add: i64_id)
  define first where "first = off div block_size"
  define final where "final = (off + n - 1) div block_size"
  have sd: "(off + n - 1) sdiv block_size = final"
    using n False by (simp add: final_def signed_divide_int_def block_size_def sgn_if)
  have b: "0 \<le> first * block_size" "first * block_size \<le> off" "off < (first + 1) * block_size"
      "final * block_size \<le> off + n - 1" "off + n - 1 < (final + 1) * block_size"
    using n by (simp_all add: first_def final_def block_size_def)
  have ff: "first \<le> final" using n False by (simp add: first_def final_def block_size_def zdiv_mono1)
  show ?thesis
  proof (cases "first = final")
    case True
    define m where "m = min block_size (int (length s) - first * block_size)"
    obtain b1 where b1: "block first b = Returns (Some (segment s (first * block_size) m), b1)"
      "keeps_disk b b1"
      using block_file [OF disk(3,1,2), of first] b n by (auto simp: m_def block_size_def)
    have m: "off - first * block_size + n \<le> m" "first * block_size + m \<le> int (length s)"
      using b True n by (auto simp: m_def algebra_simps)
    have "int (length (segment s (first * block_size) m)) = m"
      using b m n by (intro length_segment) simp_all
    moreover have "go_slice (segment s (first * block_size) m) (off - first * block_size)
        (off - first * block_size + n) = Returns (segment s off n)"
      using slice_segment [OF b(1) _ _ m(1) m(2)] b n by simp
    ultimately show ?thesis
      using n disk False b1 m True
      by (simp add: read_def w sd Let_def flip: first_def)
  next
    case False
    have "\<exists>b'. gather off n first final (nat (final - first + 1)) first [] b
        = Returns (Some ([] @ segment s (max off (first * block_size)) (off + n - max off (first * block_size))), b')
      \<and> keeps_disk b b'"
      using ff n \<open>n \<noteq> 0\<close> by (intro gather_file [OF disk b]) simp_all
    then show ?thesis
      using n disk False \<open>n \<noteq> 0\<close> b(2) by (simp add: read_def w sd Let_def max_def flip: first_def)
  qed
qed


section \<open>The operations on a file\<close>

text \<open>
  Two states of the same open file: the same disk and header, whatever their caches hold. \<open>twin\<close>
  adds that the operations below an entry leave everything but the block cache alone.
\<close>

definition same_header :: "jfile \<Rightarrow> jfile \<Rightarrow> bool" where
  "same_header f g \<longleftrightarrow> same_disk (rd f) (rd g) \<and> jsize f = jsize g \<and> compact f = compact g
     \<and> header_size f = header_size g \<and> entry_array f = entry_array g
     \<and> tail_realtime f = tail_realtime g"

definition only_cache :: "jfile \<Rightarrow> jfile \<Rightarrow> bool" where
  "only_cache f f' \<longleftrightarrow> same_disk (rd f) (rd f') \<and> (\<exists>b. f' = f\<lparr>rd := b\<rparr>)"

definition twin :: "jfile \<Rightarrow> jfile \<Rightarrow> jfile \<Rightarrow> jfile \<Rightarrow> bool" where
  "twin f0 g0 f g \<longleftrightarrow> same_header f g \<and> only_cache f0 f \<and> only_cache g0 g"

lemma twin_refl: "same_header f g \<Longrightarrow> twin f g f g"
  by (cases f; cases g) (auto simp: twin_def only_cache_def same_header_def same_disk_def)

lemma twin_fields:
  assumes "twin f0 g0 f g"
  shows "jsize f = jsize g" "compact f = compact g" "header_size f = header_size g"
    "entry_array f = entry_array g" "tail_realtime f = tail_realtime g"
  using assms by (simp_all add: twin_def same_header_def)

lemma fread_agrees: "twin f0 g0 f g \<Longrightarrow> agrees (twin f0 g0) (fread off n f) (fread off n g)"
  unfolding fread_def
  by (rule agrees_and_then [OF read_agrees [of "rd f0" "rd f" "rd g"]])
    (auto simp: twin_def same_header_def only_cache_def disk_twin_def same_disk_def)

lemma item_size_twin: "twin f0 g0 f g \<Longrightarrow> item_size f = item_size g"
  by (simp add: item_size_def twin_fields)

lemma agrees_twin:
  assumes "agrees (twin f0 g0) m n"
    "\<And>x s t. twin f0 g0 s t \<Longrightarrow> jsize s = jsize t \<Longrightarrow> compact s = compact t
      \<Longrightarrow> item_size s = item_size t \<Longrightarrow> agrees S (h (x, s)) (k (x, t))"
  shows "agrees S (and_then m h) (and_then n k)"
  by (rule agrees_and_then [OF assms(1)]) (simp add: assms(2) twin_fields(1,2) item_size_twin)

lemmas agrees_step = agrees_twin [OF fread_agrees]

lemma agrees_pure:
  "(\<And>x. agrees R (f x) (g x)) \<Longrightarrow> agrees R (and_then m f) (and_then m g)"
  by (cases m) simp_all

lemma object_agrees:
  assumes "twin f0 g0 f g"
  shows "agrees (twin f0 g0) (object off want f) (object off want g)"
  unfolding object_def twin_fields [OF assms]
  using assms
  by (auto simp: Let_def split: option.splits intro!: agrees_step agrees_pure)

lemma arrays_from_agrees:
  "twin f0 g0 f g \<Longrightarrow> agrees (twin f0 g0) (arrays_from i off out f) (arrays_from i off out g)"
proof (induction i arbitrary: off out f g)
  case (Suc i)
  show ?case
    unfolding arrays_from.simps using Suc.prems
    by (auto simp: Let_def split: option.splits
        intro!: agrees_twin [OF object_agrees] agrees_step agrees_pure Suc.IH)
qed simp

lemma arrays_agrees:
  assumes "twin f0 g0 f g"
  shows "agrees (twin f0 g0) (arrays f) (arrays g)"
  unfolding arrays_def twin_fields [OF assms] using assms by (rule arrays_from_agrees)

lemma read_data_agrees:
  assumes "twin f0 g0 f g"
  shows "agrees (twin f0 g0) (read_data off f) (read_data off g)"
  unfolding read_data_def
  by (rule agrees_twin [OF object_agrees [OF assms]])
    (auto simp: Let_def split: option.splits intro!: agrees_step agrees_pure)

section \<open>The memo of data objects\<close>

text \<open>\<open>forget f\<close>: the file with empty caches, as it was just after it was opened.\<close>

definition forget :: "jfile \<Rightarrow> jfile" where
  "forget f = f\<lparr>rd := new_block_reader (source (rd f)) (rsize (rd f)), known := []\<rparr>"

definition memo_sound :: "jfile \<Rightarrow> bool" where
  "memo_sound f \<longleftrightarrow> (\<forall>off fd. map_of (known f) off = Some fd \<longrightarrow>
     (\<exists>g. read_data off (forget f) = Returns (fd, g)))"

definition kin :: "jfile \<Rightarrow> jfile \<Rightarrow> bool" where
  "kin f g \<longleftrightarrow> same_header f g \<and> memo_sound f \<and> memo_sound g
     \<and> entries_scanned f = entries_scanned g \<and> compressed_items f = compressed_items g"

definition jfile_ok :: "jfile \<Rightarrow> bool" where
  "jfile_ok f \<longleftrightarrow> sound (rd f) \<and> memo_sound f"

lemma forget_header: "sound (rd f) \<Longrightarrow> same_header f (forget f)"
  by (auto simp: same_header_def forget_def same_disk_def sound_def new_block_reader_def)

lemma kin_forget: "jfile_ok f \<Longrightarrow> kin f (forget f)"
  using forget_header [of f]
  by (auto simp: kin_def jfile_ok_def memo_sound_def) (auto simp: forget_def)

lemma same_header_sym: "same_header f g \<Longrightarrow> same_header g f"
  by (auto simp: same_header_def same_disk_def)

lemma same_header_trans: "same_header f g \<Longrightarrow> same_header g h \<Longrightarrow> same_header f h"
  by (auto simp: same_header_def same_disk_def)

lemma read_data_value:
  assumes "same_header f g" "read_data off f = Returns (fd, f')"
  shows "\<exists>g'. read_data off g = Returns (fd, g') \<and> twin f g f' g'"
  using read_data_agrees [OF twin_refl [OF assms(1)], of off] assms(2)
  by (auto elim: agrees_cases)

lemma memo_soundD:
  assumes "memo_sound f" "map_of (known f) off = Some fd" "same_header f g"
  shows "\<exists>g'. read_data off g = Returns (fd, g') \<and> twin g g g' g'"
proof -
  have fg: "same_header (forget f) g"
    using forget_header assms(3) same_header_sym same_header_trans
    by (metis same_header_def same_disk_def)
  obtain h where "read_data off (forget f) = Returns (fd, h)" using assms by (auto simp: memo_sound_def)
  from read_data_value [OF fg this] show ?thesis
    by (auto simp: twin_def same_header_def same_disk_def)
qed

lemma memo_sound_cong:
  assumes "memo_sound f" "same_header f g" "known g = known f"
  shows "memo_sound g"
proof -
  have "same_header f (forget g)"
    using assms(2) forget_header same_header_trans by (metis same_header_def same_disk_def)
  then show ?thesis
    unfolding memo_sound_def assms(3) using memo_soundD [OF assms(1)] by blast
qed

lemma only_cacheD:
  assumes "only_cache f f'"
  shows "known f' = known f" "entries_scanned f' = entries_scanned f"
    "compressed_items f' = compressed_items f"
  using assms by (auto simp: only_cache_def)

lemma kin_twin:
  assumes "kin f g" "twin f g f' g'"
  shows "kin f' g'"
proof -
  have "same_header f f'" "same_header g g'"
    using assms by (auto simp: twin_def only_cache_def kin_def same_header_def)
  then show ?thesis
    using assms memo_sound_cong [of f f'] memo_sound_cong [of g g']
    by (auto simp: kin_def twin_def only_cacheD)
qed

text \<open>A field is remembered only after it has been read, so the memo stays sound.\<close>

lemma memo_insert:
  assumes "memo_sound f" "same_header f f'" "known f' = known f" "read_data off f = Returns (fd, f')"
  shows "memo_sound (f'\<lparr>known := (off, fd) # (if b then [] else known f')\<rparr>)"
proof -
  let ?f = "f'\<lparr>known := (off, fd) # (if b then [] else known f')\<rparr>"
  have h: "same_header f (forget ?f)"
    using assms(2) forget_header [of f'] same_header_trans
    by (auto simp: forget_def same_header_def same_disk_def)
  show ?thesis
    unfolding memo_sound_def
    using memo_soundD [OF assms(1) _ h] read_data_value [OF h assms(4)] assms(3)
    by (auto split: if_splits)
qed

definition stays :: "jfile \<Rightarrow> jfile \<Rightarrow> bool" where
  "stays f s \<longleftrightarrow> same_header f s \<and> memo_sound s \<and> entries_scanned s = entries_scanned f
     \<and> compressed_items s = compressed_items f"

lemma data_spec:
  assumes f: "memo_sound f" "sound (rd f)"
  shows "agrees (\<lambda>s t. stays f s) (data off f) (read_data off (forget f))"
proof (cases "map_of (known f) off")
  case None
  have h: "same_header f (forget f)" using f(2) by (rule forget_header)
  show ?thesis
    using read_data_agrees [OF twin_refl [OF h], of off]
  proof (cases rule: agrees_cases)
    case (ret fd f' g')
    then have f': "same_header f f'" "only_cache f f'"
      by (auto simp: twin_def only_cache_def same_header_def)
    have "memo_sound (f'\<lparr>known := (off, fd) # (if 16384 \<le> length (known f') then [] else known f')\<rparr>)"
      using f' f(1) ret by (intro memo_insert) (auto simp: only_cacheD)
    then show ?thesis
      using None ret f' by (simp add: data_def stays_def only_cacheD same_header_def)
  qed (simp_all add: data_def None)
next
  case (Some fd)
  then show ?thesis
    using memo_soundD [OF f(1) Some forget_header [OF f(2)]] f
    by (auto simp: data_def stays_def same_header_def same_disk_def)
qed

lemma agrees_join:
  assumes "agrees R m n" "agrees S m' n'" "agrees T n n'"
    "\<And>s t s' t'. R s t \<Longrightarrow> S s' t' \<Longrightarrow> Q s s'"
  shows "agrees Q m m'"
  using assms(1,2,3) by (elim agrees_cases) (auto intro: assms(4))

lemma data_agrees:
  assumes k: "kin f g"
  shows "agrees kin (data off f) (data off g)"
proof -
  have ok: "memo_sound f" "sound (rd f)" "memo_sound g" "sound (rd g)"
    using k by (auto simp: kin_def same_header_def same_disk_def)
  have "same_header (forget f) (forget g)"
    using k forget_header [OF ok(2)] forget_header [OF ok(4)] same_header_trans same_header_sym
    by (metis kin_def)
  from read_data_agrees [OF twin_refl [OF this]]
  show ?thesis
    by (rule agrees_join [OF data_spec [OF ok(1,2)] data_spec [OF ok(3,4)]])
      (use k in \<open>auto simp: kin_def stays_def same_header_def same_disk_def\<close>)
qed

section \<open>Entries, messages and walks\<close>

lemma kin_fields:
  assumes "kin f g"
  shows "compact f = compact g" "item_size f = item_size g" "entries_scanned f = entries_scanned g"
    "tail_time f = tail_time g" "compressed_items f = compressed_items g" "jsize f = jsize g"
  using assms by (simp_all add: kin_def same_header_def item_size_def tail_time_def)

lemma kin_of_twin: "kin f g \<Longrightarrow> agrees (twin f g) m n \<Longrightarrow> agrees kin m n"
  by (auto simp: agrees_def kin_twin split: outcome.splits prod.splits)

lemma twin_of_kin: "kin f g \<Longrightarrow> twin f g f g"
  by (simp add: kin_def twin_refl)

lemma kin_fread: "kin f g \<Longrightarrow> agrees kin (fread off n f) (fread off n g)"
  by (metis kin_of_twin fread_agrees twin_of_kin)

lemma kin_object: "kin f g \<Longrightarrow> agrees kin (object off want f) (object off want g)"
  by (metis kin_of_twin object_agrees twin_of_kin)

lemma kin_arrays: "kin f g \<Longrightarrow> agrees kin (arrays f) (arrays g)"
  by (metis kin_of_twin arrays_agrees twin_of_kin)

lemma agrees_kin:
  assumes "agrees kin m n"
    "\<And>x s t. kin s t \<Longrightarrow> compact s = compact t \<Longrightarrow> item_size s = item_size t
      \<Longrightarrow> entries_scanned s = entries_scanned t \<Longrightarrow> agrees S (h (x, s)) (k (x, t))"
  shows "agrees S (and_then m h) (and_then n k)"
  by (rule agrees_and_then [OF assms(1)]) (simp add: assms(2) kin_fields)

lemma kin_counters:
  assumes "kin f g"
  shows "kin (f\<lparr>compressed_items := n\<rparr>) (g\<lparr>compressed_items := n\<rparr>)"
    "kin (f\<lparr>entries_scanned := n\<rparr>) (g\<lparr>entries_scanned := n\<rparr>)"
  using assms memo_sound_cong [of f "f\<lparr>compressed_items := n\<rparr>"]
    memo_sound_cong [of g "g\<lparr>compressed_items := n\<rparr>"]
    memo_sound_cong [of f "f\<lparr>entries_scanned := n\<rparr>"]
    memo_sound_cong [of g "g\<lparr>entries_scanned := n\<rparr>"]
  by (auto simp: kin_def same_header_def same_disk_def)

lemma kin_entry_items:
  "kin f g \<Longrightarrow> agrees kin (entry_items items k i a f) (entry_items items k i a g)"
proof (induction k arbitrary: i a f g)
  case (Suc k)
  have c: "compact f = compact g" using Suc.prems by (rule kin_fields)
  show ?case
    unfolding entry_items.simps c using Suc.prems
    by (auto intro!: agrees_pure agrees_and_then [OF data_agrees] Suc.IH)
      (auto simp: kin_fields(5) intro!: kin_counters)
qed simp

lemma kin_entry: "kin f g \<Longrightarrow> agrees kin (entry off f) (entry off g)"
  unfolding entry_def
  by (erule agrees_kin [OF kin_object])
    (auto simp: Let_def split: option.splits
      intro!: agrees_kin [OF kin_fread] agrees_kin [OF kin_entry_items] agrees_pure)

lemma kin_message: "kin f g \<Longrightarrow> agrees kin (message e f) (message e g)"
  unfolding message_def
  by (auto simp: Let_def split: option.splits intro!: agrees_kin [OF kin_fread])

definition visits_alike :: "'s visitor \<Rightarrow> bool" where
  "visits_alike fn \<longleftrightarrow> (\<forall>off f g s. kin f g \<longrightarrow> agrees kin (fn off f s) (fn off g s))"

lemma kin_each_item:
  assumes "visits_alike fn"
  shows "kin f g \<Longrightarrow> agrees kin (each_item fn b k f s) (each_item fn b k g s)"
proof (induction k arbitrary: f g s)
  case (Suc k)
  have c: "compact f = compact g" using Suc.prems by (rule kin_fields)
  have "agrees kin (fn e f s) (fn e g s)" for e
    using assms Suc.prems by (simp add: visits_alike_def)
  then show ?case
    unfolding each_item.simps c using Suc.prems
    by (auto intro!: agrees_pure agrees_and_then [of kin "fn _ f s" "fn _ g s"] Suc.IH)
qed simp

lemma kin_each_chunk:
  assumes "visits_alike fn"
  shows "kin f g \<Longrightarrow> agrees kin (each_chunk fn off hi f s) (each_chunk fn off hi g s)"
proof (induction "nat hi" arbitrary: hi f g s rule: less_induct)
  case less
  have c: "item_size f = item_size g" using less.prems by (rule kin_fields)
  show ?case
  proof (cases "hi \<le> 0")
    case False
    have IH: "kin f g \<Longrightarrow> agrees kin (each_chunk fn off (max 0 (hi - items_chunk)) f s)
        (each_chunk fn off (max 0 (hi - items_chunk)) g s)" for f g s
      using False by (intro less.hyps) auto
    show ?thesis
      unfolding each_chunk.simps [of fn off hi] c Let_def using less.prems False
      by (auto split: option.splits
          intro!: agrees_kin [OF kin_fread] agrees_kin [OF kin_each_item [OF assms]] IH)
  qed (simp add: each_chunk.simps less.prems)
qed

lemma kin_each_array:
  assumes "visits_alike fn"
  shows "kin f g \<Longrightarrow> agrees kin (each_array fn as f s) (each_array fn as g s)"
proof (induction as arbitrary: f g s)
  case (Cons a as)
  then show ?case
    by (cases a) (auto intro!: agrees_kin [OF kin_each_chunk [OF assms]])
qed simp

lemma kin_each_entry:
  assumes "visits_alike fn"
  shows "kin f g \<Longrightarrow> agrees kin (each_entry fn f s) (each_entry fn g s)"
  unfolding each_entry_def
  by (erule agrees_kin [OF kin_arrays]) (auto intro!: agrees_kin [OF kin_each_array [OF assms]])

definition entry_visits_alike :: "'s entry_visitor \<Rightarrow> bool" where
  "entry_visits_alike fn \<longleftrightarrow> (\<forall>e f g s. kin f g \<longrightarrow> agrees kin (fn e f s) (fn e g s))"

lemma backward_visits_alike:
  assumes "entry_visits_alike fn"
  shows "visits_alike (backward_visit since limit fn)"
  unfolding visits_alike_def backward_visit_def
  using assms
  by (auto simp: Let_def kin_fields(3) entry_visits_alike_def kin_counters split: option.splits
      intro!: agrees_kin [OF kin_entry])

lemma kin_backward:
  assumes "entry_visits_alike fn" "kin f g"
  shows "agrees kin (backward since limit fn f s) (backward since limit fn g s)"
  unfolding backward_def using kin_each_entry [OF backward_visits_alike [OF assms(1)] assms(2)] .


section \<open>The readers of a file, as operations with an unseen cache\<close>

interpretation entries: unseen_cache kin entry
  by unfold_locales (rule kin_entry)

interpretation data_objects: unseen_cache kin data
  by unfold_locales (rule data_agrees)

interpretation messages: unseen_cache kin message
  by unfold_locales (rule kin_message)

end
