(* ===== verification/Journal_Walk.thy ===== *)
theory Journal_Walk
  imports Journal_Cache
begin

text \<open>
  What the walk over a journal file does: an object at an offset whose header would end past the
  largest \<^verbatim>\<open>int64\<close> makes it panic; every other offset is safe; the chain of arrays moves forward
  and stays inside the file; the entries are visited from the newest to the oldest, each once,
  whatever the size of the chunks they are read in; and the number of entries read is bounded.
\<close>

section \<open>Offsets\<close>

definition opened :: "jfile \<Rightarrow> bool" where
  "opened f \<longleftrightarrow> sound (rd f) \<and> rsize (rd f) = jsize f \<and> 200 \<le> header_size f
     \<and> header_size f \<le> jsize f \<and> jsize f < 2 ^ 62 \<and> entry_array f < 2 ^ 63"

definition in_file :: "jfile \<Rightarrow> jfile \<Rightarrow> bool" where
  "in_file f f' \<longleftrightarrow> opened f' \<and> (\<exists>b. f' = f\<lparr>rd := b\<rparr>)"

lemma in_file_refl: "opened f \<Longrightarrow> in_file f f"
  by (cases f) (auto simp: in_file_def)

lemma in_fileD:
  assumes "in_file f f'"
  shows "opened f'" "jsize f' = jsize f" "header_size f' = header_size f" "compact f' = compact f"
    "item_size f' = item_size f"
  using assms by (auto simp: in_file_def item_size_def)

lemma i64_high:
  assumes "9223372036854775792 \<le> x" "x < 9223372036854775808"
  shows "i64 (x + 16) = x + 16 - 18446744073709551616"
  using wrap_int_neg [of 64 "x + 16"] assms by simp

lemma object_offset_overflow:
  assumes f: "opened f"
    and off: "9223372036854775792 \<le> off" "off < 9223372036854775808" "off mod 8 = 0"
  shows "object off want f = Panics"
proof -
  have w: "i64 (off + 16) = off + 16 - 18446744073709551616"
    using off by (simp add: i64_high)
  have pass: "\<not> (off < header_size f \<or> off mod 8 \<noteq> 0 \<or> jsize f < i64 (off + 16))"
    using f off by (simp add: w opened_def)
  have off_cases: "off = 9223372036854775792 \<or> off = 9223372036854775800"
    using off by presburger
  have rs: "sound (rd f)" "rsize (rd f) = jsize f" "0 \<le> jsize f"
    using f by (auto simp: opened_def sound_def)
  have first: "off div block_size = 140737488355327"
    using off_cases by (auto simp: block_size_def)
  show ?thesis
  proof (cases "off = 9223372036854775792")
    case True
    have "i64 (i64 (off + 16) - 1) = 9223372036854775807"
      unfolding w True by (simp add: wrap_int_def)
    moreover have "block 140737488355327 (rd f) = Panics"
      using block_sound [OF rs(1), of 140737488355327] rs f by (simp add: block_size_def opened_def)
    ultimately have "read off 16 (rd f) = Panics"
      using True rs w first by (simp add: read_def block_size_def signed_divide_int_def)
    then show ?thesis using pass by (simp add: object_def fread_def)
  next
    case False
    then have o8: "off = 9223372036854775800" using off_cases by simp
    have "i64 (i64 (off + 16) - 1) = - 9223372036854775801"
      unfolding w o8 by (simp add: wrap_int_def)
    then have "read off 16 (rd f) = Returns (Some [], rd f)"
      using o8 rs w first by (simp add: read_def block_size_def signed_divide_int_def)
    then show ?thesis using pass by (simp add: object_def fread_def le_at_def)
  qed
qed

text \<open>A read that is inside the file: no panic, and as many bytes as were asked for.\<close>

lemma filled_length [simp]: "length (filled n s) = n"
  by (simp add: filled_def)

lemma block_safe:
  assumes "sound b" "i * block_size \<le> rsize b"
  shows "safely (\<lambda>(s, b'). keeps_disk b b'
      \<and> (\<forall>x. s = Some x \<longrightarrow> int (length x) = min block_size (rsize b - i * block_size))) (block i b)"
  using block_sound [OF assms(1), of i] assms(2) by (auto simp: disk_block_def Let_def block_size_def)

lemma go_slice_safe:
  "0 \<le> lo \<Longrightarrow> lo \<le> hi \<Longrightarrow> hi \<le> int (length s)
    \<Longrightarrow> safely (\<lambda>x. int (length x) = hi - lo) (go_slice s lo hi)"
  by (simp add: go_slice_def)

lemma keeps_disk_trans: "keeps_disk a b \<Longrightarrow> keeps_disk b c \<Longrightarrow> keeps_disk a c"
  by (simp add: keeps_disk_def)

lemma gather_safe:
  assumes bounds: "0 \<le> first * block_size" "first * block_size \<le> off" "off < (first + 1) * block_size"
      "final * block_size \<le> off + n - 1" "off + n - 1 < (final + 1) * block_size"
      "off + n \<le> rsize b" "0 < n"
    and k: "first \<le> i" "int k = final - i + 1"
    and start: "sound b" "int (length out) = min (max off (i * block_size)) (off + n) - off"
  shows "safely (\<lambda>(s, b'). keeps_disk b b' \<and> (\<forall>x. s = Some x \<longrightarrow> int (length x) = n))
    (gather off n first final k i out b)"
  using k start bounds(6)
proof (induction k arbitrary: i out b)
  case 0
  then have "i = final + 1" by simp
  then have "off + n \<le> max off (i * block_size)" using bounds(5) by auto
  with 0 show ?case using bounds by (simp add: keeps_disk_def)
next
  case (Suc k)
  have i: "first \<le> i" "i \<le> final" using Suc.prems by auto
  have le: "first * block_size \<le> i * block_size" "i * block_size \<le> final * block_size"
    using i by (simp_all add: block_size_def)
  have nxt: "i < final \<Longrightarrow> (i + 1) * block_size \<le> final * block_size"
    by (simp add: block_size_def)
  have fst: "first < i \<Longrightarrow> off < i * block_size"
    using bounds(3) by (simp add: block_size_def)
  have inb: "i * block_size \<le> rsize b" using le bounds(4) Suc.prems by auto
  define lo where "lo = (if i = first then off - first * block_size else 0)"
  have pos: "i * block_size + lo = max off (i * block_size)" and lo: "0 \<le> lo"
    using i le bounds fst by (cases "i = first"; auto simp: lo_def max_def)+
  have step: "safely (\<lambda>(s, b''). keeps_disk b b'' \<and> (\<forall>x. s = Some x \<longrightarrow> int (length x) = n))
      (if hi < lo \<or> int (length blk) < hi then Returns (None, b')
       else and_then (go_slice blk lo hi) (\<lambda>s. gather off n first final k (i + 1) (out @ s) b'))"
    if blk: "keeps_disk b b'" "int (length blk) = min block_size (rsize b - i * block_size)"
      and hi: "hi = (if i = final then off + n - final * block_size else int (length blk))"
    for b' blk hi
  proof (cases "hi < lo \<or> int (length blk) < hi")
    case False
    have blk_full: "i < final \<Longrightarrow> int (length blk) = block_size"
      using nxt bounds(4) Suc.prems(5) blk(2) by (simp add: algebra_simps)
    have len: "int (length (out @ s)) = min (max off ((i + 1) * block_size)) (off + n) - off"
      if "int (length s) = hi - lo" for s
    proof (cases "i = final")
      case True
      then show ?thesis
        using that hi Suc.prems(4) pos bounds(5) le bounds(4,7) by (auto simp: min_def max_def)
    next
      case f: False
      then have "i < final" using i by simp
      then show ?thesis
        using that hi Suc.prems(4) pos blk_full nxt bounds(4,7) fst bounds(3) i f
        by (auto simp: min_def max_def algebra_simps block_size_def)
    qed
    have b': "sound b'" "rsize b' = rsize b" using blk(1) by (auto simp: keeps_disk_def)
    have IH: "safely (\<lambda>(s, b''). keeps_disk b b'' \<and> (\<forall>x. s = Some x \<longrightarrow> int (length x) = n))
        (gather off n first final k (i + 1) (out @ s) b')" if "int (length s) = hi - lo" for s
    proof (rule safely_mono [OF Suc.IH [of "i + 1" b' "out @ s"]])
      show "off + n \<le> rsize b'" using b' Suc.prems(5) by simp
    qed (use i Suc.prems(2) b' len [OF that] blk(1) keeps_disk_trans in auto)
    have "safely (\<lambda>x. int (length x) = hi - lo) (go_slice blk lo hi)"
      using False lo by (intro go_slice_safe) auto
    then show ?thesis using False by (auto intro: safely_and_then IH)
  qed (use blk in simp)
  show ?case
    unfolding gather.simps
  proof (rule safely_and_then [OF block_safe [OF Suc.prems(3) inb]], goal_cases)
    case (1 p)
    obtain s b' where p: "p = (s, b')" by (cases p)
    show ?case
    proof (cases s)
      case None
      then show ?thesis using 1 p by simp
    next
      case (Some blk)
      show ?thesis
        unfolding p Some prod.case option.case Let_def lo_def [symmetric]
        by (rule step) (use 1 p Some in auto)
    qed
  qed
qed


lemma read_safe:
  assumes b: "sound b" and off: "off + n < 2 ^ 63" "- (2 ^ 63) \<le> off + n"
  shows "safely (\<lambda>(s, b'). keeps_disk b b'
      \<and> (\<forall>x. s = Some x \<longrightarrow> 0 \<le> off \<and> int (length x) = n \<and> off + n \<le> rsize b)) (read off n b)"
proof -
  have w: "i64 (off + n) = off + n" using off by (intro i64_id) simp_all
  show ?thesis
  proof (cases "off < 0 \<or> n < 0 \<or> rsize b < off + n \<or> 1048576 < n \<or> n = 0")
    case True
    then show ?thesis using b by (auto simp: read_def w keeps_disk_def)
  next
    case False
    then have n: "0 \<le> off" "0 < n" "off + n \<le> rsize b" by auto
    have w1: "i64 (off + n - 1) = off + n - 1" using n off by (intro i64_id) simp_all
    define first where "first = off div block_size"
    define final where "final = (off + n - 1) div block_size"
    have sd: "(off + n - 1) sdiv block_size = final"
      using n by (simp add: final_def signed_divide_int_def block_size_def sgn_if)
    have bd: "0 \<le> first * block_size" "first * block_size \<le> off" "off < (first + 1) * block_size"
        "final * block_size \<le> off + n - 1" "off + n - 1 < (final + 1) * block_size"
      using n by (simp_all add: first_def final_def block_size_def)
    have ff: "first \<le> final" using n by (simp add: first_def final_def block_size_def zdiv_mono1)
    have "safely (\<lambda>(s, b'). keeps_disk b b' \<and> (\<forall>x. s = Some x \<longrightarrow> int (length x) = n))
        (gather off n first final (nat (final - first + 1)) first [] b)"
      using ff n by (intro gather_safe [OF bd]) (simp_all add: b max_absorb1 bd)
    moreover have "safely (\<lambda>(s, b'). keeps_disk b b' \<and> (\<forall>x. s = Some x \<longrightarrow> int (length x) = n))
        (and_then (block first b) (\<lambda>(blk, b).
          case blk of None \<Rightarrow> Returns (None, b)
          | Some blk \<Rightarrow>
            (let start = off - first * block_size in
             if int (length blk) < start + n then Returns (None, b)
             else and_then (go_slice blk start (start + n)) (\<lambda>s. Returns (Some s, b)))))"
      using bd n
      by (intro safely_and_then [OF block_safe [OF b]])
        (auto simp: Let_def go_slice_def split: option.splits)
    ultimately show ?thesis
      using False by (auto simp: read_def w w1 sd Let_def simp flip: first_def elim!: safely_mono)
  qed
qed

lemma fread_safe:
  assumes f: "opened f" and off: "off + n < 2 ^ 63" "- (2 ^ 63) \<le> off + n"
  shows "safely (\<lambda>(s, f'). in_file f f'
      \<and> (\<forall>x. s = Some x \<longrightarrow> 0 \<le> off \<and> int (length x) = n \<and> off + n \<le> jsize f)) (fread off n f)"
  unfolding fread_def
  by (rule safely_and_then [OF read_safe [of "rd f" off n]])
    (use f off in \<open>auto simp: opened_def in_file_def keeps_disk_def\<close>)

lemma le_at_safe: "i + k \<le> length b \<Longrightarrow> safely (\<lambda>_. True) (le_at k b i)"
  by (simp add: le_at_def)

lemma signed64_range: "signed64 n < 2 ^ 63" "- (2 ^ 63) \<le> signed64 n"
  using wrap_int_range [of 64 "int n"] by (simp_all add: signed64_def)

lemma object_safe:
  assumes f: "opened f" and off: "off < 2 ^ 63 - 16"
  shows "safely (\<lambda>(r, f'). in_file f f' \<and>
      (\<forall>sz flags. r = Some (sz, flags) \<longrightarrow> header_size f \<le> off \<and> 16 \<le> sz \<and> off + sz \<le> jsize f))
    (object off want f)"
proof (cases "off < header_size f \<or> off mod 8 \<noteq> 0 \<or> jsize f < i64 (off + 16)")
  case True
  then show ?thesis using f by (auto simp: object_def in_file_refl)
next
  case False
  have "safely (\<lambda>(s, f'). in_file f f' \<and> (\<forall>x. s = Some x \<longrightarrow> int (length x) = 16)) (fread off 16 f)"
    using f off False by (intro safely_mono [OF fread_safe]) (auto simp: opened_def)
  then show ?thesis
    unfolding object_def using False
    by (auto simp: Let_def in_fileD split: option.splits
        elim!: safely_and_then intro!: safely_and_then [OF le_at_safe])
qed


lemma object_yields:
  assumes f: "opened f" and off: "off < 2 ^ 63"
  shows "yields (\<lambda>(r, f'). in_file f f' \<and>
      (\<forall>sz flags. r = Some (sz, flags) \<longrightarrow> header_size f \<le> off \<and> 16 \<le> sz \<and> off + sz \<le> jsize f))
    (object off want f)"
proof (cases "off < 2 ^ 63 - 16")
  case True
  then show ?thesis
    using object_safe [OF f True, of want] by (cases "object off want f") auto
next
  case False
  show ?thesis
  proof (cases "off mod 8 = 0")
    case True
    then have "object off want f = Panics" using object_offset_overflow [OF f] off False by simp
    then show ?thesis by simp
  next
    case m: False
    then show ?thesis using f by (simp add: object_def in_file_refl)
  qed
qed

lemma fread_yields:
  assumes "opened f" "off + n < 2 ^ 63" "- (2 ^ 63) \<le> off + n"
  shows "yields (\<lambda>(s, f'). in_file f f'
      \<and> (\<forall>x. s = Some x \<longrightarrow> 0 \<le> off \<and> int (length x) = n \<and> off + n \<le> jsize f)) (fread off n f)"
  using fread_safe [OF assms] by (cases "fread off n f") auto

lemma in_file_trans: "in_file f g \<Longrightarrow> in_file g h \<Longrightarrow> in_file f h"
  by (auto simp: in_file_def)

section \<open>The chain of arrays\<close>

definition fits :: "jfile \<Rightarrow> int \<times> int \<Rightarrow> bool" where
  "fits f a \<longleftrightarrow> header_size f \<le> fst a \<and> 0 \<le> snd a \<and> fst a + 24 + snd a * item_size f \<le> jsize f"

lemma item_size_pos [simp]: "0 < item_size f"
  by (simp add: item_size_def)

lemma arrays_from_yields:
  assumes "opened f" "off < 2 ^ 63" "sorted_wrt (<) (map fst out)" "\<forall>a\<in>set out. fst a < off \<and> fits f a"
  shows "yields (\<lambda>(as, f'). in_file f f' \<and> sorted_wrt (<) (map fst as)
      \<and> length as \<le> length out + i \<and> (\<forall>a\<in>set as. fits f a)) (arrays_from i off out f)"
  using assms
proof (induction i arbitrary: off out f)
  case 0
  then show ?case by (auto simp: in_file_refl)
next
  case (Suc i)
  let ?goal = "\<lambda>(as, f'). in_file f f' \<and> sorted_wrt (<) (map fst as)
      \<and> length as \<le> length out + Suc i \<and> (\<forall>a\<in>set as. fits f a)"
  have stop: "yields ?goal (Returns (out, g))" if "in_file f g" for g
    using that Suc.prems by auto
  have step: "yields ?goal (let out = out @ [(off, (sz - 24) div item_size h)] in
      if signed64 nx \<le> off then Returns (out, h) else arrays_from i (signed64 nx) out h)"
    if h: "in_file f h" and sz: "header_size f \<le> off" "24 \<le> sz" "off + sz \<le> jsize f" for sz h nx
  proof -
    have "(sz - 24) div item_size f * item_size f \<le> sz - 24"
      by (simp add: item_size_def) linarith
    then have fit: "fits f (off, (sz - 24) div item_size f)"
      using sz by (simp add: fits_def pos_imp_zdiv_nonneg_iff)
    have eq: "fits h = fits f" "item_size h = item_size f"
      using in_fileD [OF h] by (simp_all add: fits_def fun_eq_iff)
    show ?thesis
    proof (cases "signed64 nx \<le> off")
      case True
      then show ?thesis
        using fit Suc.prems h by (auto simp: eq sorted_wrt_append)
    next
      case False
      have "yields (\<lambda>(as, f'). in_file h f' \<and> sorted_wrt (<) (map fst as)
          \<and> length as \<le> length (out @ [(off, (sz - 24) div item_size h)]) + i
          \<and> (\<forall>a\<in>set as. fits h a))
        (arrays_from i (signed64 nx) (out @ [(off, (sz - 24) div item_size h)]) h)"
        using fit Suc.prems False signed64_range in_fileD(1) [OF h]
        by (intro Suc.IH) (auto simp: eq sorted_wrt_append)
      then show ?thesis
        using False by (auto simp: yields_def eq intro: in_file_trans [OF h] split: outcome.splits)
    qed
  qed
  show ?case
  proof (cases "off = 0")
    case True
    then show ?thesis using stop [OF in_file_refl [OF Suc.prems(1)]] by simp
  next
    case False
    show ?thesis
      unfolding arrays_from.simps if_not_P [OF False]
    proof (rule yields_and_then [OF object_yields [OF Suc.prems(1,2)]], clarify)
      fix r g
      assume g: "in_file f g" and r: "\<forall>sz flags. r = Some (sz, flags) \<longrightarrow>
        header_size f \<le> off \<and> 16 \<le> sz \<and> off + sz \<le> jsize f"
      show "yields ?goal (case r of None \<Rightarrow> Returns (out, g)
        | Some (sz, flags) \<Rightarrow>
          if sz < 24 then Returns (out, g)
          else and_then (fread (off + 16) 8 g) (\<lambda>(b, f).
            case b of None \<Rightarrow> Returns (out, f)
            | Some b \<Rightarrow>
              and_then (le_at 8 b 0) (\<lambda>nx.
              let out = out @ [(off, (sz - 24) div item_size f)] in
              if signed64 nx \<le> off then Returns (out, f)
              else arrays_from i (signed64 nx) out f)))"
      proof (cases "\<exists>sz flags. r = Some (sz, flags) \<and> 24 \<le> sz")
        case False
        then show ?thesis using stop [OF g] by (auto split: option.splits)
      next
        case True
        then obtain sz flags where sz: "r = Some (sz, flags)" "24 \<le> sz" by auto
        have o: "header_size f \<le> off" "off + sz \<le> jsize f" using r sz by auto
        have bnd: "off + 16 + 8 < 2 ^ 63" "- (2 ^ 63) \<le> off + 16 + 8"
          using o sz Suc.prems(1) by (auto simp: opened_def)
        show ?thesis
          unfolding sz option.case prod.case if_not_P [OF leD [OF sz(2)]]
        proof (rule yields_and_then [OF fread_yields [OF in_fileD(1) [OF g] bnd]], clarify)
          fix x h
          assume h: "in_file g h"
          then have fh: "in_file f h" using g by (blast intro: in_file_trans)
          show "yields ?goal (case x of None \<Rightarrow> Returns (out, h)
            | Some b \<Rightarrow>
              and_then (le_at 8 b 0) (\<lambda>nx.
              let out = out @ [(off, (sz - 24) div item_size h)] in
              if signed64 nx \<le> off then Returns (out, h)
              else arrays_from i (signed64 nx) out h))"
            by (cases x) (simp_all only: option.case stop [OF fh] yields_any step [OF fh o(1) sz(2) o(2)])
        qed
      qed
    qed
  qed
qed

lemma arrays_yields:
  assumes "opened f"
  shows "yields (\<lambda>(as, f'). in_file f f' \<and> sorted_wrt (<) (map fst as)
      \<and> length as \<le> 4096 \<and> (\<forall>a\<in>set as. fits f a)) (arrays f)"
  using arrays_from_yields [of f "entry_array f" "[]" 4096] assms
  by (simp add: arrays_def opened_def)

section \<open>Entries of a compact file\<close>

lemma fread_in:
  assumes "in_file f g" "a + n < 2 ^ 63" "0 \<le> a + n"
  shows "safely (\<lambda>(s, h). in_file f h \<and> (\<forall>x. s = Some x \<longrightarrow> int (length x) = n)) (fread a n g)"
  using assms in_file_trans [OF assms(1)]
  by (intro safely_mono [OF fread_safe]) (auto dest: in_fileD(1))

lemma opened_bounds:
  assumes "opened f"
  shows "jsize f < 4611686018427387904" "200 \<le> header_size f"
  using assms by (simp_all add: opened_def)

definition field_ok :: "field \<Rightarrow> bool" where
  "field_ok fd \<longleftrightarrow> 0 \<le> fd_at fd \<and> fd_at fd < 2 ^ 62 \<and> 0 \<le> fd_len fd"

lemma field_ok_plain [simp]:
  "field_ok other_field" "field_ok (other_field\<lparr>fd_kind := k\<rparr>)"
  "field_ok \<lparr>fd_kind = k, fd_val = v, fd_at = 0, fd_len = 0\<rparr>"
  by (simp_all add: field_ok_def other_field_def)

lemma field_ok_message:
  "0 \<le> a \<Longrightarrow> a < 2 ^ 62 \<Longrightarrow> 0 \<le> l
    \<Longrightarrow> field_ok \<lparr>fd_kind = KindMessage, fd_val = v, fd_at = a, fd_len = l\<rparr>"
  by (simp add: field_ok_def)

lemma index_byte_bound:
  "index_byte x c = Some i \<Longrightarrow> int (length x) = min m 65 \<Longrightarrow> int i < m"
  using index_byte_Some [of x c i] by auto

lemma read_data_safe:
  assumes f: "opened f" and off: "off < 2 ^ 63 - 16"
  shows "safely (\<lambda>(fd, f'). in_file f f' \<and> field_ok fd) (read_data off f)"
  unfolding read_data_def
proof (rule safely_and_then [OF object_safe [OF f off]], clarify, goal_cases)
  case (1 r g)
  then have g: "in_file f g" by auto
  show ?case
  proof (cases r)
    case None
    then show ?thesis using g by (simp add: Let_def)
  next
    case (Some a)
    then obtain sz flags where sz: "r = Some (sz, flags)" by (cases a) auto
    then have o: "200 \<le> off" "off + sz < 4611686018427387904" "16 \<le> sz"
      using 1 opened_bounds [OF f] by auto
    define pa :: int where "pa = (if compact g then 72 else 64)"
    show ?thesis
    proof (cases "sz \<le> pa \<or> flags mod 8 \<noteq> 0")
      case True
      then show ?thesis using g sz by (auto simp: Let_def pa_def)
    next
      case False
      then have sp: "\<not> sz \<le> pa" "\<not> flags mod 8 \<noteq> 0" by auto
      have pa: "0 < pa" "pa \<le> 72" by (simp_all add: pa_def)
      show ?thesis
        unfolding pa_def [symmetric] Let_def sz option.case prod.case if_not_P [OF sp(1)] if_not_P [OF sp(2)]
        by (rule safely_and_then [OF fread_in [OF g]])
          (use o sp pa in \<open>auto split: option.splits dest!: index_byte_bound
            intro!: safely_and_then [OF fread_in] field_ok_message\<close>)
    qed
  qed
qed


definition compact_open :: "jfile \<Rightarrow> bool" where
  "compact_open f \<longleftrightarrow> opened f \<and> compact f \<and> (\<forall>(off, fd)\<in>set (known f). field_ok fd)"

lemma compact_in_file: "compact_open f \<Longrightarrow> in_file f g \<Longrightarrow> compact_open g"
  by (auto simp: compact_open_def in_file_def)

lemma compact_updates [simp]:
  "compact_open (f\<lparr>compressed_items := n\<rparr>) = compact_open f"
  "compact_open (f\<lparr>entries_scanned := n\<rparr>) = compact_open f"
  by (simp_all add: compact_open_def opened_def)

lemma data_safe:
  assumes "compact_open f" "off < 2 ^ 32"
  shows "safely (\<lambda>(fd, f'). compact_open f' \<and> field_ok fd) (data off f)"
proof (cases "map_of (known f) off")
  case None
  have "safely (\<lambda>(fd, f'). in_file f f' \<and> field_ok fd) (read_data off f)"
    using assms by (intro read_data_safe) (simp_all add: compact_open_def)
  then show ?thesis
    unfolding data_def None option.case
    by (rule safely_and_then) (auto dest!: compact_in_file [OF assms(1)] simp: compact_open_def opened_def)
next
  case (Some fd)
  then have "field_ok fd" using assms(1) by (auto simp: compact_open_def dest: map_of_SomeD)
  then show ?thesis using Some by (simp add: data_def assms)
qed

lemma le_at_4: "safely (\<lambda>n. int n < 2 ^ 32) (le_at 4 b i)" if "i + 4 \<le> length b"
proof -
  have "le_nat (take 4 (drop i b)) < 256 ^ length (take 4 (drop i b))" by (rule le_nat_bound)
  also have "length (take 4 (drop i b)) = 4" using that by simp
  finally show ?thesis using that by (simp add: le_at_def)
qed

definition message_ok :: "entry \<Rightarrow> bool" where
  "message_ok e \<longleftrightarrow> 0 \<le> message_at e \<and> message_at e < 2 ^ 62 \<and> 0 \<le> message_len e"

lemma message_ok_add: "field_ok fd \<Longrightarrow> message_ok (g_entry g) \<Longrightarrow> message_ok (g_entry (add_field fd g))"
  by (auto simp: message_ok_def field_ok_def add_field_def split: field_kind.splits option.splits)

lemma blank_ok [simp]: "message_ok (blank_entry t)"
  by (simp add: message_ok_def blank_entry_def)

lemma message_ok_finish: "message_ok (g_entry g) \<Longrightarrow> message_ok (finish_entry g)"
  by (simp add: message_ok_def finish_entry_def)

lemma entry_items_safe:
  "compact_open f \<Longrightarrow> (i + k) * 4 \<le> length items \<Longrightarrow> message_ok (g_entry a)
    \<Longrightarrow> safely (\<lambda>(g, f'). compact_open f' \<and> message_ok (g_entry g)) (entry_items items k i a f)"
proof (induction k arbitrary: i a f)
  case (Suc k)
  have c: "compact f" using Suc.prems by (simp add: compact_open_def)
  have "safely (\<lambda>d. d < 2 ^ 32) (and_then (le_at 4 items (i * 4)) (\<lambda>n. Returns (int n)))"
    using Suc.prems(2) by (intro safely_and_then [OF le_at_4]) simp_all
  then show ?case
    unfolding entry_items.simps if_P [OF c] using Suc.prems
    by (auto elim!: safely_and_then intro!: safely_and_then [OF data_safe] Suc.IH message_ok_add)
qed simp

lemma entry_safe:
  assumes f: "compact_open f" and off: "off < 2 ^ 63 - 16"
  shows "safely (\<lambda>(e, f'). compact_open f' \<and> (\<forall>x. e = Some x \<longrightarrow> message_ok x)) (entry off f)"
  unfolding entry_def
proof (rule safely_and_then [OF object_safe], goal_cases)
  case (3 p)
  then obtain r g where p: "p = (r, g)" and g: "in_file f g" by (cases p) auto
  have o: "opened f" using f by (simp add: compact_open_def)
  have cg: "compact g" using compact_in_file [OF f g] by (simp add: compact_open_def)
  have cog: "compact_open g" by (rule compact_in_file [OF f g])
  show ?case
  proof (cases r)
    case None
    then show ?thesis using g p cog by simp
  next
    case (Some a)
    then obtain sz flags where sz: "r = Some (sz, flags)" by (cases a) auto
    then have b: "200 \<le> off" "off + sz < 4611686018427387904"
      using 3 p opened_bounds [OF o] by auto
    show ?thesis
    proof (cases "sz < 64")
      case True
      then show ?thesis using sz p cog by simp
    next
      case False
      define n where "n = min ((sz - 64) div 4) max_items"
      have n: "0 \<le> n" "n * 4 \<le> sz - 64" using False by (auto simp: n_def min_def)
      have items: "safely (\<lambda>(e, f'). compact_open f' \<and> (\<forall>x. e = Some x \<longrightarrow> message_ok x))
        (and_then (fread (off + 64) (n * 4) h) (\<lambda>(items, f).
          case items of None \<Rightarrow> Returns (None, f)
          | Some items \<Rightarrow>
            and_then (entry_items items (nat n) 0 a f) (\<lambda>(g, f). Returns (Some (finish_entry g), f))))"
        if h: "in_file f h" and a: "message_ok (g_entry a)" for h a
      proof (rule safely_and_then [OF fread_in [OF h]], goal_cases)
        case (3 q)
        then obtain its k where q: "q = (its, k)" "in_file f k" by (cases q) auto
        show ?case
        proof (cases its)
          case (Some x)
          then have "int (length x) = n * 4" using 3 q by auto
          then have "(0 + nat n) * 4 \<le> length x" using n by simp
          from entry_items_safe [OF compact_in_file [OF f q(2)] this a]
          show ?thesis unfolding q Some prod.case option.case
            by (rule safely_and_then) (auto intro: message_ok_finish)
        qed (use q compact_in_file [OF f q(2)] in simp)
      qed (use n b in auto)
      show ?thesis
        unfolding p prod.case sz option.case if_not_P [OF False]
      proof (rule safely_and_then [OF fread_in [OF g]], goal_cases)
        case (3 q)
        then obtain bs h where q: "q = (bs, h)" "in_file f h" by (cases q) auto
        have ch: "compact h" using compact_in_file [OF f q(2)] by (simp add: compact_open_def)
        show ?case
        proof (cases bs)
          case (Some x)
          then have x: "length x = 64" using 3 q by auto
          show ?thesis
            unfolding q Some prod.case option.case Let_def if_P [OF ch] n_def [symmetric]
            by (rule safely_and_then [OF le_at_safe]) (simp_all add: x items [OF q(2)] blank_ok)
        qed (use q compact_in_file [OF f q(2)] in simp)
      qed (use False b in auto)
    qed
  qed
qed (use f off in \<open>auto simp: compact_open_def\<close>)


section \<open>The order of the walk\<close>

text \<open>
  The entries an array holds, as they are on disk, and the walk over a list of entries with a
  callback \<open>g\<close> that does not use the file: the reference the loop over chunks is compared with.
\<close>

definition decode_item :: "bool \<Rightarrow> string \<Rightarrow> int" where
  "decode_item cmp x = (if cmp then int (le_nat x) else signed64 (le_nat x))"

definition array_item :: "string \<Rightarrow> bool \<Rightarrow> int \<Rightarrow> nat \<Rightarrow> int" where
  "array_item s cmp off k =
     (let w = (if cmp then 4 else 8) in decode_item cmp (segment s (off + 24 + int k * w) w))"

definition items_of :: "string \<Rightarrow> bool \<Rightarrow> int \<times> int \<Rightarrow> int list" where
  "items_of s cmp a = map (array_item s cmp (fst a)) [0..<nat (snd a)]"

fun walk :: "(int \<Rightarrow> 's \<Rightarrow> bool \<times> 's) \<Rightarrow> int list \<Rightarrow> 's \<Rightarrow> bool \<times> 's" where
  "walk g [] s = (True, s)"
| "walk g (e # es) s =
     (if e = 0 then walk g es s else (case g e s of (go, s) \<Rightarrow> if go then walk g es s else (False, s)))"

definition plain :: "(int \<Rightarrow> 's \<Rightarrow> bool \<times> 's) \<Rightarrow> 's visitor" where
  "plain g off f s = Returns (g off s, f)"

lemma walk_append: "walk g (xs @ ys) s = (case walk g xs s of (go, s) \<Rightarrow> if go then walk g ys s else (False, s))"
  by (induction xs arbitrary: s) (auto split: prod.splits)

definition on_disk :: "string \<Rightarrow> jfile \<Rightarrow> bool" where
  "on_disk s f \<longleftrightarrow> opened f \<and> source (rd f) = file_source s \<and> rsize (rd f) = int (length s)"

lemma on_diskD: "on_disk s f \<Longrightarrow> opened f" "on_disk s f \<Longrightarrow> jsize f = int (length s)"
  by (auto simp: on_disk_def opened_def)

lemma fread_disk:
  assumes "on_disk s f" "0 \<le> a" "0 \<le> n" "n \<le> 1048576" "a + n \<le> int (length s)"
  shows "\<exists>f'. fread a n f = Returns (Some (segment s a n), f') \<and> on_disk s f' \<and> compact f' = compact f"
proof -
  obtain b where "read a n (rd f) = Returns (Some (segment s a n), b)" "keeps_disk (rd f) b"
    using read_file [of "rd f" s a n] assms by (auto simp: on_disk_def opened_def)
  then show ?thesis
    using assms(1) by (auto simp: fread_def on_disk_def opened_def keeps_disk_def)
qed

lemma segment_sub:
  assumes "0 \<le> base" "int (j + m) \<le> n"
  shows "take m (drop j (segment s base n)) = segment s (base + int j) (int m)"
  using assms by (simp add: segment_def drop_take nat_add_distrib min_def ac_simps) 

lemma each_item_plain:
  assumes "compact f = cmp" "w = (if cmp then 4 else 8)" "k * w \<le> length b"
  shows "each_item (plain g) b k f st
    = Returns (walk g (rev (map (\<lambda>j. decode_item cmp (take w (drop (j * w) b))) [0..<k])) st, f)"
  using assms
proof (induction k arbitrary: st)
  case (Suc k)
  have "item_at cmp b k = Returns (decode_item cmp (take w (drop (k * w) b)))"
    using Suc.prems by (auto simp: item_at_def decode_item_def le_at_def)
  then show ?case
    using Suc by (auto simp: plain_def split: prod.splits)
qed simp

lemma each_chunk_plain:
  assumes "on_disk s f" "compact f = cmp" "0 \<le> off" "off + 24 + hi * item_size f \<le> int (length s)"
  shows "\<exists>f'. each_chunk (plain g) off hi f st
      = Returns (walk g (rev (map (array_item s cmp off) [0..<nat hi])) st, f')
    \<and> on_disk s f' \<and> compact f' = cmp"
  using assms
proof (induction "nat hi" arbitrary: hi f st rule: less_induct)
  case less
  show ?case
  proof (cases "hi \<le> 0")
    case True
    then show ?thesis using less.prems by (simp add: each_chunk.simps)
  next
    case False
    define w :: nat where "w = (if cmp then 4 else 8)"
    define lo where "lo = max 0 (hi - items_chunk)"
    have w: "item_size f = int w" "0 < w" "w \<le> 8" using less.prems by (simp_all add: item_size_def w_def)
    have lo: "0 \<le> lo" "lo < hi" "hi - lo \<le> 4096" using False by (auto simp: lo_def)
    have le: "lo * int w \<le> hi * int w" using lo by (simp add: mult_right_mono)
    have small: "(hi - lo) * int w \<le> 4096 * 8" using lo w by (intro mult_mono) auto
    define base where "base = off + 24 + lo * int w"
    have b0: "0 \<le> base" using lo less.prems w by (simp add: base_def)
    have fit: "base + (hi - lo) * int w \<le> int (length s)" "0 \<le> (hi - lo) * int w"
      using less.prems lo w by (simp_all add: base_def algebra_simps)
    obtain f1 where f1: "fread base ((hi - lo) * int w) f = Returns (Some (segment s base ((hi - lo) * int w)), f1)"
      "on_disk s f1" "compact f1 = cmp"
      using fread_disk [OF less.prems(1) b0 fit(2) _ fit(1)] small less.prems by auto
    have items: "decode_item cmp (take w (drop (j * w) (segment s base ((hi - lo) * int w))))
        = array_item s cmp off (nat lo + j)" if "j < nat (hi - lo)" for j
    proof -
      have "int (Suc j) * int w \<le> (hi - lo) * int w"
        using that by (intro mult_right_mono) auto
      then have "int (j * w + w) \<le> (hi - lo) * int w" by (simp add: algebra_simps)
      then show ?thesis
        using segment_sub [OF b0, of "j * w" w "(hi - lo) * int w" s] lo
        by (simp add: array_item_def Let_def base_def w_def algebra_simps)
    qed
    have chunk: "map (\<lambda>j. decode_item cmp (take w (drop (j * w) (segment s base ((hi - lo) * int w)))))
        [0..<nat (hi - lo)] = map (array_item s cmp off) [nat lo..<nat hi]"
      using lo items by (intro nth_equalityI) (simp_all add: nat_diff_distrib)
    have len: "nat (hi - lo) * w \<le> length (segment s base ((hi - lo) * int w))"
      using length_segment [OF b0 fit(2,1)] lo by (metis (no_types) nat_eq_iff nat_mult_distrib
        int_nat_eq le_refl nat_int diff_ge_0_iff_ge less_imp_le)
    let ?c = "map (array_item s cmp off) [nat lo..<nat hi]"
    have split: "[0..<nat hi] = [0..<nat lo] @ [nat lo..<nat hi]"
      using upt_add_eq_append [of 0 "nat lo" "nat hi - nat lo"] lo by simp
    have step: "each_chunk (plain g) off hi f st = (case walk g (rev ?c) st of (go, st') \<Rightarrow>
        if go then each_chunk (plain g) off lo f1 st' else Returns ((False, st'), f1))"
      unfolding each_chunk.simps [of "plain g" off hi] if_not_P [OF False] lo_def [symmetric] Let_def
        w(1) base_def [symmetric] f1(1) and_then_simps prod.case option.case
        each_item_plain [OF f1(3) w_def len] chunk
      by (simp split: prod.splits)
    have "\<exists>f'. each_chunk (plain g) off lo f1 st'
        = Returns (walk g (rev (map (array_item s cmp off) [0..<nat lo])) st', f')
      \<and> on_disk s f' \<and> compact f' = cmp" for st'
    proof (rule less.hyps)
      show "nat lo < nat hi" using lo by simp
      have "item_size f1 = int w" using f1(3) by (simp add: item_size_def w_def)
      then show "off + 24 + lo * item_size f1 \<le> int (length s)"
        using le less.prems(4) unfolding w(1) \<open>item_size f1 = int w\<close> by linarith
    qed (use f1 less.prems in auto)
    then show ?thesis
      unfolding step split using f1
      by (cases "walk g (rev ?c) st") (auto simp: walk_append)
  qed
qed


lemma each_array_plain:
  assumes "on_disk s f" "compact f = cmp"
    "\<forall>a\<in>set as. 0 \<le> fst a \<and> fst a + 24 + snd a * (if cmp then 4 else 8) \<le> int (length s)"
  shows "\<exists>f'. each_array (plain g) as f st
    = Returns (walk g (concat (map (rev \<circ> items_of s cmp) as)) st, f')"
  using assms
proof (induction as arbitrary: f st)
  case (Cons a as)
  obtain off n where a: "a = (off, n)" by (cases a)
  have fit: "0 \<le> off" "off + 24 + n * item_size f \<le> int (length s)"
    using Cons.prems a by (auto simp: item_size_def)
  obtain f1 where f1: "each_chunk (plain g) off n f st
      = Returns (walk g (rev (items_of s cmp a)) st, f1)" "on_disk s f1" "compact f1 = cmp"
    using each_chunk_plain [OF Cons.prems(1,2) fit, of g st] unfolding items_of_def a fst_conv snd_conv
    by blast
  obtain go st' where go: "walk g (rev (items_of s cmp a)) st = (go, st')"
    by (cases "walk g (rev (items_of s cmp a)) st")
  have as: "\<forall>a\<in>set as. 0 \<le> fst a \<and> fst a + 24 + snd a * (if cmp then 4 else 8) \<le> int (length s)"
    using Cons.prems(3) by simp
  show ?case
    using Cons.IH [OF f1(2,3) as, of st'] f1(1) by (auto simp: a [symmetric] go walk_append) (simp_all add: a f1(1) go)
qed simp

lemma arrays_on_disk:
  assumes "on_disk s f" "arrays f = Returns (as, f')"
  shows "on_disk s f'" "compact f' = compact f" "\<forall>a\<in>set as. fits f a"
proof -
  have y: "in_file f f'" "\<forall>a\<in>set as. fits f a"
    using arrays_yields [of f] assms by (auto simp: on_disk_def)
  have "same_header f f"
    using assms(1) by (simp add: same_header_def same_disk_def on_disk_def opened_def)
  from arrays_agrees [OF twin_refl [OF this]] have "twin f f f' f'" using assms(2) by simp
  then have "source (rd f') = source (rd f)" "rsize (rd f') = rsize (rd f)"
    by (auto simp: twin_def only_cache_def same_disk_def)
  then show "on_disk s f'" "compact f' = compact f" "\<forall>a\<in>set as. fits f a"
    using y assms(1) in_fileD [OF y(1)] by (auto simp: on_disk_def)
qed

lemma each_entry_plain:
  assumes f: "on_disk s f" and arrs: "arrays f = Returns (as, f1)"
  shows "\<exists>f'. each_entry (plain g) f st
    = Returns (snd (walk g (rev (concat (map (items_of s (compact f)) as))) st), f')"
proof -
  note d = arrays_on_disk [OF f arrs]
  have "\<forall>a\<in>set (rev as). 0 \<le> fst a \<and> fst a + 24 + snd a * (if compact f then 4 else 8) \<le> int (length s)"
    using d(3) opened_bounds [OF on_diskD(1) [OF f]] on_diskD(2) [OF f] by (auto simp: fits_def item_size_def)
  from each_array_plain [OF d(1,2) this, of g st]
  obtain f' where "each_array (plain g) (rev as) f1 st
      = Returns (walk g (concat (map (rev \<circ> items_of s (compact f)) (rev as))) st, f')"
    by blast
  moreover have "concat (map (rev \<circ> items_of s (compact f)) (rev as))
      = rev (concat (map (items_of s (compact f)) as))"
    by (simp add: rev_concat rev_map map_map comp_assoc)
  ultimately show ?thesis
    by (simp add: each_entry_def arrs split: prod.splits)
qed

section \<open>The bounds of a walk\<close>

text \<open>
  A walk keeps what its callback and the reads of the file keep. \<open>scans limit n f\<close>: the entries
  scanned stay at most \<open>limit\<close>, and none is uncounted.
\<close>

definition stable :: "(jfile \<Rightarrow> 's \<Rightarrow> bool) \<Rightarrow> bool" where
  "stable I \<longleftrightarrow> (\<forall>f s b k n. I f s \<longrightarrow> I (f\<lparr>rd := b\<rparr>) s \<and> I (f\<lparr>known := k\<rparr>) s \<and> I (f\<lparr>compressed_items := n\<rparr>) s)"

definition keeps_visit :: "(jfile \<Rightarrow> 's \<Rightarrow> bool) \<Rightarrow> 's visitor \<Rightarrow> bool" where
  "keeps_visit I fn \<longleftrightarrow> (\<forall>off f s. I f s \<longrightarrow> yields (\<lambda>((go, s), f). I f s) (fn off f s))"

lemma fread_stable: "stable I \<Longrightarrow> I f s \<Longrightarrow> yields (\<lambda>(x, f). I f s) (fread off n f)"
  unfolding fread_def by (rule yields_any) (auto simp: stable_def)

lemma yields_le_at:
  "(\<And>n. yields Q (h n)) \<Longrightarrow> yields Q (and_then (le_at k b i) h)"
  by (rule yields_any)

lemma object_stable: "stable I \<Longrightarrow> I f s \<Longrightarrow> yields (\<lambda>(x, f). I f s) (object off want f)"
  unfolding object_def
  by (auto simp: Let_def split: option.splits
      intro!: yields_and_then [OF fread_stable [of I _ s]] yields_le_at)

lemma arrays_from_stable:
  "stable I \<Longrightarrow> I f s \<Longrightarrow> yields (\<lambda>(x, f). I f s) (arrays_from i off out f)"
proof (induction i arbitrary: off out f)
  case (Suc i)
  then show ?case
    by (auto simp: Let_def split: option.splits
        intro!: yields_and_then [OF object_stable [of I _ s]] yields_and_then [OF fread_stable [of I _ s]] yields_le_at)
qed simp

lemma read_data_stable: "stable I \<Longrightarrow> I f s \<Longrightarrow> yields (\<lambda>(x, f). I f s) (read_data off f)"
  unfolding read_data_def
  by (rule yields_and_then [OF object_stable [of I _ s]])
    (auto simp: Let_def split: option.splits intro!: yields_and_then [OF fread_stable [of I _ s]] yields_le_at)

lemma data_stable: "stable I \<Longrightarrow> I f s \<Longrightarrow> yields (\<lambda>(x, f). I f s) (data off f)"
  unfolding data_def
  by (auto split: option.splits intro!: yields_and_then [OF read_data_stable [of I _ s]]) (auto simp: stable_def)

lemma entry_items_stable:
  "stable I \<Longrightarrow> I f s \<Longrightarrow> yields (\<lambda>(x, f). I f s) (entry_items items k i a f)"
proof (induction k arbitrary: i a f)
  case (Suc k)
  have "yields (\<lambda>(x, f). I f s)
      (and_then (data d f) (\<lambda>(fd, f). entry_items items k (Suc i) (add_field fd a)
         (if fd_kind fd = KindCompressed then f\<lparr>compressed_items := Suc (compressed_items f)\<rparr> else f)))" for d
    using Suc.prems
    by (auto intro!: yields_and_then [OF data_stable [of I _ s]] Suc.IH) (auto simp: stable_def)
  then show ?case unfolding entry_items.simps by (rule yields_any)
qed simp

lemma entry_stable: "stable I \<Longrightarrow> I f s \<Longrightarrow> yields (\<lambda>(x, f). I f s) (entry off f)"
  unfolding entry_def
  by (rule yields_and_then [OF object_stable [of I _ s]])
    (auto simp: Let_def split: option.splits
      intro!: yields_and_then [OF fread_stable [of I _ s]] yields_and_then [OF entry_items_stable [of I _ s]] yields_le_at)

lemma message_stable: "stable I \<Longrightarrow> I f s \<Longrightarrow> yields (\<lambda>(x, f). I f s) (message e f)"
  unfolding message_def
  by (auto simp: Let_def split: option.splits intro!: yields_and_then [OF fread_stable [of I _ s]])

lemma each_item_keeps:
  assumes "keeps_visit I fn"
  shows "I f s \<Longrightarrow> yields (\<lambda>((go, s), f). I f s) (each_item fn b k f s)"
proof (induction k arbitrary: f s)
  case (Suc k)
  have fn: "yields (\<lambda>((go, s), f). I f s) (fn e f s)" for e
    using assms Suc.prems by (auto simp: keeps_visit_def)
  show ?case
    unfolding each_item.simps using Suc
    by (intro yields_any) (auto intro!: yields_and_then [OF fn])
qed simp

lemma each_chunk_keeps:
  assumes "stable I" "keeps_visit I fn"
  shows "I f s \<Longrightarrow> yields (\<lambda>((go, s), f). I f s) (each_chunk fn off hi f s)"
proof (induction "nat hi" arbitrary: hi f s rule: less_induct)
  case less
  show ?case
  proof (cases "hi \<le> 0")
    case False
    have IH: "I f s \<Longrightarrow> yields (\<lambda>((go, s), f). I f s) (each_chunk fn off (max 0 (hi - items_chunk)) f s)"
      for f s using False by (intro less.hyps) auto
    show ?thesis
      unfolding each_chunk.simps [of fn off hi] Let_def using less.prems False
      by (auto split: option.splits intro!: yields_and_then [OF fread_stable [OF assms(1), of _ s]]
          yields_and_then [OF each_item_keeps [OF assms(2)]] IH)
  qed (simp add: each_chunk.simps less.prems)
qed

lemma each_array_keeps:
  assumes "stable I" "keeps_visit I fn"
  shows "I f s \<Longrightarrow> yields (\<lambda>((go, s), f). I f s) (each_array fn as f s)"
proof (induction as arbitrary: f s)
  case (Cons a as)
  then show ?case
    by (cases a) (auto intro!: yields_and_then [OF each_chunk_keeps [OF assms]])
qed simp

lemma each_entry_keeps:
  assumes "stable I" "keeps_visit I fn" "I f s"
  shows "yields (\<lambda>(s, f). I f s) (each_entry fn f s)"
proof -
  have "yields (\<lambda>(x, f). I f s) (arrays f)"
    unfolding arrays_def using assms by (intro arrays_from_stable)
  then show ?thesis
    unfolding each_entry_def
    by (rule yields_and_then) (auto intro!: yields_and_then [OF each_array_keeps [OF assms(1,2)]])
qed

lemma backward_keeps:
  assumes st: "stable I"
    and fn: "\<And>e f s. I f s \<Longrightarrow> entries_scanned f < limit \<Longrightarrow> since \<le> at_time e
      \<Longrightarrow> yields (\<lambda>((go, s), f). I f s) (fn e (f\<lparr>entries_scanned := Suc (entries_scanned f)\<rparr>) s)"
    and cnt: "\<And>f s. I f s \<Longrightarrow> entries_scanned f < limit
      \<Longrightarrow> I (f\<lparr>entries_scanned := Suc (entries_scanned f)\<rparr>) s"
    and I: "I f s"
  shows "yields (\<lambda>(s, f). I f s) (backward since limit fn f s)"
  unfolding backward_def
proof (rule each_entry_keeps [OF st _ I])
  have step: "yields (\<lambda>((go, s), f). I f s)
      (and_then (entry off f) (\<lambda>(e, f). case e of None \<Rightarrow> Returns ((True, s), f)
        | Some e \<Rightarrow> (let f = f\<lparr>entries_scanned := Suc (entries_scanned f)\<rparr> in
           if at_time e < since then Returns ((False, s), f) else fn e f s)))"
    if "I f s" "entries_scanned f < limit" for off f s
  proof (rule yields_and_then [OF entry_stable [of "\<lambda>f s. I f s \<and> entries_scanned f < limit"]])
    show "stable (\<lambda>f s. I f s \<and> entries_scanned f < limit)" using st by (simp add: stable_def)
    show "I f s \<and> entries_scanned f < limit" using that by simp
    fix a :: "entry option \<times> jfile"
    assume "case a of (x, f) \<Rightarrow> I f s \<and> entries_scanned f < limit"
    then show "yields (\<lambda>((go, s), f). I f s) (case a of (e, f) \<Rightarrow>
        case e of None \<Rightarrow> Returns ((True, s), f)
        | Some e \<Rightarrow> (let f = f\<lparr>entries_scanned := Suc (entries_scanned f)\<rparr> in
           if at_time e < since then Returns ((False, s), f) else fn e f s))"
      by (auto simp: Let_def cnt not_less intro!: fn split: option.splits)
  qed
  show "keeps_visit I (backward_visit since limit fn)"
    unfolding keeps_visit_def backward_visit_def using step by (auto simp: not_le)
qed


section \<open>Nothing here runs for ever\<close>

named_theorems ends \<open>functions of the journal reader that always end\<close>

lemma block_ends [ends]: "halts (block i b)"
  by (auto simp: block_def Let_def split: option.splits)

lemma go_slice_ends [ends]: "halts (go_slice s lo hi)"
  by (simp add: go_slice_def)

lemma le_at_ends [ends]: "halts (le_at k b i)"
  by (simp add: le_at_def)

lemma gather_ends [ends]: "halts (gather off n first final k i out b)"
proof (induction k arbitrary: i out b)
  case (Suc k)
  then show ?case
    by (auto simp: Let_def ends split: option.splits intro!: halts_and_then)
qed simp

lemma read_ends [ends]: "halts (read off n b)"
  by (auto simp: read_def Let_def ends split: option.splits intro!: halts_and_then)

lemma fread_ends [ends]: "halts (fread off n f)"
  by (auto simp: fread_def ends intro!: halts_and_then)

lemma object_ends [ends]: "halts (object off want f)"
  by (auto simp: object_def Let_def ends split: option.splits intro!: halts_and_then)

lemma arrays_from_ends [ends]: "halts (arrays_from i off out f)"
proof (induction i arbitrary: off out f)
  case (Suc i)
  then show ?case
    by (auto simp: Let_def ends split: option.splits intro!: halts_and_then)
qed simp

lemma read_data_ends [ends]: "halts (read_data off f)"
  by (auto simp: read_data_def Let_def ends split: option.splits intro!: halts_and_then)

lemma data_ends [ends]: "halts (data off f)"
  by (auto simp: data_def ends split: option.splits intro!: halts_and_then)

lemma entry_items_ends [ends]: "halts (entry_items items k i a f)"
proof (induction k arbitrary: i a f)
  case (Suc k)
  then show ?case by (auto simp: ends intro!: halts_and_then)
qed simp

lemma entry_ends [ends]: "halts (entry off f)"
  by (auto simp: entry_def Let_def ends split: option.splits intro!: halts_and_then)

lemma message_ends [ends]: "halts (message e f)"
  by (auto simp: message_def Let_def ends split: option.splits intro!: halts_and_then)

section \<open>A walk over a compact file returns\<close>

definition visits_surely :: "'s visitor \<Rightarrow> bool" where
  "visits_surely fn \<longleftrightarrow> (\<forall>off f s. off < 2 ^ 32 \<and> compact_open f \<longrightarrow>
     surely (\<lambda>((go, s), f). compact_open f) (fn off f s))"

lemma compact_opened: "compact_open f \<Longrightarrow> opened f" "compact_open f \<Longrightarrow> compact f"
  by (simp_all add: compact_open_def)

lemma each_item_surely:
  assumes fn: "visits_surely fn"
  shows "compact_open f \<Longrightarrow> k * 4 \<le> length b
    \<Longrightarrow> surely (\<lambda>((go, s), f). compact_open f) (each_item fn b k f s)"
proof (induction k arbitrary: f s)
  case (Suc k)
  have item: "surely (\<lambda>e. e < 2 ^ 32) (item_at (compact f) b k)"
    using Suc.prems le_at_4 [of "k * 4" b] compact_opened(2) [OF Suc.prems(1)]
    by (auto simp: item_at_def surely_safely ends intro: safely_and_then intro!: halts_and_then)
  have visit: "surely (\<lambda>((go, s), f). compact_open f) (fn e f s)" if "e < 2 ^ 32" for e
    using fn Suc.prems that by (auto simp: visits_surely_def)
  show ?case
    unfolding each_item.simps using Suc
    by (intro surely_and_then [OF item]) (auto intro!: surely_and_then [OF visit])
qed simp

lemma fread_surely:
  assumes "compact_open f" "a + n < 2 ^ 63" "0 \<le> a + n"
  shows "surely (\<lambda>(s, h). compact_open h \<and> (\<forall>x. s = Some x \<longrightarrow> int (length x) = n)) (fread a n f)"
  using fread_in [OF in_file_refl [OF compact_opened(1) [OF assms(1)]] assms(2,3)]
  by (auto simp: surely_safely ends elim!: safely_mono dest: compact_in_file [OF assms(1)])

lemma each_chunk_surely:
  assumes fn: "visits_surely fn"
  shows "compact_open f \<Longrightarrow> 0 \<le> off \<Longrightarrow> off + 24 + hi * 4 < 2 ^ 62
    \<Longrightarrow> surely (\<lambda>((go, s), f). compact_open f) (each_chunk fn off hi f s)"
proof (induction "nat hi" arbitrary: hi f s rule: less_induct)
  case less
  show ?case
  proof (cases "hi \<le> 0")
    case False
    define lo where "lo = max 0 (hi - items_chunk)"
    have lo: "0 \<le> lo" "lo < hi" using False by (auto simp: lo_def)
    have IH: "compact_open f \<Longrightarrow> surely (\<lambda>((go, s), f). compact_open f) (each_chunk fn off lo f s)" for f s
      using lo less.prems by (intro less.hyps) auto
    have item: "item_size f = 4" using compact_opened(2) [OF less.prems(1)] by (simp add: item_size_def)
    have rd: "surely (\<lambda>(s, h). compact_open h \<and> (\<forall>x. s = Some x \<longrightarrow> int (length x) = (hi - lo) * 4))
        (fread (off + 24 + lo * 4) ((hi - lo) * 4) f)"
      using less.prems lo by (intro fread_surely) (auto simp: algebra_simps)
    show ?thesis
      unfolding each_chunk.simps [of fn off hi] if_not_P [OF False] lo_def [symmetric] Let_def item
      using lo by (intro surely_and_then [OF rd])
        (auto split: option.splits intro!: surely_and_then [OF each_item_surely [OF fn]] IH)
  qed (simp add: each_chunk.simps less.prems)
qed

lemma each_array_surely:
  assumes fn: "visits_surely fn"
  shows "compact_open f \<Longrightarrow> \<forall>a\<in>set as. 0 \<le> fst a \<and> fst a + 24 + snd a * 4 < 2 ^ 62
    \<Longrightarrow> surely (\<lambda>((go, s), f). compact_open f) (each_array fn as f s)"
proof (induction as arbitrary: f s)
  case (Cons a as)
  have IH: "surely (\<lambda>((go, s), f). compact_open f) (each_array fn as f s)" if "compact_open f" for f s
    by (rule Cons.IH [OF that]) (use Cons.prems(2) in simp)
  have IH': "surely (\<lambda>(a, y). compact_open y) (each_array fn as f s)" if "compact_open f" for f s
    by (rule surely_mono [OF IH [OF that]]) auto
  obtain off n where a: "a = (off, n)" by (cases a)
  have "surely (\<lambda>((go, s), f). compact_open f) (each_chunk fn off n f s)"
    using Cons.prems a by (intro each_chunk_surely [OF fn]) auto
  then show ?case
    unfolding a each_array.simps by (rule surely_and_then) (auto split: prod.splits intro: IH')
qed simp

lemma each_entry_surely:
  assumes fn: "visits_surely fn" and f: "compact_open f" and arrs: "arrays f \<noteq> Panics"
  shows "surely (\<lambda>(s, f). compact_open f) (each_entry fn f s)"
proof -
  have o: "opened f" "compact f" using f by (simp_all add: compact_opened)
  obtain as f1 where as: "arrays f = Returns (as, f1)"
    using arrs arrays_from_ends [of 4096 "entry_array f" "[]" f]
    by (cases "arrays f") (auto simp: arrays_def)
  have y: "in_file f f1" "\<forall>a\<in>set as. fits f a"
    using arrays_yields [OF o(1)] as by auto
  have "\<forall>a\<in>set (rev as). 0 \<le> fst a \<and> fst a + 24 + snd a * 4 < 2 ^ 62"
    using y(2) o opened_bounds [OF o(1)] by (auto simp: fits_def item_size_def)
  from each_array_surely [OF fn compact_in_file [OF f y(1)] this, of s]
  show ?thesis
    unfolding each_entry_def as and_then_simps prod.case by (rule surely_and_then) auto
qed

definition entry_visits_surely :: "'s entry_visitor \<Rightarrow> bool" where
  "entry_visits_surely fn \<longleftrightarrow> (\<forall>e f s. message_ok e \<and> compact_open f \<longrightarrow>
     surely (\<lambda>((go, s), f). compact_open f) (fn e f s))"

lemma backward_surely:
  assumes fn: "entry_visits_surely fn" and f: "compact_open f" and arrs: "arrays f \<noteq> Panics"
  shows "surely (\<lambda>(s, f). compact_open f) (backward since limit fn f s)"
  unfolding backward_def
proof (rule each_entry_surely [OF _ f arrs])
  have entry: "surely (\<lambda>(e, f'). compact_open f' \<and> (\<forall>x. e = Some x \<longrightarrow> message_ok x)) (entry off f)"
    if "compact_open f" "off < 2 ^ 32" for off f
    using entry_safe [of f off] that by (simp add: surely_safely ends)
  show "visits_surely (backward_visit since limit fn)"
    unfolding visits_surely_def backward_visit_def
    using fn by (auto simp: Let_def entry_visits_surely_def split: option.splits
        intro!: surely_and_then [OF entry])
qed

lemma message_surely:
  assumes "message_ok e" "compact_open f"
  shows "surely (\<lambda>(m, f). compact_open f) (message e f)"
proof -
  have rd: "surely (\<lambda>(s, h). compact_open h \<and> (\<forall>x. s = Some x \<longrightarrow> int (length x) = min (message_len e) journal_max_message))
      (fread (message_at e) (min (message_len e) journal_max_message) f)"
    using assms by (intro fread_surely) (auto simp: message_ok_def)
  show ?thesis
    unfolding message_def using assms(2)
    by (auto simp: Let_def split: option.splits intro!: surely_and_then [OF rd])
qed

end
