(* ===== verification/Go_Utf8.thy ===== *)
theory Go_Utf8
  imports Prelude
begin

text \<open>
  UTF-8 as Go's \<^verbatim>\<open>unicode/utf8\<close> reads it, \<^verbatim>\<open>strings.ToValidUTF8\<close>, and the agent's \<open>clip\<close>, which cuts
  a string to a number of bytes without cutting a rune (the same function in \<^verbatim>\<open>internal/jobs/jobs.go\<close>
  and \<^verbatim>\<open>internal/journal/journal.go\<close>).
\<close>

definition between :: "nat \<Rightarrow> nat \<Rightarrow> char \<Rightarrow> bool" where
  "between lo hi c = (lo \<le> byte_val c \<and> byte_val c \<le> hi)"

abbreviation continues :: "char \<Rightarrow> bool" where
  "continues \<equiv> between 0x80 0xBF"

text \<open>The width of the valid rune a string starts with; 0 when it starts with none.\<close>

definition seq2 :: "char \<Rightarrow> string \<Rightarrow> bool" where
  "seq2 a r = (between 0xC2 0xDF a \<and> 1 \<le> length r \<and> continues (r ! 0))"

definition seq3 :: "char \<Rightarrow> string \<Rightarrow> bool" where
  "seq3 a r = (between 0xE0 0xEF a \<and> 2 \<le> length r
     \<and> between (if byte_val a = 0xE0 then 0xA0 else 0x80) (if byte_val a = 0xED then 0x9F else 0xBF) (r ! 0)
     \<and> continues (r ! 1))"

definition seq4 :: "char \<Rightarrow> string \<Rightarrow> bool" where
  "seq4 a r = (between 0xF0 0xF4 a \<and> 3 \<le> length r
     \<and> between (if byte_val a = 0xF0 then 0x90 else 0x80) (if byte_val a = 0xF4 then 0x8F else 0xBF) (r ! 0)
     \<and> continues (r ! 1) \<and> continues (r ! 2))"

fun rune_width :: "string \<Rightarrow> nat" where
  "rune_width [] = 0"
| "rune_width (a # r) =
     (if byte_val a < 0x80 then 1 else if seq2 a r then 2 else if seq3 a r then 3
      else if seq4 a r then 4 else 0)"

lemma rune_width_le: "rune_width s \<le> length s"
  by (cases s) (auto simp: seq2_def seq3_def seq4_def)

function valid_utf8 :: "string \<Rightarrow> bool" where
  "valid_utf8 s =
     (if s = [] then True else if rune_width s = 0 then False
      else valid_utf8 (drop (rune_width s) s))"
  by pat_completeness auto
termination
  by (relation "measure length") auto

declare valid_utf8.simps [simp del]

text \<open>\<open>in_run\<close>: the byte before was invalid too, so its replacement stands for this one as well.\<close>

function to_valid_from :: "string \<Rightarrow> bool \<Rightarrow> string \<Rightarrow> string" where
  "to_valid_from rep in_run s =
     (if s = [] then []
      else let w = rune_width s in
        if w = 0 then (if in_run then [] else rep) @ to_valid_from rep True (tl s)
        else take w s @ to_valid_from rep False (drop w s))"
  by pat_completeness auto
termination
  by (relation "measure (\<lambda>(rep, in_run, s). length s)") auto

declare to_valid_from.simps [simp del]

definition to_valid_utf8 :: "string \<Rightarrow> string \<Rightarrow> string" where
  "to_valid_utf8 s rep = to_valid_from rep False s"

definition rune_start :: "char \<Rightarrow> bool" where
  "rune_start c = (\<not> continues c)"

text \<open>The loop of \<open>clip\<close>: back from byte \<open>n\<close> to the start of a rune.\<close>

fun rune_boundary :: "string \<Rightarrow> nat \<Rightarrow> nat" where
  "rune_boundary s 0 = 0"
| "rune_boundary s (Suc n) = (if rune_start (s ! Suc n) then Suc n else rune_boundary s n)"

definition clip :: "string \<Rightarrow> nat \<Rightarrow> string" where
  "clip s n = (if length s \<le> n then s else take (rune_boundary s n) s)"

section \<open>Lemmas\<close>

lemma rune_boundary_le: "rune_boundary s n \<le> n"
  by (induction n) auto

lemma rune_boundary_start: "rune_boundary s n = 0 \<or> rune_start (s ! rune_boundary s n)"
  by (induction n) auto

lemma length_clip: "length (clip s n) \<le> n"
  using rune_boundary_le [of s n] by (simp add: clip_def)

lemma clip_prefix: "\<exists>r. s = clip s n @ r"
  by (metis append_Nil2 append_take_drop_id clip_def)

lemma clip_id: "length s \<le> n \<Longrightarrow> clip s n = s"
  by (simp add: clip_def)

lemma clip_clip: "clip (clip s n) n = clip s n"
  by (rule clip_id) (rule length_clip)

lemma seq_take:
  "seq3 a r \<Longrightarrow> seq3 a (take 2 r @ x)" "seq4 a r \<Longrightarrow> seq4 a (take 3 r @ x)"
  "seq2 a r \<Longrightarrow> seq2 a (take 1 r @ x)"
  by (auto simp: seq2_def seq3_def seq4_def nth_append between_def)

lemma seq_first:
  "seq3 a r \<Longrightarrow> \<not> seq2 a r'" "seq4 a r \<Longrightarrow> \<not> seq2 a r'" "seq4 a r \<Longrightarrow> \<not> seq3 a r'"
  by (auto simp: seq2_def seq3_def seq4_def between_def)

lemma rune_width_take:
  assumes "0 < rune_width s"
  shows "rune_width (take (rune_width s) s @ r) = rune_width s"
proof (cases s)
  case (Cons a t)
  show ?thesis
  proof (cases "byte_val a < 0x80")
    case False
    have "seq2 a t \<or> \<not> seq2 a t \<and> seq3 a t \<or> \<not> seq2 a t \<and> \<not> seq3 a t \<and> seq4 a t"
      using assms False Cons by (auto split: if_splits)
    then show ?thesis
      using False Cons seq_take [of a t r]
        seq_first [of a _ "take 2 t @ r"] seq_first [of a _ "take 3 t @ r"]
      by (elim disjE) auto
  qed (simp add: Cons)
qed (use assms in simp)

lemma rune_width_inside:
  assumes "0 < i" "i < rune_width s"
  shows "continues (s ! i)"
proof (cases s)
  case (Cons a t)
  have "rune_width s \<le> 4" using Cons by auto
  then have "i = 1 \<or> i = 2 \<or> i = 3" using assms by auto
  moreover have "t ! 0 = s ! 1" "t ! 1 = s ! 2" "t ! 2 = s ! 3" using Cons by simp_all
  moreover have "seq2 a t \<or> seq3 a t \<and> i < 3 \<or> seq4 a t" "seq2 a t \<Longrightarrow> i = 1" "seq3 a t \<Longrightarrow> i < 3"
    using assms Cons seq_first by (auto split: if_splits)
  ultimately show ?thesis
    unfolding seq2_def seq3_def seq4_def by (auto simp: between_def split: if_splits)
qed (use assms in simp)

lemma valid_utf8_Nil [simp]: "valid_utf8 []"
  by (simp add: valid_utf8.simps)

lemma valid_append: "valid_utf8 s \<Longrightarrow> valid_utf8 t \<Longrightarrow> valid_utf8 (s @ t)"
proof (induction s rule: valid_utf8.induct)
  case (1 s)
  show ?case
  proof (cases "s = []")
    case False
    define w where "w = rune_width s"
    have w: "0 < w" "valid_utf8 (drop w s)" "w \<le> length s"
      using 1 False rune_width_le by (auto simp: w_def valid_utf8.simps [of s] split: if_splits)
    have "rune_width (s @ t) = w"
      using rune_width_take [of s "drop w s @ t"] w
      by (metis append.assoc append_take_drop_id w_def)
    then show ?thesis
      using 1 False w by (subst valid_utf8.simps) (simp add: w_def)
  qed (use 1 in simp)
qed

lemma valid_take:
  assumes "valid_utf8 s" "i \<le> length s" "i = length s \<or> rune_start (s ! i)"
  shows "valid_utf8 (take i s)"
  using assms
proof (induction s arbitrary: i rule: valid_utf8.induct)
  case (1 s)
  show ?case
  proof (cases "s = [] \<or> i = 0")
    case False
    define w where "w = rune_width s"
    have w: "0 < w" "valid_utf8 (drop w s)" "w \<le> length s"
      using 1 False rune_width_le by (auto simp: w_def valid_utf8.simps [of s] split: if_splits)
    have i: "w \<le> i"
    proof (rule ccontr)
      assume "\<not> w \<le> i"
      then have "continues (s ! i)" using False by (intro rune_width_inside) (auto simp: w_def)
      then show False using 1 w \<open>\<not> w \<le> i\<close> by (simp add: rune_start_def)
    qed
    have "valid_utf8 (take (i - w) (drop w s))"
      using 1 False w i by (auto simp: w_def)
    moreover have "take i s = take w s @ take (i - w) (drop w s)"
      using i by (metis le_add_diff_inverse take_add)
    moreover have "rune_width (take w s @ take (i - w) (drop w s)) = w"
      using rune_width_take w by (simp add: w_def)
    ultimately show ?thesis
      using w by (subst valid_utf8.simps) (simp add: w_def)
  qed auto
qed

lemma clip_valid: "valid_utf8 s \<Longrightarrow> valid_utf8 (clip s n)"
  using rune_boundary_le [of s n] rune_boundary_start [of s n]
  by (cases "rune_boundary s n = 0") (auto simp: clip_def intro!: valid_take)

lemma valid_rune: "0 < rune_width s \<Longrightarrow> valid_utf8 (take (rune_width s) s)"
proof -
  assume w: "0 < rune_width s"
  then have "rune_width (take (rune_width s) s) = rune_width s"
    using rune_width_take [of s "[]"] by simp
  with w show ?thesis by (subst valid_utf8.simps) simp
qed

lemma to_valid_from_valid: "valid_utf8 rep \<Longrightarrow> valid_utf8 (to_valid_from rep b s)"
proof (induction rep b s rule: to_valid_from.induct)
  case (1 rep b s)
  then show ?case
    unfolding to_valid_from.simps [of rep b s] Let_def
    by (auto intro!: valid_append valid_rune)
qed

lemma to_valid_utf8_valid: "valid_utf8 rep \<Longrightarrow> valid_utf8 (to_valid_utf8 s rep)"
  by (simp add: to_valid_utf8_def to_valid_from_valid)

lemma to_valid_utf8_id: "valid_utf8 s \<Longrightarrow> to_valid_utf8 s rep = s"
proof -
  have "valid_utf8 s \<Longrightarrow> to_valid_from rep b s = s" for b
  proof (induction s arbitrary: b rule: valid_utf8.induct)
    case (1 s)
    then show ?case
      by (subst to_valid_from.simps) (auto simp: Let_def valid_utf8.simps [of s] split: if_splits)
  qed
  then show "valid_utf8 s \<Longrightarrow> ?thesis" by (simp add: to_valid_utf8_def)
qed

end
