(* ===== verification/Login_Unit.thy ===== *)
theory Login_Unit
  imports Prelude
begin

text \<open>
  Which units let people in, and the name a unit is reported under
  (\<^verbatim>\<open>internal/loginunit/loginunit.go\<close>): a login service's per-connection instance, whose name can be
  the peer's address, is sent as its template.
\<close>

definition login_units :: "string list" where
  "login_units =
     [''ssh'', ''sshd'', ''sshd-session'', ''dropbear'', ''systemd-logind'', ''login'', ''getty'',
      ''serial-getty'', ''console-getty'', ''container-getty'', ''autovt'', ''su'', ''sudo'',
      ''polkit'', ''polkitd'', ''gdm*'', ''lightdm'', ''sddm'', ''xrdp*'', ''cockpit*'', ''sssd*'',
      ''winbind'', ''nslcd'', ''fail2ban'', ''crowdsec'', ''sshguard'']"

text \<open>A unit's name up to its \<^verbatim>\<open>@\<close>, without \<^verbatim>\<open>.service\<close>.\<close>

definition base_name :: "string \<Rightarrow> string" where
  "base_name unit =
     (let name = trim_suffix unit ''.service'' in
      case index_byte name CHR ''@'' of Some at \<Rightarrow> take at name | None \<Rightarrow> name)"

definition is_login :: "string \<Rightarrow> bool" where
  "is_login unit =
     (let name = base_name unit in
      list_ex (\<lambda>l. case cut_suffix l ''*'' of Some p \<Rightarrow> has_prefix name p | None \<Rightarrow> name = l) login_units)"

definition is_instance :: "string \<Rightarrow> bool" where
  "is_instance unit =
     (case index_byte unit CHR ''@'' of None \<Rightarrow> False
      | Some at \<Rightarrow> \<not> has_prefix (drop (Suc at) unit) ''.'' \<and> is_login unit)"

definition is_letter :: "char \<Rightarrow> bool" where
  "is_letter c = (97 \<le> byte_val c \<and> byte_val c \<le> 122 \<or> 65 \<le> byte_val c \<and> byte_val c \<le> 90)"

definition letters :: "string \<Rightarrow> bool" where
  "letters s = (s \<noteq> [] \<and> list_all is_letter s)"

definition reported :: "string \<Rightarrow> string" where
  "reported unit =
     (if \<not> is_instance unit then unit
      else (case index_byte unit CHR ''@'' of None \<Rightarrow> unit
        | Some at \<Rightarrow>
          take (Suc at) unit
          @ (case last_index_byte unit CHR ''.'' of None \<Rightarrow> ''.service''
             | Some dot \<Rightarrow> if at < dot \<and> letters (drop (Suc dot) unit) then drop dot unit
                          else ''.service'')))"

section \<open>Lemmas\<close>

lemma letters_service: "letters ''service''"
  by (simp add: letters_def is_letter_def)

lemma reported_cases:
  assumes "is_instance u"
  obtains p sfx where "reported u = p @ ''@.'' @ sfx" "CHR ''@'' \<notin> set p" "has_prefix u (p @ ''@'')"
    "letters sfx" "sfx = ''service'' \<or> has_suffix u (CHR ''.'' # sfx)"
proof -
  obtain at where at: "index_byte u CHR ''@'' = Some at"
    using assms by (auto simp: is_instance_def split: option.splits)
  have p: "at < length u" "u ! at = CHR ''@''" "CHR ''@'' \<notin> set (take at u)"
    using index_byte_Some [OF at] by auto
  have head: "take (Suc at) u = take at u @ ''@''"
    using p by (simp add: take_Suc_conv_app_nth)
  have pre: "has_prefix u (take at u @ ''@'')"
    unfolding head [symmetric] has_prefix_def using p by simp
  show thesis
  proof (cases "\<exists>dot. last_index_byte u CHR ''.'' = Some dot \<and> at < dot \<and> letters (drop (Suc dot) u)")
    case True
    then obtain dot where d: "last_index_byte u CHR ''.'' = Some dot" "at < dot"
      "letters (drop (Suc dot) u)" by blast
    have dot: "dot < length u" "u ! dot = CHR ''.''" using last_index_byte_Some [OF d(1)] by auto
    then have dr: "drop dot u = CHR ''.'' # drop (Suc dot) u" by (simp add: Cons_nth_drop_Suc [symmetric])
    have "has_suffix u (drop dot u)" by (simp add: has_suffix_iff) (metis append_take_drop_id)
    then show thesis
      using assms at d dr p pre
      by (intro that [of "take at u" "drop (Suc dot) u"]) (simp_all add: reported_def head)
  next
    case False
    then have "reported u = take (Suc at) u @ ''.service''"
      using assms at by (auto simp: reported_def split: option.splits)
    then show thesis
      using p pre letters_service by (intro that [of "take at u" "''service''"]) (simp_all add: head)
  qed
qed

lemma index_byte_append: "c \<notin> set p \<Longrightarrow> index_byte (p @ c # r) c = Some (length p)"
  by (induction p) auto

lemma letters_no_special: "letters s \<Longrightarrow> CHR ''@'' \<notin> set s \<and> CHR ''.'' \<notin> set s"
  by (auto simp: letters_def is_letter_def list_all_iff)

lemma takeWhile_stop: "c \<notin> set s \<Longrightarrow> takeWhile (\<lambda>y. y \<noteq> c) (s @ c # r) = s"
  by (induction s) auto

lemma last_segment:
  assumes "c \<notin> set s" "c \<notin> set t" "x @ c # s = r @ c # t"
  shows "s = t"
proof -
  have "takeWhile (\<lambda>y. y \<noteq> c) (rev (x @ c # s)) = rev s"
    using assms(1) by (simp add: takeWhile_stop)
  moreover have "takeWhile (\<lambda>y. y \<noteq> c) (rev (r @ c # t)) = rev t"
    using assms(2) by (simp add: takeWhile_stop)
  ultimately show ?thesis using assms(3) by simp
qed

lemma base_name_at:
  assumes p: "CHR ''@'' \<notin> set p"
  shows "base_name (p @ ''@'' @ r) = p"
proof (cases "has_suffix (p @ ''@'' @ r) ''.service''")
  case False
  then show ?thesis
    using index_byte_append [OF p, of r] by (simp add: base_name_def trim_suffix_def)
next
  case True
  then obtain q where q: "p @ ''@'' @ r = q @ ''.service''" by (auto simp: has_suffix_iff)
  have "CHR ''@'' \<in> set q"
  proof (rule ccontr)
    assume "CHR ''@'' \<notin> set q"
    then have "CHR ''@'' \<notin> set (q @ ''.service'')" by simp
    then show False unfolding q [symmetric] by simp
  qed
  then obtain q1 q2 where qq: "q = q1 @ CHR ''@'' # q2" "CHR ''@'' \<notin> set q1"
    by (meson split_list_first)
  have "p = q1"
  proof -
    have "takeWhile (\<lambda>y. y \<noteq> CHR ''@'') (p @ CHR ''@'' # r) = p"
      using p by (simp add: takeWhile_stop)
    moreover have "takeWhile (\<lambda>y. y \<noteq> CHR ''@'') (q1 @ CHR ''@'' # q2 @ ''.service'') = q1"
      using qq(2) by (simp add: takeWhile_stop)
    ultimately show ?thesis using q qq(1) by simp
  qed
  then show ?thesis
    using index_byte_append [OF qq(2), of q2] trim_suffix_append [of q "''.service''"] q
    by (simp add: base_name_def qq(1))
qed

lemma base_name_prefix:
  assumes "has_prefix u (p @ ''@'')" "CHR ''@'' \<notin> set p"
  shows "base_name u = p"
  using assms base_name_at by (auto simp: has_prefix_iff)

lemma is_login_base: "base_name u = base_name v \<Longrightarrow> is_login u = is_login v"
  by (simp add: is_login_def)

lemma reported_facts:
  assumes "is_instance u"
  shows "\<exists>sfx. reported u = base_name u @ ''@.'' @ sfx \<and> letters sfx"
    "is_login (reported u)" "\<not> is_instance (reported u)"
proof -
  obtain p sfx where r: "reported u = p @ ''@.'' @ sfx" "CHR ''@'' \<notin> set p" "has_prefix u (p @ ''@'')"
    "letters sfx"
    using assms by (rule reported_cases)
  have b: "base_name u = p" using r(2,3) by (intro base_name_prefix)
  have "base_name (reported u) = p" using base_name_at [OF r(2), of "''.'' @ sfx"] r(1) by simp
  then show "is_login (reported u)"
    using assms b is_login_base [of u "reported u"] by (auto simp: is_instance_def split: option.splits)
  show "\<exists>sfx. reported u = base_name u @ ''@.'' @ sfx \<and> letters sfx" using r b by auto
  show "\<not> is_instance (reported u)"
    using index_byte_append [OF r(2), of "''.'' @ sfx"] by (simp add: r(1) is_instance_def)
qed

lemma reported_reported: "reported (reported u) = reported u"
proof (cases "is_instance u")
  case True
  then show ?thesis using reported_facts(3) [OF True] by (simp add: reported_def [of "reported u"])
qed (simp add: reported_def)

end
