(* ===== verification/Journal_Query.thy ===== *)
theory Journal_Query
  imports Journal_Walk Go_Utf8 Login_Unit "HOL-Library.Product_Lexorder"
begin

text \<open>
  The two questions the agent asks the journal (\<^verbatim>\<open>internal/journal/journal.go\<close>, \<^verbatim>\<open>login.go\<close>,
  \<^verbatim>\<open>authfail.go\<close>): a unit's last lines, never a login record's, and an hour's errors, warnings and
  refused logins. \<open>msk\<close>, a parameter, is the pattern list of \<^verbatim>\<open>jobs.Mask\<close>, which is applied to one
  line; \<open>mask_lines\<close> is the function around it.
\<close>

section \<open>Masking a run of lines (internal/jobs/mask.go)\<close>

definition masked :: string where
  "masked = ''[masked]''"

fun mask_from :: "(string \<Rightarrow> string) \<Rightarrow> bool \<Rightarrow> string list \<Rightarrow> string list" where
  "mask_from msk in_key [] = []"
| "mask_from msk in_key (l # ls) =
     (if in_key then masked # mask_from msk (\<not> contains l ''-----END '') ls
      else if contains l ''PRIVATE KEY-----'' \<and> contains l ''-----BEGIN ''
      then msk l # mask_from msk (\<not> contains l ''-----END '') ls
      else msk l # mask_from msk False ls)"

definition mask_lines :: "(string \<Rightarrow> string) \<Rightarrow> string list \<Rightarrow> string list" where
  "mask_lines msk ls = mask_from msk False ls"

section \<open>Which records are never read (login.go)\<close>

definition login_identifiers :: "string list" where
  "login_identifiers =
     [''sshd'', ''sshd-session'', ''sshd-auth'', ''dropbear'', ''sudo'', ''su'', ''login'',
      ''systemd-logind'', ''polkitd'', ''polkit-agent-helper-1'', ''unix_chkpwd'']"

definition login_record :: "entry \<Rightarrow> bool" where
  "login_record e =
     (e_facility e = 4 \<or> e_facility e = 10 \<or> e_identifier e \<in> set login_identifiers
      \<or> e_transport e = ''audit'')"

section \<open>Refused logins (authfail.go)\<close>

definition auth_facility :: "entry \<Rightarrow> bool" where
  "auth_facility e = (e_facility e = 4 \<or> e_facility e = 10)"

definition sshd_identifiers :: "string list" where
  "sshd_identifiers = [''sshd'', ''sshd-session'', ''sshd-auth'']"

definition first_line_of :: "string \<Rightarrow> string" where
  "first_line_of m = (case index_byte m (byte 10) of Some nl \<Rightarrow> take nl m | None \<Rightarrow> m)"

text \<open>The loop over the two methods: the first whose prefix the message has decides.\<close>

fun failed_method :: "string list \<Rightarrow> string \<Rightarrow> bool" where
  "failed_method [] m = False"
| "failed_method (meth # ms) m =
     (case cut_prefix m (''Failed '' @ meth @ '' for '') of
        Some rest \<Rightarrow> \<not> has_prefix rest ''invalid user ''
      | None \<Rightarrow> failed_method ms m)"

definition auth_failure :: "string \<Rightarrow> string \<Rightarrow> bool" where
  "auth_failure ident msg =
     (let m = first_line_of msg in
      if ident \<in> set sshd_identifiers
      then has_prefix m ''Invalid user '' \<or> failed_method [''password'', ''keyboard-interactive/pam''] m
      else if ident = ''dropbear''
      then has_prefix m ''Bad password attempt for '' \<or> has_prefix m ''Login attempt for nonexistent user''
      else if \<not> has_prefix m ''pam_'' then False
      else (case (index_byte m CHR ''('', index_of m '':auth): authentication failure'') of
          (Some opn, Some fin) \<Rightarrow> if fin < opn then False
            else take (fin - (opn + 1)) (drop (opn + 1) m) \<noteq> ''sshd''
        | _ \<Rightarrow> False))"

section \<open>The files\<close>

text \<open>
  \<^verbatim>\<open>systemFiles\<close>, given what \<^verbatim>\<open>filepath.Glob\<close> finds in each directory: \<open>globbed\<close> lists the matches of
  \<^verbatim>\<open>*/system*.journal\<close> under each of the two directories, with the base name of each.
\<close>

definition system_files :: "(string \<times> string) list list \<Rightarrow> string list" where
  "system_files globbed =
     concat (map (\<lambda>ms. map fst (filter (\<lambda>(path, base).
       base = ''system.journal'' \<or> has_prefix base ''system@'') ms)) globbed)"

datatype opened_path = OpenDenied | OpenFails | StatFails | OpenedFile "int \<Rightarrow> nat \<Rightarrow> string option" int

datatype reason = ReasonOK | ReasonNoPermission | ReasonNoJournal | ReasonUnknownFormat

text \<open>\<^verbatim>\<open>Check\<close>: what opening each file gives is the parameter \<open>fs\<close>.\<close>

fun check_from :: "(string \<Rightarrow> opened_path) \<Rightarrow> bool \<Rightarrow> bool \<Rightarrow> string list \<Rightarrow> reason outcome" where
  "check_from fs denied unknown [] =
     Returns (if denied then ReasonNoPermission else if unknown then ReasonUnknownFormat
              else ReasonNoJournal)"
| "check_from fs denied unknown (p # ps) = (case fs p of
      OpenDenied \<Rightarrow> check_from fs True unknown ps
    | OpenFails \<Rightarrow> check_from fs denied unknown ps
    | StatFails \<Rightarrow> check_from fs denied True ps
    | OpenedFile src sz \<Rightarrow> and_then (open_journal src sz) (\<lambda>f.
        case f of Some _ \<Rightarrow> Returns ReasonOK | None \<Rightarrow> check_from fs denied True ps))"

definition check :: "(string \<Rightarrow> opened_path) \<Rightarrow> string list \<Rightarrow> reason outcome" where
  "check fs files = (if files = [] then Returns ReasonNoJournal else check_from fs False False files)"

text \<open>\<^verbatim>\<open>open\<close>: the files that can be opened, the one with the newest entry first.\<close>

fun open_each :: "(string \<Rightarrow> opened_path) \<Rightarrow> string list \<Rightarrow> jfile list outcome" where
  "open_each fs [] = Returns []"
| "open_each fs (p # ps) = (case fs p of
      OpenedFile src sz \<Rightarrow> and_then (open_journal src sz) (\<lambda>f.
        and_then (open_each fs ps) (\<lambda>out. Returns (case f of Some f \<Rightarrow> f # out | None \<Rightarrow> out)))
    | _ \<Rightarrow> open_each fs ps)"

definition open_files :: "(string \<Rightarrow> opened_path) \<Rightarrow> string list \<Rightarrow> jfile list outcome" where
  "open_files fs files = and_then (open_each fs files) (\<lambda>out. Returns (sort_key (\<lambda>f. - tail_time f) out))"

section \<open>A unit's last lines\<close>

abbreviation (input) "max_scan \<equiv> 200000::nat"
abbreviation (input) "max_lines \<equiv> 20::nat"
abbreviation (input) "max_line_bytes \<equiv> 300::nat"
abbreviation (input) "max_snippet_bytes \<equiv> 6144::nat"
abbreviation (input) "max_priority \<equiv> 6::int"

definition clean :: "string \<Rightarrow> string" where
  "clean s = concat (map (\<lambda>c. if c = byte 9 then '' ''
       else if byte_val c < 0x20 \<or> byte_val c = 0x7F then [] else [c])
     (to_valid_utf8 s [byte 0xEF, byte 0xBF, byte 0xBD]))"

record kept =
  k_at :: go_time
  k_priority :: int
  k_message :: string
  k_cut :: bool

record line =
  l_at :: go_time
  l_priority :: int
  l_message :: string

record snippet =
  s_lines :: "line list"
  s_compressed :: nat
  s_truncated :: bool
  s_withheld :: string

text \<open>The callback: the state is the list kept so far, newest first, and the count of compressed ones.\<close>

definition effective_priority :: "entry \<Rightarrow> int" where
  "effective_priority e = (if e_priority e < 0 then 6 else e_priority e)"

definition keep_line :: "string \<Rightarrow> go_time \<Rightarrow> (kept list \<times> nat) entry_visitor" where
  "keep_line unit until e f s = (case s of (ks, cmp) \<Rightarrow>
     if e_unit e \<noteq> unit \<or> until < at_time e then Returns ((True, s), f)
     else if max_priority < effective_priority e then Returns ((True, s), f)
     else if login_record e then Returns ((True, s), f)
     else if \<not> has_message e
     then Returns ((True, (ks, if is_compressed e then Suc cmp else cmp)), f)
     else and_then (message e f) (\<lambda>((msg, cut), f).
       let ks = ks @ [\<lparr>k_at = at_time e, k_priority = effective_priority e, k_message = msg, k_cut = cut\<rparr>]
       in Returns ((length ks < max_lines, (ks, cmp)), f)))"

fun scan_files ::
  "string \<Rightarrow> go_time \<Rightarrow> go_time \<Rightarrow> jfile list \<Rightarrow> nat \<Rightarrow> kept list \<times> nat \<Rightarrow> (kept list \<times> nat) outcome" where
  "scan_files unit since until [] scanned s = Returns s"
| "scan_files unit since until (f # fs) scanned s =
     (if max_lines \<le> length (fst s) \<or> max_scan \<le> scanned then Returns s
      else if tail_time f \<noteq> zero_time \<and> tail_time f < since
      then scan_files unit since until fs scanned s
      else and_then (backward since (max_scan - scanned) (keep_line unit until) f s) (\<lambda>(s, f).
           scan_files unit since until fs (scanned + entries_scanned f) s))"

text \<open>Oldest first, one line of a message each, with the entry it comes from.\<close>

definition raw_lines :: "kept list \<Rightarrow> (string \<times> go_time \<times> int) list" where
  "raw_lines newest_first =
     concat (map (\<lambda>k. map (\<lambda>l. (clean l, k_at k, k_priority k))
         (split_on (byte 10) (trim_right_of [byte 10] (k_message k)))) (rev newest_first))"

text \<open>
  The budget, from the newest line back: \<open>cnt\<close> lines of \<open>used\<close> bytes are taken. The second result is
  whether anything was cut or left out.
\<close>

fun budget :: "string list \<Rightarrow> nat \<Rightarrow> nat \<Rightarrow> string list \<Rightarrow> bool \<Rightarrow> string list \<times> bool" where
  "budget [] used cnt out tr = (out, tr)"
| "budget (m # ms) used cnt out tr =
     (let l = clip m max_line_bytes; tr = (tr \<or> length l < length m) in
      if max_snippet_bytes < used + length l \<or> max_lines * 2 \<le> cnt then (out, True)
      else budget ms (used + length l) (Suc cnt) (l # out) tr)"

definition snippet_of :: "(string \<Rightarrow> string) \<Rightarrow> kept list \<times> nat \<Rightarrow> snippet" where
  "snippet_of msk s =
     (let raw = raw_lines (fst s);
          maskd = mask_lines msk (map fst raw);
          (ls, tr) = budget (rev maskd) 0 0 [] (list_ex k_cut (fst s))
      in \<lparr>s_lines = map (\<lambda>(l, t, p). \<lparr>l_at = t, l_priority = p, l_message = l\<rparr>)
                       (zip ls (last_n (length ls) (map snd raw))),
          s_compressed = snd s, s_truncated = tr, s_withheld = []\<rparr>)"

definition last_lines ::
  "(string \<Rightarrow> string) \<Rightarrow> jfile list \<Rightarrow> string \<Rightarrow> go_time \<Rightarrow> go_time \<Rightarrow> snippet outcome" where
  "last_lines msk files unit since until =
     and_then (scan_files unit since until files 0 ([], 0)) (\<lambda>s. Returns (snippet_of msk s))"

text \<open>\<^verbatim>\<open>LastLines\<close>: a login unit's files are not opened at all.\<close>

definition unit_last_lines ::
  "(string \<Rightarrow> string) \<Rightarrow> (string \<Rightarrow> opened_path) \<Rightarrow> string list \<Rightarrow> string \<Rightarrow> go_time \<Rightarrow> go_time
     \<Rightarrow> snippet outcome" where
  "unit_last_lines msk fs paths unit since until =
     (if is_login unit
      then Returns \<lparr>s_lines = [], s_compressed = 0, s_truncated = False, s_withheld = ''login''\<rparr>
      else and_then (open_files fs paths) (\<lambda>files. last_lines msk files unit since until))"

section \<open>An hour's counts\<close>

record unit_count =
  c_unit :: string
  c_errors :: nat
  c_warnings :: nat

record hour_counts =
  h_hour :: go_time
  h_units :: "unit_count list"
  h_more :: nat
  h_partial :: bool
  h_auth_failures :: nat

text \<open>The map of counts, by the reported name, as an association list in the order of the first entries.\<close>

fun bump :: "string \<Rightarrow> bool \<Rightarrow> (string \<times> unit_count) list \<Rightarrow> (string \<times> unit_count) list" where
  "bump name is_err [] =
     [(name, \<lparr>c_unit = clip (clean name) 256, c_errors = (if is_err then 1 else 0),
              c_warnings = (if is_err then 0 else 1)\<rparr>)]"
| "bump name is_err ((n, c) # cs) =
     (if n = name
      then (n, if is_err then c\<lparr>c_errors := Suc (c_errors c)\<rparr> else c\<lparr>c_warnings := Suc (c_warnings c)\<rparr>) # cs
      else (n, c) # bump name is_err cs)"

definition count_auth :: "go_time \<Rightarrow> entry \<Rightarrow> jfile \<Rightarrow> nat \<Rightarrow> (nat \<times> jfile) outcome" where
  "count_auth fin e f n =
     (if at_time e < fin \<and> auth_facility e
      then and_then (message e f) (\<lambda>((msg, cut), f).
           Returns (if auth_failure (e_identifier e) msg then Suc n else n, f))
      else Returns (n, f))"

definition count_entry :: "go_time \<Rightarrow> ((string \<times> unit_count) list \<times> nat) entry_visitor" where
  "count_entry fin e f s =
     and_then (count_auth fin e f (snd s)) (\<lambda>(n, f).
       if e_unit e = [] \<or> fin \<le> at_time e \<or> e_priority e < 0 \<or> 4 < e_priority e
       then Returns ((True, (fst s, n)), f)
       else Returns ((True, (bump (reported (e_unit e)) (e_priority e \<le> 3) (fst s), n)), f))"

text \<open>The loop over the files: the counts, the entries scanned, and whether the answer is partial.\<close>

fun count_files ::
  "go_time \<Rightarrow> go_time \<Rightarrow> jfile list \<Rightarrow> nat \<Rightarrow> bool \<Rightarrow> (string \<times> unit_count) list \<times> nat
     \<Rightarrow> (((string \<times> unit_count) list \<times> nat) \<times> bool) outcome" where
  "count_files hour fin [] scanned part s = Returns (s, part)"
| "count_files hour fin (f # fs) scanned part s =
     (if max_scan \<le> scanned then Returns (s, True)
      else if tail_time f \<noteq> zero_time \<and> tail_time f < hour then count_files hour fin fs scanned part s
      else and_then (backward hour (max_scan - scanned) (count_entry fin) f s) (\<lambda>(s, f).
        let scanned = scanned + entries_scanned f in
        count_files hour fin fs scanned (part \<or> max_scan \<le> scanned) s))"

text \<open>The order of the units: most errors, then most warnings, then the name.\<close>

definition rank :: "unit_count \<Rightarrow> int \<times> int \<times> string" where
  "rank c = (- int (c_errors c), - int (c_warnings c), c_unit c)"

abbreviation (input) "max_units \<equiv> 20::nat"

definition hour_ns :: int where "hour_ns = 3600000000000"

definition count_hour :: "jfile list \<Rightarrow> go_time \<Rightarrow> hour_counts outcome" where
  "count_hour files hour =
     and_then (count_files hour (hour + hour_ns) files 0 False ([], 0)) (\<lambda>((counts, auth), part).
       let units = sort_key rank (map snd counts) in
       Returns \<lparr>h_hour = hour, h_units = take max_units units, h_more = length units - max_units,
                h_partial = part, h_auth_failures = auth\<rparr>)"


section \<open>Lemmas\<close>

lemma budget_bounds:
  assumes "budget ms used cnt out tr = (ls, tr')" "used = sum_list (map length out)" "used \<le> 6144"
    "cnt = length out" "cnt \<le> 40" "\<forall>l\<in>set out. length l \<le> 300"
  shows "length ls \<le> 40 \<and> sum_list (map length ls) \<le> 6144 \<and> (\<forall>l\<in>set ls. length l \<le> 300)
    \<and> length ls \<le> length out + length ms"
  using assms
proof (induction ms used cnt out tr rule: budget.induct)
  case (2 m ms used cnt out tr)
  show ?case
  proof (cases "6144 < used + length (clip m 300) \<or> 40 \<le> cnt")
    case True
    then show ?thesis using 2 by (auto simp: Let_def)
  next
    case False
    then show ?thesis using 2 length_clip [of m 300] by (auto simp: Let_def)
  qed
qed auto

lemma snippet_bounds:
  "length (s_lines (snippet_of msk s)) \<le> 40"
  "sum_list (map (length \<circ> l_message) (s_lines (snippet_of msk s))) \<le> 6144"
  "\<forall>l\<in>set (s_lines (snippet_of msk s)). length (l_message l) \<le> 300"
proof -
  define raw where "raw = raw_lines (fst s)"
  obtain ls tr where b: "budget (rev (mask_lines msk (map fst raw))) 0 0 [] (list_ex k_cut (fst s)) = (ls, tr)"
    by (cases "budget (rev (mask_lines msk (map fst raw))) 0 0 [] (list_ex k_cut (fst s))")
  have bb: "length ls \<le> 40" "sum_list (map length ls) \<le> 6144" "\<forall>l\<in>set ls. length l \<le> 300"
    using budget_bounds [OF b] by auto
  define xs where "xs = last_n (length ls) (map snd raw)"
  have s: "s_lines (snippet_of msk s)
      = map (\<lambda>(l, t, p). \<lparr>l_at = t, l_priority = p, l_message = l\<rparr>) (zip ls xs)"
    by (simp add: snippet_of_def Let_def b raw_def [symmetric] xs_def)
  have fst: "map (l_message \<circ> (\<lambda>(l, t, p). \<lparr>l_at = t, l_priority = p, l_message = l\<rparr>)) (zip ls xs)
      = take (length xs) ls"
    by (induction ls xs rule: list_induct2') auto
  have msgs: "map l_message (s_lines (snippet_of msk s)) = take (length xs) ls"
    unfolding s map_map fst ..
  then have "map (length \<circ> l_message) (s_lines (snippet_of msk s)) = take (length xs) (map length ls)"
    by (metis map_map take_map)
  moreover have "sum_list (take k ns) \<le> sum_list ns" for k and ns :: "nat list"
    by (metis append_take_drop_id le_add1 sum_list_append)
  ultimately show "sum_list (map (length \<circ> l_message) (s_lines (snippet_of msk s))) \<le> 6144"
    using bb(2) by (metis le_trans)
  show "length (s_lines (snippet_of msk s)) \<le> 40"
    using bb(1) by (simp add: s)
  have "l_message l \<in> set (take (length xs) ls)" if "l \<in> set (s_lines (snippet_of msk s))" for l
    using that msgs by (metis image_eqI list.set_map)
  then show "\<forall>l\<in>set (s_lines (snippet_of msk s)). length (l_message l) \<le> 300"
    using bb(3) by (meson in_set_takeD)
qed

definition in_window :: "go_time \<Rightarrow> go_time \<Rightarrow> kept \<Rightarrow> bool" where
  "in_window since until k \<longleftrightarrow> since \<le> k_at k \<and> k_at k \<le> until \<and> 0 \<le> k_priority k \<and> k_priority k \<le> 6"

lemma keep_line_surely: "entry_visits_surely (keep_line unit until)"
  unfolding entry_visits_surely_def keep_line_def
  by (auto simp: Let_def split: prod.splits intro!: surely_and_then [OF message_surely])

lemma keep_line_window:
  assumes "since \<le> at_time e" "\<forall>k\<in>set (fst s). in_window since until k"
  shows "yields (\<lambda>((go, s), f). \<forall>k\<in>set (fst s). in_window since until k) (keep_line unit until e f s)"
  unfolding keep_line_def
  using assms
  by (auto simp: Let_def in_window_def effective_priority_def split: prod.splits intro!: yields_any)

lemma backward_window:
  assumes "\<forall>k\<in>set (fst s). in_window since until k"
  shows "yields (\<lambda>(s, f). \<forall>k\<in>set (fst s). in_window since until k)
    (backward since limit (keep_line unit until) f s)"
  using assms
  by (intro backward_keeps [of "\<lambda>f s. \<forall>k\<in>set (fst s). in_window since until k"])
    (auto simp: stable_def intro!: keep_line_window)

lemma scan_files_surely:
  assumes "\<forall>f\<in>set fs. compact_open f \<and> arrays f \<noteq> Panics"
    "\<forall>k\<in>set (fst s). in_window since until k"
  shows "surely (\<lambda>s. \<forall>k\<in>set (fst s). in_window since until k) (scan_files unit since until fs scanned s)"
  using assms
proof (induction fs arbitrary: scanned s)
  case (Cons f fs)
  have b: "surely (\<lambda>(s, f). \<forall>k\<in>set (fst s). in_window since until k)
      (backward since (max_scan - scanned) (keep_line unit until) f s)"
    using backward_surely [OF keep_line_surely, of f since "max_scan - scanned" unit until s]
      backward_window [OF Cons.prems(2), of "max_scan - scanned" unit f] Cons.prems(1)
    by (auto simp: surely_def)
  show ?case
    using Cons by (auto intro!: surely_and_then [OF b])
qed simp

text \<open>Masking: from the line a private key begins on to the one that ends it, nothing gets through.\<close>

lemma length_mask_from [simp]: "length (mask_from msk b ls) = length ls"
  by (induction ls arbitrary: b) auto

definition opens_key :: "string \<Rightarrow> bool" where
  "opens_key l \<longleftrightarrow> contains l ''PRIVATE KEY-----'' \<and> contains l ''-----BEGIN ''"

lemma mask_from_plain:
  "\<forall>l\<in>set pre. \<not> opens_key l \<Longrightarrow> mask_from msk False (pre @ ls) = map msk pre @ mask_from msk False ls"
  by (induction pre) (auto simp: opens_key_def)

lemma mask_from_key:
  "\<forall>l\<in>set body. \<not> contains l ''-----END ''
    \<Longrightarrow> mask_from msk True (body @ ls) = replicate (length body) masked @ mask_from msk True ls"
  by (induction body) auto

section \<open>The counts of an hour\<close>

definition count_named :: "string \<times> unit_count \<Rightarrow> bool" where
  "count_named p \<longleftrightarrow> c_unit (snd p) = clip (clean (fst p)) 256 \<and> \<not> is_instance (fst p)"

lemma reported_not_instance: "\<not> is_instance (reported u)"
  by (cases "is_instance u") (simp_all add: reported_facts(3), simp add: reported_def)

lemma bump_keys: "fst ` set (bump n b cs) = insert n (fst ` set cs)"
proof (induction cs)
  case (Cons p cs)
  then show ?case by (cases p) (simp add: insert_commute)
qed simp

lemma bump_counts:
  assumes "\<forall>p\<in>set cs. count_named p" "distinct (map fst cs)" "\<not> is_instance n"
  shows "(\<forall>p\<in>set (bump n b cs). count_named p) \<and> distinct (map fst (bump n b cs))"
  using assms
proof (induction cs)
  case (Cons p cs)
  then show ?case
    using bump_keys [of n b cs] by (cases p) (auto simp: count_named_def)
qed (simp add: count_named_def)

lemma count_auth_surely:
  assumes "message_ok e" "compact_open f"
  shows "surely (\<lambda>(n, f). compact_open f) (count_auth fin e f n)"
  using assms unfolding count_auth_def
  by (auto intro!: surely_and_then [OF message_surely])

lemma count_entry_surely: "entry_visits_surely (count_entry fin)"
  unfolding entry_visits_surely_def count_entry_def
  by (auto intro!: surely_and_then [OF count_auth_surely])

definition counts_ok :: "(string \<times> unit_count) list \<times> nat \<Rightarrow> bool" where
  "counts_ok s \<longleftrightarrow> (\<forall>p\<in>set (fst s). count_named p) \<and> distinct (map fst (fst s))"

lemma count_entry_ok:
  "counts_ok s \<Longrightarrow> yields (\<lambda>((go, s), f). counts_ok s) (count_entry fin e f s)"
  unfolding count_entry_def
  by (rule yields_any)
    (use bump_counts [OF _ _ reported_not_instance] in \<open>auto simp: counts_ok_def\<close>)

lemma count_files_surely:
  assumes "\<forall>f\<in>set fs. compact_open f \<and> arrays f \<noteq> Panics" "counts_ok s"
  shows "surely (\<lambda>(s, part). counts_ok s) (count_files hour fin fs scanned part s)"
  using assms
proof (induction fs arbitrary: scanned part s)
  case (Cons f fs)
  have "yields (\<lambda>(s, f). counts_ok s) (backward hour (max_scan - scanned) (count_entry fin) f s)"
    using Cons.prems(2)
    by (intro backward_keeps [of "\<lambda>f s. counts_ok s"]) (auto simp: stable_def count_entry_ok)
  then have b: "surely (\<lambda>(s, f). counts_ok s) (backward hour (max_scan - scanned) (count_entry fin) f s)"
    using backward_surely [OF count_entry_surely, of f hour "max_scan - scanned" fin s] Cons.prems(1)
    by (auto simp: surely_def)
  show ?case
    using Cons by (auto simp: Let_def intro!: surely_and_then [OF b])
qed simp

end
