(* ===== verification/Go_Std.thy ===== *)
theory Go_Std
  imports Prelude
begin

text \<open>
  The two parsers of Go's standard library the configuration relies on: \<^verbatim>\<open>url.Parse\<close> of
  \<^verbatim>\<open>net/url\<close> (as of Go 1.24, the version in go.mod), as far as the scheme, the user info and the host
  are concerned, with every reason it has to refuse a string; and \<^verbatim>\<open>time.ParseDuration\<close>.
\<close>

section \<open>Cutting strings\<close>

text \<open>\<^verbatim>\<open>strings.Cut\<close> at one byte: what is before it, and what is after it when it is there.\<close>

definition cut_at :: "char \<Rightarrow> string \<Rightarrow> string \<times> string option" where
  "cut_at c s = (takeWhile (\<lambda>x. x \<noteq> c) s,
     if c \<in> set s then Some (tl (dropWhile (\<lambda>x. x \<noteq> c) s)) else None)"

section \<open>URLs\<close>

record url =
  u_scheme :: string
  u_user :: bool
  u_host :: string

definition is_hex :: "char \<Rightarrow> bool" where
  "is_hex c = (is_digit c \<or> 97 \<le> byte_val c \<and> byte_val c \<le> 102 \<or> 65 \<le> byte_val c \<and> byte_val c \<le> 70)"

definition unhex :: "char \<Rightarrow> nat" where
  "unhex c = (if is_digit c then byte_val c - 48
     else if 97 \<le> byte_val c then byte_val c - 87 else byte_val c - 55)"

text \<open>What \<^verbatim>\<open>unescape\<close> asks of a path, a fragment or a user name: every \<^verbatim>\<open>%\<close> is followed by two hex digits.\<close>

fun percent_ok :: "string \<Rightarrow> bool" where
  "percent_ok [] = True"
| "percent_ok (c # s) =
     (if c = CHR ''%'' then (case s of a # b # r \<Rightarrow> is_hex a \<and> is_hex b \<and> percent_ok r | _ \<Rightarrow> False)
      else percent_ok s)"

definition is_alnum :: "char \<Rightarrow> bool" where
  "is_alnum c = (is_digit c \<or> 97 \<le> byte_val c \<and> byte_val c \<le> 122 \<or> 65 \<le> byte_val c \<and> byte_val c \<le> 90)"

text \<open>The bytes a host may be written with (\<^verbatim>\<open>shouldEscape\<close> in the mode of hosts, negated).\<close>

definition host_byte :: "char \<Rightarrow> bool" where
  "host_byte c = (is_alnum c \<or> c \<in> set ''!$&()*+,;=:[]<>-_.~'' \<or> c = CHR 0x27 \<or> c = CHR 0x22)"

text \<open>\<^verbatim>\<open>unescape\<close> in the modes of hosts and zones.\<close>

fun unescape_host :: "bool \<Rightarrow> string \<Rightarrow> string option" where
  "unescape_host zone [] = Some []"
| "unescape_host zone (c # s) =
     (if c = CHR ''%''
      then (case s of
          a # b # r \<Rightarrow>
            (let v = 16 * unhex a + unhex b; is25 = (a = CHR ''2'' \<and> b = CHR ''5'') in
             if \<not> is_hex a \<or> \<not> is_hex b then None
             else if \<not> zone \<and> unhex a < 8 \<and> \<not> is25 then None
             else if zone \<and> \<not> is25 \<and> v \<noteq> 32 \<and> \<not> host_byte (byte v) then None
             else map_option (\<lambda>t. byte v # t) (unescape_host zone r))
        | _ \<Rightarrow> None)
      else if byte_val c < 128 \<and> \<not> host_byte c then None
      else map_option (\<lambda>t. c # t) (unescape_host zone s))"

definition valid_optional_port :: "string \<Rightarrow> bool" where
  "valid_optional_port p = (case p of [] \<Rightarrow> True | c # ds \<Rightarrow> c = CHR '':'' \<and> list_all is_digit ds)"

definition parse_host :: "string \<Rightarrow> string option" where
  "parse_host h =
     (if has_prefix h ''[''
      then (case last_index_byte h CHR '']'' of None \<Rightarrow> None
        | Some i \<Rightarrow>
          if \<not> valid_optional_port (drop (Suc i) h) then None
          else (case index_of (take i h) ''%25'' of
              Some z \<Rightarrow>
                (case (unescape_host False (take z h), unescape_host True (drop z (take i h)),
                       unescape_host False (drop i h)) of
                   (Some a, Some b, Some c) \<Rightarrow> Some (a @ b @ c) | _ \<Rightarrow> None)
            | None \<Rightarrow> unescape_host False h))
      else (case last_index_byte h CHR '':'' of
          Some i \<Rightarrow> if valid_optional_port (drop i h) then unescape_host False h else None
        | None \<Rightarrow> unescape_host False h))"

definition userinfo_byte :: "char \<Rightarrow> bool" where
  "userinfo_byte c = (is_alnum c \<or> c \<in> set ''-._:~!$&()*+,;=%@'' \<or> c = CHR 0x27)"

text \<open>\<^verbatim>\<open>parseAuthority\<close>: whether there is user info, and the host.\<close>

definition parse_authority :: "string \<Rightarrow> (bool \<times> string) option" where
  "parse_authority a = (case last_index_byte a CHR ''@'' of
      None \<Rightarrow> map_option (Pair False) (parse_host a)
    | Some i \<Rightarrow>
      (case parse_host (drop (Suc i) a) of None \<Rightarrow> None
       | Some h \<Rightarrow>
         (let ui = take i a in
          if \<not> list_all userinfo_byte ui then None
          else if (case cut_at CHR '':'' ui of (n, None) \<Rightarrow> percent_ok n
                   | (n, Some p) \<Rightarrow> percent_ok n \<and> percent_ok p)
          then Some (True, h) else None)))"

text \<open>\<^verbatim>\<open>getScheme\<close>: \<open>None\<close> for a missing scheme before a colon, else the scheme (or none) and the rest.\<close>

fun scheme_from :: "string \<Rightarrow> string \<Rightarrow> string \<Rightarrow> (string \<times> string) option" where
  "scheme_from raw seen [] = Some ([], raw)"
| "scheme_from raw seen (c # s) =
     (if is_alnum c \<and> \<not> is_digit c then scheme_from raw (seen @ [c]) s
      else if is_digit c \<or> c \<in> set ''+-.''
      then (if seen = [] then Some ([], raw) else scheme_from raw (seen @ [c]) s)
      else if c = CHR '':'' then (if seen = [] then None else Some (seen, s))
      else Some ([], raw))"

definition get_scheme :: "string \<Rightarrow> (string \<times> string) option" where
  "get_scheme raw = scheme_from raw [] raw"

definition ctl_byte :: "char \<Rightarrow> bool" where
  "ctl_byte c = (byte_val c < 32 \<or> byte_val c = 127)"

text \<open>
  \<^verbatim>\<open>Parse\<close>. The query is what follows the first \<^verbatim>\<open>?\<close> and is not looked at; a URL without a scheme whose
  path begins with \<^verbatim>\<open>///\<close> has no authority.
\<close>

definition parse_hier :: "string \<Rightarrow> string \<Rightarrow> url option" where
  "parse_hier scheme rest =
     (if \<not> has_prefix rest ''/'' \<and> scheme \<noteq> [] then Some \<lparr>u_scheme = scheme, u_user = False, u_host = []\<rparr>
      else if \<not> has_prefix rest ''/'' \<and> CHR '':'' \<in> set (fst (cut_at CHR ''/'' rest)) then None
      else if (scheme \<noteq> [] \<or> \<not> has_prefix rest ''///'') \<and> has_prefix rest ''//''
      then (let after = drop 2 rest;
                auth = takeWhile (\<lambda>c. c \<noteq> CHR ''/'') after;
                path = dropWhile (\<lambda>c. c \<noteq> CHR ''/'') after
            in case parse_authority auth of None \<Rightarrow> None
               | Some (user, h) \<Rightarrow> if percent_ok path
                   then Some \<lparr>u_scheme = scheme, u_user = user, u_host = h\<rparr> else None)
      else if percent_ok rest then Some \<lparr>u_scheme = scheme, u_user = False, u_host = []\<rparr> else None)"

definition parse_url :: "string \<Rightarrow> url option" where
  "parse_url raw =
     (let (u, frag) = cut_at CHR ''#'' raw in
      if list_ex ctl_byte u then None
      else if frag \<noteq> None \<and> \<not> percent_ok (the frag) then None
      else if u = ''*'' then Some \<lparr>u_scheme = [], u_user = False, u_host = []\<rparr>
      else (case get_scheme u of None \<Rightarrow> None
        | Some (scheme, rest) \<Rightarrow> parse_hier (map lower_byte scheme) (fst (cut_at CHR ''?'' rest))))"

text \<open>\<^verbatim>\<open>URL.Hostname\<close>: the host without its port and without the brackets of an IPv6 address.\<close>

definition hostname :: "url \<Rightarrow> string" where
  "hostname u =
     (let h = (case last_index_byte (u_host u) CHR '':'' of
                 Some i \<Rightarrow> if valid_optional_port (drop i (u_host u)) then take i (u_host u) else u_host u
               | None \<Rightarrow> u_host u)
      in if has_prefix h ''['' \<and> has_suffix h '']'' then butlast (tl h) else h)"

section \<open>Durations\<close>

text \<open>
  \<^verbatim>\<open>time.ParseDuration\<close>, in nanoseconds. \<open>frac f unit k\<close> is the double-precision product
  \<^verbatim>\<open>uint64(float64(f) * (float64(unit) / scale))\<close> with \<^verbatim>\<open>scale\<close> ten to the \<open>k\<close>.
\<close>

definition duration_units :: "(string \<times> nat) list" where
  "duration_units =
     [(''ns'', 1), (''us'', 1000), ([byte 0xC2, byte 0xB5, CHR ''s''], 1000),
      ([byte 0xCE, byte 0xBC, CHR ''s''], 1000), (''ms'', 1000000), (''s'', 1000000000),
      (''m'', 60000000000), (''h'', 3600000000000)]"

fun leading_int :: "nat \<Rightarrow> string \<Rightarrow> nat option" where
  "leading_int x [] = Some x"
| "leading_int x (c # cs) =
     (if 922337203685477580 < x then None
      else let y = 10 * x + (byte_val c - 48) in
        if 9223372036854775808 < y then None else leading_int y cs)"

text \<open>\<^verbatim>\<open>leadingFraction\<close>: the digits that fit, and how many.\<close>

fun leading_fraction :: "nat \<Rightarrow> nat \<Rightarrow> string \<Rightarrow> nat \<times> nat" where
  "leading_fraction x k [] = (x, k)"
| "leading_fraction x k (c # cs) =
     (if 922337203685477580 < x then (x, k)
      else let y = 10 * x + (byte_val c - 48) in
        if 9223372036854775808 < y then (x, k) else leading_fraction y (Suc k) cs)"

definition unit_byte :: "char \<Rightarrow> bool" where
  "unit_byte c = (c \<noteq> CHR ''.'' \<and> \<not> is_digit c)"

text \<open>One number with its unit: its value and what is left, or an error.\<close>

definition parse_term :: "(nat \<Rightarrow> nat \<Rightarrow> nat \<Rightarrow> nat) \<Rightarrow> string \<Rightarrow> (nat \<times> string) option" where
  "parse_term frac s =
     (let pre = takeWhile is_digit s; s1 = dropWhile is_digit s;
          dot = has_prefix s1 ''.'';
          post = (if dot then takeWhile is_digit (tl s1) else []);
          s2 = (if dot then dropWhile is_digit (tl s1) else s1);
          u = takeWhile unit_byte s2; s3 = dropWhile unit_byte s2
      in case leading_int 0 pre of None \<Rightarrow> None
         | Some v \<Rightarrow>
           if pre = [] \<and> post = [] then None
           else (case map_of duration_units u of None \<Rightarrow> None
             | Some un \<Rightarrow>
               if 9223372036854775808 div un < v then None
               else (let (f, k) = leading_fraction 0 0 post;
                         w = v * un + (if 0 < f then frac f un k else 0) in
                     if 0 < f \<and> 9223372036854775808 < w then None else Some (w, s3))))"

lemma parse_term_shrinks:
  assumes "parse_term frac s = Some (v, r)"
  shows "length r < length s"
proof -
  have le: "length (dropWhile p xs) \<le> length xs" for p and xs :: string
    by (rule length_dropWhile_le)
  have unit: "map_of duration_units [] = None" by (simp add: duration_units_def)
  define s1 where "s1 = dropWhile is_digit s"
  define s2 where "s2 = (if has_prefix s1 ''.'' then dropWhile is_digit (tl s1) else s1)"
  have r: "r = dropWhile unit_byte s2" and u: "takeWhile unit_byte s2 \<noteq> []"
    using assms unit
    by (auto simp: parse_term_def Let_def s1_def s2_def split: option.splits if_splits prod.splits)
  have "length s2 \<le> length s"
    using le [of is_digit s] le [of is_digit "tl s1"] by (auto simp: s2_def s1_def)
  moreover have "length r < length s2"
    using u r by (metis append_Nil le_neq_implies_less length_append le_add2 takeWhile_dropWhile_id
        add_cancel_left_left length_0_conv le)
  ultimately show ?thesis by simp
qed

function parse_terms :: "(nat \<Rightarrow> nat \<Rightarrow> nat \<Rightarrow> nat) \<Rightarrow> nat \<Rightarrow> string \<Rightarrow> nat option" where
  "parse_terms frac d s =
     (if s = [] then Some d
      else case parse_term frac s of None \<Rightarrow> None
        | Some (v, r) \<Rightarrow>
          (let d = (d + v) mod 18446744073709551616 in
           if 9223372036854775808 < d then None else parse_terms frac d r))"
  by pat_completeness auto
termination
  by (relation "measure (\<lambda>(frac, d, s). length s)") (auto dest: parse_term_shrinks)

declare parse_terms.simps [simp del]

definition parse_duration :: "(nat \<Rightarrow> nat \<Rightarrow> nat \<Rightarrow> nat) \<Rightarrow> string \<Rightarrow> int option" where
  "parse_duration frac s =
     (let neg = has_prefix s ''-''; s = (if neg \<or> has_prefix s ''+'' then tl s else s) in
      if s = ''0'' then Some 0
      else if s = [] then None
      else (case parse_terms frac 0 s of None \<Rightarrow> None
        | Some d \<Rightarrow> if neg then Some (i64 (- int d))
            else if 9223372036854775807 < d then None else Some (int d)))"

section \<open>Scanning lines\<close>

text \<open>
  The lines a \<^verbatim>\<open>bufio.Scanner\<close> yields, and whether it stopped at a line that does not fit its buffer
  of 64 KiB.
\<close>

fun scanned_lines :: "string list \<Rightarrow> string list \<times> bool" where
  "scanned_lines [] = ([], False)"
| "scanned_lines (l # ls) =
     (if 65536 \<le> length l then ([], True)
      else (case scanned_lines ls of (out, e) \<Rightarrow> (l # out, e)))"

lemma scanned_lines_all: "\<forall>l\<in>set ls. length l < 65536 \<Longrightarrow> scanned_lines ls = (ls, False)"
  by (induction ls) auto

lemma split_on_line: "c \<notin> set l \<Longrightarrow> split_on c (l @ c # s) = l # split_on c s"
  by (induction l) auto

lemma split_on_lines:
  "\<forall>l\<in>set ls. c \<notin> set l \<Longrightarrow> split_on c (concat (map (\<lambda>l. l @ [c]) ls)) = ls @ [[]]"
  by (induction ls) (simp_all add: split_on_line)

end
