(* ===== verification/Config.thy ===== *)
theory Config
  imports Go_Std Go_Utf8
begin

text \<open>
  The agent's settings (\<^verbatim>\<open>internal/config/config.go\<close>, \<^verbatim>\<open>file.go\<close>): loading them from the environment
  with the installed file behind it, the checks on the URL, and which URL a server's answer may move
  the agent to. Parameters: \<open>getenv\<close> is the environment (the empty string for an unset variable),
  \<open>read_path\<close> what opening a path gives, \<open>ulower\<close> Unicode's lower case of a string that is not ASCII,
  \<open>frac\<close> the fractions of \<^verbatim>\<open>time.ParseDuration\<close>.
\<close>

section \<open>The file (file.go)\<close>

datatype path_read = Absent | Unreadable | Contents string

text \<open>\<open>join dir\<close> is \<^verbatim>\<open>filepath.Join(dir, "InfraNest", "agent.conf")\<close> of the platform.\<close>

definition default_config_path :: "(string \<Rightarrow> string) \<Rightarrow> (string \<Rightarrow> string) \<Rightarrow> string" where
  "default_config_path join getenv =
     (if getenv ''PROGRAMDATA'' \<noteq> [] then join (getenv ''PROGRAMDATA'')
      else ''/etc/infranest/agent.conf'')"

definition unquote :: "string \<Rightarrow> string" where
  "unquote v =
     (if 2 \<le> length v \<and> (hd v = CHR 0x22 \<and> last v = CHR 0x22 \<or> hd v = CHR 0x27 \<and> last v = CHR 0x27)
      then butlast (tl v) else v)"

text \<open>One line of the file: the key and value it sets, if it sets one.\<close>

definition parse_line :: "string \<Rightarrow> (string \<times> string) option" where
  "parse_line raw =
     (let l = trim_space raw in
      if l = [] \<or> has_prefix l ''#'' then None
      else (case cut_at CHR ''='' l of (_, None) \<Rightarrow> None
        | (k, Some v) \<Rightarrow>
          let key = trim_space k; value = unquote (trim_space v) in
          if key \<noteq> [] then Some (key, value) else None))"

definition set_values :: "string list \<Rightarrow> string \<rightharpoonup> string" where
  "set_values ls = foldl (\<lambda>m l. case parse_line l of Some (k, v) \<Rightarrow> m(k \<mapsto> v) | None \<Rightarrow> m) (\<lambda>_. None) ls"

text \<open>\<^verbatim>\<open>readFile\<close>: the values, and whether there was an error (an absent file is none).\<close>

definition read_file :: "path_read \<Rightarrow> (string \<rightharpoonup> string) \<times> bool" where
  "read_file p = (case p of Absent \<Rightarrow> ((\<lambda>_. None), False) | Unreadable \<Rightarrow> ((\<lambda>_. None), True)
     | Contents s \<Rightarrow> (case scanned_lines (split_on (byte 10) s) of (ls, e) \<Rightarrow> (set_values ls, e)))"

definition unreadable_key :: string where
  "unreadable_key = '' config-unreadable''"

definition with_file_fallback ::
  "(string \<Rightarrow> string) \<Rightarrow> (string \<Rightarrow> path_read) \<Rightarrow> (string \<Rightarrow> string) \<Rightarrow> string \<Rightarrow> string" where
  "with_file_fallback join read_path getenv =
     (let p = trim_space (getenv ''INFRANEST_CONFIG'');
          path = (if p = [] then default_config_path join getenv else p);
          (values, e) = read_file (read_path path);
          unreadable = (if e then path else [])
      in (\<lambda>key. if key = unreadable_key then unreadable
                else if getenv key \<noteq> [] then getenv key
                else (case values key of Some v \<Rightarrow> v | None \<Rightarrow> [])))"

section \<open>The settings (config.go)\<close>

definition default_url :: string where
  "default_url = ''https://ingest.infranest.io''"

definition min_interval :: int where "min_interval = 10000000000"
definition max_interval :: int where "max_interval = 300000000000"
definition default_interval :: int where "default_interval = 60000000000"

record config =
  token :: string
  url_setting :: string
  interval_setting :: int
  processes :: bool
  process_args :: bool
  services :: bool
  renewers :: bool
  listening :: bool
  cron :: bool
  job_output :: bool
  journal_setting :: bool
  jobs_dir :: string
  state_dir :: string

datatype load_err = TokenFileUnreadable string | TokenUnset | NotADuration string | IntervalOutside int
  | BadURL | NotHTTPS | NoHost | HasUserInfo | ArgsWithoutProcesses

definition truthy :: "(string \<Rightarrow> string) \<Rightarrow> string \<Rightarrow> bool" where
  "truthy ulower v = (to_lower ulower (trim_space v) \<in> set [''1'', ''true'', ''yes'', ''on''])"

definition falsey :: "(string \<Rightarrow> string) \<Rightarrow> string \<Rightarrow> bool" where
  "falsey ulower v = (to_lower ulower (trim_space v) \<in> set [''0'', ''false'', ''no'', ''off''])"

definition default_state_dir :: "(string \<Rightarrow> string) \<Rightarrow> string" where
  "default_state_dir getenv =
     (if getenv ''PROGRAMDATA'' \<noteq> []
      then getenv ''PROGRAMDATA'' @ [CHR 0x5C] @ ''InfraNest'' @ [CHR 0x5C] @ ''agent''
      else ''/var/lib/infranest-agent'')"

definition validate_url :: "string \<Rightarrow> load_err option" where
  "validate_url raw = (case parse_url raw of None \<Rightarrow> Some BadURL
     | Some u \<Rightarrow> if u_scheme u \<noteq> ''https'' then Some NotHTTPS
         else if u_host u = [] then Some NoHost
         else if u_user u then Some HasUserInfo else None)"

definition load_interval :: "(nat \<Rightarrow> nat \<Rightarrow> nat \<Rightarrow> nat) \<Rightarrow> string \<Rightarrow> load_err + int" where
  "load_interval frac raw =
     (if raw = [] then Inr default_interval
      else (case parse_duration frac raw of None \<Rightarrow> Inl (NotADuration raw)
        | Some d \<Rightarrow> if d < min_interval \<or> max_interval < d then Inl (IntervalOutside d) else Inr d))"

definition load ::
  "(string \<Rightarrow> string) \<Rightarrow> (nat \<Rightarrow> nat \<Rightarrow> nat \<Rightarrow> nat) \<Rightarrow> (string \<Rightarrow> string) \<Rightarrow> (string \<Rightarrow> path_read)
     \<Rightarrow> (string \<Rightarrow> string) \<Rightarrow> load_err + config" where
  "load ulower frac join read_path env =
     (let getenv = with_file_fallback join read_path env;
          c = \<lparr>token = trim_space (getenv ''INFRANEST_TOKEN''),
               url_setting = trim_space (getenv ''INFRANEST_URL''),
               interval_setting = default_interval,
               processes = truthy ulower (getenv ''INFRANEST_PROCESSES''),
               process_args = truthy ulower (getenv ''INFRANEST_PROCESS_ARGS''),
               services = (\<not> falsey ulower (getenv ''INFRANEST_SERVICES'')),
               renewers = (\<not> falsey ulower (getenv ''INFRANEST_RENEWERS'')),
               listening = (\<not> falsey ulower (getenv ''INFRANEST_LISTENING'')),
               cron = (\<not> falsey ulower (getenv ''INFRANEST_CRON'')),
               job_output = (\<not> falsey ulower (getenv ''INFRANEST_JOB_OUTPUT'')),
               journal_setting = (\<not> falsey ulower (getenv ''INFRANEST_JOURNAL'')),
               jobs_dir = trim_space (getenv ''INFRANEST_JOBS_DIR''),
               state_dir = trim_space (getenv ''INFRANEST_STATE_DIR'')\<rparr>
      in if token c = []
         then Inl (if getenv unreadable_key \<noteq> [] then TokenFileUnreadable (getenv unreadable_key)
                   else TokenUnset)
         else (let c = c\<lparr>url_setting := (if url_setting c = [] then default_url else url_setting c),
                        state_dir := (if state_dir c = [] then default_state_dir getenv else state_dir c)\<rparr>
               in case load_interval frac (trim_space (getenv ''INFRANEST_INTERVAL'')) of
                    Inl e \<Rightarrow> Inl e
                  | Inr d \<Rightarrow>
                    (case validate_url (url_setting c) of Some e \<Rightarrow> Inl e
                     | None \<Rightarrow> if process_args c \<and> \<not> processes c then Inl ArgsWithoutProcesses
                               else Inr (c\<lparr>interval_setting := d\<rparr>))))"

section \<open>Where readings are sent\<close>

definition push_path :: string where
  "push_path = ''/api/metrics/push''"

definition push_endpoint :: "string \<Rightarrow> string" where
  "push_endpoint base =
     trim_right_of ''/'' (trim_suffix (trim_right_of ''/'' base) push_path) @ push_path"

definition push_url :: "config \<Rightarrow> string" where
  "push_url c = push_endpoint (url_setting c)"

definition registrable :: "(string \<Rightarrow> string) \<Rightarrow> string \<Rightarrow> string" where
  "registrable ulower host =
     (let labels = split_on CHR ''.'' (to_lower ulower (trim_suffix host ''.'')) in
      if length labels < 2 then to_lower ulower host else join_with ''.'' (last_n 2 labels))"

definition adopt :: "(string \<Rightarrow> string) \<Rightarrow> string \<Rightarrow> string \<Rightarrow> string \<times> bool" where
  "adopt ulower current offered =
     (if offered = [] then (current, False)
      else if validate_url offered \<noteq> None then (current, False)
      else (let offered = push_endpoint offered in
        if offered = current then (current, False)
        else (case (parse_url current, parse_url offered) of
            (Some cur, Some nxt) \<Rightarrow>
              if registrable ulower (hostname cur) \<noteq> registrable ulower (hostname nxt)
              then (current, False) else (offered, True)
          | _ \<Rightarrow> (current, False))))"

end
