(* ===== verification/Config_Facts.thy ===== *)
theory Config_Facts
  imports Config
begin

text \<open>
  Lemmas about the settings: which parts of a URL \<open>push_endpoint\<close> leaves alone, so that a move of the
  agent stays on https and on its domain, and what a line of the installed file sets.
\<close>

section \<open>The parts of a URL\<close>

definition ends_authority :: "string \<Rightarrow> bool" where
  "ends_authority r \<longleftrightarrow> (case r of [] \<Rightarrow> True | c # _ \<Rightarrow> c \<in> {CHR ''/'', CHR ''?'', CHR ''#''})"

definition scheme_byte :: "char \<Rightarrow> bool" where
  "scheme_byte c \<longleftrightarrow> is_alnum c \<or> c \<in> set ''+-.''"

definition plain_authority :: "string \<Rightarrow> bool" where
  "plain_authority a \<longleftrightarrow> CHR ''/'' \<notin> set a \<and> CHR ''?'' \<notin> set a \<and> CHR ''#'' \<notin> set a"

lemma scheme_from_Some:
  "scheme_from raw seen s = Some (sch, rest) \<Longrightarrow> raw = seen @ s \<Longrightarrow> sch \<noteq> [] \<Longrightarrow> list_all scheme_byte seen
    \<Longrightarrow> raw = sch @ CHR '':'' # rest \<and> list_all scheme_byte sch"
proof (induction raw seen s rule: scheme_from.induct)
  case (2 raw seen c s)
  then show ?case by (auto simp: scheme_byte_def is_alnum_def split: if_splits)
qed simp

lemma get_scheme_Some:
  "get_scheme raw = Some (sch, rest) \<Longrightarrow> sch \<noteq> []
    \<Longrightarrow> raw = sch @ CHR '':'' # rest \<and> list_all scheme_byte sch"
  unfolding get_scheme_def by (drule scheme_from_Some) auto

lemma not_scheme_byte: "\<not> scheme_byte CHR '':''" "\<not> scheme_byte CHR ''/''" "\<not> scheme_byte CHR ''#''"
  "\<not> scheme_byte CHR ''?''"
  by (simp_all add: scheme_byte_def is_alnum_def is_digit_def)

lemma scheme_from_exact:
  "list_all scheme_byte t \<Longrightarrow> seen \<noteq> [] \<Longrightarrow> scheme_from raw seen (t @ CHR '':'' # rest) = Some (seen @ t, rest)"
proof (induction t arbitrary: seen)
  case Nil
  then show ?case by (simp add: is_alnum_def is_digit_def)
next
  case (Cons c t)
  then show ?case by (auto simp: scheme_byte_def is_alnum_def)
qed

lemma get_scheme_exact:
  assumes "list_all scheme_byte t" "get_scheme (t @ CHR '':'' # rest) = Some (sch, r)" "sch \<noteq> []"
  shows "sch = t" "r = rest"
proof -
  have e: "t @ CHR '':'' # rest = sch @ CHR '':'' # r" "list_all scheme_byte sch"
    using get_scheme_Some [OF assms(2,3)] by auto
  have tw: "takeWhile scheme_byte (u @ CHR '':'' # v) = u" if "list_all scheme_byte u" for u v
    using that by (induction u) (auto simp: not_scheme_byte)
  show "sch = t" using tw [OF assms(1)] tw [OF e(2)] e(1) by metis
  then show "r = rest" using e(1) by simp
qed

lemma takeWhile_none: "c \<notin> set s \<Longrightarrow> takeWhile (\<lambda>x. x \<noteq> c) (s @ t) = s @ takeWhile (\<lambda>x. x \<noteq> c) t"
  by (induction s) auto

lemma dropWhile_none: "c \<notin> set s \<Longrightarrow> dropWhile (\<lambda>x. x \<noteq> c) (s @ t) = dropWhile (\<lambda>x. x \<noteq> c) t"
  by (induction s) auto

lemma scheme_free: "list_all scheme_byte s \<Longrightarrow> CHR ''/'' \<notin> set s \<and> CHR ''#'' \<notin> set s \<and> CHR ''?'' \<notin> set s"
  using not_scheme_byte by (auto simp: list_all_iff)

lemma cut_fst: "fst (cut_at c s) = takeWhile (\<lambda>x. x \<noteq> c) s"
  by (simp add: cut_at_def)

definition before_fragment :: "string \<Rightarrow> string" where
  "before_fragment raw = takeWhile (\<lambda>x. x \<noteq> CHR ''#'') raw"

lemma parse_url_Some:
  assumes "parse_url raw = Some u" "u_scheme u \<noteq> []"
  obtains sch rest where "get_scheme (before_fragment raw) = Some (sch, rest)" "sch \<noteq> []"
    "parse_hier (map lower_byte sch) (takeWhile (\<lambda>x. x \<noteq> CHR ''?'') rest) = Some u"
    "u_scheme u = map lower_byte sch"
proof -
  obtain sch rest where g: "get_scheme (before_fragment raw) = Some (sch, rest)"
    "parse_hier (map lower_byte sch) (takeWhile (\<lambda>x. x \<noteq> CHR ''?'') rest) = Some u"
    using assms
    by (auto simp: parse_url_def before_fragment_def cut_at_def Let_def split: if_splits option.splits prod.splits)
  have "u_scheme u = map lower_byte sch"
    using g(2) by (auto simp: parse_hier_def Let_def split: if_splits option.splits prod.splits)
  with g assms(2) show thesis by (intro that) auto
qed

lemma parse_hier_authority:
  assumes "sch \<noteq> []" "plain_authority a" "r = [] \<or> hd r = CHR ''/''" "parse_hier sch (''//'' @ a @ r) = Some u"
  shows "parse_authority a = Some (u_user u, u_host u)"
proof -
  have t: "takeWhile (\<lambda>c. c \<noteq> CHR ''/'') r = []" using assms(3) by (cases r) auto
  have "takeWhile (\<lambda>c. c \<noteq> CHR ''/'') (a @ r) = a"
    using assms(2) t by (simp add: takeWhile_none plain_authority_def)
  then show ?thesis
    using assms(1,4)
    by (auto simp: parse_hier_def Let_def split: if_splits option.splits prod.splits)
qed

lemma parse_url_parts:
  assumes u: "parse_url raw = Some u" "u_scheme u = ''https''" "u_host u \<noteq> []"
  obtains sch a r where "raw = sch @ ''://'' @ a @ r" "list_all scheme_byte sch" "sch \<noteq> []"
    "map lower_byte sch = ''https''" "plain_authority a" "ends_authority r" "a \<noteq> []"
    "parse_authority a = Some (u_user u, u_host u)"
proof -
  obtain sch rest where g: "get_scheme (before_fragment raw) = Some (sch, rest)" "sch \<noteq> []"
    "parse_hier (map lower_byte sch) (takeWhile (\<lambda>x. x \<noteq> CHR ''?'') rest) = Some u"
    "u_scheme u = map lower_byte sch"
    using parse_url_Some [OF u(1)] u(2) by auto
  define rest' where "rest' = takeWhile (\<lambda>x. x \<noteq> CHR ''?'') rest"
  have b: "before_fragment raw = sch @ CHR '':'' # rest" "list_all scheme_byte sch"
    using get_scheme_Some [OF g(1,2)] by auto
  have slash: "has_prefix rest' ''//''"
    using g(3) u(3) by (auto simp: rest'_def parse_hier_def Let_def split: if_splits option.splits prod.splits)
  then obtain t where t: "rest' = ''//'' @ t" by (auto simp: has_prefix_iff)
  define a where "a = takeWhile (\<lambda>c. c \<noteq> CHR ''/'') t"
  define r where "r = dropWhile (\<lambda>c. c \<noteq> CHR ''/'') t"
  have tar: "t = a @ r" by (simp add: a_def r_def)
  have noq: "CHR ''?'' \<notin> set rest'"
    unfolding rest'_def by (auto dest: set_takeWhileD)
  have nof: "CHR ''#'' \<notin> set (before_fragment raw)"
    unfolding before_fragment_def by (auto dest: set_takeWhileD)
  have hd: "hd (dropWhile (\<lambda>x. x \<noteq> c) y) = c" if "dropWhile (\<lambda>x. x \<noteq> c) y \<noteq> []" for c :: char and y
    using hd_dropWhile [OF that] by simp
  obtain d1 where d1: "rest = rest' @ d1" "d1 = [] \<or> hd d1 = CHR ''?''"
    using hd [of "CHR ''?''" rest] unfolding rest'_def by (metis takeWhile_dropWhile_id)
  obtain d2 where d2: "raw = before_fragment raw @ d2" "d2 = [] \<or> hd d2 = CHR ''#''"
    using hd [of "CHR ''#''" raw] unfolding before_fragment_def by (metis takeWhile_dropWhile_id)
  have sub: "set rest' \<subseteq> set (before_fragment raw)"
    unfolding b(1) d1(1) by auto
  have "set a \<subseteq> set rest'" unfolding t a_def by (auto dest: set_takeWhileD)
  moreover have "CHR ''/'' \<notin> set a" unfolding a_def by (auto dest: set_takeWhileD)
  ultimately have plain: "plain_authority a"
    using noq nof sub unfolding plain_authority_def by blast
  have r: "r = [] \<or> hd r = CHR ''/''" using hd [of "CHR ''/''" t] by (auto simp: r_def)
  define r' where "r' = r @ d1 @ d2"
  have "before_fragment raw @ d2 = sch @ ''://'' @ a @ r'"
    unfolding b(1) d1(1) t tar r'_def by simp
  then have "raw = sch @ ''://'' @ a @ r'" using d2(1) by simp
  moreover have "ends_authority r'"
    using r d1(2) d2(2) unfolding r'_def ends_authority_def by (cases r; cases d1; cases d2) auto
  moreover have pa: "parse_authority a = Some (u_user u, u_host u)"
  proof (rule parse_hier_authority [of "map lower_byte sch" a r])
    show "r = [] \<or> hd r = CHR ''/''" by (rule r)
    show "parse_hier (map lower_byte sch) (''//'' @ a @ r) = Some u"
      using g(3) t tar by (simp add: rest'_def)
  qed (use g(2) plain in auto)
  moreover have "a \<noteq> []"
  proof
    assume "a = []"
    then have "parse_authority [] = Some (False, [])" by (simp add: parse_authority_def parse_host_def)
    then show False using pa u(3) \<open>a = []\<close> by simp
  qed
  ultimately show thesis
    using b(2) g(2,4) u(2) plain by (intro that [of sch a r']) auto
qed


lemma get_scheme_https:
  assumes sch: "list_all scheme_byte sch" "map lower_byte sch = ''https''"
  shows "get_scheme (sch @ CHR '':'' # rest) = Some (sch, rest)"
proof -
  obtain c t where c: "sch = c # t" using sch(2) by (cases sch) auto
  have "\<not> is_digit c \<and> c \<notin> set ''+-.''"
  proof -
    have "lower_byte c = CHR ''h''" using sch(2) c by simp
    then have "byte_val (lower_byte c) = 104" by simp
    then show ?thesis
      by (auto simp: lower_byte_def is_digit_def byte_def split: if_splits)
  qed
  then have "is_alnum c \<and> \<not> is_digit c" using sch(1) c by (auto simp: scheme_byte_def)
  then show ?thesis
    using sch(1) c scheme_from_exact [of t "[c]" _ rest] by (simp add: get_scheme_def)
qed

lemma parse_url_exact:
  assumes sch: "list_all scheme_byte sch" "sch \<noteq> []" "map lower_byte sch = ''https''"
    and a: "plain_authority a" and r: "ends_authority r"
    and u: "parse_url (sch @ ''://'' @ a @ r) = Some u"
  shows "u_scheme u = ''https''" "parse_authority a = Some (u_user u, u_host u)"
proof -
  define r1 where "r1 = takeWhile (\<lambda>x. x \<noteq> CHR ''#'') r"
  define r2 where "r2 = takeWhile (\<lambda>x. x \<noteq> CHR ''?'') r1"
  have bf: "before_fragment (sch @ ''://'' @ a @ r) = sch @ ''://'' @ a @ r1"
    using scheme_free [OF sch(1)] a
    by (simp add: before_fragment_def takeWhile_none plain_authority_def r1_def)
  have q: "takeWhile (\<lambda>x. x \<noteq> CHR ''?'') (''//'' @ a @ r1) = ''//'' @ a @ r2"
    using a by (simp add: takeWhile_none plain_authority_def r2_def)
  have ctl: "\<not> list_ex ctl_byte (sch @ ''://'' @ a @ r1)"
    and gs: "\<exists>s rest. get_scheme (sch @ ''://'' @ a @ r1) = Some (s, rest)
      \<and> parse_hier (map lower_byte s) (takeWhile (\<lambda>x. x \<noteq> CHR ''?'') rest) = Some u"
    using u bf
    by (auto simp: parse_url_def before_fragment_def cut_at_def Let_def split: if_splits option.splits prod.splits)
  then obtain s rest where s: "get_scheme (sch @ ''://'' @ a @ r1) = Some (s, rest)"
    "parse_hier (map lower_byte s) (takeWhile (\<lambda>x. x \<noteq> CHR ''?'') rest) = Some u" by blast
  have e: "s = sch" "rest = ''//'' @ a @ r1"
    using get_scheme_https [OF sch(1,3), of "''//'' @ a @ r1"] s(1) by simp_all
  have h: "parse_hier ''https'' (''//'' @ a @ r2) = Some u" using s(2) unfolding e q sch(3) .
  then show "u_scheme u = ''https''"
    by (auto simp: parse_hier_def Let_def split: if_splits option.splits prod.splits)
  have "r2 = [] \<or> hd r2 = CHR ''/''"
    using r by (cases r) (auto simp: r2_def r1_def ends_authority_def split: if_splits)
  then show "parse_authority a = Some (u_user u, u_host u)"
    using h by (intro parse_hier_authority [OF _ a]) auto
qed

section \<open>The push endpoint\<close>

lemma trim_right_append:
  "x \<noteq> [] \<Longrightarrow> last x \<notin> set cs \<Longrightarrow> trim_right_of cs (x @ r) = x @ trim_right_of cs r"
  by (cases x rule: rev_cases) (auto simp: trim_right_of_def dropWhile_append)

lemma trim_right_prefix: "\<exists>y. s = trim_right_of cs s @ y"
proof -
  have "rev s = takeWhile (\<lambda>c. c \<in> set cs) (rev s) @ dropWhile (\<lambda>c. c \<in> set cs) (rev s)" by simp
  then have "s = rev (dropWhile (\<lambda>c. c \<in> set cs) (rev s)) @ rev (takeWhile (\<lambda>c. c \<in> set cs) (rev s))"
    by (metis rev_append rev_rev_ident)
  then show ?thesis unfolding trim_right_of_def by blast
qed

lemma trim_right_last: "trim_right_of cs s = [] \<or> last (trim_right_of cs s) \<notin> set cs"
proof (cases "dropWhile (\<lambda>c. c \<in> set cs) (rev s)")
  case Nil
  then show ?thesis by (simp add: trim_right_of_def)
next
  case (Cons c t)
  then have "c \<notin> set cs" by (simp add: dropWhile_eq_Cons_conv)
  then show ?thesis by (simp add: trim_right_of_def Cons)
qed

lemma ends_authority_prefix: "ends_authority (r @ y) \<Longrightarrow> ends_authority r"
  by (cases r) (auto simp: ends_authority_def)

lemma push_endpoint_suffix: "has_suffix (push_endpoint b) push_path"
  by (simp add: push_endpoint_def)

lemma push_endpoint_idem: "push_endpoint (push_endpoint b) = push_endpoint b"
proof -
  define t where "t = trim_right_of ''/'' (trim_suffix (trim_right_of ''/'' b) push_path)"
  have "trim_right_of ''/'' (t @ push_path) = t @ push_path"
    by (simp add: trim_right_of_def push_path_def)
  moreover have "trim_right_of ''/'' t = t"
    using trim_right_last [of "''/''"] trim_right_append [of t "''/''" "[]"]
    unfolding t_def by (metis append_Nil2 trim_right_of_def dropWhile.simps(1) rev.simps(1))
  ultimately show ?thesis unfolding push_endpoint_def t_def [symmetric] by simp
qed

lemma push_endpoint_slash: "push_endpoint (b @ ''/'') = push_endpoint b"
  by (simp add: push_endpoint_def trim_right_of_def)


text \<open>
  Where the endpoint of a URL points: at the same authority, but for one case. The whole authority is
  \<^verbatim>\<open>api\<close> and the path \<^verbatim>\<open>/metrics/push\<close>: then the suffix that is trimmed begins with the second slash
  of \<^verbatim>\<open>://\<close> and takes the host with it.
\<close>

lemma push_endpoint_parts:
  assumes sch: "list_all scheme_byte sch" and a: "plain_authority a" "a \<noteq> []" and r: "ends_authority r"
  shows "(\<exists>r'. push_endpoint (sch @ ''://'' @ a @ r) = sch @ ''://'' @ a @ r' \<and> ends_authority r')
    \<or> push_endpoint (sch @ ''://'' @ a @ r) = sch @ '':'' @ push_path"
proof -
  define pre where "pre = sch @ ''://'' @ a"
  have last: "pre \<noteq> []" "last pre \<noteq> CHR ''/''"
  proof -
    have "last a \<noteq> CHR ''/''" using a last_in_set [OF a(2)] unfolding plain_authority_def by metis
    then show "pre \<noteq> []" "last pre \<noteq> CHR ''/''" using a(2) by (simp_all add: pre_def last_append)
  qed
  define r1 where "r1 = trim_right_of ''/'' r"
  have r1: "ends_authority r1"
    using trim_right_prefix [of r "''/''"] ends_authority_prefix r unfolding r1_def by metis
  have t1: "trim_right_of ''/'' (pre @ r) = pre @ r1"
    using last by (simp add: trim_right_append r1_def)
  show ?thesis
  proof (cases "has_suffix (pre @ r1) push_path")
    case False
    then have "push_endpoint (pre @ r) = pre @ trim_right_of ''/'' r1 @ push_path"
      using last t1 by (simp add: push_endpoint_def trim_suffix_def trim_right_append)
    moreover have "ends_authority (trim_right_of ''/'' r1 @ push_path)"
      using trim_right_prefix [of r1 "''/''"] r1
      by (cases "trim_right_of ''/'' r1") (auto simp: ends_authority_def push_path_def split: list.splits)
    ultimately show ?thesis unfolding pre_def by auto
  next
    case True
    then obtain x where x: "pre @ r1 = x @ push_path" by (auto simp: has_suffix_iff)
    then have ts: "trim_suffix (pre @ r1) push_path = x" by simp
    obtain us where us: "(pre = x @ us \<and> us @ r1 = push_path) \<or> (pre @ us = x \<and> r1 = us @ push_path)"
      using x unfolding append_eq_append_conv2 by blast
    consider (far) y where "x = pre @ y" "r1 = y @ push_path"
      | (near) q where "pre = x @ q" "push_path = q @ r1" "q \<noteq> []"
      using us by (cases "us = []") auto
    then show ?thesis
    proof cases
      case far
      then have "push_endpoint (pre @ r) = pre @ trim_right_of ''/'' y @ push_path"
        using last t1 ts by (simp add: push_endpoint_def trim_right_append)
      moreover have "ends_authority (trim_right_of ''/'' y @ push_path)"
        using trim_right_prefix [of y "''/''"] far r1
        by (cases "trim_right_of ''/'' y") (auto simp: ends_authority_def push_path_def split: list.splits)
      ultimately show ?thesis unfolding pre_def by auto
    next
      case near
      then obtain q' where q: "q = CHR ''/'' # q'" "''api/metrics/push'' = q' @ r1"
        by (cases q) (auto simp: push_path_def)
      have nosl: "CHR ''/'' \<notin> set sch" "CHR ''/'' \<notin> set a"
        using scheme_free [OF sch] a by (auto simp: plain_authority_def)
      have "sch @ CHR '':'' # CHR ''/'' # CHR ''/'' # a = x @ CHR ''/'' # q'"
        using near(1) q(1) by (simp add: pre_def)
      then have "x = sch @ '':'' \<and> q' = CHR ''/'' # a \<or> x = sch @ '':/'' \<and> q' = a"
        using nosl
      proof (induction sch arbitrary: x)
        case Nil
        then show ?case
          by (auto simp: Cons_eq_append_conv)
      next
        case (Cons c sch)
        then show ?case by (cases x) auto
      qed
      then have "x = sch @ '':/''" using q(2) by auto
      then have "push_endpoint (pre @ r) = trim_right_of ''/'' (sch @ '':/'') @ push_path"
        using t1 ts by (simp add: push_endpoint_def)
      also have "trim_right_of ''/'' (sch @ '':/'') = sch @ '':''"
        by (simp add: trim_right_of_def)
      finally show ?thesis unfolding pre_def by simp
    qed
  qed
qed

lemma parse_url_no_host:
  assumes sch: "list_all scheme_byte sch" "map lower_byte sch = ''https''"
    and u: "parse_url (sch @ '':'' @ push_path) = Some u"
  shows "hostname u = []"
proof -
  define raw where "raw = sch @ CHR '':'' # push_path"
  have bf: "takeWhile (\<lambda>x. x \<noteq> CHR ''#'') raw = raw"
    using scheme_free [OF sch(1)] by (simp add: raw_def takeWhile_none push_path_def)
  have gs: "get_scheme raw = Some (sch, push_path)"
    unfolding raw_def by (rule get_scheme_https [OF sch])
  have "raw \<noteq> ''*''" by (simp add: raw_def push_path_def)
  then have "parse_hier ''https'' (takeWhile (\<lambda>x. x \<noteq> CHR ''?'') push_path) = Some u"
    using u unfolding raw_def [symmetric] append_Cons append_Nil
    by (auto simp: parse_url_def cut_at_def Let_def bf gs sch(2) split: if_splits)
  then have "u_host u = []" by (auto simp: parse_hier_def push_path_def)
  then show ?thesis by (simp add: hostname_def)
qed

lemma registrable_Nil: "registrable ulower [] = []"
  by (simp add: registrable_def trim_suffix_def has_suffix_def to_lower_def is_ascii_def)

lemma validate_url_None:
  "validate_url raw = None \<longleftrightarrow> (\<exists>u. parse_url raw = Some u \<and> u_scheme u = ''https'' \<and> u_host u \<noteq> []
     \<and> \<not> u_user u)"
  by (auto simp: validate_url_def split: option.splits)

lemma adopt_True:
  assumes ad: "adopt ulower current offered = (u, True)"
    and cur: "parse_url current = Some cur" "registrable ulower (hostname cur) \<noteq> []"
  shows "\<exists>nxt. parse_url u = Some nxt \<and> validate_url u = None
    \<and> registrable ulower (hostname nxt) = registrable ulower (hostname cur)
    \<and> has_suffix u push_path \<and> u \<noteq> current"
proof -
  have v: "validate_url offered = None" and u: "u = push_endpoint offered" "u \<noteq> current"
    using ad by (auto simp: adopt_def Let_def split: if_splits option.splits)
  obtain nxt where n: "parse_url u = Some nxt"
    "registrable ulower (hostname nxt) = registrable ulower (hostname cur)"
    using ad cur u by (auto simp: adopt_def Let_def split: if_splits option.splits)
  obtain o' where o': "parse_url offered = Some o'" "u_scheme o' = ''https''" "u_host o' \<noteq> []" "\<not> u_user o'"
    using v by (auto simp: validate_url_None)
  obtain sch a r where p: "offered = sch @ ''://'' @ a @ r" "list_all scheme_byte sch" "sch \<noteq> []"
    "map lower_byte sch = ''https''" "plain_authority a" "ends_authority r" "a \<noteq> []"
    "parse_authority a = Some (u_user o', u_host o')"
    using o'(1-3) by (rule parse_url_parts)
  consider (same) r' where "u = sch @ ''://'' @ a @ r'" "ends_authority r'"
    | (lost) "u = sch @ '':'' @ push_path"
    using push_endpoint_parts [OF p(2,5,7,6)] u p(1) by auto
  then have "validate_url u = None"
  proof cases
    case same
    from parse_url_exact [OF p(2,3,4,5) same(2), of nxt] n(1) same(1) p(8) o'
    show ?thesis by (auto simp: validate_url_None)
  next
    case lost
    then have "hostname nxt = []" using parse_url_no_host [OF p(2,4)] n(1) by simp
    then show ?thesis using n(2) cur(2) by (simp add: registrable_Nil)
  qed
  then show ?thesis using n u push_endpoint_suffix by auto
qed

section \<open>The installed file\<close>

text \<open>A key or value the installers write: printable ASCII without spaces.\<close>

definition graphic :: "string \<Rightarrow> bool" where
  "graphic s \<longleftrightarrow> list_all (\<lambda>c. 33 \<le> byte_val c \<and> byte_val c \<le> 126) s"

lemma space_runes_heads:
  "list_all (\<lambda>r. byte_val (hd r) < 33 \<or> 126 < byte_val (hd r)) space_runes"
  "list_all (\<lambda>r. byte_val (hd r) < 33 \<or> 126 < byte_val (hd r)) (map rev space_runes)"
  "list_all (\<lambda>r. r \<noteq> []) space_runes" "list_all (\<lambda>r. r \<noteq> []) (map rev space_runes)"
  by (simp_all add: space_runes_def)

lemma no_space_prefix:
  assumes "33 \<le> byte_val c" "byte_val c \<le> 126"
    "list_all (\<lambda>r. byte_val (hd r) < 33 \<or> 126 < byte_val (hd r)) rs" "list_all (\<lambda>r. r \<noteq> []) rs"
  shows "List.find (\<lambda>r. has_prefix (c # s) r) rs = None"
proof -
  have "\<not> has_prefix (c # s) r" if "r \<in> set rs" for r
    using assms that by (cases r) (auto simp: list_all_iff)
  then show ?thesis by (auto simp: find_None_iff)
qed

lemma strip_left_graphic:
  assumes "graphic s" "list_all (\<lambda>r. byte_val (hd r) < 33 \<or> 126 < byte_val (hd r)) rs"
    "list_all (\<lambda>r. r \<noteq> []) rs"
  shows "strip_left rs n s = s"
proof (cases s)
  case Nil
  have "\<not> has_prefix [] r" if "r \<in> set rs" for r
    using assms(3) that by (cases r) (auto simp: list_all_iff)
  then have "List.find (\<lambda>r. has_prefix [] r) rs = None" by (auto simp: find_None_iff)
  then show ?thesis using Nil by (cases n) simp_all
next
  case (Cons c t)
  then show ?thesis
    using assms no_space_prefix [of c rs t] by (cases n) (simp_all add: graphic_def)
qed

lemma trim_space_graphic:
  assumes "graphic s"
  shows "trim_space s = s"
proof -
  have "graphic (rev s)" using assms by (simp add: graphic_def)
  then show ?thesis
    using assms space_runes_heads by (simp add: trim_space_def strip_left_graphic del: list.pred_map)
qed

definition plain_setting :: "string \<times> string \<Rightarrow> bool" where
  "plain_setting kv \<longleftrightarrow> graphic (fst kv) \<and> graphic (snd kv) \<and> fst kv \<noteq> [] \<and> CHR ''='' \<notin> set (fst kv)
     \<and> hd (fst kv) \<noteq> CHR ''#'' \<and> (snd kv = [] \<or> hd (snd kv) \<notin> {CHR 0x22, CHR 0x27})
     \<and> length (fst kv) + length (snd kv) < 65535"

definition setting_line :: "string \<times> string \<Rightarrow> string" where
  "setting_line kv = fst kv @ ''='' @ snd kv"

lemma parse_setting_line:
  assumes "plain_setting kv"
  shows "parse_line (setting_line kv) = Some kv"
proof -
  obtain k v where kv: "kv = (k, v)" by (cases kv)
  have g: "graphic (k @ CHR ''='' # v)" using assms kv by (simp add: plain_setting_def graphic_def)
  have cut: "cut_at CHR ''='' (k @ CHR ''='' # v) = (k, Some v)"
    using assms kv by (simp add: cut_at_def plain_setting_def takeWhile_none dropWhile_none)
  have "\<not> has_prefix (k @ CHR ''='' # v) ''#''" "k \<noteq> []"
    using assms kv by (cases k; simp add: plain_setting_def)+
  moreover have "unquote v = v" using assms kv by (cases v) (auto simp: plain_setting_def unquote_def)
  ultimately show ?thesis
    using assms kv g cut by (simp add: parse_line_def setting_line_def trim_space_graphic Let_def plain_setting_def)
qed

lemma set_values_snoc: "set_values (ls @ [l]) = (case parse_line l of Some (k, v) \<Rightarrow> (set_values ls)(k \<mapsto> v) | None \<Rightarrow> set_values ls)"
  by (simp only: set_values_def foldl_append foldl.simps)

lemma set_values_settings:
  "\<forall>kv\<in>set kvs. plain_setting kv \<Longrightarrow> set_values (map setting_line kvs) = map_of (rev kvs)"
proof (induction kvs rule: rev_induct)
  case (snoc kv kvs)
  then show ?case
    by (cases kv) (simp add: set_values_snoc parse_setting_line)
qed (simp add: set_values_def)

lemma read_file_settings:
  assumes "\<forall>kv\<in>set kvs. plain_setting kv"
  shows "read_file (Contents (concat (map (\<lambda>kv. setting_line kv @ [byte 10]) kvs)))
    = (map_of (rev kvs), False)"
proof -
  have nl: "byte 10 \<notin> set (setting_line kv)" if "plain_setting kv" for kv
  proof -
    have "byte 10 \<noteq> CHR ''=''" by code_simp
    moreover have "byte 10 \<notin> set x" if "graphic x" for x
      using that by (auto simp: graphic_def list_all_iff byte_def)
    ultimately show ?thesis using that by (simp add: plain_setting_def setting_line_def)
  qed
  have lines: "split_on (byte 10) (concat (map (\<lambda>kv. setting_line kv @ [byte 10]) kvs))
      = map setting_line kvs @ [[]]"
    using split_on_lines [of "map setting_line kvs" "byte 10"] nl assms by (simp add: comp_def)
  have sc: "scanned_lines (map setting_line kvs @ [[]]) = (map setting_line kvs @ [[]], False)"
    using assms by (intro scanned_lines_all) (auto simp: plain_setting_def setting_line_def)
  have "parse_line [] = None" by (simp add: parse_line_def trim_space_def)
  then show ?thesis
    using set_values_settings [OF assms] by (simp add: read_file_def lines sc set_values_snoc)
qed

end
