(* ===== verification/Config_Props.thy ===== *)
theory Config_Props
  imports Config_Facts
begin

text \<open>The properties of the settings.\<close>

text \<open>
  C14: An agent that starts has what it needs and nothing it must not have: a token; an interval between
  10 seconds and 5 minutes; a destination that is https, names a host and carries no user name or
  password; and command lines are collected only where processes are.
\<close>

theorem loaded_settings_are_safe:
  assumes "load ulower frac join read_path env = Inr c"
  shows "token c \<noteq> [] \<and> (min_interval \<le> interval_setting c \<and> interval_setting c \<le> max_interval)
    \<and> (\<exists>u. parse_url (url_setting c) = Some u \<and> u_scheme u = ''https'' \<and> u_host u \<noteq> [] \<and> \<not> u_user u)
    \<and> (process_args c \<longrightarrow> processes c)"
proof -
  have i: "min_interval \<le> d \<and> d \<le> max_interval" if "load_interval frac raw = Inr d" for raw d
    using that
    by (auto simp: load_interval_def default_interval_def min_interval_def max_interval_def
        split: if_splits option.splits)
  have "token c \<noteq> []" "min_interval \<le> interval_setting c \<and> interval_setting c \<le> max_interval"
    "\<exists>u. parse_url (url_setting c) = Some u \<and> u_scheme u = ''https'' \<and> u_host u \<noteq> [] \<and> \<not> u_user u"
    "process_args c \<longrightarrow> processes c"
    using assms i
    by (auto simp: load_def Let_def validate_url_None split: if_splits sum.splits option.splits)
  then show ?thesis by blast
qed

definition sample_env :: "string \<Rightarrow> string" where
  "sample_env k = (if k = ''INFRANEST_TOKEN'' then '' abc '' else if k = ''INFRANEST_PROCESSES'' then ''Yes'' else [])"

definition sample_load :: "load_err + config" where
  "sample_load = load id (\<lambda>f u k. f * u div 10 ^ k) id (\<lambda>_. Absent) sample_env"

lemma loaded_settings_are_safe_witness:
  "(case sample_load of Inr c \<Rightarrow> token c = ''abc'' \<and> url_setting c = default_url
      \<and> interval_setting c = 60000000000 \<and> processes c | Inl _ \<Rightarrow> False)
   \<and> (case sample_load of Inr c \<Rightarrow> process_args c \<longrightarrow> processes c | Inl _ \<Rightarrow> True)"
proof
  show "case sample_load of Inr c \<Rightarrow> token c = ''abc'' \<and> url_setting c = default_url
      \<and> interval_setting c = 60000000000 \<and> processes c | Inl _ \<Rightarrow> False"
    by code_simp
  show "case sample_load of Inr c \<Rightarrow> process_args c \<longrightarrow> processes c | Inl _ \<Rightarrow> True"
    using loaded_settings_are_safe [of id "\<lambda>f u k. f * u div 10 ^ k" id "\<lambda>_. Absent" sample_env]
    by (simp add: sample_load_def split: sum.split)
qed

text \<open>
  What the installers write is what the agent reads. A file of \<^verbatim>\<open>KEY=VALUE\<close> lines, with printable
  keys and values of any kind without spaces or a leading quote, is read without an error as exactly
  those settings, the last line of a key winning.
\<close>

theorem installed_file_round_trip:
  assumes "\<forall>kv\<in>set kvs. plain_setting kv"
  shows "read_file (Contents (concat (map (\<lambda>(k, v). k @ ''='' @ v @ [byte 10]) kvs)))
    = (map_of (rev kvs), False)"
  using read_file_settings [OF assms] by (simp add: setting_line_def case_prod_unfold)

lemma installed_file_round_trip_witness:
  "read_file (Contents (concat (map (\<lambda>(k, v). k @ ''='' @ v @ [byte 10])
      [(''INFRANEST_TOKEN'', ''a=b''), (''INFRANEST_URL'', ''https://x.io'')])))
    = (map_of (rev [(''INFRANEST_TOKEN'', ''a=b''), (''INFRANEST_URL'', ''https://x.io'')]), False)"
  by (rule installed_file_round_trip) (simp add: plain_setting_def graphic_def)

text \<open>
  One destination has one endpoint. Adding a slash to a base URL, or pasting the endpoint itself as
  the base, gives the same endpoint; so an endpoint is never extended by the path a second time.
\<close>

theorem push_endpoint_is_canonical:
  "push_endpoint (push_endpoint base) = push_endpoint base
   \<and> push_endpoint (base @ ''/'') = push_endpoint base
   \<and> has_suffix (push_endpoint base) ''/api/metrics/push''"
  using push_endpoint_idem push_endpoint_slash push_endpoint_suffix by (auto simp: push_path_def)

text \<open>
  C15: A server's answer cannot take the agent off its domain or off https. When an offer is adopted, the
  new address still parses, is https with a host and no user info, has the registrable domain of the
  current one, ends in the push path, and is a move. The whole string \<open>offered\<close> is the server's: query,
  fragment, escapes, ports, brackets and user info included.
\<close>

theorem adopted_url_stays_on_domain:
  assumes "adopt ulower current offered = (u, True)"
    "parse_url current = Some cur" "registrable ulower (hostname cur) \<noteq> []"
  shows "\<exists>nxt. parse_url u = Some nxt \<and> u_scheme nxt = ''https'' \<and> u_host nxt \<noteq> [] \<and> \<not> u_user nxt
    \<and> registrable ulower (hostname nxt) = registrable ulower (hostname cur)
    \<and> has_suffix u push_path \<and> u \<noteq> current"
  using adopt_True [OF assms] by (auto simp: validate_url_None)

lemma adopted_url_stays_on_domain_witness:
  "adopt id ''https://ingest.infranest.io/api/metrics/push'' ''https://eu.infranest.io/''
     = (''https://eu.infranest.io/api/metrics/push'', True)
   \<and> (\<exists>nxt. parse_url ''https://eu.infranest.io/api/metrics/push'' = Some nxt \<and> u_scheme nxt = ''https'')"
proof -
  have a: "adopt id ''https://ingest.infranest.io/api/metrics/push'' ''https://eu.infranest.io/''
     = (''https://eu.infranest.io/api/metrics/push'', True)" by code_simp
  have c: "parse_url ''https://ingest.infranest.io/api/metrics/push''
      = Some \<lparr>u_scheme = ''https'', u_user = False, u_host = ''ingest.infranest.io''\<rparr>" by code_simp
  have "registrable id ''ingest.infranest.io'' = ''infranest.io''" by code_simp
  moreover have "hostname \<lparr>u_scheme = ''https'', u_user = False, u_host = ''ingest.infranest.io''\<rparr>
      = ''ingest.infranest.io''" by code_simp
  ultimately show ?thesis using a adopted_url_stays_on_domain [OF a c] by auto
qed

text \<open>
  Two kinds of base URL are not given the endpoint of their host. A base with a query keeps it, and
  the push path lands in the query: an offer on the agent's own domain with one is adopted, and readings
  go to \<^verbatim>\<open>/\<close>. A host that is just \<^verbatim>\<open>api\<close> with the path \<^verbatim>\<open>/metrics/push\<close>, which \<^verbatim>\<open>ValidateURL\<close> accepts, loses
  its host.
\<close>

theorem endpoint_of_query_or_api_host_is_wrong:
  "adopt id ''https://ingest.infranest.io/api/metrics/push'' ''https://ingest.infranest.io?a=b''
     = (''https://ingest.infranest.io?a=b/api/metrics/push'', True)
   \<and> validate_url ''https://api/metrics/push'' = None
   \<and> push_endpoint ''https://api/metrics/push'' = ''https:/api/metrics/push''
   \<and> validate_url (push_endpoint ''https://api/metrics/push'') = Some NoHost"
  by (intro conjI; code_simp)

end
