(* ===== verification/Go_Json.thy ===== *)
theory Go_Json
  imports Go_Std Go_Utf8
begin

text \<open>
  \<^verbatim>\<open>encoding/json\<close> as far as the agent uses it: the scanner (\<^verbatim>\<open>json.Valid\<close>), the documents it
  accepts as a tree whose strings and numbers are kept as they were written (so that a
  \<^verbatim>\<open>json.RawMessage\<close> is a subtree), the compact printer, and the way \<^verbatim>\<open>Unmarshal\<close> fills the fields
  of a struct: exact names first, then names that differ in case, null leaving a field alone, a
  value of the wrong type skipped and the error reported at the end, a refusing
  \<^verbatim>\<open>UnmarshalJSON\<close> ending the decoding at once.
\<close>

section \<open>Documents and tokens\<close>

datatype json =
    JNull | JBool bool | JNum string | JStr string
  | JArr "json list" | JObj "(string \<times> json) list"

datatype token = Open_Obj | Close_Obj | Open_Arr | Close_Arr | Colon | Comma | Scalar json

definition json_space :: "char \<Rightarrow> bool" where
  "json_space c = (c = CHR 0x20 \<or> c = CHR 0x09 \<or> c = CHR 0x0D \<or> c = CHR 0x0A)"

text \<open>
  The length of the next piece of a string, a byte or an escape, or 0 for what may not stand there;
  and what is between the quotes, as written, with what follows the closing quote.
\<close>

definition simple_escape :: "char \<Rightarrow> bool" where
  "simple_escape e = (e \<in> {CHR 0x22, CHR 0x5C, CHR ''/'', CHR ''b'', CHR ''f'', CHR ''n'', CHR ''r'', CHR ''t''})"

fun string_piece :: "string \<Rightarrow> nat" where
  "string_piece [] = 0"
| "string_piece (c # r) =
     (if byte_val c < 32 then 0 else if c \<noteq> CHR 0x5C then 1
      else if r \<noteq> [] \<and> simple_escape (hd r) then 2
      else if 5 \<le> length r \<and> hd r = CHR ''u'' \<and> list_all is_hex (take 4 (tl r)) then 6
      else 0)"

function string_body :: "string \<Rightarrow> (string \<times> string) option" where
  "string_body s =
     (if s = [] then None
      else if hd s = CHR 0x22 then Some ([], tl s)
      else if string_piece s = 0 then None
      else map_option (\<lambda>(b, t). (take (string_piece s) s @ b, t)) (string_body (drop (string_piece s) s)))"
  by pat_completeness auto
termination
  by (relation "measure length") auto

declare string_body.simps [simp del]

text \<open>The grammar of numbers: an optional sign, digits without a leading zero, a fraction, an exponent.\<close>

definition exponent_ok :: "string \<Rightarrow> bool" where
  "exponent_ok s =
     (case s of [] \<Rightarrow> True
      | e # r \<Rightarrow> (e = CHR ''e'' \<or> e = CHR ''E'')
          \<and> (let d = (if has_prefix r ''+'' \<or> has_prefix r ''-'' then tl r else r)
             in d \<noteq> [] \<and> list_all is_digit d))"

definition fraction_ok :: "string \<Rightarrow> bool" where
  "fraction_ok s =
     (if has_prefix s ''.''
      then takeWhile is_digit (tl s) \<noteq> [] \<and> exponent_ok (dropWhile is_digit (tl s))
      else exponent_ok s)"

definition number_ok :: "string \<Rightarrow> bool" where
  "number_ok s =
     (let s = trim_prefix s ''-''; i = takeWhile is_digit s
      in i \<noteq> [] \<and> (hd i = CHR ''0'' \<longrightarrow> length i = 1) \<and> fraction_ok (dropWhile is_digit s))"

definition number_byte :: "char \<Rightarrow> bool" where
  "number_byte c = (is_digit c \<or> c \<in> set ''+-.eE'')"

definition punctuation :: "(char \<times> token) list" where
  "punctuation = [(CHR ''{'', Open_Obj), (CHR ''}'', Close_Obj), (CHR ''['', Open_Arr),
     (CHR '']'', Close_Arr), (CHR '':'', Colon), (CHR '','', Comma)]"

lemma string_body_cases:
  assumes "string_body s = Some (b, t)"
  obtains (close) "s = CHR 0x22 # t" "b = []"
  | (piece) b1 where "s \<noteq> []" "hd s \<noteq> CHR 0x22" "string_piece s \<noteq> 0"
      "string_body (drop (string_piece s) s) = Some (b1, t)" "b = take (string_piece s) s @ b1"
proof (cases s)
  case Nil
  with assms show ?thesis by (simp add: string_body.simps)
next
  case (Cons c r)
  with assms that show ?thesis
    by (subst (asm) string_body.simps) (auto split: if_splits)
qed

lemma string_body_shrinks: "string_body s = Some (b, t) \<Longrightarrow> length t < length s"
proof (induction s arbitrary: b rule: string_body.induct)
  case (1 s)
  from 1(2) show ?case
  proof (cases rule: string_body_cases)
    case (piece b1)
    then have "length t < length (drop (string_piece s) s)"
      by (intro 1(1)) 
    then show ?thesis by simp
  qed simp
qed

function lex :: "string \<Rightarrow> token list option" where
  "lex [] = Some []"
| "lex (c # r) =
     (if json_space c then lex r
      else case map_of punctuation c of Some t \<Rightarrow> map_option (Cons t) (lex r)
      | None \<Rightarrow>
        if c = CHR 0x22
        then (case string_body r of None \<Rightarrow> None
              | Some (b, t) \<Rightarrow> map_option (Cons (Scalar (JStr b))) (lex t))
        else if has_prefix (c # r) ''true'' then map_option (Cons (Scalar (JBool True))) (lex (drop 3 r))
        else if has_prefix (c # r) ''false'' then map_option (Cons (Scalar (JBool False))) (lex (drop 4 r))
        else if has_prefix (c # r) ''null'' then map_option (Cons (Scalar JNull)) (lex (drop 3 r))
        else if number_byte c \<and> number_ok (c # takeWhile number_byte r)
        then map_option (Cons (Scalar (JNum (c # takeWhile number_byte r)))) (lex (dropWhile number_byte r))
        else None)"
  by pat_completeness auto
termination
  by (relation "measure length")
    (auto dest: string_body_shrinks simp: le_imp_less_Suc length_dropWhile_le)

declare lex.simps(2) [simp del]

section \<open>The parser\<close>

text \<open>
  The scanner's stack: an array or an object that is open, with what has been read of it, newest
  first; an object also holds the key whose value is being read. \<open>pos_mode\<close> is what may come next.
\<close>

datatype frame = In_Arr "json list" | In_Obj "(string \<times> json) list" string

datatype want = Want_Value | Want_First | Want_Key | Want_First_Key | Want_Colon | Want_More | Done json

type_synonym parser = "frame list \<times> want"

fun complete :: "frame list \<Rightarrow> json \<Rightarrow> parser" where
  "complete [] v = ([], Done v)"
| "complete (In_Arr vs # fs) v = (In_Arr (v # vs) # fs, Want_More)"
| "complete (In_Obj kvs k # fs) v = (In_Obj ((k, v) # kvs) k # fs, Want_More)"

definition max_nesting :: int where
  "max_nesting = 10000"

fun push_frame :: "frame \<Rightarrow> want \<Rightarrow> frame list \<Rightarrow> parser option" where
  "push_frame f w fs = (if int (length fs) < max_nesting then Some (f # fs, w) else None)"

fun parse_step :: "token \<Rightarrow> parser \<Rightarrow> parser option" where
  "parse_step Open_Arr (fs, w) =
     (if w = Want_Value \<or> w = Want_First then push_frame (In_Arr []) Want_First fs else None)"
| "parse_step Open_Obj (fs, w) =
     (if w = Want_Value \<or> w = Want_First then push_frame (In_Obj [] []) Want_First_Key fs else None)"
| "parse_step Close_Arr (fs, w) =
     (case fs of In_Arr vs # gs \<Rightarrow>
        if w = Want_First \<or> w = Want_More then Some (complete gs (JArr (rev vs))) else None
      | _ \<Rightarrow> None)"
| "parse_step Close_Obj (fs, w) =
     (case fs of In_Obj kvs k # gs \<Rightarrow>
        if w = Want_First_Key \<or> w = Want_More then Some (complete gs (JObj (rev kvs))) else None
      | _ \<Rightarrow> None)"
| "parse_step Colon (fs, w) = (if w = Want_Colon then Some (fs, Want_Value) else None)"
| "parse_step Comma (fs, w) =
     (if w = Want_More
      then (case fs of In_Arr vs # gs \<Rightarrow> Some (fs, Want_Value) | In_Obj kvs k # gs \<Rightarrow> Some (fs, Want_Key)
            | [] \<Rightarrow> None)
      else None)"
| "parse_step (Scalar v) (fs, w) =
     (if w = Want_Value \<or> w = Want_First then Some (complete fs v)
      else if w = Want_Key \<or> w = Want_First_Key
      then (case (v, fs) of (JStr k, In_Obj kvs k0 # gs) \<Rightarrow> Some (In_Obj kvs k # gs, Want_Colon)
            | _ \<Rightarrow> None)
      else None)"

fun parse_tokens :: "token list \<Rightarrow> parser \<Rightarrow> parser option" where
  "parse_tokens [] p = Some p"
| "parse_tokens (t # ts) p = (case parse_step t p of None \<Rightarrow> None | Some q \<Rightarrow> parse_tokens ts q)"

definition parse_json :: "string \<Rightarrow> json option" where
  "parse_json s =
     (case lex s of None \<Rightarrow> None
      | Some ts \<Rightarrow> (case parse_tokens ts ([], Want_Value) of Some ([], Done v) \<Rightarrow> Some v | _ \<Rightarrow> None))"

text \<open>\<^verbatim>\<open>json.Valid\<close>.\<close>

definition json_valid :: "string \<Rightarrow> bool" where
  "json_valid s = (parse_json s \<noteq> None)"

section \<open>Printing\<close>

fun print_json :: "json \<Rightarrow> string" where
  "print_json JNull = ''null''"
| "print_json (JBool b) = (if b then ''true'' else ''false'')"
| "print_json (JNum s) = s"
| "print_json (JStr s) = CHR 0x22 # s @ [CHR 0x22]"
| "print_json (JArr vs) = CHR ''['' # join_with '','' (map print_json vs) @ '']''"
| "print_json (JObj kvs) =
     CHR ''{'' # join_with '','' (map (\<lambda>(k, v). CHR 0x22 # k @ [CHR 0x22, CHR '':''] @ print_json v) kvs) @ ''}''"

section \<open>Strings\<close>

text \<open>UTF-8 of a code point, and what the escapes of a string stand for (\<^verbatim>\<open>unquoteBytes\<close>).\<close>

definition encode_rune :: "nat \<Rightarrow> string" where
  "encode_rune n =
     (if n < 0x80 then [byte n]
      else if n < 0x800 then [byte (0xC0 + n div 64), byte (0x80 + n mod 64)]
      else if n < 0x10000
      then [byte (0xE0 + n div 4096), byte (0x80 + n div 64 mod 64), byte (0x80 + n mod 64)]
      else [byte (0xF0 + n div 262144), byte (0x80 + n div 4096 mod 64), byte (0x80 + n div 64 mod 64),
            byte (0x80 + n mod 64)])"

definition hex4 :: "string \<Rightarrow> nat option" where
  "hex4 s = (case s of a # b # c # d # _ \<Rightarrow>
       if is_hex a \<and> is_hex b \<and> is_hex c \<and> is_hex d
       then Some (4096 * unhex a + 256 * unhex b + 16 * unhex c + unhex d) else None
     | _ \<Rightarrow> None)"

definition escaped :: "char \<Rightarrow> char" where
  "escaped c = (if c = CHR ''b'' then CHR 0x08 else if c = CHR ''f'' then CHR 0x0C
     else if c = CHR ''n'' then CHR 0x0A else if c = CHR ''r'' then CHR 0x0D
     else if c = CHR ''t'' then CHR 0x09 else c)"

definition replacement :: string where
  "replacement = [CHR 0xEF, CHR 0xBF, CHR 0xBD]"

text \<open>A \<^verbatim>\<open>\u\<close> escape: the bytes it stands for, and how many bytes after the \<^verbatim>\<open>u\<close> it takes.\<close>

definition unicode_escape :: "string \<Rightarrow> string \<times> nat" where
  "unicode_escape s =
     (case hex4 s of None \<Rightarrow> ([], 0)
      | Some a \<Rightarrow>
        if a < 0xD800 \<or> 0xDFFF < a then (encode_rune a, 4)
        else (case (if has_prefix (drop 4 s) [CHR 0x5C, CHR ''u''] then hex4 (drop 6 s) else None) of
            Some b \<Rightarrow>
              if a < 0xDC00 \<and> 0xDC00 \<le> b \<and> b \<le> 0xDFFF
              then (encode_rune (0x10000 + 1024 * (a - 0xD800) + (b - 0xDC00)), 10)
              else (replacement, 4)
          | None \<Rightarrow> (replacement, 4)))"

function unquote_json :: "string \<Rightarrow> string" where
  "unquote_json [] = []"
| "unquote_json (c # r) =
     (if c = CHR 0x5C
      then (case r of [] \<Rightarrow> []
        | e # r1 \<Rightarrow>
          if e = CHR ''u''
          then (let (b, n) = unicode_escape r1 in b @ unquote_json (drop n r1))
          else escaped e # unquote_json r1)
      else if rune_width (c # r) = 0 then replacement @ unquote_json r
      else take (rune_width (c # r)) (c # r) @ unquote_json (drop (rune_width (c # r) - 1) r))"
  by pat_completeness auto
termination
  by (relation "measure length") auto

declare unquote_json.simps(2) [simp del]

lemma unquote_ascii:
  "list_all (\<lambda>c. byte_val c < 128 \<and> c \<noteq> CHR 0x5C) s \<Longrightarrow> unquote_json s = s"
  by (induction s) (simp_all add: unquote_json.simps(2))

section \<open>Filling a struct\<close>

datatype verdict = Fine | Wrong | Refused

fun worse :: "verdict \<Rightarrow> verdict \<Rightarrow> verdict" where
  "worse Refused v = Refused" | "worse Wrong v = (if v = Refused then Refused else Wrong)" | "worse Fine v = v"

text \<open>
  Names are compared without case: ASCII letters, and the two letters outside ASCII that fold to
  one, the Kelvin sign and the long s.
\<close>

definition upper_byte :: "char \<Rightarrow> char" where
  "upper_byte c = (if 97 \<le> byte_val c \<and> byte_val c \<le> 122 then byte (byte_val c - 32) else c)"

fun fold_name :: "string \<Rightarrow> string" where
  "fold_name [] = []"
| "fold_name (c # r) =
     (if c = CHR 0xC5 \<and> has_prefix r [CHR 0xBF] then CHR ''S'' # fold_name (drop 1 r)
      else if c = CHR 0xE2 \<and> has_prefix r [CHR 0x84, CHR 0xAA] then CHR ''K'' # fold_name (drop 2 r)
      else upper_byte c # fold_name r)"

type_synonym 'r reader = "json \<Rightarrow> 'r \<Rightarrow> 'r \<times> verdict"

definition find_field :: "(string \<times> 'r reader) list \<Rightarrow> string \<Rightarrow> 'r reader option" where
  "find_field fds key =
     (case map_of fds key of Some f \<Rightarrow> Some f
      | None \<Rightarrow> map_option snd (List.find (\<lambda>(n, f). fold_name n = fold_name key) fds))"

fun read_members :: "(string \<times> 'r reader) list \<Rightarrow> (string \<times> json) list \<Rightarrow> 'r \<Rightarrow> 'r \<times> verdict" where
  "read_members fds [] r = (r, Fine)"
| "read_members fds ((k, v) # ms) r =
     (case find_field fds (unquote_json k) of None \<Rightarrow> read_members fds ms r
      | Some f \<Rightarrow>
        (case f v r of (r1, Refused) \<Rightarrow> (r1, Refused)
         | (r1, e) \<Rightarrow> (let (r2, e2) = read_members fds ms r1 in (r2, worse e e2))))"

definition read_struct :: "(string \<times> 'r reader) list \<Rightarrow> 'r reader" where
  "read_struct fds v r =
     (case v of JObj ms \<Rightarrow> read_members fds ms r | JNull \<Rightarrow> (r, Fine) | _ \<Rightarrow> (r, Wrong))"

text \<open>\<^verbatim>\<open>json.Unmarshal\<close>: a text that is not JSON leaves the target as it was.\<close>

definition unmarshal :: "'r reader \<Rightarrow> string \<Rightarrow> 'r \<Rightarrow> 'r \<times> verdict" where
  "unmarshal rd s r = (case parse_json s of None \<Rightarrow> (r, Refused) | Some v \<Rightarrow> rd v r)"

text \<open>Readers of one value: strings, integers of 64 bits, booleans, slices (an element's old value stays for null).\<close>

fun read_str :: "string reader" where
  "read_str (JStr s) r = (unquote_json s, Fine)"
| "read_str JNull r = (r, Fine)"
| "read_str v r = (r, Wrong)"

fun read_int :: "int reader" where
  "read_int (JNum s) r = (case atoi s of Some n \<Rightarrow> (n, Fine) | None \<Rightarrow> (r, Wrong))"
| "read_int JNull r = (r, Fine)"
| "read_int v r = (r, Wrong)"

fun read_bool :: "bool reader" where
  "read_bool (JBool b) r = (b, Fine)"
| "read_bool JNull r = (r, Fine)"
| "read_bool v r = (r, Wrong)"

fun read_elems :: "'a reader \<Rightarrow> 'a \<Rightarrow> json list \<Rightarrow> 'a list \<Rightarrow> 'a list \<times> verdict" where
  "read_elems rd zero [] old = ([], Fine)"
| "read_elems rd zero (v # vs) old =
     (case rd v (case old of [] \<Rightarrow> zero | x # _ \<Rightarrow> x) of (y, Refused) \<Rightarrow> (y # tl old, Refused)
      | (y, e) \<Rightarrow> (let (ys, e2) = read_elems rd zero vs (tl old) in (y # ys, worse e e2)))"

fun read_slice :: "'a reader \<Rightarrow> 'a \<Rightarrow> 'a list reader" where
  "read_slice rd zero (JArr vs) old = read_elems rd zero vs old"
| "read_slice rd zero JNull old = ([], Fine)"
| "read_slice rd zero v old = (old, Wrong)"

definition in_field :: "('r \<Rightarrow> 'a) \<Rightarrow> ('a \<Rightarrow> 'r \<Rightarrow> 'r) \<Rightarrow> 'a reader \<Rightarrow> 'r reader" where
  "in_field get put rd v r = (let (x, e) = rd v (get r) in (put x r, e))"

section \<open>Writing strings\<close>

text \<open>
  What \<^verbatim>\<open>Marshal\<close> writes between the quotes (\<^verbatim>\<open>appendString\<close>, with the escapes for HTML), and the same
  escapes applied to a raw value when it is embedded (\<^verbatim>\<open>compact\<close>).
\<close>

definition hex_digit :: "nat \<Rightarrow> char" where
  "hex_digit n = (if n < 10 then byte (48 + n) else byte (87 + n))"

definition escape_u :: "char \<Rightarrow> string" where
  "escape_u c = [CHR 0x5C, CHR ''u'', CHR ''0'', CHR ''0'', hex_digit (byte_val c div 16), hex_digit (byte_val c mod 16)]"

definition html_byte :: "char \<Rightarrow> bool" where
  "html_byte c = (c = CHR ''<'' \<or> c = CHR ''>'' \<or> c = CHR ''&'')"

definition line_separator :: "string \<Rightarrow> bool" where
  "line_separator s = (has_prefix s [CHR 0xE2, CHR 0x80, CHR 0xA8] \<or> has_prefix s [CHR 0xE2, CHR 0x80, CHR 0xA9])"

definition escape_separator :: "string \<Rightarrow> string" where
  "escape_separator s = CHR 0x5C # ''u202'' @ [if s ! 2 = CHR 0xA8 then CHR ''8'' else CHR ''9'']"

definition quote_byte :: "char \<Rightarrow> string" where
  "quote_byte c =
     (if c = CHR 0x22 \<or> c = CHR 0x5C then [CHR 0x5C, c]
      else if c = CHR 0x08 then [CHR 0x5C, CHR ''b''] else if c = CHR 0x0C then [CHR 0x5C, CHR ''f'']
      else if c = CHR 0x0A then [CHR 0x5C, CHR ''n''] else if c = CHR 0x0D then [CHR 0x5C, CHR ''r'']
      else if c = CHR 0x09 then [CHR 0x5C, CHR ''t'']
      else if byte_val c < 32 \<or> html_byte c then escape_u c
      else [c])"

function quote_json :: "string \<Rightarrow> string" where
  "quote_json [] = []"
| "quote_json (c # r) =
     (if byte_val c < 128 then quote_byte c @ quote_json r
      else if rune_width (c # r) = 0 then CHR 0x5C # ''ufffd'' @ quote_json r
      else if line_separator (c # r) then escape_separator (c # r) @ quote_json (drop 2 r)
      else take (rune_width (c # r)) (c # r) @ quote_json (drop (rune_width (c # r) - 1) r))"
  by pat_completeness auto
termination
  by (relation "measure length") auto

declare quote_json.simps(2) [simp del]

function escape_html :: "string \<Rightarrow> string" where
  "escape_html [] = []"
| "escape_html (c # r) =
     (if html_byte c then escape_u c @ escape_html r
      else if line_separator (c # r) then escape_separator (c # r) @ escape_html (drop 2 r)
      else c # escape_html r)"
  by pat_completeness auto
termination
  by (relation "measure length") auto

declare escape_html.simps(2) [simp del]

fun embed_json :: "json \<Rightarrow> json" where
  "embed_json (JStr s) = JStr (escape_html s)"
| "embed_json (JArr vs) = JArr (map embed_json vs)"
| "embed_json (JObj kvs) = JObj (map (\<lambda>(k, v). (escape_html k, embed_json v)) kvs)"
| "embed_json v = v"

end
