(* ===== verification/Spool.thy ===== *)
theory Spool
  imports Go_Json "HOL-Library.AList" "HOL-Library.Sublist"
begin

text \<open>
  The spool of readings waiting for delivery, \<^verbatim>\<open>internal/spool/spool.go\<close>: one file per reading in a
  directory of its own, named by its sequence number. The directory is an explicit association
  list, and every file operation may fail as the \<open>faults\<close> of the call say.
\<close>

section \<open>The directory\<close>

text \<open>A directory holds plain files and directories; of a directory only whether it is empty matters.\<close>

datatype node = Plain string | Subdir bool

type_synonym dir_content = "(string \<times> node) list"

text \<open>What the operating system does during one call: a write may stop after some bytes or not start.\<close>

datatype written = Whole | Part nat | Unwritten

datatype fetched = Fetched | Gone | Broken

record faults =
  made :: bool
  listed :: bool
  write_end :: "string \<Rightarrow> written"
  renamed :: "string \<Rightarrow> bool"
  removed :: "string \<Rightarrow> bool"
  fetch :: "string \<Rightarrow> fetched"

definition no_faults :: faults where
  "no_faults = \<lparr>made = True, listed = True, write_end = (\<lambda>_. Whole), renamed = (\<lambda>_. True),
     removed = (\<lambda>_. True), fetch = (\<lambda>_. Fetched)\<rparr>"

text \<open>\<^verbatim>\<open>os.ReadDir\<close> (sorted by name), \<^verbatim>\<open>os.Remove\<close>, \<^verbatim>\<open>os.WriteFile\<close> and \<^verbatim>\<open>os.Rename\<close>.\<close>

definition read_dir :: "faults \<Rightarrow> dir_content \<Rightarrow> dir_content option" where
  "read_dir f d = (if listed f then Some (sort_key fst d) else None)"

definition os_remove :: "faults \<Rightarrow> string \<Rightarrow> dir_content \<Rightarrow> dir_content" where
  "os_remove f n d = (if removed f n \<and> map_of d n \<noteq> Some (Subdir False) then AList.delete n d else d)"

definition os_write :: "faults \<Rightarrow> string \<Rightarrow> string \<Rightarrow> dir_content \<Rightarrow> bool \<times> dir_content" where
  "os_write f n b d =
     (case map_of d n of Some (Subdir _) \<Rightarrow> (False, d)
      | _ \<Rightarrow> (case write_end f n of
            Whole \<Rightarrow> (True, AList.update n (Plain b) d)
          | Part k \<Rightarrow> (False, AList.update n (Plain (take k b)) d)
          | Unwritten \<Rightarrow> (False, d)))"

definition os_rename :: "faults \<Rightarrow> string \<Rightarrow> string \<Rightarrow> dir_content \<Rightarrow> dir_content option" where
  "os_rename f a b d =
     (case (map_of d a, map_of d b) of
        (_, Some (Subdir _)) \<Rightarrow> None
      | (Some x, _) \<Rightarrow> if renamed f a then Some (AList.update b x (AList.delete a d)) else None
      | _ \<Rightarrow> None)"

section \<open>The spool\<close>

definition default_max :: nat where
  "default_max = 500"

record spool =
  kept_in :: dir_content
  max_held :: nat

record reading =
  reading_name :: string
  reading_data :: string

datatype spool_error =
  Cannot_Create | Cannot_Encode | Cannot_Write | Cannot_Commit | Cannot_List | Cannot_Read string

definition is_file :: "node \<Rightarrow> bool" where
  "is_file x = (case x of Plain _ \<Rightarrow> True | Subdir _ \<Rightarrow> False)"

definition reading_entry :: "string \<times> node \<Rightarrow> bool" where
  "reading_entry e = (is_file (snd e) \<and> has_suffix (fst e) ''.json'')"

definition spool_count :: "faults \<Rightarrow> dir_content option \<Rightarrow> nat" where
  "spool_count f dir =
     (case dir of None \<Rightarrow> 0
      | Some d \<Rightarrow> (case read_dir f d of None \<Rightarrow> 0
          | Some es \<Rightarrow> length (filter reading_entry es)))"

definition sweep_partials :: "faults \<Rightarrow> spool \<Rightarrow> spool" where
  "sweep_partials f s =
     (case read_dir f (kept_in s) of None \<Rightarrow> s
      | Some es \<Rightarrow>
        s\<lparr>kept_in := fold (os_remove f)
            (map fst (filter (\<lambda>(n, x). is_file x \<and> has_suffix n ''.tmp'') es)) (kept_in s)\<rparr>)"

definition new_spool :: "faults \<Rightarrow> dir_content option \<Rightarrow> spool_error + spool" where
  "new_spool f dir =
     (if \<not> made f then Inl Cannot_Create
      else Inr (sweep_partials f
        \<lparr>kept_in = (case dir of None \<Rightarrow> [] | Some d \<Rightarrow> d), max_held = default_max\<rparr>))"

definition names :: "faults \<Rightarrow> spool \<Rightarrow> string list option" where
  "names f s =
     (case read_dir f (kept_in s) of None \<Rightarrow> None
      | Some es \<Rightarrow> Some (sort (map fst (filter reading_entry es))))"

definition trim :: "faults \<Rightarrow> spool \<Rightarrow> spool_error option \<times> spool" where
  "trim f s =
     (case names f s of None \<Rightarrow> (Some Cannot_List, s)
      | Some ns \<Rightarrow>
        (None, s\<lparr>kept_in := fold (os_remove f) (take (length ns - max_held s) ns) (kept_in s)\<rparr>))"

text \<open>\<^verbatim>\<open>%020d.json\<close>: twenty columns, the sign included.\<close>

fun padded :: "nat \<Rightarrow> int \<Rightarrow> string" where
  "padded 0 n = []"
| "padded (Suc k) n = padded k (n div 10) @ [byte (48 + nat (n mod 10))]"

definition reading_file :: "int \<Rightarrow> string" where
  "reading_file sq = (if 0 \<le> sq then padded 20 sq else CHR ''-'' # padded 19 (- sq)) @ ''.json''"

definition partial_of :: "string \<Rightarrow> string" where
  "partial_of n = n @ ''.tmp''"

text \<open>\<open>Add\<close>; the payload is given as what \<^verbatim>\<open>json.Marshal\<close> makes of it.\<close>

definition spool_add :: "faults \<Rightarrow> int \<Rightarrow> string option \<Rightarrow> spool \<Rightarrow> spool_error option \<times> spool" where
  "spool_add f sq payload s =
     (case payload of None \<Rightarrow> (Some Cannot_Encode, s)
      | Some body \<Rightarrow>
        (let n = reading_file sq; tmp = partial_of n in
         case os_write f tmp body (kept_in s) of
           (False, d) \<Rightarrow> (Some Cannot_Write, s\<lparr>kept_in := os_remove f tmp d\<rparr>)
         | (True, d) \<Rightarrow>
           (case os_rename f tmp n d of
              None \<Rightarrow> (Some Cannot_Commit, s\<lparr>kept_in := os_remove f tmp d\<rparr>)
            | Some d2 \<Rightarrow> trim f (s\<lparr>kept_in := d2\<rparr>))))"

fun take_each :: "faults \<Rightarrow> string list \<Rightarrow> dir_content \<Rightarrow> (spool_error + reading list) \<times> dir_content" where
  "take_each f [] d = (Inr [], d)"
| "take_each f (n # ns) d =
     (case (fetch f n, map_of d n) of
        (Fetched, Some (Plain b)) \<Rightarrow>
          if json_valid b
          then (case take_each f ns d of
                  (Inr es, d2) \<Rightarrow> (Inr (\<lparr>reading_name = n, reading_data = b\<rparr> # es), d2)
                | (Inl e, d2) \<Rightarrow> (Inl e, d2))
          else take_each f ns (os_remove f n d)
      | (Fetched, None) \<Rightarrow> take_each f ns d
      | (Gone, _) \<Rightarrow> take_each f ns (AList.delete n d)
      | _ \<Rightarrow> (Inl (Cannot_Read n), d))"

definition spool_take :: "faults \<Rightarrow> nat \<Rightarrow> spool \<Rightarrow> (spool_error + reading list) \<times> spool" where
  "spool_take f k s =
     (case names f s of None \<Rightarrow> (Inl Cannot_List, s)
      | Some ns \<Rightarrow> (case take_each f (take k ns) (kept_in s) of (r, d) \<Rightarrow> (r, s\<lparr>kept_in := d\<rparr>)))"

definition spool_drop :: "faults \<Rightarrow> reading list \<Rightarrow> spool \<Rightarrow> spool" where
  "spool_drop f es s = s\<lparr>kept_in := fold (\<lambda>e. os_remove f (reading_name e)) es (kept_in s)\<rparr>"

definition spool_len :: "faults \<Rightarrow> spool \<Rightarrow> nat" where
  "spool_len f s = (case names f s of None \<Rightarrow> 0 | Some ns \<Rightarrow> length ns)"

end
