(* ===== verification/Spool_Facts.thy ===== *)
theory Spool_Facts
  imports Spool
begin

text \<open>
  The spool seen as the list of readings it holds, oldest first, and what every operation does to
  that list; a queue with a bound as an interface, and its delivery guarantee, proved once.
\<close>

section \<open>Sorting\<close>

lemma insort_key_last: "\<forall>y\<in>set zs. f y \<le> f x \<Longrightarrow> f a \<le> f x \<Longrightarrow> insort_key f a (zs @ [x]) = insort_key f a zs @ [x]"
  by (induction zs) auto

lemma sort_key_snoc: "\<forall>y\<in>set xs. f y \<le> f x \<Longrightarrow> sort_key f (xs @ [x]) = sort_key f xs @ [x]"
  by (induction xs) (simp_all add: insort_key_last)

lemma map_insort_key: "map f (insort_key f x xs) = insort (f x) (map f xs)"
  by (induction xs) auto

lemma map_sort_key: "map f (sort_key f xs) = sort (map f xs)"
  by (induction xs) (simp_all add: map_insort_key)

lemma filter_take_names:
  "distinct (map f xs) \<Longrightarrow> filter (\<lambda>p. f p \<notin> set (take k (map f xs))) xs = drop k xs"
proof (induction xs arbitrary: k)
  case (Cons x xs)
  show ?case
  proof (cases k)
    case (Suc j)
    have "filter (\<lambda>p. f p \<noteq> f x \<and> f p \<notin> set (take j (map f xs))) xs
        = filter (\<lambda>p. f p \<notin> set (take j (map f xs))) xs"
      using Cons.prems by (intro filter_cong) (auto simp: image_iff)
    with Cons Suc show ?thesis by (simp add: take_map)
  qed (auto simp: filter_id_conv)
qed simp

section \<open>Names are in the order of their numbers\<close>

lemma length_padded [simp]: "length (padded k n) = k"
  by (induction k arbitrary: n) simp_all

lemma less_append:
  "length xs = length ys \<Longrightarrow> (xs :: string) @ us < ys @ vs \<longleftrightarrow> xs < ys \<or> xs = ys \<and> us < vs"
  by (induction xs ys rule: list_induct2) auto

lemma digit_less: "0 \<le> a \<Longrightarrow> a < b \<Longrightarrow> b < 10 \<Longrightarrow> byte (48 + nat a) < byte (48 + nat b)"
  by (simp add: byte_def less_char_def of_char_of)

lemma padded_less: "0 \<le> a \<Longrightarrow> a < b \<Longrightarrow> b < 10 ^ k \<Longrightarrow> padded k a < padded k b"
proof (induction k arbitrary: a b)
  case (Suc k)
  have b10: "b div 10 < 10 ^ k" "a div 10 \<le> b div 10" "0 \<le> a div 10"
    using Suc.prems by (simp_all add: zdiv_mono1)
  show ?case
  proof (cases "a div 10 = b div 10")
    case True
    then have "a mod 10 < b mod 10"
      using Suc.prems(2) by (metis add_less_cancel_left mult_div_mod_eq)
    with True show ?thesis by (simp add: less_append digit_less)
  next
    case False
    with b10 have "padded k (a div 10) < padded k (b div 10)"
      by (intro Suc.IH) simp_all
    then show ?thesis by (simp add: less_append)
  qed
qed simp

lemma padded_digits: "c \<in> set (padded k n) \<Longrightarrow> CHR ''-'' < c"
  by (induction k arbitrary: n) (auto simp: byte_def less_char_def of_char_of)

lemma reading_file_less:
  assumes "a < b" "0 \<le> b" "b < 2 ^ 63"
  shows "reading_file a < reading_file b"
proof (cases "0 \<le> a")
  case True
  with assms show ?thesis by (simp add: reading_file_def less_append padded_less)
next
  case False
  obtain c cs where c: "padded 20 b = c # cs"
    using length_padded [of 20 b] by (cases "padded 20 b") auto
  then have "CHR ''-'' < c" using padded_digits [of c 20 b] by simp
  with False assms c show ?thesis by (simp add: reading_file_def)
qed

lemma reading_file_json [simp]: "has_suffix (reading_file q) ''.json''"
  by (simp add: reading_file_def)

section \<open>What the spool holds\<close>

definition contents :: "node \<Rightarrow> string" where
  "contents x = (case x of Plain b \<Rightarrow> b | Subdir _ \<Rightarrow> [])"

definition reading_of :: "string \<times> node \<Rightarrow> reading" where
  "reading_of e = \<lparr>reading_name = fst e, reading_data = contents (snd e)\<rparr>"

lemma reading_of_simps [simp]:
  "reading_name (reading_of e) = fst e" "reading_data (reading_of e) = contents (snd e)"
  by (simp_all add: reading_of_def)

definition held :: "dir_content \<Rightarrow> reading list" where
  "held d = map reading_of (sort_key fst (filter reading_entry d))"

text \<open>A directory nobody else writes to: distinct names, no directories.\<close>

definition tidy :: "dir_content \<Rightarrow> bool" where
  "tidy d = (distinct (map fst d) \<and> (\<forall>e\<in>set d. is_file (snd e)))"

lemma map_fst_held: "map reading_name (held d) = sort (map fst (filter reading_entry d))"
proof -
  have "map reading_name (held d) = map fst (sort_key fst (filter reading_entry d))"
    by (simp add: held_def comp_def)
  then show ?thesis by (simp only: map_sort_key)
qed

lemma names_held: "names f s = (if listed f then Some (map reading_name (held (kept_in s))) else None)"
  by (simp add: names_def read_dir_def map_fst_held filter_sort map_sort_key sorted_sort_id del: sort_key_simps)

lemma sorted_held: "sorted (map reading_name (held d))"
  by (simp add: map_fst_held)

lemma distinct_held: "distinct (map fst d) \<Longrightarrow> distinct (map reading_name (held d))"
  unfolding map_fst_held by (simp add: distinct_map_filter)

lemma set_held: "set (held d) = reading_of ` {e \<in> set d. reading_entry e}"
  by (simp add: held_def)

lemma held_delete: "held (AList.delete n d) = filter (\<lambda>e. reading_name e \<noteq> n) (held d)"
proof -
  have "held (AList.delete n d)
      = map reading_of (sort_key fst (filter reading_entry (filter (\<lambda>e. fst e \<noteq> n) d)))"
    by (simp add: held_def AList.delete_eq case_prod_unfold eq_commute)
  also have "filter reading_entry (filter (\<lambda>e. fst e \<noteq> n) d) = filter (\<lambda>e. fst e \<noteq> n) (filter reading_entry d)"
    by (simp add: conj_commute)
  also have "map reading_of (sort_key fst (filter (\<lambda>e. fst e \<noteq> n) (filter reading_entry d)))
      = filter (\<lambda>e. reading_name e \<noteq> n) (held d)"
    by (simp add: held_def filter_sort [symmetric] filter_map comp_def case_prod_unfold)
  finally show ?thesis .
qed

lemma filter_update_other: "\<not> P (n, x) \<Longrightarrow> \<forall>y. (n, y) \<in> set d \<longrightarrow> \<not> P (n, y) \<Longrightarrow>
    filter P (AList.update n x d) = filter P d"
  by (induction d) auto

lemma held_update_other:
  "\<not> has_suffix n ''.json'' \<Longrightarrow> held (AList.update n x d) = held d"
  by (simp add: held_def filter_update_other reading_entry_def)

lemma update_fresh: "n \<notin> fst ` set d \<Longrightarrow> AList.update n x d = d @ [(n, x)]"
  by (induction d) auto

lemma held_update_newest:
  assumes "tidy d" "has_suffix n ''.json''" "\<forall>e\<in>set (held d). reading_name e < n"
  shows "held (AList.update n (Plain b) d) = held d @ [\<lparr>reading_name = n, reading_data = b\<rparr>]"
proof -
  have new: "n \<notin> fst ` set d"
  proof
    assume "n \<in> fst ` set d"
    then obtain x where "(n, x) \<in> set d" by auto
    with assms have "reading_of (n, x) \<in> set (held d)"
      by (fastforce simp: set_held reading_entry_def tidy_def)
    with assms(3) show False by fastforce
  qed
  have "\<forall>e\<in>set (filter reading_entry d). fst e \<le> n"
    using assms(3) by (fastforce simp: set_held)
  then show ?thesis
    using assms(2)
    by (simp add: update_fresh [OF new] held_def reading_entry_def is_file_def sort_key_snoc reading_of_def contents_def)
qed

lemma held_no_json:
  assumes "has_suffix n ''.tmp''" shows "\<not> has_suffix n ''.json''"
  using assms by (auto simp: has_suffix_iff)

lemma partial_not_json [simp]: "\<not> has_suffix (partial_of n) ''.json''"
  by (rule held_no_json) (simp add: partial_of_def)

section \<open>What the operations keep\<close>

lemma held_os_remove:
  "held (os_remove f n d) = (if removed f n \<and> map_of d n \<noteq> Some (Subdir False)
     then filter (\<lambda>e. reading_name e \<noteq> n) (held d) else held d)"
  by (simp add: os_remove_def held_delete)

lemma tidy_delete: "tidy d \<Longrightarrow> tidy (AList.delete n d)"
  by (auto simp: tidy_def AList.delete_eq distinct_map_filter)

lemma tidy_os_remove: "tidy d \<Longrightarrow> tidy (os_remove f n d)"
  by (simp add: os_remove_def tidy_delete)

lemma set_update: "set (AList.update n x d) \<subseteq> insert (n, x) (set d)"
  by (induction d) auto

lemma tidy_update: "tidy d \<Longrightarrow> tidy (AList.update n (Plain b) d)"
  using set_update [of n "Plain b" d] by (auto simp: tidy_def AList.distinct_update is_file_def)

lemma tidy_fold: "tidy d \<Longrightarrow> tidy (fold (os_remove f) ns d)"
  by (induction ns arbitrary: d) (simp_all add: tidy_os_remove)

lemma tidy_map_of: "tidy d \<Longrightarrow> map_of d n \<noteq> Some (Subdir e)"
  by (force simp: tidy_def is_file_def dest: map_of_SomeD)

section \<open>A bounded queue that is read before it is emptied\<close>

text \<open>
  What the agent relies on: \<open>put\<close> adds the newest item and lets the oldest fall out beyond the bound,
  \<open>peek\<close> shows the oldest without removing any, \<open>discard\<close> removes the items it is given. \<open>label\<close> is
  how an item's place in the order is written on it.
\<close>

datatype ('q, 'a) queue_event = Put 'q 'a | Delivered nat | Undelivered nat

fun queue_step :: "('q \<Rightarrow> 'a \<Rightarrow> 's \<Rightarrow> 's) \<Rightarrow> (nat \<Rightarrow> 's \<Rightarrow> 'e list \<times> 's) \<Rightarrow> ('e list \<Rightarrow> 's \<Rightarrow> 's)
    \<Rightarrow> ('q, 'a) queue_event \<Rightarrow> 's \<times> 'e list \<Rightarrow> 's \<times> 'e list" where
  "queue_step put peek discard (Put q a) (s, sent) = (put q a s, sent)"
| "queue_step put peek discard (Delivered n) (s, sent) =
     (case peek n s of (es, s1) \<Rightarrow> (discard es s1, sent @ es))"
| "queue_step put peek discard (Undelivered n) (s, sent) = (snd (peek n s), sent)"

fun puts :: "('q \<Rightarrow> 'a \<Rightarrow> 'e) \<Rightarrow> ('q, 'a) queue_event list \<Rightarrow> 'e list" where
  "puts item [] = []"
| "puts item (Put q a # evs) = item q a # puts item evs"
| "puts item (ev # evs) = puts item evs"

text \<open>Every item put is well-formed and newer than \<open>q0\<close>, and they come in order.\<close>

fun in_order :: "('q :: linorder \<Rightarrow> 'a \<Rightarrow> bool) \<Rightarrow> 'q \<Rightarrow> ('q, 'a) queue_event list \<Rightarrow> bool" where
  "in_order good q0 [] = True"
| "in_order good q0 (Put q a # evs) = (q0 < q \<and> good q a \<and> in_order good q evs)"
| "in_order good q0 (ev # evs) = in_order good q0 evs"

locale bounded_queue =
  fixes items :: "'s \<Rightarrow> 'e list"
    and usable :: "'s \<Rightarrow> bool"
    and bound :: nat
    and good :: "'q :: linorder \<Rightarrow> 'a \<Rightarrow> bool"
    and item :: "'q \<Rightarrow> 'a \<Rightarrow> 'e"
    and before :: "'e \<Rightarrow> 'q \<Rightarrow> bool"
    and put :: "'q \<Rightarrow> 'a \<Rightarrow> 's \<Rightarrow> 's"
    and peek :: "nat \<Rightarrow> 's \<Rightarrow> 'e list \<times> 's"
    and discard :: "'e list \<Rightarrow> 's \<Rightarrow> 's"
  assumes put_usable: "usable s \<Longrightarrow> good q a \<Longrightarrow> \<forall>e\<in>set (items s). before e q \<Longrightarrow> usable (put q a s)"
    and put_items: "usable s \<Longrightarrow> good q a \<Longrightarrow> \<forall>e\<in>set (items s). before e q \<Longrightarrow>
      items (put q a s) = last_n bound (items s @ [item q a])"
    and peek_items: "usable s \<Longrightarrow> peek n s = (take n (items s), s)"
    and discard_usable: "usable s \<Longrightarrow> usable (discard es s)"
    and discard_items: "usable s \<Longrightarrow> discard (take n (items s)) s = t \<Longrightarrow> items t = drop n (items s)"
    and before_item: "good q a \<Longrightarrow> q < r \<Longrightarrow> good r b \<Longrightarrow> before (item q a) r"
    and before_trans: "before e q \<Longrightarrow> q < r \<Longrightarrow> good r a \<Longrightarrow> before e r"
begin

text \<open>
  Whatever the order of puts, deliveries and failed deliveries: what was delivered and what is still
  held is a part of what was put, in its order, and all of it when no more than the bound was put.
\<close>

lemma run_delivers:
  assumes "usable s" "\<forall>e\<in>set (items s). before e q0 \<or> (\<exists>q a. e = item q a \<and> q = q0 \<and> good q a)"
    "in_order good q0 evs"
    "fold (queue_step put peek discard) evs (s, sent) = (t, sent')"
  shows "subseq (sent' @ items t) (sent @ items s @ puts item evs)
    \<and> (length (items s) + length (puts item evs) \<le> bound
        \<longrightarrow> sent' @ items t = sent @ items s @ puts item evs)
    \<and> usable t"
  using assms
proof (induction evs arbitrary: s sent q0)
  case Nil
  then show ?case by simp
next
  case (Cons ev evs)
  show ?case
  proof (cases ev)
    case (Put q a)
    have q: "q0 < q" "good q a" and ord: "in_order good q evs"
      using Cons.prems(3) Put by simp_all
    have bef: "\<forall>e\<in>set (items s). before e q"
      using Cons.prems(2) q before_item before_trans by blast
    let ?xs = "items s @ [item q a]"
    have it: "items (put q a s) = last_n bound ?xs"
      using put_items [OF Cons.prems(1) q(2) bef] .
    have sub: "set (items (put q a s)) \<subseteq> set ?xs"
      unfolding it by (rule set_last_n_subset)
    have IH: "subseq (sent' @ items t) (sent @ items (put q a s) @ puts item evs)
      \<and> (length (items (put q a s)) + length (puts item evs) \<le> bound
          \<longrightarrow> sent' @ items t = sent @ items (put q a s) @ puts item evs) \<and> usable t"
      using Cons.prems(4) Put bef sub q
      by (intro Cons.IH [OF put_usable [OF Cons.prems(1) q(2) bef] _ ord]) auto
    have "subseq (last_n bound ?xs) ?xs"
      unfolding last_n_def by (rule suffix_imp_subseq) (rule suffix_drop)
    then have "subseq (sent @ items (put q a s) @ puts item evs) (sent @ ?xs @ puts item evs)"
      unfolding it by (intro list_emb_append_mono) simp_all
    then show ?thesis
      using IH Put it by (auto simp: last_n_all elim: subseq_order.order_trans)
  next
    case (Delivered n)
    have d: "usable (discard (take n (items s)) s)"
        "items (discard (take n (items s)) s) = drop n (items s)"
      using Cons.prems(1) discard_usable discard_items by blast+
    have "subseq (sent' @ items t) ((sent @ take n (items s)) @ items (discard (take n (items s)) s) @ puts item evs)
      \<and> (length (items (discard (take n (items s)) s)) + length (puts item evs) \<le> bound
          \<longrightarrow> sent' @ items t = (sent @ take n (items s)) @ items (discard (take n (items s)) s) @ puts item evs)
      \<and> usable t"
      using Cons.prems(2-4) Delivered d(2) in_set_dropD [of _ n "items s"]
      by (intro Cons.IH [OF d(1)]) (auto simp: peek_items [OF Cons.prems(1)])
    moreover have "take n (items s) @ drop n (items s) @ zs = items s @ zs" for zs
      by (simp flip: append_assoc)
    ultimately show ?thesis using Delivered d(2) by (auto simp: d(2))
  next
    case (Undelivered n)
    then show ?thesis
      using Cons.IH [OF Cons.prems(1,2)] Cons.prems(3,4) by (simp add: peek_items [OF Cons.prems(1)])
  qed
qed

end

section \<open>The operations when the directory works\<close>

definition usable_spool :: "spool \<Rightarrow> bool" where
  "usable_spool s = (tidy (kept_in s) \<and> max_held s = default_max
     \<and> length (held (kept_in s)) \<le> default_max
     \<and> (\<forall>e\<in>set (held (kept_in s)). json_valid (reading_data e)))"

definition good_reading :: "int \<Rightarrow> string \<Rightarrow> bool" where
  "good_reading q b = (0 \<le> q \<and> q < 2 ^ 63 \<and> json_valid b)"

definition the_reading :: "int \<Rightarrow> string \<Rightarrow> reading" where
  "the_reading q b = \<lparr>reading_name = reading_file q, reading_data = b\<rparr>"

definition older :: "reading \<Rightarrow> int \<Rightarrow> bool" where
  "older e q = (reading_name e < reading_file q)"

definition put_reading :: "int \<Rightarrow> string \<Rightarrow> spool \<Rightarrow> spool" where
  "put_reading q b s = snd (spool_add no_faults q (Some b) s)"

definition peek_readings :: "nat \<Rightarrow> spool \<Rightarrow> reading list \<times> spool" where
  "peek_readings n s = (case spool_take no_faults n s of (Inr es, t) \<Rightarrow> (es, t) | (Inl _, t) \<Rightarrow> ([], t))"

lemma no_faults_simps [simp]:
  "made no_faults" "listed no_faults" "write_end no_faults n = Whole" "renamed no_faults n"
  "removed no_faults n" "fetch no_faults n = Fetched"
  by (simp_all add: no_faults_def)

lemma held_fold_remove:
  "tidy d \<Longrightarrow> \<forall>n\<in>set ns. removed f n \<Longrightarrow>
     held (fold (os_remove f) ns d) = filter (\<lambda>e. reading_name e \<notin> set ns) (held d)"
proof (induction ns arbitrary: d)
  case (Cons n ns)
  then have "held (fold (os_remove f) ns (os_remove f n d))
      = filter (\<lambda>e. reading_name e \<notin> set ns) (held (os_remove f n d))"
    by (intro Cons.IH) (simp_all add: tidy_os_remove)
  with Cons.prems show ?case
    by (simp add: held_os_remove tidy_map_of conj_commute)
qed simp

lemma tidy_distinct: "tidy d \<Longrightarrow> distinct (map reading_name (held d))"
  by (simp add: tidy_def distinct_held)

lemma trim_held:
  assumes "tidy (kept_in s)" "listed f" "\<And>n. removed f n"
  shows "trim f s = (None, s\<lparr>kept_in := kept_in (snd (trim f s))\<rparr>)"
    "held (kept_in (snd (trim f s))) = last_n (max_held s) (held (kept_in s))"
  using assms
  by (simp_all add: trim_def names_held held_fold_remove filter_take_names tidy_distinct last_n_def
      take_map [symmetric] del: set_map)

lemma trim_tidy: "tidy (kept_in s) \<Longrightarrow> tidy (kept_in (snd (trim f s)))"
  by (simp add: trim_def tidy_fold split: option.split)

text \<open>Writing to the temporary name and renaming: as one step, when nothing fails.\<close>

lemma map_of_update: "map_of (AList.update n x d) n = Some x"
  by (induction d) auto

lemma delete_update_fresh: "held (AList.delete (partial_of n) (AList.update (partial_of n) x d)) = held d"
proof -
  have "\<forall>e\<in>set (held d). reading_name e \<noteq> partial_of n"
    by (auto simp: set_held reading_entry_def)
  then show ?thesis
    by (simp add: held_delete held_update_other)
qed

lemma held_committed:
  assumes "tidy d" "good_reading q b" "\<forall>e\<in>set (held d). older e q"
  shows "held (AList.update (reading_file q) (Plain b)
      (AList.delete (partial_of (reading_file q)) (AList.update (partial_of (reading_file q)) (Plain b) d)))
    = held d @ [the_reading q b]"
  using assms
  by (subst held_update_newest)
    (simp_all add: tidy_delete tidy_update delete_update_fresh older_def the_reading_def)

lemma tidy_lookup: "tidy d \<Longrightarrow> (\<exists>b. map_of d n = Some (Plain b)) \<or> map_of d n = None"
proof (cases "map_of d n")
  case (Some x)
  then show "tidy d \<Longrightarrow> ?thesis" by (cases x) (auto dest: tidy_map_of)
qed simp

lemma spool_add_steps:
  assumes "tidy (kept_in s)"
  shows "spool_add no_faults q (Some b) s = trim no_faults (s\<lparr>kept_in :=
    AList.update (reading_file q) (Plain b) (AList.delete (partial_of (reading_file q))
      (AList.update (partial_of (reading_file q)) (Plain b) (kept_in s)))\<rparr>)"
proof -
  let ?p = "partial_of (reading_file q)"
  have w: "os_write no_faults ?p b (kept_in s) = (True, AList.update ?p (Plain b) (kept_in s))"
    using tidy_lookup [OF assms, of ?p] by (auto simp: os_write_def)
  have r: "os_rename no_faults ?p (reading_file q) (AList.update ?p (Plain b) (kept_in s))
    = Some (AList.update (reading_file q) (Plain b) (AList.delete ?p (AList.update ?p (Plain b) (kept_in s))))"
    using tidy_lookup [OF tidy_update [OF assms], of ?p b "reading_file q"]
    by (auto simp: os_rename_def map_of_update)
  show ?thesis by (simp add: spool_add_def Let_def w r)
qed

lemma put_reading_held:
  assumes "usable_spool s" "good_reading q b" "\<forall>e\<in>set (held (kept_in s)). older e q"
  shows "held (kept_in (put_reading q b s)) = last_n default_max (held (kept_in s) @ [the_reading q b])"
    and "usable_spool (put_reading q b s)"
proof -
  have t: "tidy (kept_in s)" and m: "max_held s = default_max" using assms(1) by (simp_all add: usable_spool_def)
  show h: "held (kept_in (put_reading q b s)) = last_n default_max (held (kept_in s) @ [the_reading q b])"
    unfolding put_reading_def spool_add_steps [OF t]
    by (subst trim_held(2)) (simp_all add: tidy_update tidy_delete t m held_committed [OF t assms(2,3)])
  have "tidy (kept_in (put_reading q b s))"
    unfolding put_reading_def spool_add_steps [OF t]
    by (rule trim_tidy) (simp add: tidy_update tidy_delete t)
  moreover have "max_held (put_reading q b s) = default_max"
    unfolding put_reading_def spool_add_steps [OF t]
    by (subst trim_held(1)) (simp_all add: tidy_update tidy_delete t m)
  moreover have "\<forall>e\<in>set (held (kept_in (put_reading q b s))). json_valid (reading_data e)"
    using assms set_last_n_subset [of default_max "held (kept_in s) @ [the_reading q b]"]
    unfolding h by (auto simp: usable_spool_def good_reading_def the_reading_def)
  ultimately show "usable_spool (put_reading q b s)" by (simp add: usable_spool_def h)
qed

text \<open>Taking and dropping.\<close>

lemma held_lookup:
  assumes "tidy d" "e \<in> set (held d)"
  shows "map_of d (reading_name e) = Some (Plain (reading_data e))"
proof -
  obtain n x where e: "(n, x) \<in> set d" "is_file x" "e = reading_of (n, x)"
    using assms(2) by (auto simp: set_held reading_entry_def)
  with assms(1) have "map_of d n = Some x" by (simp add: tidy_def)
  with e show ?thesis by (cases x) (simp_all add: is_file_def contents_def)
qed

lemma take_each_all:
  "\<forall>e\<in>set es. map_of d (reading_name e) = Some (Plain (reading_data e)) \<and> json_valid (reading_data e) \<Longrightarrow>
     take_each no_faults (map reading_name es) d = (Inr es, d)"
  by (induction es) simp_all

lemma spool_take_usable:
  assumes "usable_spool s"
  shows "spool_take no_faults n s = (Inr (take n (held (kept_in s))), s)"
proof -
  have "take_each no_faults (map reading_name (take n (held (kept_in s)))) (kept_in s)
      = (Inr (take n (held (kept_in s))), kept_in s)"
    using assms by (intro take_each_all) (auto simp: usable_spool_def held_lookup dest: in_set_takeD)
  then show ?thesis by (simp add: spool_take_def names_held take_map)
qed

lemma peek_readings_usable: "usable_spool s \<Longrightarrow> peek_readings n s = (take n (held (kept_in s)), s)"
  by (simp add: peek_readings_def spool_take_usable)

lemma drop_held:
  assumes "tidy (kept_in s)" "\<forall>e\<in>set es. removed f (reading_name e)"
  shows "held (kept_in (spool_drop f es s))
    = filter (\<lambda>e. reading_name e \<notin> reading_name ` set es) (held (kept_in s))"
    "tidy (kept_in (spool_drop f es s))"
proof -
  have "fold (\<lambda>e. os_remove f (reading_name e)) es d = fold (os_remove f) (map reading_name es) d" for d
    by (simp add: fold_map comp_def)
  with assms show "held (kept_in (spool_drop f es s))
      = filter (\<lambda>e. reading_name e \<notin> reading_name ` set es) (held (kept_in s))"
    "tidy (kept_in (spool_drop f es s))"
    by (simp_all add: spool_drop_def held_fold_remove tidy_fold)
qed

lemma drop_usable: "usable_spool s \<Longrightarrow> usable_spool (spool_drop no_faults es s)"
  unfolding usable_spool_def
  by (auto simp: drop_held intro: le_trans [OF length_filter_le]) (simp add: spool_drop_def)

lemma drop_taken_held:
  assumes "usable_spool s"
  shows "held (kept_in (spool_drop no_faults (take n (held (kept_in s))) s)) = drop n (held (kept_in s))"
proof -
  have "tidy (kept_in s)" using assms by (simp add: usable_spool_def)
  then show ?thesis
    using filter_take_names [OF tidy_distinct, of "kept_in s" n]
    by (simp add: drop_held take_map flip: set_map)
qed

interpretation sp: bounded_queue "\<lambda>s. held (kept_in s)" usable_spool default_max good_reading
  the_reading older put_reading peek_readings "spool_drop no_faults"
proof (unfold_locales, goal_cases)
  case (6 q a r b)
  then show ?case by (simp add: older_def the_reading_def reading_file_less good_reading_def)
next
  case (7 e q r a)
  then show ?case
    using reading_file_less [of q r] by (auto simp: older_def good_reading_def)
qed (auto simp: put_reading_held peek_readings_usable drop_usable drop_taken_held)

section \<open>Taking while files fail\<close>

text \<open>What may leave the directory in a take: a file that is not JSON, or one that vanished by itself.\<close>

lemma snd_take_each:
  "snd (take_each f (n # ns) d) =
     (case (fetch f n, map_of d n) of
        (Fetched, Some (Plain b)) \<Rightarrow> snd (take_each f ns (if json_valid b then d else os_remove f n d))
      | (Fetched, None) \<Rightarrow> snd (take_each f ns d)
      | (Gone, _) \<Rightarrow> snd (take_each f ns (AList.delete n d))
      | _ \<Rightarrow> d)"
  by (simp split: fetched.split option.split node.split prod.split sum.split)

lemma take_each_keeps:
  assumes "tidy d" "e \<in> set (held d)" "json_valid (reading_data e)" "fetch f (reading_name e) \<noteq> Gone"
  shows "e \<in> set (held (snd (take_each f ns d)))"
  using assms(1,2)
proof (induction ns arbitrary: d)
  case (Cons n ns)
  show ?case
  proof (cases "reading_name e = n")
    case True
    then have "map_of d n = Some (Plain (reading_data e))"
      using held_lookup [OF Cons.prems] by simp
    then show ?thesis
      using True assms(3,4) Cons.IH [OF Cons.prems] Cons.prems(2)
      unfolding snd_take_each by (cases "fetch f n") simp_all
  next
    case False
    then have "e \<in> set (held (os_remove f n d))" "e \<in> set (held (AList.delete n d))"
      using Cons.prems(2) by (simp_all add: held_os_remove held_delete)
    then have "e \<in> set (held (snd (take_each f ns (os_remove f n d))))"
      "e \<in> set (held (snd (take_each f ns (AList.delete n d))))"
      using Cons.prems(1) by (simp_all add: Cons.IH tidy_os_remove tidy_delete)
    then show ?thesis
      using Cons.IH [OF Cons.prems] Cons.prems(2)
      unfolding snd_take_each by (simp split: fetched.split option.split node.split)
  qed
qed simp

lemma take_each_fetched:
  assumes "tidy d" "\<forall>n. fetch f n = Fetched" "set es \<subseteq> set (held d)" "distinct (map reading_name es)"
  shows "fst (take_each f (map reading_name es) d) = Inr (filter (\<lambda>e. json_valid (reading_data e)) es)"
  using assms
proof (induction es arbitrary: d)
  case (Cons e es)
  have e: "map_of d (reading_name e) = Some (Plain (reading_data e))"
    using Cons.prems by (simp add: held_lookup)
  have "set es \<subseteq> set (held (os_remove f (reading_name e) d))"
    using Cons.prems by (auto simp: held_os_remove) (metis image_eqI)
  then have "fst (take_each f (map reading_name es) (os_remove f (reading_name e) d))
      = Inr (filter (\<lambda>e. json_valid (reading_data e)) es)"
    using Cons.prems by (intro Cons.IH) (simp_all add: tidy_os_remove)
  moreover have "fst (take_each f (map reading_name es) d) = Inr (filter (\<lambda>e. json_valid (reading_data e)) es)"
    using Cons.prems by (intro Cons.IH) simp_all
  ultimately show ?case
    using Cons.prems(2) by (auto simp: e split: prod.splits sum.splits)
qed simp

end
