(* ===== verification/Spool_Props.thy ===== *)
theory Spool_Props
  imports Spool_Facts
begin

text \<open>The properties of the spool.\<close>

lemma new_spool_usable: "new_spool no_faults None = Inr s \<Longrightarrow> usable_spool s \<and> held (kept_in s) = []"
  by (auto simp: new_spool_def sweep_partials_def read_dir_def usable_spool_def tidy_def held_def)

text \<open>
  C16: Whatever the order of additions, deliveries and failed deliveries from an empty spool: the
  readings delivered, then those still held, are some of the readings added, each once and in the
  order they were collected; none is missing while no more than 500 were added; and never more than
  500 are held.
\<close>

theorem spool_delivers_in_order:
  assumes "new_spool no_faults None = Inr s" "in_order good_reading (- 1) evs"
    "fold (queue_step put_reading peek_readings (spool_drop no_faults)) evs (s, []) = (t, sent)"
  shows "subseq (sent @ held (kept_in t)) (puts the_reading evs)
    \<and> (length (puts the_reading evs) \<le> default_max \<longrightarrow> sent @ held (kept_in t) = puts the_reading evs)
    \<and> spool_len no_faults t \<le> default_max"
  using sp.run_delivers [OF _ _ assms(2,3)] new_spool_usable [OF assms(1)]
  by (simp add: usable_spool_def spool_len_def names_held)

lemma spool_delivers_in_order_witness:
  "\<exists>s t sent. new_spool no_faults None = Inr s
    \<and> fold (queue_step put_reading peek_readings (spool_drop no_faults))
        [Put 1 ''{}'', Undelivered 60, Put 2 ''1'', Delivered 1] (s, []) = (t, sent)
    \<and> sent @ held (kept_in t) = [the_reading 1 ''{}'', the_reading 2 ''1'']"
proof -
  let ?evs = "[Put 1 ''{}'', Undelivered 60, Put 2 ''1'', Delivered 1]"
  obtain s where s: "new_spool no_faults None = Inr s"
    by (simp add: new_spool_def)
  obtain t sent where t: "fold (queue_step put_reading peek_readings (spool_drop no_faults)) ?evs (s, []) = (t, sent)"
    by (metis prod.exhaust)
  have "json_valid ''{}''" "json_valid ''1''" by code_simp+
  then have "sent @ held (kept_in t) = [the_reading 1 ''{}'', the_reading 2 ''1'']"
    using spool_delivers_in_order [OF s _ t] by (simp add: good_reading_def default_max_def)
  then show ?thesis using s t by auto
qed

text \<open>
  An addition that fails, wherever it fails, changes none of the readings that are held; and when
  the partial file can be removed, none is left.
\<close>

theorem failed_add_changes_nothing:
  assumes "spool_add f q payload s = (Some e, t)" "e \<noteq> Cannot_List" "tidy (kept_in s)"
    "partial_of (reading_file q) \<notin> fst ` set (kept_in s)"
  shows "held (kept_in t) = held (kept_in s)
    \<and> (removed f (partial_of (reading_file q)) \<longrightarrow> kept_in t = kept_in s)"
proof -
  let ?p = "partial_of (reading_file q)" and ?d = "kept_in s"
  have fresh: "map_of ?d ?p = None" using assms(4) by (auto simp: map_of_eq_None_iff)
  have gone: "AList.delete ?p (AList.update ?p x ?d) = ?d" "AList.delete ?p ?d = ?d" for x
    using assms(4) by (force simp: update_fresh AList.delete_eq filter_id_conv)+
  have rest: "held (os_remove f ?p (AList.update ?p (Plain b) ?d)) = held ?d"
      "removed f ?p \<Longrightarrow> os_remove f ?p (AList.update ?p (Plain b) ?d) = ?d"
      "os_remove f ?p ?d = ?d" for b
    by (simp_all add: os_remove_def map_of_update gone held_update_other)
  show ?thesis
  proof (cases payload)
    case None
    with assms(1) show ?thesis by (simp add: spool_add_def)
  next
    case (Some body)
    with assms(1,2) fresh show ?thesis
      by (auto simp: spool_add_def Let_def os_write_def trim_def rest
          split: written.splits option.splits)
  qed
qed

lemma failed_add_changes_nothing_witness:
  "\<exists>t. spool_add (no_faults\<lparr>write_end := \<lambda>_. Part 1\<rparr>) 7 (Some ''{}'') \<lparr>kept_in = [], max_held = default_max\<rparr>
      = (Some Cannot_Write, t) \<and> kept_in t = []"
proof -
  let ?f = "no_faults\<lparr>write_end := \<lambda>_. Part 1\<rparr>" and ?s = "\<lparr>kept_in = [], max_held = default_max\<rparr>"
  obtain t where t: "spool_add ?f 7 (Some ''{}'') ?s = (Some Cannot_Write, t)"
    by (simp add: spool_add_def os_write_def Let_def)
  then show ?thesis
    using failed_add_changes_nothing [OF t] by (simp add: tidy_def no_faults_def)
qed

lemma left_after_removal:
  assumes "tidy d" "\<And>n. removed f n" "(n, x) \<in> set (fold (os_remove f) ns d)"
  shows "(n, x) \<in> set d \<and> n \<notin> set ns"
  using assms(1,3)
proof (induction ns arbitrary: d)
  case (Cons m ns)
  then have "(n, x) \<in> set (os_remove f m d) \<and> n \<notin> set ns"
    using Cons.IH [OF tidy_os_remove] by simp
  with Cons.prems(1) show ?case
    by (auto simp: os_remove_def assms(2) AList.delete_eq tidy_map_of)
qed simp

text \<open>
  Whatever is half-written when the process is killed: the next start holds exactly the readings
  committed before, and no partial file is left.
\<close>

theorem restart_after_crash:
  assumes "tidy d"
  shows "\<exists>s. new_spool no_faults (Some (AList.update (partial_of (reading_file q)) (Plain (take k body)) d)) = Inr s
    \<and> held (kept_in s) = held d \<and> (\<forall>n\<in>fst ` set (kept_in s). \<not> has_suffix n ''.tmp'')"
proof -
  let ?d = "AList.update (partial_of (reading_file q)) (Plain (take k body)) d"
  let ?ns = "map fst (filter (\<lambda>(n, x). is_file x \<and> has_suffix n ''.tmp'') (sort_key fst ?d))"
  let ?s = "\<lparr>kept_in = fold (os_remove no_faults) ?ns ?d, max_held = default_max\<rparr>"
  have t: "tidy ?d" using assms by (rule tidy_update)
  have "\<forall>e\<in>set (held ?d). reading_name e \<notin> set ?ns"
    by (auto simp: set_held reading_entry_def dest: held_no_json)
  then have "held (kept_in ?s) = held d"
    using t by (simp add: held_fold_remove held_update_other del: set_map)
  moreover have "\<forall>n\<in>fst ` set (kept_in ?s). \<not> has_suffix n ''.tmp''"
  proof
    fix n assume "n \<in> fst ` set (kept_in ?s)"
    then obtain x where x: "(n, x) \<in> set (fold (os_remove no_faults) ?ns ?d)" by auto
    then have "(n, x) \<in> set ?d" "n \<notin> set ?ns"
      using left_after_removal [OF t _ x] by (auto simp del: set_map set_filter)
    then show "\<not> has_suffix n ''.tmp''"
      using t by (force simp: tidy_def)
  qed
  moreover have "new_spool no_faults (Some ?d) = Inr ?s"
    by (simp add: new_spool_def sweep_partials_def read_dir_def)
  ultimately show ?thesis by blast
qed

lemma restart_after_crash_witness:
  "\<exists>s. new_spool no_faults (Some (AList.update (partial_of (reading_file 2)) (Plain (take 1 ''{}''))
        [(reading_file 1, Plain ''{}'')])) = Inr s
    \<and> held (kept_in s) = held [(reading_file 1, Plain ''{}'')]
    \<and> (\<forall>n\<in>fst ` set (kept_in s). \<not> has_suffix n ''.tmp'')"
  by (rule restart_after_crash) (simp add: tidy_def is_file_def)

text \<open>
  Taking readings loses none of them: only a file that is not JSON is removed, and when the files
  can be read what is taken is the valid ones of the oldest, in order.
\<close>

theorem take_loses_no_reading:
  assumes "tidy (kept_in s)" "spool_take f k s = (r, t)"
  shows "(\<forall>e\<in>set (held (kept_in s)). json_valid (reading_data e) \<and> fetch f (reading_name e) \<noteq> Gone
        \<longrightarrow> e \<in> set (held (kept_in t)))
    \<and> ((\<forall>n. fetch f n = Fetched) \<and> listed f
        \<longrightarrow> r = Inr (filter (\<lambda>e. json_valid (reading_data e)) (take k (held (kept_in s)))))"
proof -
  let ?d = "kept_in s"
  have snd: "t = s \<or> kept_in t = snd (take_each f (take k (map reading_name (held ?d))) ?d)"
    using assms(2) by (auto simp: spool_take_def names_held split: if_splits prod.splits)
  have "r = Inr (filter (\<lambda>e. json_valid (reading_data e)) (take k (held ?d)))"
    if "\<forall>n. fetch f n = Fetched" "listed f"
    using take_each_fetched [OF assms(1) that(1), of "take k (held ?d)"] assms(2) that(2)
      tidy_distinct [OF assms(1)]
    by (auto simp: spool_take_def names_held set_take_subset distinct_take take_map [symmetric] split: prod.splits)
  with snd show ?thesis
    using take_each_keeps [OF assms(1)] by auto
qed

lemma take_loses_no_reading_witness:
  "fst (spool_take no_faults 2
      \<lparr>kept_in = [(reading_file 1, Plain ''{''), (reading_file 2, Plain ''1'')], max_held = default_max\<rparr>)
    = Inr [the_reading 2 ''1'']"
proof -
  let ?s = "\<lparr>kept_in = [(reading_file 1, Plain ''{''), (reading_file 2, Plain ''1'')], max_held = default_max\<rparr>"
  obtain r t where rt: "spool_take no_faults 2 ?s = (r, t)" by (metis prod.exhaust)
  have "tidy (kept_in ?s)"
    using reading_file_less [of 1 2] by (simp add: tidy_def is_file_def)
  then have "r = Inr (filter (\<lambda>e. json_valid (reading_data e)) (take 2 (held (kept_in ?s))))"
    using take_loses_no_reading [OF _ rt] by simp
  also have "\<dots> = Inr [the_reading 2 ''1'']"
    by code_simp
  finally show ?thesis by (simp add: rt)
qed

end
