(* ===== verification/Go_Time.thy ===== *)
theory Go_Time
  imports Go_Json
begin

text \<open>
  Dates and times of Go's \<^verbatim>\<open>time\<close> package the agent exchanges: days of the civil calendar, the
  RFC 3339 reader behind \<^verbatim>\<open>Time.UnmarshalJSON\<close>, and \<^verbatim>\<open>Time.Sub\<close>, which saturates.
\<close>

definition leap_year :: "int \<Rightarrow> bool" where
  "leap_year y = (y mod 4 = 0 \<and> (y mod 100 \<noteq> 0 \<or> y mod 400 = 0))"

definition month_lengths :: "int \<Rightarrow> int list" where
  "month_lengths y = [31, if leap_year y then 29 else 28, 31, 30, 31, 30, 31, 31, 30, 31, 30, 31]"

definition days_in :: "int \<Rightarrow> int \<Rightarrow> int" where
  "days_in m y = month_lengths y ! nat (m - 1)"

text \<open>Days from 1970-01-01 to the first of January of a year of the proleptic Gregorian calendar, and to a date.\<close>

definition days_to_year :: "int \<Rightarrow> int" where
  "days_to_year y = 365 * (y - 1970) + (y - 1) div 4 - (y - 1) div 100 + (y - 1) div 400 - 477"

definition days_to_date :: "int \<Rightarrow> int \<Rightarrow> int \<Rightarrow> int" where
  "days_to_date y m d = days_to_year y + sum_list (take (nat (m - 1)) (month_lengths y)) + d - 1"

definition second_ns :: int where
  "second_ns = 1000000000"

text \<open>Decimal digits as an integer, and a number of fixed width within a range.\<close>

definition digits_int :: "string \<Rightarrow> int" where
  "digits_int s = foldl (\<lambda>n c. 10 * n + (of_char c - 48)) 0 s"

definition digits_in :: "string \<Rightarrow> int \<Rightarrow> int \<Rightarrow> int option" where
  "digits_in s lo hi =
     (if s \<noteq> [] \<and> list_all is_digit s \<and> lo \<le> digits_int s \<and> digits_int s \<le> hi
      then Some (digits_int s) else None)"

text \<open>\<^verbatim>\<open>parseNanoseconds\<close>: at most nine digits count.\<close>

definition fraction_ns :: "string \<Rightarrow> int" where
  "fraction_ns ds = digits_int (take 9 (ds @ ''000000000''))"

text \<open>The offset of a zone in seconds: \<^verbatim>\<open>Z\<close> or \<^verbatim>\<open>+hh:mm\<close>.\<close>

definition zone_seconds :: "string \<Rightarrow> int option" where
  "zone_seconds s =
     (if s = ''Z'' then Some 0
      else if length s \<noteq> 6 \<or> (s ! 0 \<noteq> CHR ''+'' \<and> s ! 0 \<noteq> CHR ''-'') \<or> s ! 3 \<noteq> CHR '':'' then None
      else (case (digits_in (take 2 (drop 1 s)) 0 23, digits_in (drop 4 s) 0 59) of
          (Some h, Some m) \<Rightarrow>
            (let off = (h * 60 + m) * 60 in Some (if s ! 0 = CHR ''-'' then - off else off))
        | _ \<Rightarrow> None))"

text \<open>\<^verbatim>\<open>parseRFC3339\<close>: nanoseconds since the epoch.\<close>

definition parse_rfc3339 :: "string \<Rightarrow> go_time option" where
  "parse_rfc3339 s =
     (if length s < 19 \<or> s ! 4 \<noteq> CHR ''-'' \<or> s ! 7 \<noteq> CHR ''-'' \<or> s ! 10 \<noteq> CHR ''T''
         \<or> s ! 13 \<noteq> CHR '':'' \<or> s ! 16 \<noteq> CHR '':'' then None
      else (case (digits_in (take 4 s) 0 9999, digits_in (take 2 (drop 5 s)) 1 12) of
          (Some y, Some mo) \<Rightarrow>
            (case (digits_in (take 2 (drop 8 s)) 1 (days_in mo y), digits_in (take 2 (drop 11 s)) 0 23,
                   digits_in (take 2 (drop 14 s)) 0 59, digits_in (take 2 (drop 17 s)) 0 59) of
                (Some d, Some h, Some mi, Some sec) \<Rightarrow>
                  (let r = drop 19 s;
                       frac = (if has_prefix r ''.'' then takeWhile is_digit (tl r) else []);
                       z = (if frac = [] then r else drop (Suc (length frac)) r)
                   in case zone_seconds z of None \<Rightarrow> None
                      | Some off \<Rightarrow>
                        Some ((86400 * days_to_date y mo d + h * 3600 + mi * 60 + sec - off) * second_ns
                          + fraction_ns frac))
              | _ \<Rightarrow> None)
        | _ \<Rightarrow> None))"

text \<open>
  \<^verbatim>\<open>Time.UnmarshalJSON\<close> on the text between the quotes, as written. What the strict reader refuses
  is tried again with \<^verbatim>\<open>time.Parse\<close>, which is laxer on a few points (a one-digit hour, a comma
  before the fraction) and is the parameter \<open>lax\<close>. A refusal sets the zero time.
\<close>

fun read_time :: "(string \<Rightarrow> go_time option) \<Rightarrow> go_time reader" where
  "read_time lax (JStr s) r =
     (case parse_rfc3339 s of Some t \<Rightarrow> (t, Fine)
      | None \<Rightarrow> (case lax s of Some t \<Rightarrow> (t, Fine) | None \<Rightarrow> (zero_time, Refused)))"
| "read_time lax JNull r = (r, Fine)"
| "read_time lax v r = (r, Refused)"

text \<open>\<^verbatim>\<open>t.Sub(u)\<close>: the difference, or the nearest duration there is.\<close>

definition max_duration :: int where
  "max_duration = 9223372036854775807"

definition time_sub :: "go_time \<Rightarrow> go_time \<Rightarrow> int" where
  "time_sub t u = max (- max_duration - 1) (min max_duration (t - u))"

lemma time_sub_bounds: "- max_duration - 1 \<le> time_sub t u \<and> time_sub t u \<le> max_duration"
  by (simp add: time_sub_def max_duration_def)

lemma time_sub_exact: "\<bar>t - u\<bar> \<le> max_duration \<Longrightarrow> time_sub t u = t - u"
  by (auto simp: time_sub_def)

lemma time_sub_less: "d \<le> max_duration \<Longrightarrow> - max_duration \<le> d \<Longrightarrow> time_sub t u < d \<longleftrightarrow> t - u < d"
  by (auto simp: time_sub_def min_def max_def)

end
