(* ===== verification/Jobs.thy ===== *)
theory Jobs
  imports Go_Time
begin

text \<open>
  The drop folder of job reports, \<^verbatim>\<open>internal/jobs/jobs.go\<close> and \<^verbatim>\<open>read_unix.go\<close>. Anyone may write
  to the folder, so the files \<open>Take\<close> lists and the files it then opens are two separate arguments of
  the model: what is at a path may have been swapped in between. What \<open>Take\<close> removes is returned as
  the list of names, in the order of the removals.
\<close>

section \<open>Reports\<close>

definition max_lines :: nat where "max_lines = 20"
definition max_line_bytes :: nat where "max_line_bytes = 512"
definition max_job_bytes :: nat where "max_job_bytes = 128"
definition max_error_bytes :: nat where "max_error_bytes = 255"
definition max_report_bytes :: int where "max_report_bytes = 32768"
definition max_per_push :: nat where "max_per_push = 50"
definition max_age :: int where "max_age = 7 * 24 * 3600 * second_ns"
definition max_waiting :: nat where "max_waiting = 500"

record report =
  rep_id :: string
  rep_job :: string
  rep_started :: go_time
  rep_ended :: go_time
  rep_duration :: int
  rep_exit :: int
  rep_signal :: string
  rep_error :: string
  rep_output :: "string list"
  rep_withheld :: bool
  rep_user :: string

definition blank_report :: report where
  "blank_report = \<lparr>rep_id = [], rep_job = [], rep_started = zero_time, rep_ended = zero_time,
     rep_duration = 0, rep_exit = 0, rep_signal = [], rep_error = [], rep_output = [],
     rep_withheld = False, rep_user = []\<rparr>"

text \<open>The fields of a report in JSON.\<close>

definition report_fields :: "(string \<Rightarrow> go_time option) \<Rightarrow> (string \<times> report reader) list" where
  "report_fields lax =
     [(''id'', in_field rep_id (\<lambda>x r. r\<lparr>rep_id := x\<rparr>) read_str),
      (''job'', in_field rep_job (\<lambda>x r. r\<lparr>rep_job := x\<rparr>) read_str),
      (''started_at'', in_field rep_started (\<lambda>x r. r\<lparr>rep_started := x\<rparr>) (read_time lax)),
      (''ended_at'', in_field rep_ended (\<lambda>x r. r\<lparr>rep_ended := x\<rparr>) (read_time lax)),
      (''duration_ms'', in_field rep_duration (\<lambda>x r. r\<lparr>rep_duration := x\<rparr>) read_int),
      (''exit_code'', in_field rep_exit (\<lambda>x r. r\<lparr>rep_exit := x\<rparr>) read_int),
      (''signal'', in_field rep_signal (\<lambda>x r. r\<lparr>rep_signal := x\<rparr>) read_str),
      (''error'', in_field rep_error (\<lambda>x r. r\<lparr>rep_error := x\<rparr>) read_str),
      (''output'', in_field rep_output (\<lambda>x r. r\<lparr>rep_output := x\<rparr>) (read_slice read_str [])),
      (''output_withheld'', in_field rep_withheld (\<lambda>x r. r\<lparr>rep_withheld := x\<rparr>) read_bool),
      (''user'', in_field rep_user (\<lambda>x r. r\<lparr>rep_user := x\<rparr>) read_str)]"

definition clipped :: "report \<Rightarrow> report" where
  "clipped r = r\<lparr>
     rep_job := clip (trim_space (rep_job r)) max_job_bytes,
     rep_error := clip (rep_error r) max_error_bytes,
     rep_signal := clip (rep_signal r) 16,
     rep_user := clip (rep_user r) 64,
     rep_output := map (\<lambda>l. clip (to_valid_utf8 l ''?'') max_line_bytes) (last_n max_lines (rep_output r)),
     rep_duration := max 0 (rep_duration r)\<rparr>"

text \<open>\<^verbatim>\<open>^[0-9a-f]{32}$\<close>\<close>

definition id_shape :: "string \<Rightarrow> bool" where
  "id_shape s = (length s = 32 \<and> list_all (\<lambda>c. is_digit c \<or> 97 \<le> byte_val c \<and> byte_val c \<le> 102) s)"

text \<open>\<open>Dir\<close>: the configured folder, else the platform's.\<close>

definition reports_dir :: "bool \<Rightarrow> string \<Rightarrow> string" where
  "reports_dir windows configured =
     (if configured \<noteq> [] then configured else if windows then [] else ''/var/spool/infranest-agent'')"

section \<open>The folder\<close>

datatype file_kind = Regular | Symlink | Directory | Special

record drop_file =
  f_kind :: file_kind
  f_size :: int
  f_modified :: go_time
  f_links :: nat
  f_uid :: nat
  f_body :: "string option"

type_synonym drop_folder = "(string \<times> drop_file) list"

text \<open>The name of a uid, from the account database, or the number in decimal.\<close>

definition owner_name :: "(nat \<Rightarrow> string option) \<Rightarrow> (nat \<Rightarrow> string) \<Rightarrow> nat \<Rightarrow> string" where
  "owner_name accounts decimal uid =
     (case accounts uid of Some n \<Rightarrow> if n \<noteq> [] then n else decimal uid | None \<Rightarrow> decimal uid)"

text \<open>
  \<open>readReport\<close>: the file as it is when it is opened; \<open>None\<close> for a file that cannot be opened, which a
  link never can.
\<close>

definition read_report ::
  "(string \<Rightarrow> go_time option) \<Rightarrow> (nat \<Rightarrow> string) \<Rightarrow> drop_file option \<Rightarrow> (report \<times> string) option" where
  "read_report lax owner at_open =
     (case at_open of None \<Rightarrow> None
      | Some f \<Rightarrow>
        if f_kind f = Symlink then None
        else if f_kind f \<noteq> Regular \<or> f_links f \<noteq> 1 \<or> max_report_bytes < f_size f then None
        else (case f_body f of None \<Rightarrow> None
          | Some content \<Rightarrow>
            (let body = take (nat (max_report_bytes + 1)) content in
             if max_report_bytes < int (length body) then None
             else (case unmarshal (read_struct (report_fields lax)) body blank_report of
                 (r, Fine) \<Rightarrow> Some (r, owner (f_uid f))
               | _ \<Rightarrow> None))))"

record waiting =
  w_report :: report
  w_name :: string

text \<open>What \<open>Take\<close> makes of one entry: a report to be, kept as it is, removed.\<close>

datatype sorted_out = Candidate | Left_Alone | Removed

definition sort_out :: "go_time \<Rightarrow> string \<Rightarrow> drop_file option \<Rightarrow> sorted_out" where
  "sort_out now n st =
     (case st of None \<Rightarrow> Left_Alone
      | Some f \<Rightarrow>
        if has_prefix n ''.'' \<and> has_suffix n ''.tmp''
        then (if 3600 * second_ns < time_sub now (f_modified f) then Removed else Left_Alone)
        else if \<not> has_suffix n ''.json'' \<or> \<not> id_shape (trim_suffix n ''.json'') \<or> f_kind f \<noteq> Regular
          \<or> max_report_bytes < f_size f \<or> max_age < time_sub now (f_modified f) then Removed
        else Candidate)"

fun read_candidates ::
  "(string \<Rightarrow> go_time option) \<Rightarrow> (nat \<Rightarrow> string) \<Rightarrow> (string \<Rightarrow> drop_file option) \<Rightarrow> int
     \<Rightarrow> string list \<Rightarrow> waiting list \<Rightarrow> waiting list \<times> string list" where
  "read_candidates lax owner at_open m [] out = (out, [])"
| "read_candidates lax owner at_open m (n # ns) out =
     (if m \<le> int (length out) then (out, [])
      else (case read_report lax owner (at_open n) of
          None \<Rightarrow> (case read_candidates lax owner at_open m ns out of (ws, rm) \<Rightarrow> (ws, n # rm))
        | Some (r, who) \<Rightarrow>
          (let r = r\<lparr>rep_id := trim_suffix n ''.json'', rep_user := who\<rparr> in
           if rep_job r = [] \<or> rep_started r = zero_time \<or> rep_ended r = zero_time
           then (case read_candidates lax owner at_open m ns out of (ws, rm) \<Rightarrow> (ws, n # rm))
           else read_candidates lax owner at_open m ns (out @ [\<lparr>w_report = clipped r, w_name = n\<rparr>]))))"

datatype take_error = No_Folder | Unlistable

text \<open>
  \<open>Take\<close>. \<open>folder\<close> is what \<^verbatim>\<open>os.ReadDir\<close> gives, \<open>stat n\<close> what \<^verbatim>\<open>os.Lstat\<close> says of an entry and \<open>at_open n\<close>
  what is there when it is opened. \<^verbatim>\<open>sort.Slice\<close> leaves open the order of files of the same
  time, so the sorting is the parameter \<open>arrange\<close>.
\<close>

definition take_reports ::
  "(string \<Rightarrow> go_time option) \<Rightarrow> (nat \<Rightarrow> string) \<Rightarrow> ((string \<times> go_time) list \<Rightarrow> (string \<times> go_time) list)
     \<Rightarrow> string \<Rightarrow> take_error + string list \<Rightarrow> (string \<Rightarrow> drop_file option) \<Rightarrow> (string \<Rightarrow> drop_file option)
     \<Rightarrow> int \<Rightarrow> go_time \<Rightarrow> (take_error + waiting list) \<times> string list" where
  "take_reports lax owner arrange dir listing stat at_open m now =
     (if dir = [] then (Inr [], [])
      else (case listing of
          Inl e \<Rightarrow> (Inl e, [])
        | Inr ns \<Rightarrow>
          (let bad = filter (\<lambda>n. sort_out now n (stat n) = Removed) ns;
               found = map fst (arrange (map (\<lambda>n. (n, f_modified (the (stat n))))
                         (filter (\<lambda>n. sort_out now n (stat n) = Candidate) ns)));
               late = take (length found - max_waiting) found;
               (ws, rm) = read_candidates lax owner at_open m (last_n max_waiting found) []
           in (Inr ws, bad @ late @ rm))))"

definition remove_reports :: "waiting list \<Rightarrow> string list" where
  "remove_reports ws = map w_name ws"

definition reports :: "waiting list \<Rightarrow> bool \<Rightarrow> report list" where
  "reports ws with_output =
     map (\<lambda>w. if \<not> with_output \<and> rep_output (w_report w) \<noteq> []
       then (w_report w)\<lparr>rep_output := [], rep_withheld := True\<rparr> else w_report w) ws"

section \<open>Writing a report\<close>

datatype write_error = Not_Collected | Folder_Missing | Encoding | Opening | Chmod | Writing | Closing | Renaming

record write_faults =
  w_folder :: bool
  w_chmod :: bool
  w_write :: bool
  w_close :: bool
  w_rename :: bool
  w_remove :: bool

text \<open>
  \<open>Write\<close> on the folder as an association list. \<open>marshal\<close> is \<^verbatim>\<open>json.Marshal\<close> of the report, \<open>fresh\<close>
  what \<open>NewID\<close> draws, \<open>uid\<close> the user of the job, \<open>now\<close> the time of the write. The temporary file is
  opened exclusively.
\<close>

definition new_file :: "nat \<Rightarrow> go_time \<Rightarrow> string \<Rightarrow> drop_file" where
  "new_file uid now body = \<lparr>f_kind = Regular, f_size = int (length body), f_modified = now,
     f_links = 1, f_uid = uid, f_body = Some body\<rparr>"

definition with_id :: "string \<Rightarrow> report \<Rightarrow> report" where
  "with_id fresh r = (if rep_id r = [] \<or> \<not> id_shape (rep_id r) then r\<lparr>rep_id := fresh\<rparr> else r)"

definition write_report ::
  "(report \<Rightarrow> string option) \<Rightarrow> string \<Rightarrow> nat \<Rightarrow> go_time \<Rightarrow> write_faults \<Rightarrow> string \<Rightarrow> report
     \<Rightarrow> drop_folder \<Rightarrow> write_error option \<times> drop_folder" where
  "write_report marshal fresh uid now fl dir r d =
     (if dir = [] then (Some Not_Collected, d)
      else if \<not> w_folder fl then (Some Folder_Missing, d)
      else
        (let r = with_id fresh (clipped r)
         in case marshal r of None \<Rightarrow> (Some Encoding, d)
            | Some body \<Rightarrow>
              (let tmp = ''.'' @ rep_id r @ ''.tmp'';
                   created = d @ [(tmp, new_file uid now [])];
                   undo = (\<lambda>e d1. (Some e, if w_remove fl then filter (\<lambda>(n, f). n \<noteq> tmp) d1 else d1))
               in if tmp \<in> fst ` set d then (Some Opening, d)
                  else if \<not> w_chmod fl then undo Chmod created
                  else if \<not> w_write fl then undo Writing created
                  else let whole = d @ [(tmp, new_file uid now body)] in
                    if \<not> w_close fl then undo Closing whole
                    else if \<not> w_rename fl then undo Renaming whole
                    else (None, filter (\<lambda>(n, f). n \<noteq> rep_id r @ ''.json'') d
                            @ [(rep_id r @ ''.json'', new_file uid now body)]))))"

end
