(* ===== verification/Jobs_Props.thy ===== *)
theory Jobs_Props
  imports Jobs "HOL-Library.Sublist"
begin

text \<open>The properties of the drop folder of job reports.\<close>

section \<open>The bounds of a report\<close>

definition in_bounds :: "report \<Rightarrow> bool" where
  "in_bounds r = (length (rep_job r) \<le> 128 \<and> length (rep_error r) \<le> 255 \<and> length (rep_signal r) \<le> 16
     \<and> length (rep_user r) \<le> 64 \<and> length (rep_output r) \<le> 20
     \<and> (\<forall>l\<in>set (rep_output r). length l \<le> 512 \<and> valid_utf8 l) \<and> 0 \<le> rep_duration r)"

lemma question_valid: "valid_utf8 ''?''"
  by (simp add: valid_utf8.simps)

lemma clipped_in_bounds: "in_bounds (clipped r)"
  by (auto simp: in_bounds_def clipped_def length_clip max_job_bytes_def max_error_bytes_def
      max_lines_def max_line_bytes_def question_valid to_valid_utf8_valid intro!: clip_valid)

lemma clipped_fields [simp]:
  "rep_id (clipped r) = rep_id r" "rep_user (clipped r) = clip (rep_user r) 64"
  "rep_started (clipped r) = rep_started r" "rep_ended (clipped r) = rep_ended r"
  "rep_exit (clipped r) = rep_exit r" "rep_withheld (clipped r) = rep_withheld r"
  "rep_job (clipped r) = clip (trim_space (rep_job r)) 128"
  by (simp_all add: clipped_def max_job_bytes_def)

section \<open>What one opened file gives\<close>

text \<open>The report of a file, and the three fields a report must have.\<close>

definition sendable :: "report \<Rightarrow> bool" where
  "sendable r = (rep_job r \<noteq> [] \<and> rep_started r \<noteq> zero_time \<and> rep_ended r \<noteq> zero_time)"

definition from_file :: "(string \<Rightarrow> go_time option) \<Rightarrow> (nat \<Rightarrow> string) \<Rightarrow> (string \<Rightarrow> drop_file option)
    \<Rightarrow> string \<Rightarrow> waiting option" where
  "from_file lax owner at_open n =
     (case read_report lax owner (at_open n) of None \<Rightarrow> None
      | Some (r, who) \<Rightarrow>
        if sendable r
        then Some \<lparr>w_report = clipped (r\<lparr>rep_id := trim_suffix n ''.json'', rep_user := who\<rparr>), w_name = n\<rparr>
        else None)"

lemma read_candidates_from_file:
  "read_candidates lax owner at_open m (n # ns) out =
     (if m \<le> int (length out) then (out, [])
      else (case from_file lax owner at_open n of
          None \<Rightarrow> (case read_candidates lax owner at_open m ns out of (ws, rm) \<Rightarrow> (ws, n # rm))
        | Some w \<Rightarrow> read_candidates lax owner at_open m ns (out @ [w])))"
  by (simp add: from_file_def sendable_def Let_def split: option.split prod.split)

declare read_candidates.simps(2) [simp del]

lemma from_file_name: "from_file lax owner at_open n = Some w \<Longrightarrow> w_name w = n"
  by (auto simp: from_file_def split: option.splits prod.splits if_splits)

lemma read_candidates_spec:
  assumes "read_candidates lax owner at_open m ns out = (ws, rm)"
  shows "(\<exists>new. ws = out @ new \<and> subseq (map w_name new) ns
      \<and> (\<forall>w\<in>set new. from_file lax owner at_open (w_name w) = Some w))
    \<and> length ws \<le> max (length out) (nat m)
    \<and> set rm \<subseteq> {n \<in> set ns. from_file lax owner at_open n = None}"
  using assms
proof (induction ns arbitrary: out ws rm)
  case (Cons n ns)
  show ?case
  proof (cases "m \<le> int (length out)")
    case True
    with Cons.prems show ?thesis by (auto simp: read_candidates_from_file)
  next
    case False
    show ?thesis
    proof (cases "from_file lax owner at_open n")
      case None
      then obtain rm1 where "read_candidates lax owner at_open m ns out = (ws, rm1)" "rm = n # rm1"
        using Cons.prems False by (auto simp: read_candidates_from_file split: prod.splits)
      with Cons.IH [OF this(1)] None show ?thesis by auto
    next
      case (Some w)
      then have "read_candidates lax owner at_open m ns (out @ [w]) = (ws, rm)"
        using Cons.prems False by (simp add: read_candidates_from_file)
      with Cons.IH [OF this] Some False from_file_name [OF Some] show ?thesis by fastforce
    qed
  qed
qed auto

lemma subseq_set_in: "subseq xs ys \<Longrightarrow> x \<in> set xs \<Longrightarrow> x \<in> set ys"
  by (erule list_emb_set) auto

lemma read_report_file:
  assumes "read_report lax owner at_open = Some (r, who)"
  shows "\<exists>f. at_open = Some f \<and> f_kind f = Regular \<and> f_links f = 1"
  using assms by (auto simp: read_report_def split: option.splits if_splits)

lemma read_report_body:
  assumes "read_report lax owner (Some f) = Some (r, who)"
  shows "f_body f \<noteq> None"
  using assms by (cases "f_body f") (auto simp: read_report_def split: if_splits)

lemma read_report_size:
  assumes "read_report lax owner (Some f) = Some (r, who)" "f_body f = Some content"
  shows "\<not> max_report_bytes < int (length (take (nat (max_report_bytes + 1)) content)) \<and> who = owner (f_uid f)"
  using assms
  by (auto simp: read_report_def Let_def simp del: length_take split: if_splits prod.splits verdict.splits)

lemma report_is_plain:
  assumes "read_report lax owner at_open = Some (r, who)"
  shows "\<exists>f body. at_open = Some f \<and> f_kind f = Regular \<and> f_links f = 1 \<and> f_body f = Some body
    \<and> length body \<le> 32768 \<and> who = owner (f_uid f)"
proof -
  obtain f where f: "at_open = Some f" "f_kind f = Regular" "f_links f = 1"
    using read_report_file [OF assms] by blast
  obtain body where b: "f_body f = Some body"
    using read_report_body assms f(1) by blast
  have "length body \<le> 32768" "who = owner (f_uid f)"
    using read_report_size [OF assms [unfolded f(1)] b] by (simp_all add: max_report_bytes_def)
  with f b show ?thesis by blast
qed

lemma sorted_subseq: "subseq xs (ys :: 'b :: linorder list) \<Longrightarrow> sorted ys \<Longrightarrow> sorted xs"
  by (induction xs ys rule: list_emb.induct) (auto dest: subseq_set_in)

section \<open>What may be sent\<close>

definition sorts_by_time :: "((string \<times> go_time) list \<Rightarrow> (string \<times> go_time) list) \<Rightarrow> bool" where
  "sorts_by_time arrange =
     (\<forall>xs. distinct xs \<longrightarrow> set (arrange xs) = set xs \<and> distinct (arrange xs) \<and> sorted (map snd (arrange xs)))"

definition modified :: "(string \<Rightarrow> drop_file option) \<Rightarrow> string \<Rightarrow> go_time" where
  "modified stat n = f_modified (the (stat n))"

definition candidates :: "(string \<Rightarrow> drop_file option) \<Rightarrow> go_time \<Rightarrow> string list \<Rightarrow> string list" where
  "candidates stat now ns = filter (\<lambda>n. sort_out now n (stat n) = Candidate) ns"

definition by_age :: "((string \<times> go_time) list \<Rightarrow> (string \<times> go_time) list) \<Rightarrow> (string \<Rightarrow> drop_file option)
    \<Rightarrow> go_time \<Rightarrow> string list \<Rightarrow> string list" where
  "by_age arrange stat now ns = map fst (arrange (map (\<lambda>n. (n, modified stat n)) (candidates stat now ns)))"

lemma by_age_spec:
  assumes "sorts_by_time arrange" "distinct ns"
  shows "set (by_age arrange stat now ns) = set (candidates stat now ns)"
    "distinct (by_age arrange stat now ns)"
    "sorted (map (modified stat) (by_age arrange stat now ns))"
proof -
  let ?xs = "map (\<lambda>n. (n, modified stat n)) (candidates stat now ns)"
  have "distinct ?xs" using assms(2) by (simp add: distinct_map inj_on_def candidates_def)
  with assms(1) have a: "set (arrange ?xs) = set ?xs" "distinct (arrange ?xs)" "sorted (map snd (arrange ?xs))"
    by (simp_all add: sorts_by_time_def)
  have times: "\<forall>p\<in>set (arrange ?xs). snd p = modified stat (fst p)"
    unfolding a(1) by auto
  show "set (by_age arrange stat now ns) = set (candidates stat now ns)"
    by (simp add: by_age_def a(1) image_image)
  have "inj_on fst (set (arrange ?xs))"
  proof (rule inj_onI)
    fix p q assume "p \<in> set (arrange ?xs)" "q \<in> set (arrange ?xs)" "fst p = fst q"
    with times have "snd p = snd q" by metis
    with \<open>fst p = fst q\<close> show "p = q" by (simp add: prod_eq_iff)
  qed
  then show "distinct (by_age arrange stat now ns)"
    using a(2) by (simp add: by_age_def distinct_map)
  have "map (modified stat) (by_age arrange stat now ns) = map snd (arrange ?xs)"
    using times by (simp add: by_age_def)
  then show "sorted (map (modified stat) (by_age arrange stat now ns))"
    using a(3) by simp
qed

lemma take_reports_unfold:
  assumes "take_reports lax owner arrange dir (Inr ns) stat at_open m now = (Inr ws, rm)"
  shows "(ws = [] \<and> rm = []) \<or>
    (\<exists>rm1. read_candidates lax owner at_open m (last_n max_waiting (by_age arrange stat now ns)) [] = (ws, rm1)
      \<and> rm = filter (\<lambda>n. sort_out now n (stat n) = Removed) ns
          @ take (length (by_age arrange stat now ns) - max_waiting) (by_age arrange stat now ns) @ rm1)"
  using assms
  by (auto simp: take_reports_def Let_def by_age_def candidates_def modified_def split: if_splits prod.splits)

text \<open>
  C17: Whatever files come and go in the folder while it is read: a report that is taken was, when it was
  opened, a regular file with one name and at most 32 KiB; its ID is the file's name, its user is the
  file's owner and not what the file says; it is within the bounds of the contract; and no more are
  taken than asked for.
\<close>

theorem taken_reports_are_vetted:
  assumes "sorts_by_time arrange" "distinct ns"
    "take_reports lax owner arrange dir (Inr ns) stat at_open m now = (Inr ws, rm)" "w \<in> set ws"
  shows "(\<exists>f body. at_open (w_name w) = Some f \<and> f_kind f = Regular \<and> f_links f = 1
        \<and> f_body f = Some body \<and> length body \<le> 32768
        \<and> rep_user (w_report w) = clip (owner (f_uid f)) 64)
    \<and> w_name w = rep_id (w_report w) @ ''.json'' \<and> id_shape (rep_id (w_report w))
    \<and> in_bounds (w_report w) \<and> int (length ws) \<le> max m 0"
proof -
  obtain rm1 where rd: "read_candidates lax owner at_open m (last_n max_waiting (by_age arrange stat now ns)) [] = (ws, rm1)"
    using take_reports_unfold [OF assms(3)] assms(4) by auto
  note spec = read_candidates_spec [OF rd]
  have from_w: "from_file lax owner at_open (w_name w) = Some w" and len: "int (length ws) \<le> max m 0"
    using spec assms(4) by auto
  have "w_name w \<in> set (last_n max_waiting (by_age arrange stat now ns))"
    using spec assms(4) by (fastforce elim: subseq_set_in)
  then have "w_name w \<in> set (candidates stat now ns)"
    using by_age_spec(1) [OF assms(1,2)] set_last_n_subset by fastforce
  then have shape: "has_suffix (w_name w) ''.json''" "id_shape (trim_suffix (w_name w) ''.json'')"
    by (auto simp: candidates_def sort_out_def split: option.splits if_splits)
  obtain r who where r: "read_report lax owner (at_open (w_name w)) = Some (r, who)"
      "w_report w = clipped (r\<lparr>rep_id := trim_suffix (w_name w) ''.json'', rep_user := who\<rparr>)"
    using from_w by (cases w) (auto simp: from_file_def split: option.splits prod.splits if_splits)
  then show ?thesis
    using shape len clipped_in_bounds report_is_plain [OF r(1)] by (auto simp: has_suffix_iff)
qed

lemma sort_key_sorts: "sorts_by_time (sort_key snd)"
  by (simp add: sorts_by_time_def)

text \<open>A report as the wrapper writes it, and one whose job is a blank.\<close>

definition sample_name :: string where
  "sample_name = ''0123456789abcdef0123456789abcdef.json''"

definition sample_body :: string where
  "sample_body = ''{\"id\":\"x\",\"job\":\"db\",\"started_at\":\"2024-02-29T12:00:00Z\",\"ended_at\":\"2024-02-29T12:00:01Z\",\"user\":\"root\"}''"

definition blank_body :: string where
  "blank_body = ''{\"job\":\" \",\"started_at\":\"2024-02-29T12:00:00Z\",\"ended_at\":\"2024-02-29T12:00:01Z\"}''"

definition sample_time :: go_time where
  "sample_time = 1709208001 * second_ns"

definition sample_take :: "string \<Rightarrow> (take_error + waiting list) \<times> string list" where
  "sample_take body = take_reports (\<lambda>_. None) (\<lambda>_. ''deploy'') (sort_key snd) ''/var/spool/infranest-agent''
     (Inr [sample_name]) (\<lambda>_. Some (new_file 1000 sample_time body))
     (\<lambda>_. Some (new_file 1000 sample_time body)) 50 sample_time"

lemma read_small_report:
  assumes "length body \<le> 32768"
  shows "read_report lax owner (Some (new_file uid t body)) =
    (case unmarshal (read_struct (report_fields lax)) body blank_report of
        (r, Fine) \<Rightarrow> Some (r, owner uid) | _ \<Rightarrow> None)"
  using assms by (simp add: read_report_def new_file_def max_report_bytes_def split: prod.split verdict.split)

lemma sample_take_unfold:
  assumes "length body \<le> 32768"
    "unmarshal (read_struct (report_fields (\<lambda>_. None))) body blank_report = (r, Fine)" "sendable r"
  shows "sample_take body = (Inr [\<lparr>w_report = clipped
      (r\<lparr>rep_id := ''0123456789abcdef0123456789abcdef'', rep_user := ''deploy''\<rparr>), w_name = sample_name\<rparr>], [])"
proof -
  have shape: "has_suffix sample_name ''.json''" "id_shape (trim_suffix sample_name ''.json'')"
    "\<not> has_prefix sample_name ''.''" "trim_suffix sample_name ''.json'' = ''0123456789abcdef0123456789abcdef''"
    by code_simp+
  have sub: "time_sub sample_time sample_time = 0" "0 \<le> max_age"
    by (simp_all add: time_sub_def max_duration_def max_age_def second_ns_def)
  have "sort_out sample_time sample_name (Some (new_file 1000 sample_time body)) = Candidate"
    using assms(1) shape sub by (simp add: sort_out_def new_file_def max_report_bytes_def)
  moreover have "from_file (\<lambda>_. None) (\<lambda>_. ''deploy'') (\<lambda>_. Some (new_file 1000 sample_time body)) sample_name
    = Some \<lparr>w_report = clipped (r\<lparr>rep_id := ''0123456789abcdef0123456789abcdef'', rep_user := ''deploy''\<rparr>),
        w_name = sample_name\<rparr>"
    by (simp add: from_file_def read_small_report [OF assms(1)] assms(2,3) shape(4))
  ultimately show ?thesis
    by (simp add: sample_take_def take_reports_def last_n_def max_waiting_def read_candidates_from_file)
qed

lemma sample_read:
  "unmarshal (read_struct (report_fields (\<lambda>_. None))) sample_body blank_report
    = (\<lparr>rep_id = ''x'', rep_job = ''db'', rep_started = 1709208000000000000, rep_ended = 1709208001000000000,
        rep_duration = 0, rep_exit = 0, rep_signal = [], rep_error = [], rep_output = [], rep_withheld = False,
        rep_user = ''root''\<rparr>, Fine)"
  "length sample_body \<le> 32768"
  by code_simp (simp add: sample_body_def)

lemma taken_reports_are_vetted_witness:
  "\<exists>w. sample_take sample_body = (Inr [w], []) \<and> id_shape (rep_id (w_report w))
    \<and> rep_user (w_report w) = ''deploy'' \<and> in_bounds (w_report w)"
proof -
  obtain w where w: "sample_take sample_body = (Inr [w], [])"
    using sample_take_unfold [OF sample_read(2,1)] by (simp add: sendable_def zero_time_def)
  have "(\<exists>f body. Some (new_file 1000 sample_time sample_body) = Some f \<and> f_kind f = Regular \<and> f_links f = 1
        \<and> f_body f = Some body \<and> length body \<le> 32768
        \<and> rep_user (w_report w) = clip ''deploy'' 64)
    \<and> w_name w = rep_id (w_report w) @ ''.json'' \<and> id_shape (rep_id (w_report w))
    \<and> in_bounds (w_report w) \<and> int (length [w]) \<le> max 50 0"
    by (rule taken_reports_are_vetted [OF sort_key_sorts _ w [unfolded sample_take_def]]) simp_all
  with w show ?thesis by (auto simp: clip_def)
qed

text \<open>
  What \<open>Take\<close> deletes can never be sent: an entry that is not a report file or is too old, a file
  that holds no complete report, or one with 500 newer ones waiting. What it returns is oldest first.
\<close>

theorem take_deletes_only_what_cannot_be_sent:
  assumes "sorts_by_time arrange" "distinct ns"
    "take_reports lax owner arrange dir (Inr ns) stat at_open m now = (Inr ws, rm)"
  shows "(\<forall>n\<in>set rm. sort_out now n (stat n) = Removed
      \<or> from_file lax owner at_open n = None
      \<or> (\<exists>newer \<subseteq> set (candidates stat now ns). card newer = 500 \<and> n \<notin> newer
          \<and> (\<forall>k\<in>newer. modified stat n \<le> modified stat k)))
    \<and> sorted (map (\<lambda>w. modified stat (w_name w)) ws)"
proof -
  let ?found = "by_age arrange stat now ns"
  note age = by_age_spec [OF assms(1,2), of stat now]
  have late: "\<exists>newer \<subseteq> set (candidates stat now ns). card newer = 500 \<and> n \<notin> newer
      \<and> (\<forall>k\<in>newer. modified stat n \<le> modified stat k)"
    if n: "n \<in> set (take (length ?found - max_waiting) ?found)" for n
  proof (intro exI conjI)
    have split: "?found = take (length ?found - max_waiting) ?found @ last_n max_waiting ?found"
      by (simp add: last_n_def)
    show "set (last_n max_waiting ?found) \<subseteq> set (candidates stat now ns)"
      using set_last_n_subset age(1) by metis
    have "max_waiting \<le> length ?found" using n by (cases "max_waiting \<le> length ?found") simp_all
    moreover have "distinct (last_n max_waiting ?found)"
      using age(2) by (simp add: last_n_def)
    ultimately show "card (set (last_n max_waiting ?found)) = 500"
      by (simp add: distinct_card max_waiting_def)
    show "n \<notin> set (last_n max_waiting ?found)"
      using age(2) n by (subst (asm) split) auto
    show "\<forall>k\<in>set (last_n max_waiting ?found). modified stat n \<le> modified stat k"
      using age(3) n by (subst (asm) split) (auto simp: sorted_append)
  qed
  show ?thesis
  proof (cases "ws = [] \<and> rm = []")
    case False
    then obtain rm1 where rd: "read_candidates lax owner at_open m (last_n max_waiting ?found) [] = (ws, rm1)"
        and rm: "rm = filter (\<lambda>n. sort_out now n (stat n) = Removed) ns
          @ take (length ?found - max_waiting) ?found @ rm1"
      using take_reports_unfold [OF assms(3)] by auto
    note spec = read_candidates_spec [OF rd]
    have "subseq (map w_name ws) ?found"
      using spec suffix_imp_subseq [OF suffix_drop] unfolding last_n_def
      by (auto intro: subseq_order.order_trans)
    then have "subseq (map (modified stat) (map w_name ws)) (map (modified stat) ?found)"
      by (rule subseq_map)
    then have "sorted (map (\<lambda>w. modified stat (w_name w)) ws)"
      using age(3) by (simp add: comp_def sorted_subseq)
    then show ?thesis using late spec rm by auto
  qed auto
qed

lemma take_reports_returns:
  "\<exists>ws rm. take_reports lax owner arrange dir (Inr ns) stat at_open m now = (Inr ws, rm)"
  by (simp add: take_reports_def Let_def case_prod_unfold)

lemma take_deletes_only_what_cannot_be_sent_witness:
  "\<exists>ws rm. take_reports (\<lambda>_. None) (\<lambda>_. ''deploy'') (sort_key snd) ''/d'' (Inr [sample_name])
      (\<lambda>_. Some (new_file 1000 sample_time [])) (\<lambda>_. None) 50 sample_time = (Inr ws, rm)
    \<and> (\<forall>n\<in>set rm. sort_out sample_time n (Some (new_file 1000 sample_time [])) = Removed
      \<or> from_file (\<lambda>_. None) (\<lambda>_. ''deploy'') (\<lambda>_. None) n = None
      \<or> (\<exists>newer \<subseteq> set (candidates (\<lambda>_. Some (new_file 1000 sample_time [])) sample_time [sample_name]).
          card newer = 500 \<and> n \<notin> newer
          \<and> (\<forall>k\<in>newer. modified (\<lambda>_. Some (new_file 1000 sample_time [])) n
               \<le> modified (\<lambda>_. Some (new_file 1000 sample_time [])) k)))"
proof -
  obtain ws rm where t: "take_reports (\<lambda>_. None) (\<lambda>_. ''deploy'') (sort_key snd) ''/d'' (Inr [sample_name])
      (\<lambda>_. Some (new_file 1000 sample_time [])) (\<lambda>_. None) 50 sample_time = (Inr ws, rm)"
    using take_reports_returns by blast
  show ?thesis
    using take_deletes_only_what_cannot_be_sent [OF sort_key_sorts _ t] t by auto
qed

text \<open>
  A report whose job is blank passes the check for a missing job, which looks at the name before it
  is trimmed, and is taken with an empty job.
\<close>

theorem blank_job_is_taken_empty:
  "\<exists>w. sample_take blank_body = (Inr [w], []) \<and> rep_job (w_report w) = []"
proof -
  have r: "unmarshal (read_struct (report_fields (\<lambda>_. None))) blank_body blank_report
    = (blank_report\<lparr>rep_job := '' '', rep_started := 1709208000000000000, rep_ended := 1709208001000000000\<rparr>, Fine)"
    by code_simp
  have l: "length blank_body \<le> 32768"
    by (simp add: blank_body_def)
  have "clip (trim_space '' '') 128 = []"
    by code_simp
  then show ?thesis
    using sample_take_unfold [OF l r] by (simp add: sendable_def zero_time_def)
qed

section \<open>From the wrapper to the agent\<close>

lemma read_candidates_complete:
  assumes "read_candidates lax owner at_open m ns out = (ws, rm)"
    "int (length out + length ns) \<le> m" "w \<in> set out \<or> (n \<in> set ns \<and> from_file lax owner at_open n = Some w)"
  shows "w \<in> set ws"
  using assms
proof (induction ns arbitrary: out ws rm)
  case (Cons a ns)
  have step: "\<not> m \<le> int (length out)" using Cons.prems(2) by simp
  show ?case
  proof (cases "from_file lax owner at_open a")
    case None
    then obtain rm1 where "read_candidates lax owner at_open m ns out = (ws, rm1)"
      using Cons.prems step by (auto simp: read_candidates_from_file split: prod.splits)
    with Cons.IH [OF this] Cons.prems None show ?thesis by auto
  next
    case (Some w1)
    then have "read_candidates lax owner at_open m ns (out @ [w1]) = (ws, rm)"
      using Cons.prems step by (simp add: read_candidates_from_file)
    with Cons.IH [OF this] Cons.prems Some show ?thesis by auto
  qed
qed simp

lemma write_report_file:
  assumes "write_report marshal fresh uid t fl dir r d = (None, d2)"
  shows "dir \<noteq> [] \<and> (\<exists>body. marshal (with_id fresh (clipped r)) = Some body
    \<and> d2 = filter (\<lambda>(n, f). n \<noteq> rep_id (with_id fresh (clipped r)) @ ''.json'') d
        @ [(rep_id (with_id fresh (clipped r)) @ ''.json'', new_file uid t body)])"
  using assms by (auto simp: write_report_def Let_def split: if_splits option.splits)


text \<open>A folder with one temporary file in it, and a report whose JSON is the one above.\<close>

definition sample_report :: report where
  "sample_report = blank_report\<lparr>rep_id := ''x'', rep_job := '' db'', rep_started := 1709208000000000000,
     rep_ended := 1709208001000000000, rep_user := ''root''\<rparr>"

definition sample_marshal :: "report \<Rightarrow> string option" where
  "sample_marshal r = Some ''{\"id\":\"0123456789abcdef0123456789abcdef\",\"job\":\"db\",\"started_at\":\"2024-02-29T12:00:00Z\",\"ended_at\":\"2024-02-29T12:00:01Z\",\"user\":\"root\"}''"


end
