(* ===== verification/Go_Json_Facts.thy ===== *)
theory Go_Json_Facts
  imports Go_Json
begin

text \<open>
  The printer and the parser agree: a well-formed document printed is read back as itself; and a
  string quoted and unquoted is the string.
\<close>

section \<open>Printing and parsing\<close>

text \<open>Strings as the scanner would have left them, numbers of the grammar.\<close>

definition raw_string :: "string \<Rightarrow> bool" where
  "raw_string s = (string_body (s @ [CHR 0x22]) = Some (s, []))"

fun wf_json :: "json \<Rightarrow> bool" where
  "wf_json (JNum s) = (s \<noteq> [] \<and> list_all number_byte s \<and> number_ok s)"
| "wf_json (JStr s) = raw_string s"
| "wf_json (JArr vs) = list_all wf_json vs"
| "wf_json (JObj kvs) = list_all (\<lambda>(k, v). raw_string k \<and> wf_json v) kvs"
| "wf_json v = True"

fun nesting :: "json \<Rightarrow> nat" where
  "nesting (JArr vs) = Suc (foldr (\<lambda>v n. max (nesting v) n) vs 0)"
| "nesting (JObj kvs) = Suc (foldr (\<lambda>(k, v) n. max (nesting v) n) kvs 0)"
| "nesting v = 0"

fun tokens_of :: "json \<Rightarrow> token list"
  and tokens_of_list :: "json list \<Rightarrow> token list"
  and tokens_of_members :: "(string \<times> json) list \<Rightarrow> token list" where
  "tokens_of (JArr vs) = Open_Arr # tokens_of_list vs @ [Close_Arr]"
| "tokens_of (JObj kvs) = Open_Obj # tokens_of_members kvs @ [Close_Obj]"
| "tokens_of v = [Scalar v]"
| "tokens_of_list [] = []"
| "tokens_of_list (v # vs) = tokens_of v @ (if vs = [] then [] else Comma # tokens_of_list vs)"
| "tokens_of_members [] = []"
| "tokens_of_members ((k, v) # kvs) = Scalar (JStr k) # Colon # tokens_of v
     @ (if kvs = [] then [] else Comma # tokens_of_members kvs)"

lemma string_piece_append: "string_piece s \<noteq> 0 \<Longrightarrow> string_piece (s @ u) = string_piece s"
  by (cases s) (auto split: if_splits simp: hd_append tl_append nth_append split: list.splits)

lemma string_piece_le: "string_piece s \<le> length s"
  by (cases s) (auto simp: Suc_le_eq)

lemma string_body_append:
  "string_body s = Some (b, t) \<Longrightarrow> string_body (s @ u) = Some (b, t @ u)"
proof (induction s arbitrary: b rule: string_body.induct)
  case (1 s)
  from 1(2) show ?case
  proof (cases rule: string_body_cases)
    case close
    then show ?thesis by (simp add: string_body.simps)
  next
    case (piece b1)
    then have "string_body (drop (string_piece s) s @ u) = Some (b1, t @ u)"
      by (intro 1(1))
    with piece string_piece_append [of s u] string_piece_le [of s] show ?thesis
      by (subst string_body.simps) simp
  qed
qed

lemma raw_string_body: "raw_string s \<Longrightarrow> string_body (s @ CHR 0x22 # r) = Some (s, r)"
  using string_body_append [of "s @ [CHR 0x22]" s "[]" r] by (simp add: raw_string_def)

lemma takeWhile_append_stop:
  "list_all p xs \<Longrightarrow> rest = [] \<or> \<not> p (hd rest) \<Longrightarrow> takeWhile p (xs @ rest) = xs \<and> dropWhile p (xs @ rest) = rest"
  by (induction xs) (cases rest; auto)+

lemma number_first:
  assumes "number_byte c"
  shows "\<not> json_space c" "map_of punctuation c = None" "c \<noteq> CHR 0x22"
    "c \<noteq> CHR ''t''" "c \<noteq> CHR ''f''" "c \<noteq> CHR ''n''"
  using assms
  by (auto simp: number_byte_def json_space_def punctuation_def is_digit_def)

lemma lex_punctuation:
  "map_of punctuation c = Some t \<Longrightarrow> lex (c # r) = map_option (Cons t) (lex r)"
  by (subst lex.simps) (auto simp: punctuation_def json_space_def split: if_splits)

lemma lex_marks [simp]:
  "lex (CHR ''{'' # r) = map_option (Cons Open_Obj) (lex r)"
  "lex (CHR ''}'' # r) = map_option (Cons Close_Obj) (lex r)"
  "lex (CHR ''['' # r) = map_option (Cons Open_Arr) (lex r)"
  "lex (CHR '']'' # r) = map_option (Cons Close_Arr) (lex r)"
  "lex (CHR '':'' # r) = map_option (Cons Colon) (lex r)"
  "lex (CHR '','' # r) = map_option (Cons Comma) (lex r)"
  by (simp_all add: lex_punctuation punctuation_def)

lemma lex_string:
  "raw_string s \<Longrightarrow> lex (CHR 0x22 # s @ CHR 0x22 # r) = map_option (Cons (Scalar (JStr s))) (lex r)"
  by (subst lex.simps) (simp add: raw_string_body json_space_def punctuation_def)

lemma lex_number:
  assumes "s \<noteq> []" "list_all number_byte s" "number_ok s" "rest = [] \<or> \<not> number_byte (hd rest)"
  shows "lex (s @ rest) = map_option (Cons (Scalar (JNum s))) (lex rest)"
proof -
  obtain c r where s: "s = c # r" using assms(1) by (cases s) simp_all
  then have c: "number_byte c" and r: "list_all number_byte r" using assms(2) by simp_all
  show ?thesis
    using takeWhile_append_stop [OF r assms(4)] number_first [OF c] assms(3)
    unfolding s append_Cons by (subst lex.simps) (simp add: c)
qed

definition ends_scalar :: "string \<Rightarrow> bool" where
  "ends_scalar r = (r = [] \<or> \<not> number_byte (hd r))"

lemma lex_words:
  "lex (CHR ''n'' # CHR ''u'' # CHR ''l'' # CHR ''l'' # r) = map_option (Cons (Scalar JNull)) (lex r)"
  "lex (CHR ''t'' # CHR ''r'' # CHR ''u'' # CHR ''e'' # r) = map_option (Cons (Scalar (JBool True))) (lex r)"
  "lex (CHR ''f'' # CHR ''a'' # CHR ''l'' # CHR ''s'' # CHR ''e'' # r) = map_option (Cons (Scalar (JBool False))) (lex r)"
  by (simp_all add: lex.simps(2) json_space_def punctuation_def)

lemma lex_print:
  "wf_json v \<Longrightarrow> ends_scalar rest \<Longrightarrow> lex rest = Some ts \<Longrightarrow>
     lex (print_json v @ rest) = Some (tokens_of v @ ts)"
  "list_all wf_json vs \<Longrightarrow> lex rest = Some ts \<Longrightarrow>
     lex (join_with '','' (map print_json vs) @ CHR '']'' # rest) = Some (tokens_of_list vs @ Close_Arr # ts)"
  "list_all (\<lambda>(k, v). raw_string k \<and> wf_json v) kvs \<Longrightarrow> lex rest = Some ts \<Longrightarrow>
     lex (join_with '','' (map (\<lambda>(k, v). CHR 0x22 # k @ [CHR 0x22, CHR '':''] @ print_json v) kvs) @ CHR ''}'' # rest)
       = Some (tokens_of_members kvs @ Close_Obj # ts)"
proof (induction v and vs and kvs arbitrary: rest ts and rest ts and rest ts
    rule: tokens_of_tokens_of_list_tokens_of_members.induct)
  case (5 v vs)
  have "ends_scalar (CHR '']'' # rest)" "ends_scalar (CHR '','' # r)" for r
    by (simp_all add: ends_scalar_def number_byte_def is_digit_def)
  with 5 show ?case by (cases vs) simp_all
next
  case (7 k v kvs)
  have "ends_scalar (CHR ''}'' # rest)" "ends_scalar (CHR '','' # r)" for r
    by (simp_all add: ends_scalar_def number_byte_def is_digit_def)
  with 7 show ?case by (cases kvs) (auto simp: lex_string)
qed (auto simp: lex_number lex_string lex_words ends_scalar_def)

text \<open>The parser on the tokens of a document, anywhere a value may stand.\<close>

lemma nesting_list: "v \<in> set vs \<Longrightarrow> nesting v \<le> foldr (\<lambda>v n. max (nesting v) n) vs 0"
  by (induction vs) auto

lemma nesting_members: "(k, v) \<in> set kvs \<Longrightarrow> nesting v \<le> foldr (\<lambda>(k, v) n. max (nesting v) n) kvs 0"
  by (induction kvs) auto

lemma parse_tokens_append:
  "parse_tokens (ts @ us) p = (case parse_tokens ts p of None \<Rightarrow> None | Some q \<Rightarrow> parse_tokens us q)"
  by (induction ts arbitrary: p) (auto split: option.splits)

lemma parse_tokens_of:
  "int (length fs + nesting v) \<le> max_nesting \<Longrightarrow> w = Want_Value \<or> w = Want_First \<Longrightarrow>
     parse_tokens (tokens_of v) (fs, w) = Some (complete fs v)"
  "\<forall>v\<in>set vs. int (length fs + Suc (nesting v)) \<le> max_nesting \<Longrightarrow>
     (w = Want_First \<or> vs \<noteq> [] \<and> w = Want_Value) \<Longrightarrow>
     parse_tokens (tokens_of_list vs @ [Close_Arr]) (In_Arr us # fs, w) = Some (complete fs (JArr (rev us @ vs)))"
  "\<forall>(k, v)\<in>set kvs. int (length fs + Suc (nesting v)) \<le> max_nesting \<Longrightarrow>
     (w = Want_First_Key \<or> kvs \<noteq> [] \<and> w = Want_Key) \<Longrightarrow>
     parse_tokens (tokens_of_members kvs @ [Close_Obj]) (In_Obj ms k0 # fs, w) = Some (complete fs (JObj (rev ms @ kvs)))"
proof (induction v and vs and kvs arbitrary: fs w and fs w us and fs w ms k0
    rule: tokens_of_tokens_of_list_tokens_of_members.induct)
  case (1 vs)
  have "\<forall>v\<in>set vs. int (length fs + Suc (nesting v)) \<le> max_nesting"
    using 1(2) nesting_list by fastforce
  then show ?case using 1 by (fastforce simp: Let_def)
next
  case (2 kvs)
  have "\<forall>(k, v)\<in>set kvs. int (length fs + Suc (nesting v)) \<le> max_nesting"
    using 2(2) nesting_members by fastforce
  then show ?case using 2 by fastforce
next
  case (5 v vs)
  then have v: "parse_tokens (tokens_of v) (In_Arr us # fs, w) = Some (In_Arr (v # us) # fs, Want_More)"
    by auto
  show ?case
    using 5 v by (cases "vs = []") (auto simp: parse_tokens_append)
next
  case (7 k v kvs)
  then have v: "parse_tokens (tokens_of v) (In_Obj ms k # fs, Want_Value) = Some (In_Obj ((k, v) # ms) k # fs, Want_More)"
    by auto
  show ?case
    using 7 v by (cases "kvs = []") (auto simp: parse_tokens_append)
qed (auto)

theorem parse_print:
  assumes "wf_json v" "int (nesting v) \<le> max_nesting"
  shows "parse_json (print_json v) = Some v"
  using lex_print(1) [OF assms(1), of "[]" "[]"] parse_tokens_of(1) [of "[]" v Want_Value] assms(2)
  by (simp add: parse_json_def ends_scalar_def)

section \<open>What the parser returns is well-formed\<close>

lemma string_piece_take: "string_piece s \<noteq> 0 \<Longrightarrow> string_piece (take (string_piece s) s @ u) = string_piece s"
  by (cases s) (auto simp: hd_append hd_take tl_take take_Suc split: if_splits)

lemma string_body_raw: "string_body s = Some (b, t) \<Longrightarrow> raw_string b"
proof (induction s arbitrary: b rule: string_body.induct)
  case (1 s)
  from 1(2) show ?case
  proof (cases rule: string_body_cases)
    case close
    then show ?thesis by (simp add: raw_string_def string_body.simps)
  next
    case (piece b1)
    then have "raw_string b1" by (intro 1(1))
    moreover have "hd b = hd s" "b \<noteq> []"
      using piece string_piece_le [of s] by (cases s; auto simp: take_Cons' split: if_splits)+
    ultimately show ?thesis
      using piece string_piece_take [of s "b1 @ [CHR 0x22]"] string_piece_le [of s]
      unfolding raw_string_def by (subst string_body.simps) auto
  qed
qed

fun wf_token :: "token \<Rightarrow> bool" where
  "wf_token (Scalar v) = (wf_json v \<and> nesting v = 0)"
| "wf_token t = True"

lemma lex_wf: "lex s = Some ts \<Longrightarrow> list_all wf_token ts"
proof (induction s arbitrary: ts rule: lex.induct)
  case (2 c r)
  show ?case
  proof (cases "map_of punctuation c")
    case (Some t)
    then have "wf_token t" by (auto simp: punctuation_def split: if_splits)
    with 2 Some show ?thesis by (auto simp: lex.simps(2) [of c r] split: if_splits)
  next
    case None
    have num: "wf_json (JNum (c # takeWhile number_byte r))" if "number_byte c" "number_ok (c # takeWhile number_byte r)"
      using that by (simp add: list_all_iff) (meson set_takeWhileD)
    from 2 None num show ?thesis
      by (auto simp: lex.simps(2) [of c r] string_body_raw split: if_splits option.splits prod.splits)
  qed
qed simp

fun wf_frame :: "frame \<Rightarrow> bool" where
  "wf_frame (In_Arr vs) = list_all wf_json vs"
| "wf_frame (In_Obj kvs k) = (list_all (\<lambda>(k, v). raw_string k \<and> wf_json v) kvs \<and> raw_string k)"

text \<open>The stack: every frame is well-formed, and what was read in it leaves room for the frames below.\<close>

fun fits :: "nat \<Rightarrow> frame \<Rightarrow> bool" where
  "fits n (In_Arr vs) = (\<forall>v\<in>set vs. int (n + nesting v) \<le> max_nesting)"
| "fits n (In_Obj kvs k) = (\<forall>(k, v)\<in>set kvs. int (n + nesting v) \<le> max_nesting)"

fun wf_stack :: "frame list \<Rightarrow> bool" where
  "wf_stack [] = True"
| "wf_stack (f # fs) = (wf_frame f \<and> fits (Suc (length fs)) f \<and> int (Suc (length fs)) \<le> max_nesting \<and> wf_stack fs)"

fun wf_parser :: "parser \<Rightarrow> bool" where
  "wf_parser (fs, Done v) = (wf_stack fs \<and> wf_json v \<and> int (nesting v) \<le> max_nesting)"
| "wf_parser (fs, w) = wf_stack fs"

lemma raw_string_Nil [simp]: "raw_string []"
  by (simp add: raw_string_def string_body.simps)

lemma complete_wf:
  "wf_stack fs \<Longrightarrow> wf_json v \<Longrightarrow> int (length fs + nesting v) \<le> max_nesting \<Longrightarrow> wf_parser (complete fs v)"
  by (cases "(fs, v)" rule: complete.cases) auto

lemma nesting_list_bound:
  "\<forall>v\<in>set vs. int (Suc n + nesting v) \<le> max_nesting \<Longrightarrow> int (Suc n) \<le> max_nesting \<Longrightarrow>
     int (n + nesting (JArr vs)) \<le> max_nesting"
  by (induction vs) auto

lemma nesting_members_bound:
  "\<forall>(k, v)\<in>set kvs. int (Suc n + nesting v) \<le> max_nesting \<Longrightarrow> int (Suc n) \<le> max_nesting \<Longrightarrow>
     int (n + nesting (JObj kvs)) \<le> max_nesting"
  by (induction kvs) auto

lemma wf_parser_stack: "wf_parser (fs, w) \<Longrightarrow> wf_stack fs"
  by (cases w) auto

lemma wf_parser_want: "wf_stack fs \<Longrightarrow> (\<And>v. w \<noteq> Done v) \<Longrightarrow> wf_parser (fs, w)"
  by (cases w) auto

lemma stack_room: "wf_stack fs \<Longrightarrow> int (length fs) \<le> max_nesting"
  by (cases fs) (auto simp: max_nesting_def)

lemma fits_reverse [simp]: "(\<forall>v\<in>set (rev vs). P v) = (\<forall>v\<in>set vs. P v)"
  by simp

lemma parse_step_wf:
  assumes "parse_step t (fs, w) = Some q" "wf_token t" "wf_parser (fs, w)"
  shows "wf_parser q"
proof -
  have st: "wf_stack fs" using assms(3) by (rule wf_parser_stack)
  note room = stack_room [OF st]
  show ?thesis
  proof (cases t)
    case Open_Obj
    with assms(1) st show ?thesis by (auto split: if_splits)
  next
    case Open_Arr
    with assms(1) st show ?thesis by (auto split: if_splits)
  next
    case Close_Obj
    then obtain kvs k gs where fs: "fs = In_Obj kvs k # gs" "q = complete gs (JObj (rev kvs))"
      using assms(1) by (auto split: list.splits frame.splits if_splits)
    with st have "int (length gs + nesting (JObj (rev kvs))) \<le> max_nesting"
      by (intro nesting_members_bound) auto
    with fs st show ?thesis by (auto intro!: complete_wf simp: list_all_rev)
  next
    case Close_Arr
    then obtain vs gs where fs: "fs = In_Arr vs # gs" "q = complete gs (JArr (rev vs))"
      using assms(1) by (auto split: list.splits frame.splits if_splits)
    with st have "int (length gs + nesting (JArr (rev vs))) \<le> max_nesting"
      by (intro nesting_list_bound) auto
    with fs st show ?thesis by (auto intro!: complete_wf simp: list_all_rev)
  next
    case Colon
    with assms(1) st show ?thesis by (auto split: if_splits)
  next
    case Comma
    with assms(1) st show ?thesis by (auto split: if_splits list.splits frame.splits)
  next
    case (Scalar v)
    with assms st room show ?thesis
      by (auto split: if_splits json.splits list.splits frame.splits intro!: complete_wf)
  qed
qed

lemma parse_tokens_wf:
  "parse_tokens ts p = Some q \<Longrightarrow> list_all wf_token ts \<Longrightarrow> wf_parser p \<Longrightarrow> wf_parser q"
proof (induction ts arbitrary: p)
  case (Cons t ts)
  then show ?case
    using parse_step_wf [of t "fst p" "snd p"] by (auto split: option.splits)
qed simp

theorem parse_json_wf:
  assumes "parse_json s = Some v"
  shows "wf_json v \<and> int (nesting v) \<le> max_nesting"
proof -
  obtain ts where ts: "lex s = Some ts"
    using assms by (cases "lex s") (simp_all add: parse_json_def)
  obtain fs w where q: "parse_tokens ts ([], Want_Value) = Some (fs, w)"
    using assms ts by (cases "parse_tokens ts ([], Want_Value)") (auto simp: parse_json_def)
  then have "fs = []" "w = Done v"
    using assms ts by (cases fs; cases w; simp add: parse_json_def)+
  with parse_tokens_wf [OF q lex_wf [OF ts]] show ?thesis by simp
qed

section \<open>Escaping for HTML keeps a string a string\<close>

lemma raw_string_step:
  assumes "s \<noteq> []" "hd s \<noteq> CHR 0x22" "string_piece s \<noteq> 0" "raw_string (drop (string_piece s) s)"
  shows "raw_string s"
proof -
  define n where "n = string_piece s"
  have n: "string_piece (s @ [CHR 0x22]) = n" "n \<noteq> 0" "n \<le> length s"
    using assms(3) string_piece_append [of s "[CHR 0x22]"] string_piece_le [of s] by (simp_all add: n_def)
  have "string_body (drop n s @ [CHR 0x22]) = Some (drop n s, [])"
    using assms(4) by (simp add: raw_string_def n_def)
  moreover have "string_body (s @ [CHR 0x22]) = map_option (\<lambda>(b, r). (take n s @ b, r)) (string_body (drop n s @ [CHR 0x22]))"
    using assms(1,2) n by (subst string_body.simps) simp
  ultimately show ?thesis by (simp add: raw_string_def)
qed

text \<open>How a raw string can begin: a plain byte, an escape of two bytes, one of six.\<close>

lemma raw_string_cases:
  assumes "raw_string s" "s \<noteq> []"
  shows "hd s \<noteq> CHR 0x22 \<and> string_piece s \<noteq> 0 \<and> raw_string (drop (string_piece s) s)"
proof -
  from assms(1) have "string_body (s @ [CHR 0x22]) = Some (s, [])" by (simp add: raw_string_def)
  then show ?thesis
  proof (cases rule: string_body_cases)
    case close
    with assms(2) show ?thesis by (cases s) auto
  next
    case (piece b1)
    define n where "n = string_piece (s @ [CHR 0x22])"
    have n: "string_body (drop n (s @ [CHR 0x22])) = Some (b1, [])" "s = take n (s @ [CHR 0x22]) @ b1" "n \<noteq> 0"
      using piece by (simp_all add: n_def)
    have le: "n \<le> length s"
    proof (rule ccontr)
      assume "\<not> n \<le> length s"
      then have "drop n (s @ [CHR 0x22]) = []" by simp
      with n(1) show False by (simp add: string_body.simps)
    qed
    have "string_piece (take n (s @ [CHR 0x22]) @ drop n s) = n"
      unfolding n_def using n(3) n_def by (intro string_piece_take) simp
    then have piece_s: "string_piece s = n" using le by simp
    have "take n s @ b1 = s" using n(2) le by simp
    then have "drop n s = b1"
      using le by (metis append_eq_conv_conj length_take min.absorb2)
    moreover have "raw_string b1" using n(1) by (rule string_body_raw)
    moreover have "hd s \<noteq> CHR 0x22" using piece(2) assms(2) by simp
    ultimately show ?thesis using piece_s n(3) by simp
  qed
qed

lemma raw_string_plain: "raw_string s \<Longrightarrow> \<not> byte_val c < 32 \<Longrightarrow> c \<noteq> CHR 0x22 \<Longrightarrow> c \<noteq> CHR 0x5C \<Longrightarrow> raw_string (c # s)"
  by (rule raw_string_step) simp_all

lemma raw_string_escape2: "raw_string s \<Longrightarrow> simple_escape c \<Longrightarrow> raw_string (CHR 0x5C # c # s)"
  by (rule raw_string_step) simp_all

lemma raw_string_escape6:
  "raw_string s \<Longrightarrow> list_all is_hex [a, b, c, d] \<Longrightarrow> raw_string (CHR 0x5C # CHR ''u'' # a # b # c # d # s)"
  by (rule raw_string_step) (simp_all add: simple_escape_def)

lemma byte_val_byte: "m < 256 \<Longrightarrow> byte_val (byte m) = m"
  by (simp add: byte_def of_char_of)

lemma hex_digit_hex: "n < 16 \<Longrightarrow> is_hex (hex_digit n)"
  by (auto simp: hex_digit_def is_hex_def is_digit_def byte_val_byte)

lemma raw_string_escape_u: "raw_string s \<Longrightarrow> raw_string (escape_u c @ s)"
proof -
  assume s: "raw_string s"
  have zero: "is_hex CHR ''0''" by (simp add: is_hex_def is_digit_def)
  have "byte_val c div 16 < 16" using byte_val_less [of c] by (intro less_mult_imp_div_less) simp
  then have "list_all is_hex [CHR ''0'', CHR ''0'', hex_digit (byte_val c div 16), hex_digit (byte_val c mod 16)]"
    using hex_digit_hex [of "byte_val c mod 16"] zero by (simp add: hex_digit_hex)
  with raw_string_escape6 [OF s this] show ?thesis by (simp add: escape_u_def)
qed

lemma raw_string_separator: "raw_string s \<Longrightarrow> raw_string (escape_separator t @ s)"
  by (simp add: escape_separator_def raw_string_escape6 is_hex_def is_digit_def)

lemma line_separator_take: "line_separator s \<Longrightarrow> \<exists>c r. s = CHR 0xE2 # CHR 0x80 # c # r \<and> (c = CHR 0xA8 \<or> c = CHR 0xA9)"
  by (auto simp: line_separator_def has_prefix_iff)

lemma raw_string_tail: "raw_string (c # s) \<Longrightarrow> c \<noteq> CHR 0x5C \<Longrightarrow> raw_string s \<and> \<not> byte_val c < 32 \<and> c \<noteq> CHR 0x22"
  using raw_string_cases [of "c # s"] by (auto split: if_splits)

lemma raw_string_escape_html: "raw_string s \<Longrightarrow> raw_string (escape_html s)"
proof (induction "length s" arbitrary: s rule: less_induct)
  case less
  show ?case
  proof (cases s)
    case (Cons c r)
    consider (html) "html_byte c" | (sep) "\<not> html_byte c" "line_separator s"
      | (esc) "\<not> html_byte c" "\<not> line_separator s" "c = CHR 0x5C"
      | (plain) "\<not> html_byte c" "\<not> line_separator s" "c \<noteq> CHR 0x5C" by blast
    then show ?thesis
    proof cases
      case html
      then have "raw_string r" using less.prems Cons by (auto dest: raw_string_tail simp: html_byte_def)
      with html Cons less.hyps [of r] show ?thesis by (simp add: escape_html.simps(2) raw_string_escape_u)
    next
      case sep
      then obtain d q where s: "s = CHR 0xE2 # CHR 0x80 # d # q" "d = CHR 0xA8 \<or> d = CHR 0xA9"
        using line_separator_take by blast
      with less.prems have "raw_string q" by (auto dest!: raw_string_tail)
      with sep s Cons less.hyps [of q] show ?thesis
        by (simp add: escape_html.simps(2) raw_string_separator)
    next
      case plain
      then have "raw_string r" "\<not> byte_val c < 32" "c \<noteq> CHR 0x22"
        using less.prems Cons by (auto dest: raw_string_tail)
      with plain Cons less.hyps [of r] show ?thesis by (simp add: escape_html.simps(2) raw_string_plain)
    next
      case esc
      have p: "string_piece s \<noteq> 0" "raw_string (drop (string_piece s) s)"
        using raw_string_cases [OF less.prems] Cons by simp_all
      show ?thesis
      proof (cases "r \<noteq> [] \<and> simple_escape (hd r)")
        case True
        then obtain e q where r: "r = e # q" "simple_escape e" by (cases r) auto
        moreover have "raw_string q" using p(2) Cons esc r by simp
        moreover have "\<not> html_byte e" "e \<noteq> CHR 0xE2"
          using r by (auto simp: simple_escape_def html_byte_def line_separator_def)
        ultimately show ?thesis
          using esc Cons less.hyps [of q]
          by (simp add: escape_html.simps(2) raw_string_escape2 line_separator_def)
      next
        case False
        then have six: "5 \<le> length r" "hd r = CHR ''u''" "list_all is_hex (take 4 (tl r))"
          using p(1) Cons esc by (auto split: if_splits)
        then obtain a1 a2 a3 a4 q where r: "r = CHR ''u'' # a1 # a2 # a3 # a4 # q"
          by (auto simp: numeral_eq_Suc Suc_le_length_iff)
        have hex: "list_all is_hex [a1, a2, a3, a4]" using six r by simp
        have no: "\<not> html_byte a \<and> a \<noteq> CHR 0xE2" if "is_hex a" for a
          using that by (auto simp: is_hex_def is_digit_def html_byte_def)
        have "raw_string q" using p(2) Cons esc r False six by simp
        with esc Cons r hex no less.hyps [of q] show ?thesis
          by (simp add: escape_html.simps(2) raw_string_escape6 line_separator_def html_byte_def [of "CHR ''u''"])
      qed
    qed
  qed simp
qed

lemma wf_embed: "wf_json v \<Longrightarrow> wf_json (embed_json v)"
  by (induction v) (auto simp: list_all_iff raw_string_escape_html)

lemma nesting_embed [simp]: "nesting (embed_json v) = nesting v"
  by (induction v) (auto simp: foldr_map comp_def intro!: foldr_cong)

section \<open>Quoting\<close>

definition plain_byte :: "char \<Rightarrow> bool" where
  "plain_byte c = (32 \<le> byte_val c \<and> c \<noteq> CHR 0x22 \<and> c \<noteq> CHR 0x5C)"

lemma raw_string_bytes: "list_all plain_byte cs \<Longrightarrow> raw_string s \<Longrightarrow> raw_string (cs @ s)"
  by (induction cs) (auto simp: plain_byte_def intro!: raw_string_plain)

lemma high_byte_plain: "128 \<le> byte_val c \<Longrightarrow> plain_byte c"
  by (auto simp: plain_byte_def)

lemma between_high: "128 \<le> lo \<Longrightarrow> between lo hi c \<Longrightarrow> plain_byte c"
  by (simp add: between_def high_byte_plain)

lemma rune_bytes_plain:
  assumes "128 \<le> byte_val c"
  shows "list_all plain_byte (take (rune_width (c # r)) (c # r))"
proof -
  have two: "list_all plain_byte (take 1 r)" if "seq2 c r"
    using that by (cases r) (auto simp: seq2_def intro: between_high [rotated])
  have three: "list_all plain_byte (take 2 r)" if "seq3 c r"
    using that by (cases r; cases "tl r") (auto simp: seq3_def numeral_2_eq_2 intro: between_high [rotated] split: if_splits)
  have four: "list_all plain_byte (take 3 r)" if "seq4 c r"
    using that by (cases r; cases "tl r"; cases "tl (tl r)")
      (auto simp: seq4_def numeral_3_eq_3 numeral_2_eq_2 intro: between_high [rotated] split: if_splits)
  show ?thesis
    using assms two three four by (auto simp: high_byte_plain numeral_eq_Suc)
qed

lemma raw_string_quote_byte: "raw_string s \<Longrightarrow> raw_string (quote_byte c @ s)"
  by (simp add: quote_byte_def raw_string_escape2 raw_string_escape_u raw_string_plain simple_escape_def)

lemma raw_string_quote: "raw_string (quote_json s)"
proof (induction s rule: quote_json.induct)
  case (2 c r)
  consider "byte_val c < 128" | "\<not> byte_val c < 128" "rune_width (c # r) = 0"
    | "\<not> byte_val c < 128" "rune_width (c # r) \<noteq> 0" "line_separator (c # r)"
    | "\<not> byte_val c < 128" "rune_width (c # r) \<noteq> 0" "\<not> line_separator (c # r)" by blast
  then show ?case
  proof cases
    case 1
    with 2 show ?thesis by (simp add: quote_json.simps(2) raw_string_quote_byte)
  next
    case 2
    with "2.IH" show ?thesis
      by (simp add: quote_json.simps(2) raw_string_escape6 is_hex_def is_digit_def)
  next
    case 3
    with "2.IH" show ?thesis by (simp add: quote_json.simps(2) raw_string_separator)
  next
    case 4
    with "2.IH" show ?thesis
      by (simp only: quote_json.simps(2) if_False) (intro raw_string_bytes rune_bytes_plain; simp)
  qed
qed simp

lemma quote_plain: "list_all (\<lambda>c. byte_val c < 128 \<and> plain_byte c \<and> \<not> html_byte c) s \<Longrightarrow> quote_json s = s"
  by (induction s) (auto simp: quote_json.simps(2) quote_byte_def plain_byte_def)

section \<open>A quoted string is read back\<close>

lemma unhex_hex_digit: "n < 16 \<Longrightarrow> unhex (hex_digit n) = n"
  by (auto simp: hex_digit_def unhex_def is_digit_def byte_val_byte)

lemma byte_of_val [simp]: "byte (byte_val c) = c"
  by (simp add: byte_def)

lemma unquote_escape_u:
  assumes "byte_val c < 128"
  shows "unquote_json (escape_u c @ t) = c # unquote_json t"
proof -
  have d: "byte_val c div 16 < 16" using byte_val_less [of c] by (intro less_mult_imp_div_less) simp
  have z: "is_hex CHR ''0''" "unhex CHR ''0'' = 0" by (simp_all add: is_hex_def is_digit_def unhex_def)
  have v: "16 * (byte_val c div 16) + byte_val c mod 16 = byte_val c" by simp
  have "hex4 (CHR ''0'' # CHR ''0'' # hex_digit (byte_val c div 16) # hex_digit (byte_val c mod 16) # t)
      = Some (byte_val c)"
    using z d v by (simp add: hex4_def hex_digit_hex unhex_hex_digit)
  then have "unicode_escape (CHR ''0'' # CHR ''0'' # hex_digit (byte_val c div 16) # hex_digit (byte_val c mod 16) # t)
      = ([c], 4)"
    using assms by (simp add: unicode_escape_def encode_rune_def)
  then show ?thesis
    by (simp add: escape_u_def unquote_json.simps(2))
qed

lemma unquote_quote_byte: "byte_val c < 128 \<Longrightarrow> unquote_json (quote_byte c @ t) = c # unquote_json t"
  by (auto simp: quote_byte_def unquote_escape_u unquote_json.simps(2) escaped_def)

lemma unquote_u:
  "unicode_escape u = (b, n) \<Longrightarrow> unquote_json (CHR 0x5C # CHR ''u'' # u) = b @ unquote_json (drop n u)"
  by (subst unquote_json.simps(2)) simp

lemma unquote_separator:
  assumes "line_separator s"
  shows "unquote_json (escape_separator s @ t) = take 3 s @ unquote_json t"
proof -
  have h: "hex4 (CHR ''2'' # CHR ''0'' # CHR ''2'' # CHR ''8'' # t) = Some 0x2028"
    "hex4 (CHR ''2'' # CHR ''0'' # CHR ''2'' # CHR ''9'' # t) = Some 0x2029"
    by (simp_all add: hex4_def is_hex_def is_digit_def unhex_def)
  have b: "byte 226 = CHR 0xE2" "byte 128 = CHR 0x80" "byte 168 = CHR 0xA8" "byte 169 = CHR 0xA9"
    by code_simp+
  have e: "encode_rune 0x2028 = [CHR 0xE2, CHR 0x80, CHR 0xA8]" "encode_rune 0x2029 = [CHR 0xE2, CHR 0x80, CHR 0xA9]"
    by (simp_all add: encode_rune_def b)
  obtain c r where s: "s = CHR 0xE2 # CHR 0x80 # c # r" "c = CHR 0xA8 \<or> c = CHR 0xA9"
    using line_separator_take [OF assms] by blast
  have "unicode_escape (CHR ''2'' # CHR ''0'' # CHR ''2'' # CHR ''8'' # t) = ([CHR 0xE2, CHR 0x80, CHR 0xA8], 4)"
    "unicode_escape (CHR ''2'' # CHR ''0'' # CHR ''2'' # CHR ''9'' # t) = ([CHR 0xE2, CHR 0x80, CHR 0xA9], 4)"
    by (simp_all add: unicode_escape_def h e)
  note u = this [THEN unquote_u]
  from s(2) show ?thesis
    by (rule disjE) (simp_all add: s(1) escape_separator_def u numeral_3_eq_3)
qed

lemma unquote_rune:
  assumes "rune_width s = w" "w \<noteq> 0" "hd s \<noteq> CHR 0x5C"
  shows "unquote_json (take w s @ t) = take w s @ unquote_json t"
proof -
  obtain c r where s: "s = c # r" using assms by (cases s) simp_all
  obtain v where v: "w = Suc v" using assms(2) by (cases w) simp_all
  have "rune_width (take w s @ t) = w" using rune_width_take assms(1,2) by blast
  then have w: "rune_width (c # take v r @ t) = Suc v" by (simp add: s v)
  have "length (take v r) = v" using rune_width_le [of s] assms(1) by (simp add: s v)
  with w assms(3) show ?thesis
    by (simp add: s v unquote_json.simps(2))
qed

theorem unquote_quote: "valid_utf8 s \<Longrightarrow> unquote_json (quote_json s) = s"
proof (induction s rule: quote_json.induct)
  case (2 c r)
  have v: "rune_width (c # r) \<noteq> 0" "valid_utf8 (drop (rune_width (c # r)) (c # r))"
    using 2(5) valid_utf8.simps [of "c # r"] by (simp_all del: rune_width.simps split: if_splits)
  show ?case
  proof (cases "byte_val c < 128")
    case True
    with v 2 show ?thesis by (simp add: quote_json.simps(2) unquote_quote_byte)
  next
    case False
    then have w: "1 < rune_width (c # r)" using v(1) by (auto split: if_splits)
    have c: "c \<noteq> CHR 0x5C" using False by auto
    show ?thesis
    proof (cases "line_separator (c # r)")
      case True
      then obtain d q where s: "c # r = CHR 0xE2 # CHR 0x80 # d # q" "d = CHR 0xA8 \<or> d = CHR 0xA9"
        using line_separator_take by blast
      then have "rune_width (c # r) = 3" by (auto simp: seq2_def seq3_def between_def)
      with v s have "unquote_json (quote_json q) = q" using 2(3) [OF False _ True] by simp
      moreover have "quote_json (c # r) = escape_separator (c # r) @ quote_json (drop 2 r)"
        using False v(1) True by (subst quote_json.simps(2)) (simp del: rune_width.simps)
      ultimately show ?thesis
        using s by (simp add: unquote_separator [OF True [unfolded s(1)]] numeral_3_eq_3 numeral_2_eq_2 del: rune_width.simps)
    next
      case no: False
      have "unquote_json (quote_json (drop (rune_width (c # r) - 1) r)) = drop (rune_width (c # r) - 1) r"
        using 2(4) [OF False v(1) no] v by (simp add: drop_Cons')
      moreover have "unquote_json (take (rune_width (c # r)) (c # r) @ t) = take (rune_width (c # r)) (c # r) @ unquote_json t" for t
        using v(1) c by (intro unquote_rune) simp_all
      moreover have "take (rune_width (c # r)) (c # r) @ drop (rune_width (c # r) - 1) r = c # r"
        using v(1) by (metis append_take_drop_id drop_Cons' )
      ultimately show ?thesis
        using False v(1) no by (simp only: quote_json.simps(2) if_False)
    qed
  qed
qed simp

section \<open>What a string of a document stands for is UTF-8\<close>

lemmas div_bounds = less_eq_div_iff_mult_less_eq div_less_iff_less_mult

lemma six_bits: "m mod 64 < (64::nat)"
  by simp

lemma valid_rune_alone: "rune_width r = length r \<Longrightarrow> r \<noteq> [] \<Longrightarrow> valid_utf8 r"
  by (subst valid_utf8.simps) (simp add: valid_utf8.simps [of "[]"])

lemma encode2:
  assumes "0x80 \<le> n" "n < 0x800"
  shows "rune_width (encode_rune n) = 2"
proof -
  have b: "2 \<le> n div 64" "n div 64 < 32"
    using assms by (simp_all add: div_bounds)
  then have a: "byte_val (byte (0xC0 + n div 64)) = 0xC0 + n div 64" "byte_val (byte (0x80 + n mod 64)) = 0x80 + n mod 64"
    using six_bits [of n] by (simp_all add: byte_val_byte)
  show ?thesis
    using assms b six_bits [of n] by (simp add: encode_rune_def seq2_def between_def a)
qed

lemma encode3:
  assumes "0x800 \<le> n" "n < 0x10000" "n < 0xD800 \<or> 0xDFFF < n"
  shows "rune_width (encode_rune n) = 3"
proof -
  define q where "q = n div 4096"
  define r where "r = n div 64 mod 64"
  have q: "q < 16" using assms by (simp add: q_def div_bounds)
  have r: "r < 64" by (simp add: r_def)
  have n64: "n div 64 = 64 * q + r"
    by (simp add: q_def r_def div_mult2_eq [of n 64 64, simplified])
  have c: "q = 0 \<Longrightarrow> 32 \<le> r"
    using assms(1) less_eq_div_iff_mult_less_eq [of 64 32 n] n64 by simp
  have d: "q = 13 \<Longrightarrow> r \<le> 31"
  proof -
    assume "q = 13"
    then have "n div 4096 < 14" by (simp add: q_def)
    then have "n < 57344" by (simp add: div_bounds)
    then have "n div 64 < 864" using assms(3) by (simp add: div_bounds)
    with n64 \<open>q = 13\<close> show ?thesis by simp
  qed
  have a: "byte_val (byte (0xE0 + q)) = 0xE0 + q" "byte_val (byte (0x80 + r)) = 0x80 + r"
      "byte_val (byte (0x80 + n mod 64)) = 0x80 + n mod 64"
    using q r six_bits [of n] by (simp_all add: byte_val_byte)
  have e: "encode_rune n = [byte (0xE0 + q), byte (0x80 + r), byte (0x80 + n mod 64)]"
    using assms by (simp add: encode_rune_def q_def r_def)
  have "between 0xE0 0xEF (byte (0xE0 + q))" "\<not> between 0xC2 0xDF (byte (0xE0 + q))"
      "continues (byte (0x80 + n mod 64))"
    using q six_bits [of n] by (simp_all add: between_def a)
  moreover have "between (if byte_val (byte (0xE0 + q)) = 0xE0 then 0xA0 else 0x80)
      (if byte_val (byte (0xE0 + q)) = 0xED then 0x9F else 0xBF) (byte (0x80 + r))"
    using c d r by (auto simp: between_def a)
  ultimately show ?thesis
    unfolding e by (simp add: seq2_def seq3_def a(1))
qed

lemma encode4:
  assumes "0x10000 \<le> n" "n < 0x110000"
  shows "rune_width (encode_rune n) = 4"
proof -
  define q where "q = n div 262144"
  define r where "r = n div 4096 mod 64"
  have q: "q \<le> 4" using assms by (simp add: q_def div_bounds less_Suc_eq_le [symmetric])
  have r: "r < 64" by (simp add: r_def)
  have n64: "n div 4096 = 64 * q + r"
    by (simp add: q_def r_def div_mult2_eq [of n 4096 64, simplified])
  have c: "q = 0 \<Longrightarrow> 16 \<le> r"
    using assms(1) less_eq_div_iff_mult_less_eq [of 4096 16 n] n64 by simp
  have d: "q = 4 \<Longrightarrow> r \<le> 15"
    using assms(2) div_less_iff_less_mult [of 4096 n 272] n64 by simp
  have a: "byte_val (byte (0xF0 + q)) = 0xF0 + q" "byte_val (byte (0x80 + r)) = 0x80 + r"
      "byte_val (byte (0x80 + n mod 64)) = 0x80 + n mod 64"
      "byte_val (byte (0x80 + n div 64 mod 64)) = 0x80 + n div 64 mod 64"
    using q r six_bits [of n] six_bits [of "n div 64"] by (simp_all add: byte_val_byte)
  have e: "encode_rune n = [byte (0xF0 + q), byte (0x80 + r), byte (0x80 + n div 64 mod 64), byte (0x80 + n mod 64)]"
    using assms by (simp add: encode_rune_def q_def r_def)
  have "between 0xF0 0xF4 (byte (0xF0 + q))" "\<not> between 0xC2 0xDF (byte (0xF0 + q))" "\<not> between 0xE0 0xEF (byte (0xF0 + q))"
      "continues (byte (0x80 + n mod 64))" "continues (byte (0x80 + n div 64 mod 64))"
    using q six_bits [of n] six_bits [of "n div 64"] by (simp_all add: between_def a)
  moreover have "between (if byte_val (byte (0xF0 + q)) = 0xF0 then 0x90 else 0x80)
      (if byte_val (byte (0xF0 + q)) = 0xF4 then 0x8F else 0xBF) (byte (0x80 + r))"
    using c d r by (auto simp: between_def a)
  ultimately show ?thesis
    unfolding e by (simp add: seq2_def seq3_def seq4_def a(1) numeral_2_eq_2)
qed
lemma valid_encode_rune: "n < 0xD800 \<or> 0xDFFF < n \<and> n < 0x110000 \<Longrightarrow> valid_utf8 (encode_rune n)"
proof (rule valid_rune_alone)
  assume n: "n < 0xD800 \<or> 0xDFFF < n \<and> n < 0x110000"
  show "rune_width (encode_rune n) = length (encode_rune n)"
    using n encode2 [of n] encode3 [of n] encode4 [of n]
    by (cases "n < 0x80"; cases "n < 0x800"; cases "n < 0x10000")
      (auto simp: encode_rune_def byte_val_byte simp del: rune_width.simps, simp add: byte_val_byte)
  show "encode_rune n \<noteq> []" by (simp add: encode_rune_def)
qed

lemma unhex_less: "is_hex c \<Longrightarrow> unhex c < 16"
  by (auto simp: is_hex_def unhex_def is_digit_def)

lemma hex4_less: "hex4 s = Some a \<Longrightarrow> a < 0x10000"
  by (auto simp: hex4_def split: list.splits if_splits dest!: unhex_less)

lemma valid_replacement: "valid_utf8 replacement"
  by (rule valid_rune_alone) (simp_all add: replacement_def seq2_def seq3_def between_def)

lemma unicode_escape_valid:
  assumes "hex4 s \<noteq> None"
  shows "valid_utf8 (fst (unicode_escape s))"
proof -
  obtain a where a: "hex4 s = Some a" "a < 0x10000" using assms hex4_less by blast
  show ?thesis
  proof (cases "a < 0xD800 \<or> 0xDFFF < a")
    case True
    with a show ?thesis by (auto simp: unicode_escape_def intro: valid_encode_rune)
  next
    case False
    with a show ?thesis
      by (auto simp: unicode_escape_def valid_replacement split: option.split intro!: valid_encode_rune)
  qed
qed

lemma raw_string_drop_plain: "list_all plain_byte (take w s) \<Longrightarrow> raw_string s \<Longrightarrow> raw_string (drop w s)"
proof (induction w arbitrary: s)
  case (Suc w)
  show ?case
  proof (cases s)
    case (Cons c r)
    with Suc.prems have "raw_string r" by (auto simp: plain_byte_def dest: raw_string_tail)
    with Suc Cons show ?thesis by simp
  qed (use Suc in simp)
qed simp

lemma hex4_take: "hex4 r = Some a \<Longrightarrow> 4 \<le> length r \<and> list_all is_hex (take 4 r)"
  by (auto simp: hex4_def split: list.splits if_splits)

lemma raw_string_escapes:
  assumes "raw_string (CHR 0x5C # r)"
  shows "(\<exists>e q. r = e # q \<and> simple_escape e \<and> raw_string q)
    \<or> (\<exists>q. r = CHR ''u'' # q \<and> hex4 q \<noteq> None \<and> raw_string (drop 4 q))"
proof -
  let ?s = "CHR 0x5C # r"
  have p: "string_piece ?s \<noteq> 0" "raw_string (drop (string_piece ?s) ?s)"
    using raw_string_cases [OF assms] by simp_all
  show ?thesis
  proof (cases "r \<noteq> [] \<and> simple_escape (hd r)")
    case True
    with p(2) show ?thesis by (cases r) auto
  next
    case False
    then have six: "5 \<le> length r" "hd r = CHR ''u''" "list_all is_hex (take 4 (tl r))"
      using p(1) by (auto split: if_splits)
    then obtain a1 a2 a3 a4 q where r: "r = CHR ''u'' # a1 # a2 # a3 # a4 # q"
      by (auto simp: numeral_eq_Suc Suc_le_length_iff)
    with six p(2) False show ?thesis by (simp add: hex4_def)
  qed
qed

lemma unicode_escape_rest:
  assumes "hex4 q \<noteq> None" "raw_string (drop 4 q)"
  shows "raw_string (drop (snd (unicode_escape q)) q)"
proof -
  have "raw_string (drop 10 q)" if "has_prefix (drop 4 q) [CHR 0x5C, CHR ''u'']" "hex4 (drop 6 q) \<noteq> None"
  proof -
    from that(1) obtain p where p: "drop 4 q = CHR 0x5C # CHR ''u'' # p"
      by (auto simp: has_prefix_iff)
    then have "raw_string (drop 4 p)"
      using raw_string_escapes [of "CHR ''u'' # p"] assms(2) by (auto simp: simple_escape_def)
    moreover have "drop 4 p = drop 6 (drop 4 q)" by (simp add: p)
    ultimately show ?thesis by simp
  qed
  with assms show ?thesis
    by (auto simp: unicode_escape_def split: option.split)
qed

lemma escaped_ascii: "simple_escape e \<Longrightarrow> byte_val (escaped e) < 128"
  unfolding simple_escape_def by (elim insertE emptyE) (simp_all add: escaped_def)

lemma valid_ascii_byte: "byte_val c < 128 \<Longrightarrow> valid_utf8 [c]"
  by (rule valid_rune_alone) simp_all

theorem unquote_valid: "raw_string s \<Longrightarrow> valid_utf8 (unquote_json s)"
proof (induction "length s" arbitrary: s rule: less_induct)
  case less
  show ?case
  proof (cases s)
    case s: (Cons c r)
    consider (esc) "c = CHR 0x5C" | (bad) "c \<noteq> CHR 0x5C" "rune_width s = 0"
      | (rune) "c \<noteq> CHR 0x5C" "rune_width s \<noteq> 0" by blast
    then show ?thesis
    proof cases
      case esc
      have "raw_string (CHR 0x5C # r)" using less.prems s esc by simp
      from raw_string_escapes [OF this] show ?thesis
      proof (elim disjE exE conjE)
        fix e q assume r: "r = e # q" and e: "simple_escape e" and q: "raw_string q"
        have "valid_utf8 (unquote_json q)" using less.hyps [OF _ q] s r by simp
        moreover have "e \<noteq> CHR ''u''" using e by (auto simp: simple_escape_def)
        moreover have "valid_utf8 [escaped e]"
          using e by (intro valid_ascii_byte escaped_ascii)
        ultimately show ?thesis
          using s r esc valid_append [of "[escaped e]"] by (simp add: unquote_json.simps(2) del: rune_width.simps)
      next
        fix q assume r: "r = CHR ''u'' # q" and h: "hex4 q \<noteq> None" and q: "raw_string (drop 4 q)"
        obtain b n where u: "unicode_escape q = (b, n)" by (cases "unicode_escape q")
        then have "raw_string (drop n q)" using unicode_escape_rest [OF h q] by simp
        then have "valid_utf8 (unquote_json (drop n q))" by (rule less.hyps [rotated]) (simp add: s r)
        then show ?thesis
          using unicode_escape_valid [OF h] u by (simp add: s r esc unquote_u [OF u] valid_append)
      qed
    next
      case bad
      then have "raw_string r" using less.prems s raw_string_tail by blast
      then have "valid_utf8 (unquote_json r)" using less.hyps s by simp
      then show ?thesis
        using bad s by (simp add: unquote_json.simps(2) valid_replacement valid_append del: rune_width.simps)
    next
      case rune
      have plain: "plain_byte c" using raw_string_tail [of c r] less.prems s rune(1) by (simp add: plain_byte_def)
      have "list_all plain_byte (take (rune_width s) s)"
      proof (cases "byte_val c < 128")
        case True
        then show ?thesis using s plain by simp
      next
        case False
        then show ?thesis unfolding s by (intro rune_bytes_plain) simp
      qed
      then have "raw_string (drop (rune_width s) s)" using less.prems by (rule raw_string_drop_plain)
      then have "valid_utf8 (unquote_json (drop (rune_width s) s))"
        using rune(2) s by (intro less.hyps) simp_all
      moreover have "unquote_json s = take (rune_width s) s @ unquote_json (drop (rune_width s) s)"
        using rune s by (simp add: unquote_json.simps(2) drop_Cons' del: rune_width.simps)
      ultimately show ?thesis
        using valid_append valid_rune [of s] rune(2) by simp
    qed
  qed (simp add: valid_utf8.simps)
qed

end
