(* ===== verification/Push.thy ===== *)
theory Push
  imports Go_Time Go_Json_Facts
begin

text \<open>
  Delivery of readings, \<^verbatim>\<open>internal/push/client.go\<close>: the request body, and what is read from the
  response. What happens on the network is the argument \<open>http_outcome\<close>.
\<close>

section \<open>The request\<close>

record collectors =
  on_processes :: bool
  on_process_args :: bool
  on_services :: bool
  on_renewers :: bool
  on_listening :: bool
  on_cron :: bool
  on_job_reports :: bool

definition collectors_json :: "collectors \<Rightarrow> json" where
  "collectors_json c = JObj
     [(''processes'', JBool (on_processes c)), (''process_args'', JBool (on_process_args c)),
      (''services'', JBool (on_services c)), (''renewers'', JBool (on_renewers c)),
      (''listening'', JBool (on_listening c)), (''cron'', JBool (on_cron c)),
      (''job_reports'', JBool (on_job_reports c))]"

text \<open>A field of type \<^verbatim>\<open>any\<close> with \<^verbatim>\<open>omitempty\<close>: it is left out when it holds nothing.\<close>

definition optional :: "string \<Rightarrow> json option \<Rightarrow> (string \<times> json) list" where
  "optional name v = (case v of None \<Rightarrow> [] | Some x \<Rightarrow> [(name, x)])"

text \<open>The embedded readings, or nothing when one of them is not JSON, which fails the whole encoding.\<close>

fun embed_all :: "string list \<Rightarrow> json list option" where
  "embed_all [] = Some []"
| "embed_all (s # ss) =
     (case (parse_json s, embed_all ss) of (Some v, Some vs) \<Rightarrow> Some (embed_json v # vs) | _ \<Rightarrow> None)"

text \<open>
  \<open>encode\<close>. \<open>failed_part\<close> is a map, encoded with its keys in order, and given here as its sorted list of
  entries; the other optional parts are given as the JSON they are encoded to.
\<close>

definition envelope ::
  "string list \<Rightarrow> (string \<times> string) list \<Rightarrow> string \<Rightarrow> json option \<Rightarrow> json option \<Rightarrow> json option \<Rightarrow> collectors
     \<Rightarrow> json option" where
  "envelope samples failed_part version usage job_runs journal_part c =
     (case embed_all samples of None \<Rightarrow> None
      | Some vs \<Rightarrow> Some (JObj
          ([(''samples'', JArr vs)]
           @ (if failed_part = [] then []
              else [(''failed'', JObj (map (\<lambda>(k, v). (quote_json k, JStr (quote_json v))) failed_part))])
           @ (if version = [] then [] else [(''agent_version'', JStr (quote_json version))])
           @ [(''collectors'', collectors_json c)]
           @ optional ''disk_usage'' usage @ optional ''job_runs'' job_runs @ optional ''journal'' journal_part)))"

definition encode ::
  "string list \<Rightarrow> (string \<times> string) list \<Rightarrow> string \<Rightarrow> json option \<Rightarrow> json option \<Rightarrow> json option \<Rightarrow> collectors
     \<Rightarrow> string option" where
  "encode samples failed_part version usage job_runs journal_part c =
     map_option print_json (envelope samples failed_part version usage job_runs journal_part c)"

section \<open>The response\<close>

record skipped =
  sk_reason :: string
  sk_collected :: go_time

record response =
  d_message :: string
  d_accepted :: int
  d_skipped :: "skipped list"
  d_server_time :: go_time
  d_ingest_url :: string
  d_min_interval :: int
  d_reason :: string
  d_peers :: "string list option"

definition nothing_decoded :: response where
  "nothing_decoded = \<lparr>d_message = [], d_accepted = 0, d_skipped = [], d_server_time = zero_time,
     d_ingest_url = [], d_min_interval = 0, d_reason = [], d_peers = None\<rparr>"

definition skipped_fields :: "(string \<Rightarrow> go_time option) \<Rightarrow> (string \<times> skipped reader) list" where
  "skipped_fields lax =
     [(''reason'', in_field sk_reason (\<lambda>x r. r\<lparr>sk_reason := x\<rparr>) read_str),
      (''collected_at'', in_field sk_collected (\<lambda>x r. r\<lparr>sk_collected := x\<rparr>) (read_time lax))]"

text \<open>A pointer: null clears it, anything else is read into what it points to, made anew when it is nil.\<close>

definition read_pointer :: "'a reader \<Rightarrow> 'a \<Rightarrow> 'a option reader" where
  "read_pointer rd zero v r =
     (if v = JNull then (None, Fine)
      else (let (x, e) = rd v (case r of None \<Rightarrow> zero | Some y \<Rightarrow> y) in (Some x, e)))"

definition response_fields :: "(string \<Rightarrow> go_time option) \<Rightarrow> (string \<times> response reader) list" where
  "response_fields lax =
     [(''message'', in_field d_message (\<lambda>x r. r\<lparr>d_message := x\<rparr>) read_str),
      (''accepted'', in_field d_accepted (\<lambda>x r. r\<lparr>d_accepted := x\<rparr>) read_int),
      (''skipped'', in_field d_skipped (\<lambda>x r. r\<lparr>d_skipped := x\<rparr>)
         (read_slice (read_struct (skipped_fields lax)) \<lparr>sk_reason = [], sk_collected = zero_time\<rparr>)),
      (''server_time'', in_field d_server_time (\<lambda>x r. r\<lparr>d_server_time := x\<rparr>) (read_time lax)),
      (''ingest_url'', in_field d_ingest_url (\<lambda>x r. r\<lparr>d_ingest_url := x\<rparr>) read_str),
      (''min_interval_seconds'', in_field d_min_interval (\<lambda>x r. r\<lparr>d_min_interval := x\<rparr>) read_int),
      (''reason'', in_field d_reason (\<lambda>x r. r\<lparr>d_reason := x\<rparr>) read_str),
      (''peer_addresses'', in_field d_peers (\<lambda>x r. r\<lparr>d_peers := x\<rparr>) (read_pointer (read_slice read_str []) []))]"

record result =
  res_accepted :: int
  res_skipped :: "skipped list"
  res_server_time :: go_time
  res_ingest_url :: string
  res_min_interval :: int
  res_settled :: bool
  res_peers :: "string list option"

definition no_result :: result where
  "no_result = \<lparr>res_accepted = 0, res_skipped = [], res_server_time = zero_time, res_ingest_url = [],
     res_min_interval = 0, res_settled = False, res_peers = None\<rparr>"

text \<open>The seconds of the wire become a duration, which is a 64-bit number of nanoseconds and wraps around.\<close>

definition result_of :: "response \<Rightarrow> result" where
  "result_of d = \<lparr>res_accepted = d_accepted d, res_skipped = d_skipped d, res_server_time = d_server_time d,
     res_ingest_url = d_ingest_url d, res_min_interval = i64 (d_min_interval d * second_ns),
     res_settled = (0 < d_accepted d \<or> d_skipped d \<noteq> []), res_peers = d_peers d\<rparr>"

definition first_line :: "string \<Rightarrow> string" where
  "first_line s =
     (let s = takeWhile (\<lambda>c. c \<noteq> CHR 0x0D \<and> c \<noteq> CHR 0x0A) (trim_space s);
          s = (if 200 < length s then take 200 s @ [CHR 0xE2, CHR 0x80, CHR 0xA6] else s)
      in if s = [] then ''(no message)'' else s)"

datatype push_error =
    Cannot_Encode_Batch | Cannot_Build | Cannot_Reach | Cannot_Read_Response
  | Not_Activated string | Token_Rejected string | Server_Refused string | Answered int string

definition not_activated_reason :: string where
  "not_activated_reason = ''monitoring_not_activated''"

text \<open>What happens to the request: it cannot be built, no answer comes, the body breaks off, or an answer with its status.\<close>

datatype http_outcome = Unbuildable | Unreachable | Broken_Off | Answer int string

definition response_limit :: nat where
  "response_limit = 1048576"

definition classify :: "int \<Rightarrow> response \<Rightarrow> push_error option" where
  "classify status d =
     (if d_reason d = not_activated_reason then Some (Not_Activated (first_line (d_message d)))
      else if status = 401 \<or> status = 403 then Some (Token_Rejected (first_line (d_message d)))
      else if 200 \<le> status \<and> status < 300 then None
      else if status = 422 then Some (Server_Refused (first_line (d_message d)))
      else Some (Answered status (first_line (d_message d))))"

definition receive :: "(string \<Rightarrow> go_time option) \<Rightarrow> int \<Rightarrow> string \<Rightarrow> result \<times> push_error option" where
  "receive lax status body =
     (let (d, e) = unmarshal (read_struct (response_fields lax)) (take response_limit body) nothing_decoded
      in (result_of d, classify status d))"

text \<open>\<open>Send\<close>, given the encoded body and what the network does with it.\<close>

definition send :: "(string \<Rightarrow> go_time option) \<Rightarrow> string option \<Rightarrow> http_outcome \<Rightarrow> result \<times> push_error option" where
  "send lax body net =
     (case body of None \<Rightarrow> (no_result, Some Cannot_Encode_Batch)
      | Some b \<Rightarrow>
        (case net of
           Unbuildable \<Rightarrow> (no_result, Some Cannot_Build)
         | Unreachable \<Rightarrow> (no_result, Some Cannot_Reach)
         | Broken_Off \<Rightarrow> (no_result, Some Cannot_Read_Response)
         | Answer status payload \<Rightarrow> receive lax status payload))"

end
