(* ===== verification/Agent_Batch.thy ===== *)
theory Agent_Batch
  imports Push "HOL-Library.AList"
begin

text \<open>
  A batch before it is sent, \<^verbatim>\<open>internal/agent/batch.go\<close>: the fields that describe the present are
  taken out of every reading but the newest.
\<close>

definition snapshot_fields :: "string list" where
  "snapshot_fields = [''services'', ''containers'', ''processes'', ''system'', ''renewers'', ''listening'', ''cron'']"

text \<open>
  A JSON object as a \<^verbatim>\<open>map[string]json.RawMessage\<close>: keys without their escapes, the last of equal keys
  counting; and the map written again, its keys in order. Null is the empty map.
\<close>

definition as_map :: "json \<Rightarrow> (string \<times> json) list option" where
  "as_map v = (case v of
      JObj ms \<Rightarrow> Some (fold (\<lambda>(k, x) m. AList.update (unquote_json k) x m) ms [])
    | JNull \<Rightarrow> Some []
    | _ \<Rightarrow> None)"

definition map_json :: "(string \<times> json) list \<Rightarrow> json" where
  "map_json m = JObj (map (\<lambda>(k, x). (quote_json k, embed_json x)) (sort_key fst m))"

definition without_snapshots :: "(string \<times> json) list \<Rightarrow> (string \<times> json) list" where
  "without_snapshots m = filter (\<lambda>(k, x). k \<notin> set snapshot_fields) m"

definition trim_one :: "string \<Rightarrow> string" where
  "trim_one s =
     (case Option.bind (parse_json s) as_map of None \<Rightarrow> s
      | Some m \<Rightarrow>
        if list_ex (\<lambda>(k, x). k \<in> set snapshot_fields) m
        then print_json (map_json (without_snapshots m)) else s)"

text \<open>\<open>collected_at\<close> of a reading, when it can be read and is not the zero time.\<close>

definition collected_at :: "(string \<Rightarrow> go_time option) \<Rightarrow> string \<Rightarrow> go_time option" where
  "collected_at lax s =
     (case unmarshal (read_struct [(''collected_at'', read_time lax)]) s zero_time of
        (t, Fine) \<Rightarrow> if t = zero_time then None else Some t
      | _ \<Rightarrow> None)"

fun newest_from :: "(string \<Rightarrow> go_time option) \<Rightarrow> nat \<Rightarrow> string list \<Rightarrow> (go_time \<times> nat) option \<Rightarrow> (go_time \<times> nat) option" where
  "newest_from lax i [] best = best"
| "newest_from lax i (s # ss) best =
     (case collected_at lax s of None \<Rightarrow> newest_from lax (Suc i) ss best
      | Some t \<Rightarrow>
        (case best of
           Some (b, j) \<Rightarrow> newest_from lax (Suc i) ss (if b \<le> t then Some (t, i) else Some (b, j))
         | None \<Rightarrow> newest_from lax (Suc i) ss (Some (t, i))))"

definition newest_index :: "(string \<Rightarrow> go_time option) \<Rightarrow> string list \<Rightarrow> nat" where
  "newest_index lax ss = (case newest_from lax 0 ss None of Some (t, i) \<Rightarrow> i | None \<Rightarrow> length ss - 1)"

definition trim_snapshots :: "(string \<Rightarrow> go_time option) \<Rightarrow> string list \<Rightarrow> string list" where
  "trim_snapshots lax ss =
     (if length ss < 2 then ss
      else map (\<lambda>(i, s). if i = newest_index lax ss then s else trim_one s) (zip [0..<length ss] ss))"

section \<open>Lemmas\<close>

text \<open>What a field of a reading holds, once the reading is read as a map.\<close>

definition field_of :: "string \<Rightarrow> string \<Rightarrow> json option" where
  "field_of s k = Option.bind (Option.bind (parse_json s) as_map) (\<lambda>m. map_of m k)"

lemma distinct_fold_update:
  "distinct (map fst m) \<Longrightarrow> distinct (map fst (fold (\<lambda>(k, x). AList.update (unquote_json k) x) ms m))"
  by (induction ms arbitrary: m) (auto simp: AList.distinct_update)

lemma distinct_as_map: "as_map v = Some m \<Longrightarrow> distinct (map fst m)"
  by (auto simp: as_map_def distinct_fold_update split: json.splits)

lemma as_map_values:
  "as_map v = Some m \<Longrightarrow> (k, x) \<in> set m \<Longrightarrow> \<exists>ms r. v = JObj ms \<and> (r, x) \<in> set ms \<and> k = unquote_json r"
proof -
  have step: "(k, x) \<in> set (fold (\<lambda>(k, x). AList.update (unquote_json k) x) ms m0) \<Longrightarrow>
      (k, x) \<in> set m0 \<or> (\<exists>r. (r, x) \<in> set ms \<and> k = unquote_json r)" for ms m0
  proof (induction ms arbitrary: m0)
    case (Cons p ms)
    obtain r y where p: "p = (r, y)" by (cases p)
    from Cons.IH [of "AList.update (unquote_json r) y m0"] Cons.prems p
    have "(k, x) \<in> set (AList.update (unquote_json r) y m0) \<or> (\<exists>r. (r, x) \<in> set ms \<and> k = unquote_json r)"
      by simp
    moreover have "set (AList.update (unquote_json r) y m0) \<subseteq> insert (unquote_json r, y) (set m0)"
      by (induction m0) auto
    ultimately show ?case using p by auto
  qed simp
  assume "as_map v = Some m" "(k, x) \<in> set m"
  then show ?thesis
    using step [of _ "[]"] by (auto simp: as_map_def split: json.splits)
qed

lemma fold_update_fresh:
  "distinct (map fst m0 @ map (\<lambda>(r, x). unquote_json r) ms) \<Longrightarrow>
     fold (\<lambda>(k, x). AList.update (unquote_json k) x) ms m0 = m0 @ map (\<lambda>(r, x). (unquote_json r, x)) ms"
proof (induction ms arbitrary: m0)
  case (Cons p ms)
  obtain r y where p: "p = (r, y)" by (cases p)
  have "AList.update (unquote_json r) y m0 = m0 @ [(unquote_json r, y)]"
    using Cons.prems p by (induction m0) auto
  with Cons p show ?case by simp
qed simp

lemma distinct_sort_key: "distinct (map fst m) \<Longrightarrow> distinct (map fst (sort_key fst m))"
proof -
  have "set (map fst (sort_key fst m)) = set (map fst m)" "length (map fst (sort_key fst m)) = length (map fst m)"
    by simp_all
  then show "distinct (map fst m) \<Longrightarrow> ?thesis" by (metis card_distinct distinct_card)
qed

text \<open>The map written again and read again: its values, escaped for HTML.\<close>

lemma as_map_map_json:
  assumes "distinct (map fst m)" "\<forall>k\<in>fst ` set m. valid_utf8 k"
  shows "as_map (map_json m) = Some (map (\<lambda>(k, x). (k, embed_json x)) (sort_key fst m))"
proof -
  let ?ms = "map (\<lambda>(k, x). (quote_json k, embed_json x)) (sort_key fst m)"
  have keys: "map (\<lambda>(r, x). unquote_json r) ?ms = map fst (sort_key fst m)"
    using assms(2) by (auto simp: unquote_quote)
  have pairs: "map (\<lambda>(r, x). (unquote_json r, x)) ?ms = map (\<lambda>(k, x). (k, embed_json x)) (sort_key fst m)"
    using assms(2) by (auto simp: unquote_quote)
  have "distinct (map fst [] @ map (\<lambda>(r, x). unquote_json r) ?ms)"
    unfolding keys using distinct_sort_key [OF assms(1)] by simp
  from fold_update_fresh [OF this] show ?thesis
    by (simp only: as_map_def map_json_def json.case pairs append_Nil)
qed

lemma map_of_map_json:
  assumes "distinct (map fst m)"
  shows "map_of (map (\<lambda>(k, x). (k, embed_json x)) (sort_key fst m)) k = map_option embed_json (map_of m k)"
proof -
  have "map_of (sort_key fst m) = map_of m"
    using assms distinct_sort_key [OF assms] by (simp add: map_of_inject_set)
  then show ?thesis by (simp add: map_of_map)
qed

lemma trimmed_values:
  assumes "parse_json s = Some v" "as_map v = Some m" "(k, x) \<in> set (without_snapshots m)"
  shows "valid_utf8 k \<and> wf_json x \<and> int (Suc (nesting x)) \<le> max_nesting"
proof -
  have wf: "wf_json v" "int (nesting v) \<le> max_nesting" using parse_json_wf [OF assms(1)] by simp_all
  obtain ms r where v: "v = JObj ms" "(r, x) \<in> set ms" "k = unquote_json r"
    using as_map_values [OF assms(2), of k x] assms(3) by (auto simp: without_snapshots_def)
  then have "nesting x \<le> foldr (\<lambda>(k, v) n. max (nesting v) n) ms 0" by (intro nesting_members)
  with v wf show ?thesis by (auto simp: list_all_iff unquote_valid)
qed

lemma trim_one_parses:
  assumes "parse_json s = Some v" "as_map v = Some m" "list_ex (\<lambda>(k, x). k \<in> set snapshot_fields) m"
  shows "parse_json (trim_one s) = Some (map_json (without_snapshots m))"
proof -
  let ?m = "without_snapshots m"
  note vals = trimmed_values [OF assms(1,2)]
  have "wf_json (map_json ?m)"
    using vals by (auto simp: map_json_def list_all_iff raw_string_quote wf_embed)
  moreover have "\<forall>(k, x)\<in>set (map (\<lambda>(k, x). (quote_json k, embed_json x)) (sort_key fst ?m)).
      int (Suc 0 + nesting x) \<le> max_nesting"
    using vals by auto
  from nesting_members_bound [OF this] have "int (nesting (map_json ?m)) \<le> max_nesting"
    by (simp add: map_json_def max_nesting_def)
  ultimately have "parse_json (print_json (map_json ?m)) = Some (map_json ?m)" by (rule parse_print)
  then show ?thesis using assms by (simp add: trim_one_def)
qed

lemma trim_one_field:
  assumes "parse_json s = Some v" "as_map v = Some m" "list_ex (\<lambda>(k, x). k \<in> set snapshot_fields) m"
  shows "field_of (trim_one s) k = map_option embed_json (map_of (without_snapshots m) k)"
proof -
  have "distinct (map fst (without_snapshots m))"
    using distinct_as_map [OF assms(2)] by (simp add: without_snapshots_def distinct_map_filter)
  moreover have "\<forall>k\<in>fst ` set (without_snapshots m). valid_utf8 k"
    using trimmed_values [OF assms(1,2)] by auto
  ultimately show ?thesis
    using trim_one_parses [OF assms] by (simp add: field_of_def as_map_map_json map_of_map_json)
qed

lemma trim_one_valid: "json_valid s \<Longrightarrow> json_valid (trim_one s)"
  using trim_one_parses by (auto simp: json_valid_def trim_one_def split: option.splits Option.bind_splits)

lemma trim_snapshots_valid:
  "\<forall>s\<in>set ss. json_valid s \<Longrightarrow> \<forall>s\<in>set (trim_snapshots lax ss). json_valid s"
  by (auto simp: trim_snapshots_def trim_one_valid dest: set_zip_rightD)

lemma map_of_without: "map_of (without_snapshots m) k = (if k \<in> set snapshot_fields then None else map_of m k)"
  unfolding without_snapshots_def by (induction m) auto

lemma trim_one_fields:
  "field_of (trim_one s) k \<in>
     (if k \<in> set snapshot_fields then {None} else {field_of s k, map_option embed_json (field_of s k)})"
proof (cases "Option.bind (parse_json s) as_map")
  case None
  then show ?thesis by (simp add: trim_one_def field_of_def)
next
  case (Some m)
  then obtain v where v: "parse_json s = Some v" "as_map v = Some m" by (cases "parse_json s") simp_all
  show ?thesis
  proof (cases "list_ex (\<lambda>(k, x). k \<in> set snapshot_fields) m")
    case True
    with trim_one_field [OF v] v show ?thesis by (simp add: map_of_without field_of_def)
  next
    case False
    then have "k \<in> set snapshot_fields \<Longrightarrow> map_of m k = None"
      by (auto simp: list_ex_iff map_of_eq_None_iff)
    with False v show ?thesis by (auto simp: trim_one_def field_of_def)
  qed
qed

text \<open>Which reading is the newest: the greatest time that can be read, the last of equal ones.\<close>

fun later :: "go_time \<times> nat \<Rightarrow> (go_time \<times> nat) option \<Rightarrow> (go_time \<times> nat) option" where
  "later (t, i) None = Some (t, i)"
| "later (t, i) (Some (b, j)) = (if b \<le> t then Some (t, i) else Some (b, j))"

definition readable_times :: "(string \<Rightarrow> go_time option) \<Rightarrow> nat \<Rightarrow> string list \<Rightarrow> (go_time \<times> nat) list" where
  "readable_times lax i ss =
     List.map_filter (\<lambda>(j, s). map_option (\<lambda>t. (t, j)) (collected_at lax s)) (zip [i..<i + length ss] ss)"

lemma readable_times_Cons:
  "readable_times lax i (s # ss) =
     (case collected_at lax s of None \<Rightarrow> [] | Some t \<Rightarrow> [(t, i)]) @ readable_times lax (Suc i) ss"
proof -
  have "zip [i..<i + length (s # ss)] (s # ss) = (i, s) # zip [Suc i..<Suc i + length ss] ss"
    by (simp add: upt_conv_Cons del: upt_Suc)
  then show ?thesis
    by (simp add: readable_times_def List.map_filter_simps split: option.split)
qed

lemma newest_from_fold: "newest_from lax i ss best = fold later (readable_times lax i ss) best"
proof (induction ss arbitrary: i best)
  case Nil
  then show ?case by (simp add: readable_times_def List.map_filter_simps)
next
  case (Cons s ss)
  then show ?case by (auto simp: readable_times_Cons split: option.split)
qed

lemma set_readable_times:
  "(t, j) \<in> set (readable_times lax i ss) \<longleftrightarrow> i \<le> j \<and> j < i + length ss \<and> collected_at lax (ss ! (j - i)) = Some t"
proof (induction ss arbitrary: i j)
  case Nil
  then show ?case by (simp add: readable_times_def List.map_filter_simps)
next
  case (Cons s ss)
  show ?case
    by (cases "j = i") (auto simp: readable_times_Cons Cons.IH nth_Cons' Suc_diff_le split: option.split)
qed

lemma sorted_readable_times: "sorted_wrt (<) (map snd (readable_times lax i ss))"
proof (induction ss arbitrary: i)
  case Nil
  then show ?case by (simp add: readable_times_def List.map_filter_simps)
next
  case (Cons s ss)
  then show ?case by (auto simp: readable_times_Cons set_readable_times split: option.split)
qed

lemma fold_later:
  assumes "fold later xs best = Some (b, j)" "sorted_wrt (<) (map snd xs)"
    "\<And>b0 j0. best = Some (b0, j0) \<Longrightarrow> \<forall>p\<in>set xs. j0 < snd p"
  shows "((b, j) \<in> set xs \<or> best = Some (b, j)) \<and> (\<forall>(t, i)\<in>set xs. t < b \<or> t = b \<and> i \<le> j)
    \<and> (\<forall>b0 j0. best = Some (b0, j0) \<longrightarrow> b0 < b \<or> b0 = b \<and> j0 \<le> j)"
  using assms
proof (induction xs arbitrary: best)
  case (Cons p xs)
  obtain t i where p: "p = (t, i)" by (cases p)
  have "((b, j) \<in> set xs \<or> later p best = Some (b, j)) \<and> (\<forall>(t, i)\<in>set xs. t < b \<or> t = b \<and> i \<le> j)
    \<and> (\<forall>b0 j0. later p best = Some (b0, j0) \<longrightarrow> b0 < b \<or> b0 = b \<and> j0 \<le> j)"
    using Cons.prems p
    by (intro Cons.IH) (cases best; auto split: if_splits)+
  then show ?case
    using Cons.prems(3) p by (cases best) (auto split: if_splits)
qed auto

lemma fold_later_None: "fold later xs best = None \<longleftrightarrow> xs = [] \<and> best = None"
proof (induction xs arbitrary: best)
  case (Cons p xs)
  show ?case using Cons.IH [of "later p best"] by (cases p; cases best) (auto split: if_splits)
qed simp

end
