(* ===== verification/Push_Props.thy ===== *)
theory Push_Props
  imports Agent_Batch
begin

text \<open>The properties of a push: the batch that goes out and what is made of the answer.\<close>

section \<open>Trimming a batch\<close>

lemma length_trim_snapshots [simp]: "length (trim_snapshots lax ss) = length ss"
  by (simp add: trim_snapshots_def)

lemma trim_snapshots_nth:
  "i < length ss \<Longrightarrow> trim_snapshots lax ss ! i =
     (if length ss < 2 \<or> i = newest_index lax ss then ss ! i else trim_one (ss ! i))"
  by (simp add: trim_snapshots_def)

lemma newest_index_spec:
  assumes "i < length ss" "collected_at lax (ss ! i) = Some t"
  shows "\<exists>b. collected_at lax (ss ! newest_index lax ss) = Some b \<and> newest_index lax ss < length ss
    \<and> (t < b \<or> t = b \<and> i \<le> newest_index lax ss)"
proof -
  let ?xs = "readable_times lax 0 ss"
  have in_xs: "(t, i) \<in> set ?xs" using assms by (simp add: set_readable_times)
  then obtain b j where bj: "fold later ?xs None = Some (b, j)"
    using fold_later_None [of ?xs None] by (cases "fold later ?xs None") auto
  from fold_later [OF this sorted_readable_times] in_xs
  have "(b, j) \<in> set ?xs" "t < b \<or> t = b \<and> i \<le> j" by auto
  moreover have "newest_index lax ss = j" by (simp add: newest_index_def newest_from_fold bj)
  ultimately show ?thesis by (auto simp: set_readable_times)
qed

text \<open>
  A batch that is trimmed has the same readings in the same order; every field of a reading that is
  not a snapshot keeps its value (as it was, or with the escapes of HTML), the snapshots are gone from
  every reading but the newest, and the newest, by the time it was collected and then by its place, is
  untouched.
\<close>

theorem trimmed_batch_keeps_measurements:
  assumes "i < length ss" "2 \<le> length ss"
  shows "length (trim_snapshots lax ss) = length ss
    \<and> (k \<notin> set snapshot_fields \<longrightarrow> field_of (trim_snapshots lax ss ! i) k
        \<in> {field_of (ss ! i) k, map_option embed_json (field_of (ss ! i) k)})
    \<and> (k \<in> set snapshot_fields \<and> i \<noteq> newest_index lax ss \<longrightarrow> field_of (trim_snapshots lax ss ! i) k = None)
    \<and> (\<forall>t. collected_at lax (ss ! i) = Some t \<longrightarrow>
        trim_snapshots lax ss ! newest_index lax ss = ss ! newest_index lax ss
        \<and> (\<exists>b. collected_at lax (ss ! newest_index lax ss) = Some b
            \<and> (t < b \<or> t = b \<and> i \<le> newest_index lax ss)))"
proof -
  have nth: "trim_snapshots lax ss ! i = (if i = newest_index lax ss then ss ! i else trim_one (ss ! i))"
    using trim_snapshots_nth [OF assms(1), of lax] assms(2) by simp
  have newest: "trim_snapshots lax ss ! newest_index lax ss = ss ! newest_index lax ss"
    if "newest_index lax ss < length ss"
    using trim_snapshots_nth [OF that, of lax] by simp
  show ?thesis
    unfolding nth
    using trim_one_fields [of "ss ! i" k] newest_index_spec [OF assms(1), of lax] newest by auto
qed

definition two_readings :: "string list" where
  "two_readings =
     [''{\"collected_at\":\"2024-02-29T12:00:00Z\",\"load\":1,\"cron\":[]}'',
      ''{\"collected_at\":\"2024-02-29T11:59:00Z\",\"load\":2,\"cron\":[]}'']"

lemma trimmed_batch_keeps_measurements_witness:
  "field_of (trim_snapshots (\<lambda>_. None) two_readings ! 1) ''cron'' = None
    \<and> newest_index (\<lambda>_. None) two_readings = 0"
proof -
  have n: "newest_index (\<lambda>_. None) two_readings = 0" by code_simp
  then show ?thesis
    using trimmed_batch_keeps_measurements [of 1 two_readings "\<lambda>_. None" "''cron''"]
    by (simp add: two_readings_def snapshot_fields_def)
qed

section \<open>The request is read back\<close>

text \<open>A part of the request the agent built: well-formed, and not nested too deep to be embedded.\<close>

definition embeddable :: "json \<Rightarrow> bool" where
  "embeddable v = (wf_json v \<and> int (Suc (Suc (nesting v))) \<le> max_nesting)"

lemma embed_all_spec:
  "embed_all ss = Some vs \<Longrightarrow> vs = map (\<lambda>s. embed_json (the (parse_json s))) ss \<and> (\<forall>s\<in>set ss. parse_json s \<noteq> None)"
  by (induction ss arbitrary: vs) (auto split: option.splits)

lemma wf_object: "(\<And>k v. (k, v) \<in> set ms \<Longrightarrow> raw_string k \<and> wf_json v) \<Longrightarrow> wf_json (JObj ms)"
  by (auto simp: list_all_iff)

lemma nesting_object:
  "(\<And>k v. (k, v) \<in> set ms \<Longrightarrow> int (Suc (nesting v)) \<le> max_nesting) \<Longrightarrow> int (nesting (JObj ms)) \<le> max_nesting"
  using nesting_members_bound [of ms 0] by (auto simp: max_nesting_def)

lemma nesting_strings: "nesting (JObj (map (\<lambda>(k, v). (f k, JStr (g v))) m)) = 1"
  by (induction m) auto

lemma nesting_string: "nesting (JStr s) = 0"
  by simp

lemma raw_names [simp]:
  "raw_string ''samples''" "raw_string ''failed''" "raw_string ''agent_version''" "raw_string ''collectors''"
  "raw_string ''disk_usage''" "raw_string ''job_runs''" "raw_string ''journal''"
  by (simp_all add: raw_string_plain)

lemma collectors_wf: "wf_json (collectors_json c) \<and> nesting (collectors_json c) = 1"
  by (simp add: collectors_json_def raw_string_plain)

text \<open>
  C19: The body of a push, read as JSON, is the batch: the readings in order with their values (escaped for
  HTML), and which collectors are on, always.
\<close>

theorem request_reads_back:
  assumes body: "encode samples failed_part version usage job_runs journal_part c = Some body"
    and samples: "\<forall>s\<in>set samples. \<forall>v. parse_json s = Some v \<longrightarrow> embeddable v"
    and parts: "\<forall>v\<in>set_option usage \<union> set_option job_runs \<union> set_option journal_part. embeddable v"
  shows "\<exists>ms. parse_json body = Some (JObj ms)
    \<and> map_of ms ''samples'' = Some (JArr (map (\<lambda>s. embed_json (the (parse_json s))) samples))
    \<and> map_of ms ''collectors'' = Some (collectors_json c)"
proof -
  obtain vs where vs: "embed_all samples = Some vs"
    using body by (auto simp: encode_def envelope_def split: option.splits)
  note vs_spec = embed_all_spec [OF vs]
  define ms where "ms = [(''samples'', JArr vs)]
           @ (if failed_part = [] then []
              else [(''failed'', JObj (map (\<lambda>(k, v). (quote_json k, JStr (quote_json v))) failed_part))])
           @ (if version = [] then [] else [(''agent_version'', JStr (quote_json version))])
           @ [(''collectors'', collectors_json c)]
           @ optional ''disk_usage'' usage @ optional ''job_runs'' job_runs @ optional ''journal'' journal_part"
  have b: "body = print_json (JObj ms)"
    using body vs by (simp add: encode_def envelope_def ms_def)
  have emb: "\<forall>v\<in>set vs. wf_json v \<and> int (Suc (Suc (nesting v))) \<le> max_nesting"
    using vs_spec samples by (auto simp: embeddable_def wf_embed)
  have "wf_json (JArr vs)" "int (Suc (nesting (JArr vs))) \<le> max_nesting"
    using emb nesting_list_bound [of vs 1] by (auto simp: list_all_iff max_nesting_def)
  then have all: "raw_string k \<and> wf_json v \<and> int (Suc (nesting v)) \<le> max_nesting" if "(k, v) \<in> set ms" for k v
    using that parts
    unfolding ms_def
    by (auto simp: optional_def embeddable_def collectors_wf raw_string_quote nesting_strings nesting_string list_all_iff
        max_nesting_def split: if_splits option.splits simp del: nesting.simps)
  have "parse_json body = Some (JObj ms)"
    unfolding b using all by (intro parse_print wf_object nesting_object) blast+
  moreover have "map_of ms ''samples'' = Some (JArr vs)" "map_of ms ''collectors'' = Some (collectors_json c)"
    by (auto simp: ms_def)
  ultimately show ?thesis using vs_spec by auto
qed

lemma request_reads_back_witness:
  "\<exists>body ms. encode [''{\"load\":1}''] [] ''1.0'' None None None
      \<lparr>on_processes = True, on_process_args = False, on_services = True, on_renewers = True,
       on_listening = True, on_cron = True, on_job_reports = False\<rparr> = Some body
    \<and> parse_json body = Some (JObj ms) \<and> map_of ms ''samples'' = Some (JArr [JObj [(''load'', JNum ''1'')]])"
proof -
  let ?c = "\<lparr>on_processes = True, on_process_args = False, on_services = True, on_renewers = True,
       on_listening = True, on_cron = True, on_job_reports = False\<rparr>"
  have p: "parse_json ''{\"load\":1}'' = Some (JObj [(''load'', JNum ''1'')])" by code_simp
  have e: "embed_json (JObj [(''load'', JNum ''1'')]) = JObj [(''load'', JNum ''1'')]" by code_simp
  have wf: "embeddable (JObj [(''load'', JNum ''1'')])"
    using parse_json_wf [OF p] by (simp add: embeddable_def max_nesting_def)
  obtain body where b: "encode [''{\"load\":1}''] [] ''1.0'' None None None ?c = Some body"
    by (simp add: encode_def envelope_def p)
  have "\<exists>ms. parse_json body = Some (JObj ms)
    \<and> map_of ms ''samples'' = Some (JArr (map (\<lambda>s. embed_json (the (parse_json s))) [''{\"load\":1}'']))
    \<and> map_of ms ''collectors'' = Some (collectors_json ?c)"
    by (rule request_reads_back [OF b]) (simp_all add: p wf)
  then show ?thesis using b by (auto simp: p e simp del: embed_json.simps)
qed

text \<open>
  What is logged of the server's message is one line of at most 203 bytes, and never empty.
\<close>

theorem logged_message_is_one_line:
  "first_line s \<noteq> [] \<and> length (first_line s) \<le> 203 \<and> CHR 0x0A \<notin> set (first_line s) \<and> CHR 0x0D \<notin> set (first_line s)"
proof -
  define t where "t = takeWhile (\<lambda>c. c \<noteq> CHR 0x0D \<and> c \<noteq> CHR 0x0A) (trim_space s)"
  have "CHR 0x0A \<notin> set t" "CHR 0x0D \<notin> set t"
    unfolding t_def by (auto dest: set_takeWhileD)
  moreover from this have "CHR 0x0A \<notin> set (take 200 t)" "CHR 0x0D \<notin> set (take 200 t)"
    by (auto dest: in_set_takeD)
  moreover have "first_line s = (if t = [] then ''(no message)''
      else if 200 < length t then take 200 t @ [CHR 0xE2, CHR 0x80, CHR 0xA6] else t)"
    by (simp add: first_line_def Let_def t_def)
  ultimately show ?thesis by (cases "t = []"; cases "200 < length t") simp_all
qed

end
