(* ===== verification/Sample.thy ===== *)
theory Sample
  imports Complex_Main Go_Utf8
begin

text \<open>
  The parts of a reading the rest of the agent looks into, \<^verbatim>\<open>internal/collect/sample.go\<close>: mounts,
  service units and processes. A pointer field of the code is an \<open>option\<close> here: \<^verbatim>\<open>nil\<close>, which is
  not measured, is \<open>None\<close>.
\<close>

record package =
  pk_name :: string
  pk_version :: string
  pk_description :: string
  pk_source :: string
  pk_match :: string
  pk_priority :: string
  pk_section :: string

record mount =
  mount_point :: string
  device :: string
  used_bytes :: int
  total_bytes :: int
  inodes_used :: "int option"
  inodes_total :: "int option"
  mount_disks :: "string list"

record service =
  sv_unit :: string
  sv_description :: string
  sv_active_state :: string
  sv_sub_state :: string
  sv_changed :: "go_time option"
  sv_restarts :: "64 word option"
  sv_memory :: "64 word option"
  sv_result :: string
  sv_main_code :: "int option"
  sv_main_status :: "int option"
  sv_last_trigger :: "go_time option"
  sv_next_elapse :: "go_time option"
  sv_pid :: int
  sv_package :: "package option"
  sv_local :: "bool option"
  sv_object_path :: string
  sv_fragment :: string

record process =
  p_command :: string
  p_cpu :: "rat option"
  p_memory :: "int option"
  p_pid :: int
  p_started :: "go_time option"
  p_unit :: string
  p_container :: string
  p_package :: "package option"
  p_services :: "string list"

definition blank_service :: "string \<Rightarrow> service" where
  "blank_service u = \<lparr>sv_unit = u, sv_description = [], sv_active_state = [], sv_sub_state = [],
     sv_changed = None, sv_restarts = None, sv_memory = None, sv_result = [], sv_main_code = None,
     sv_main_status = None, sv_last_trigger = None, sv_next_elapse = None, sv_pid = 0,
     sv_package = None, sv_local = None, sv_object_path = [], sv_fragment = []\<rparr>"

text \<open>\<open>Sample.fail\<close>: the map of collectors that failed, each with its reason.\<close>

definition max_fail_reason :: nat where
  "max_fail_reason = 255"

definition fail_collector :: "string \<Rightarrow> string \<Rightarrow> (string \<rightharpoonup> string) \<Rightarrow> (string \<rightharpoonup> string)" where
  "fail_collector collector err m = m(collector \<mapsto> clip err max_fail_reason)"

end
