(* ===== verification/Agent_Journal.thy ===== *)
theory Agent_Journal
  imports Journal_Query Go_Time Sample
begin

text \<open>
  The journal watch of the run loop, \<^verbatim>\<open>internal/agent/journal.go\<close>: which unit's last lines and which
  hours' counts wait for a push. The maps of the code are partial functions, its lists are lists. The
  functions the runner is given for reading the journal are arguments.
\<close>

named_theorems watch_simps \<open>unfolding rules of the journal watch\<close>

section \<open>The state\<close>

definition max_reads_per_tick :: nat where "max_reads_per_tick = 5"
definition max_journal_events :: nat where "max_journal_events = 10"
definition max_journal_hours :: nat where "max_journal_hours = 6"
definition loop_restarts :: nat where "loop_restarts = 3"
definition loop_quiet :: int where "loop_quiet = 6 * 3600 * second_ns"
definition journal_look_back :: int where "journal_look_back = 3600 * second_ns"

definition a_day :: int where "a_day = 24 * 3600 * second_ns"
definition a_minute :: int where "a_minute = 60 * second_ns"

datatype event_kind = Unit_Failed | Oom_Kill | Restart_Loop

record journal_event =
  ev_unit :: string
  ev_kind :: event_kind
  ev_at :: go_time
  ev_lines :: "line list"
  ev_compressed :: nat
  ev_truncated :: bool
  ev_withheld :: string

text \<open>\<^verbatim>\<open>journal.Status\<close>; the reason of a watch that has not asked yet is empty.\<close>

record journal_status =
  st_readable :: bool
  st_reason :: string

fun reason_word :: "reason \<Rightarrow> string" where
  "reason_word ReasonOK = ''ok''"
| "reason_word ReasonNoPermission = ''no_permission''"
| "reason_word ReasonNoJournal = ''no_journal''"
| "reason_word ReasonUnknownFormat = ''unknown_format''"

definition status_of :: "reason \<Rightarrow> journal_status" where
  "status_of r = \<lparr>st_readable = (r = ReasonOK), st_reason = reason_word r\<rparr>"

record journal_payload =
  jp_readable :: bool
  jp_reason :: string
  jp_events :: "journal_event list"
  jp_hours :: "hour_counts list"

record journal_watch =
  wa_status :: journal_status
  wa_failed :: "string \<rightharpoonup> go_time"
  wa_restarts :: "string \<rightharpoonup> 64 word"
  wa_times :: "string \<rightharpoonup> go_time list"
  wa_loop_sent :: "string \<rightharpoonup> go_time"
  wa_events :: "journal_event list"
  wa_hours :: "hour_counts list"
  wa_counted :: go_time

definition new_watch :: journal_watch where
  "new_watch = \<lparr>wa_status = \<lparr>st_readable = False, st_reason = []\<rparr>, wa_failed = Map.empty,
     wa_restarts = Map.empty, wa_times = Map.empty, wa_loop_sent = Map.empty, wa_events = [],
     wa_hours = [], wa_counted = zero_time\<rparr>"

text \<open>\<open>journalWatcher\<close>: made on first use, and none where there is no journal.\<close>

definition journal_watcher :: "bool \<Rightarrow> journal_watch option \<Rightarrow> journal_watch option" where
  "journal_watcher has_journal w =
     (if \<not> has_journal then None else case w of None \<Rightarrow> Some new_watch | Some _ \<Rightarrow> w)"

text \<open>\<open>journalStatus\<close>, given what looking at the journal now says.\<close>

definition journal_status_now :: "bool \<Rightarrow> journal_status \<Rightarrow> journal_status" where
  "journal_status_now enabled checked =
     (if enabled then checked else \<lparr>st_readable = False, st_reason = ''off''\<rparr>)"

section \<open>What is worth a unit's last lines\<close>

record due =
  due_unit :: string
  due_event :: event_kind
  due_at :: go_time

text \<open>A map looked up as Go does, a missing key giving the zero value.\<close>

definition or_zero :: "'a option \<Rightarrow> 'a \<Rightarrow> 'a" where
  "or_zero m z = (case m of None \<Rightarrow> z | Some x \<Rightarrow> x)"

text \<open>The first half of a round of the loop: a failure is due when its moment is not the one already told.\<close>

definition watch_failure :: "go_time \<Rightarrow> service \<Rightarrow> journal_watch \<Rightarrow> journal_watch \<times> due list" where
  "watch_failure now s w =
     (if sv_active_state s = ''failed''
      then (let since = or_zero (sv_changed s) zero_time in
        if wa_failed w (sv_unit s) \<noteq> Some since
        then (w\<lparr>wa_failed := (wa_failed w)(sv_unit s \<mapsto> since)\<rparr>,
              [\<lparr>due_unit = sv_unit s,
                due_event = (if sv_result s = ''oom-kill'' then Oom_Kill else Unit_Failed),
                due_at = (if since = zero_time then now else since)\<rparr>])
        else (w, []))
      else (w\<lparr>wa_failed := (wa_failed w)(sv_unit s := None)\<rparr>, []))"

text \<open>The second half: the restarts of the last day, from the unit's counter.\<close>

definition new_restarts :: "64 word option \<Rightarrow> 64 word \<Rightarrow> nat" where
  "new_restarts was n =
     (case was of Some m \<Rightarrow> if m < n then min loop_restarts (unat (n - m)) else 0 | None \<Rightarrow> 0)"

definition recent_restarts :: "go_time \<Rightarrow> 64 word \<Rightarrow> string \<Rightarrow> journal_watch \<Rightarrow> go_time list" where
  "recent_restarts now n u w =
     filter (\<lambda>t. time_sub now t < a_day)
       (or_zero (wa_times w u) [] @ replicate (new_restarts (wa_restarts w u) n) now)"

definition watch_restarts :: "go_time \<Rightarrow> service \<Rightarrow> journal_watch \<Rightarrow> journal_watch \<times> due list" where
  "watch_restarts now s w =
     (case sv_restarts s of None \<Rightarrow> (w, [])
      | Some n \<Rightarrow>
        (let u = sv_unit s;
             recent = recent_restarts now n u w;
             w = w\<lparr>wa_restarts := (wa_restarts w)(u \<mapsto> n), wa_times := (wa_times w)(u \<mapsto> recent)\<rparr>
         in if loop_restarts \<le> length recent
              \<and> loop_quiet \<le> time_sub now (or_zero (wa_loop_sent w u) zero_time)
            then (w\<lparr>wa_loop_sent := (wa_loop_sent w)(u \<mapsto> now)\<rparr>,
                  [\<lparr>due_unit = u, due_event = Restart_Loop, due_at = now\<rparr>])
            else (w, [])))"

text \<open>The loop over the units; what is due comes in the order of the units.\<close>

fun watch_units :: "go_time \<Rightarrow> service list \<Rightarrow> journal_watch \<Rightarrow> journal_watch \<times> due list" where
  "watch_units now [] w = (w, [])"
| "watch_units now (s # ss) w =
     (if \<not> has_suffix (sv_unit s) ''.service'' then watch_units now ss w
      else
        (let (w, failures) = watch_failure now s w;
             (w, loops) = watch_restarts now s w;
             (w, more) = watch_units now ss w
         in (w, failures @ loops @ more)))"

definition seen_units :: "service list \<Rightarrow> string list" where
  "seen_units ss = filter (\<lambda>u. has_suffix u ''.service'') (map sv_unit ss)"

text \<open>A unit that left the watch set is forgotten; three of the maps go by the keys of \<open>wa_restarts\<close>.\<close>

definition forget_units :: "string list \<Rightarrow> journal_watch \<Rightarrow> journal_watch" where
  "forget_units seen w =
     (let gone = (\<lambda>u. wa_restarts w u \<noteq> None \<and> u \<notin> set seen)
      in w\<lparr>wa_restarts := (\<lambda>u. if gone u then None else wa_restarts w u),
           wa_times := (\<lambda>u. if gone u then None else wa_times w u),
           wa_loop_sent := (\<lambda>u. if gone u then None else wa_loop_sent w u),
           wa_failed := (\<lambda>u. if u \<in> set seen then wa_failed w u else None)\<rparr>)"

text \<open>The event of one unit, with its lines unless it is a login service.\<close>

definition event_of :: "(string \<Rightarrow> go_time \<Rightarrow> go_time \<Rightarrow> snippet) \<Rightarrow> due \<Rightarrow> journal_event" where
  "event_of lines_of d =
     (let s = (if is_login (due_unit d)
               then \<lparr>s_lines = [], s_compressed = 0, s_truncated = False, s_withheld = ''login''\<rparr>
               else lines_of (due_unit d) (due_at d - journal_look_back) (due_at d + a_minute))
      in \<lparr>ev_unit = reported (due_unit d), ev_kind = due_event d, ev_at = due_at d, ev_lines = s_lines s,
          ev_compressed = s_compressed s, ev_truncated = s_truncated s, ev_withheld = s_withheld s\<rparr>)"

definition observe_units ::
  "(string \<Rightarrow> go_time \<Rightarrow> go_time \<Rightarrow> snippet) \<Rightarrow> go_time \<Rightarrow> service list \<Rightarrow> journal_watch \<Rightarrow> journal_watch" where
  "observe_units lines_of now ss w =
     (let (w, found) = watch_units now ss w;
          w = forget_units (seen_units ss) w
      in if \<not> st_readable (wa_status w) then w
         else w\<lparr>wa_events := last_n max_journal_events
                  (wa_events w @ map (event_of lines_of) (take max_reads_per_tick found))\<rparr>)"

text \<open>\<open>observeJournal\<close>; no services at all, rather than an empty list, is \<open>None\<close>.\<close>

definition observe_journal ::
  "bool \<Rightarrow> journal_status \<Rightarrow> (string \<Rightarrow> go_time \<Rightarrow> go_time \<Rightarrow> snippet) \<Rightarrow> go_time \<Rightarrow> service list option
     \<Rightarrow> journal_watch option \<Rightarrow> journal_watch option" where
  "observe_journal has_journal status lines_of now ss w =
     (case journal_watcher has_journal w of None \<Rightarrow> w
      | Some w \<Rightarrow>
        (let w = w\<lparr>wa_status := status\<rparr> in
         case ss of None \<Rightarrow> Some w | Some ss \<Rightarrow> Some (observe_units lines_of now ss w)))"

section \<open>What a push carries\<close>

text \<open>The hour that ended last: \<^verbatim>\<open>Truncate\<close> counts from the first instant of year 1, a whole hour.\<close>

definition ended_hour :: "go_time \<Rightarrow> go_time" where
  "ended_hour now = now - now mod hour_ns - hour_ns"

definition count_ended_hour :: "(go_time \<Rightarrow> hour_counts) \<Rightarrow> go_time \<Rightarrow> journal_watch \<Rightarrow> journal_watch" where
  "count_ended_hour count now w =
     (let hour = ended_hour now in
      if wa_counted w < hour
      then w\<lparr>wa_hours := last_n max_journal_hours (wa_hours w @ [count hour]), wa_counted := hour\<rparr>
      else w)"

definition journal_for_push ::
  "bool \<Rightarrow> journal_status \<Rightarrow> (go_time \<Rightarrow> hour_counts) \<Rightarrow> go_time \<Rightarrow> journal_watch option
     \<Rightarrow> journal_payload option \<times> journal_watch option" where
  "journal_for_push has_journal status count now w =
     (case journal_watcher has_journal w of None \<Rightarrow> (None, w)
      | Some w \<Rightarrow>
        (let w = (if st_reason (wa_status w) = [] then w\<lparr>wa_status := status\<rparr> else w);
             w = (if st_readable (wa_status w) then count_ended_hour count now w else w)
         in (Some \<lparr>jp_readable = st_readable (wa_status w), jp_reason = st_reason (wa_status w),
               jp_events = wa_events w, jp_hours = wa_hours w\<rparr>, Some w)))"

definition journal_delivered :: "journal_watch option \<Rightarrow> journal_watch option" where
  "journal_delivered w = map_option (\<lambda>w. w\<lparr>wa_events := [], wa_hours := []\<rparr>) w"

end
