(* ===== verification/Agent_Journal_Props.thy ===== *)
theory Agent_Journal_Props
  imports Agent_Journal
begin

text \<open>
  What the journal watch promises: a failure or a restart loop is due once, per unit and
  independently of the other units; what waits for a push is bounded, its hours are in order, and it
  says nothing of a login.
\<close>

section \<open>Each unit on its own\<close>

definition failure_moment :: "service \<Rightarrow> go_time" where
  "failure_moment s = or_zero (sv_changed s) zero_time"

definition new_failure :: "journal_watch \<Rightarrow> service \<Rightarrow> bool" where
  "new_failure w s =
     (sv_active_state s = ''failed'' \<and> wa_failed w (sv_unit s) \<noteq> Some (failure_moment s))"

definition failure_due :: "go_time \<Rightarrow> service \<Rightarrow> due" where
  "failure_due now s = \<lparr>due_unit = sv_unit s,
     due_event = (if sv_result s = ''oom-kill'' then Oom_Kill else Unit_Failed),
     due_at = (if failure_moment s = zero_time then now else failure_moment s)\<rparr>"

definition new_loop :: "go_time \<Rightarrow> journal_watch \<Rightarrow> service \<Rightarrow> bool" where
  "new_loop now w s =
     (case sv_restarts s of None \<Rightarrow> False
      | Some n \<Rightarrow> loop_restarts \<le> length (recent_restarts now n (sv_unit s) w)
          \<and> loop_quiet \<le> time_sub now (or_zero (wa_loop_sent w (sv_unit s)) zero_time))"

definition unit_due :: "go_time \<Rightarrow> journal_watch \<Rightarrow> service \<Rightarrow> due list" where
  "unit_due now w s =
     (if new_failure w s then [failure_due now s] else [])
     @ (if new_loop now w s then [\<lparr>due_unit = sv_unit s, due_event = Restart_Loop, due_at = now\<rparr>] else [])"

text \<open>Two watches that remember the same of a unit.\<close>

definition same_unit :: "string \<Rightarrow> journal_watch \<Rightarrow> journal_watch \<Rightarrow> bool" where
  "same_unit u v w = (wa_failed v u = wa_failed w u \<and> wa_restarts v u = wa_restarts w u
     \<and> wa_times v u = wa_times w u \<and> wa_loop_sent v u = wa_loop_sent w u)"

lemma same_unit_refl [simp]: "same_unit u w w"
  by (simp add: same_unit_def)

lemma unit_due_same: "same_unit (sv_unit s) v w \<Longrightarrow> unit_due now v s = unit_due now w s"
  by (simp add: unit_due_def new_failure_def new_loop_def same_unit_def recent_restarts_def split: option.splits)

lemma watch_failure_spec:
  "watch_failure now s w = (w', ds) \<Longrightarrow>
     ds = (if new_failure w s then [failure_due now s] else [])
     \<and> (\<forall>u. u \<noteq> sv_unit s \<longrightarrow> same_unit u w' w)
     \<and> wa_failed w' = (wa_failed w)(sv_unit s :=
         if sv_active_state s = ''failed'' then Some (failure_moment s) else None)
     \<and> wa_restarts w' = wa_restarts w \<and> wa_times w' = wa_times w \<and> wa_loop_sent w' = wa_loop_sent w
     \<and> wa_events w' = wa_events w \<and> wa_status w' = wa_status w
     \<and> wa_hours w' = wa_hours w \<and> wa_counted w' = wa_counted w"
  by (auto simp: watch_failure_def new_failure_def failure_due_def failure_moment_def same_unit_def Let_def
      fun_eq_iff split: if_splits)

lemma watch_restarts_spec:
  "watch_restarts now s w = (w', ds) \<Longrightarrow>
     ds = (if new_loop now w s then [\<lparr>due_unit = sv_unit s, due_event = Restart_Loop, due_at = now\<rparr>] else [])
     \<and> (\<forall>u. u \<noteq> sv_unit s \<longrightarrow> same_unit u w' w)
     \<and> wa_failed w' = wa_failed w
     \<and> wa_loop_sent w' (sv_unit s) = (if new_loop now w s then Some now else wa_loop_sent w (sv_unit s))
     \<and> wa_events w' = wa_events w \<and> wa_status w' = wa_status w
     \<and> wa_hours w' = wa_hours w \<and> wa_counted w' = wa_counted w"
  by (auto simp: watch_restarts_def new_loop_def same_unit_def Let_def split: option.splits if_splits)

definition services_of :: "service list \<Rightarrow> service list" where
  "services_of ss = filter (\<lambda>s. has_suffix (sv_unit s) ''.service'') ss"

lemma watch_units_spec:
  assumes "distinct (map sv_unit ss)" "watch_units now ss w = (w', ds)"
  shows "ds = concat (map (unit_due now w) (services_of ss))
    \<and> (\<forall>u. u \<notin> set (seen_units ss) \<longrightarrow> same_unit u w' w)
    \<and> (\<forall>s\<in>set (services_of ss). wa_failed w' (sv_unit s) =
         (if sv_active_state s = ''failed'' then Some (failure_moment s) else None))
    \<and> wa_events w' = wa_events w \<and> wa_status w' = wa_status w
    \<and> wa_hours w' = wa_hours w \<and> wa_counted w' = wa_counted w"
  using assms
proof (induction ss arbitrary: w ds)
  case Nil
  then show ?case by (simp add: services_of_def)
next
  case (Cons s ss)
  show ?case
  proof (cases "has_suffix (sv_unit s) ''.service''")
    case False
    then show ?thesis using Cons by (auto simp: services_of_def seen_units_def)
  next
    case True
    obtain w1 fs where f: "watch_failure now s w = (w1, fs)" by force
    obtain w2 ls where l: "watch_restarts now s w1 = (w2, ls)" by force
    obtain ms where m: "watch_units now ss w2 = (w', ms)" "ds = fs @ ls @ ms"
      using Cons.prems True f l by (auto split: prod.splits)
    note fspec = watch_failure_spec [OF f] and lspec = watch_restarts_spec [OF l]
    have away: "\<forall>t\<in>set ss. sv_unit t \<noteq> sv_unit s" using Cons.prems(1) by (metis distinct.simps(2) imageI list.set_map list.simps(9))
    have keep: "u \<noteq> sv_unit s \<Longrightarrow> same_unit u w2 w" for u
      using fspec lspec unfolding same_unit_def by metis
    have loop: "new_loop now w1 s = new_loop now w s"
      using fspec by (simp add: new_loop_def recent_restarts_def split: option.splits)
    have rest: "map (unit_due now w2) (services_of ss) = map (unit_due now w) (services_of ss)"
      using away keep by (intro map_cong refl unit_due_same) (auto simp: services_of_def)
    note ih = Cons.IH [OF _ m(1)]
    have "sv_unit s \<notin> set (seen_units ss)" using away by (auto simp: seen_units_def)
    then have own: "same_unit (sv_unit s) w' w2" using ih Cons.prems by simp
    have seen: "set (seen_units (s # ss)) = insert (sv_unit s) (set (seen_units ss))"
      using True by (auto simp: seen_units_def)
    have "unit_due now w s = fs @ ls" using fspec lspec loop by (simp add: unit_due_def)
    moreover have "ms = concat (map (unit_due now w) (services_of ss))"
      using ih Cons.prems(1) unfolding rest by simp
    ultimately have "ds = unit_due now w s @ concat (map (unit_due now w) (services_of ss))"
      using m(2) by simp
    moreover have "\<forall>u. u \<notin> set (seen_units (s # ss)) \<longrightarrow> same_unit u w' w"
      using ih Cons.prems keep unfolding seen same_unit_def by (metis distinct.simps(2) insertCI list.simps(9))
    moreover have "wa_failed w' (sv_unit s) =
        (if sv_active_state s = ''failed'' then Some (failure_moment s) else None)"
      using own fspec lspec by (simp add: same_unit_def)
    ultimately show ?thesis
      using True ih Cons.prems fspec lspec by (simp add: services_of_def)
  qed
qed

lemma forget_units_fields:
  "wa_events (forget_units seen w) = wa_events w" "wa_status (forget_units seen w) = wa_status w"
  "wa_hours (forget_units seen w) = wa_hours w" "wa_counted (forget_units seen w) = wa_counted w"
  "wa_failed (forget_units seen w) u = (if u \<in> set seen then wa_failed w u else None)"
  by (simp_all add: forget_units_def Let_def)

lemma seen_services: "u \<in> set (seen_units ss) \<longleftrightarrow> (\<exists>s\<in>set (services_of ss). sv_unit s = u)"
  by (auto simp: seen_units_def services_of_def)

lemma observe_units_spec:
  assumes "distinct (map sv_unit ss)"
  shows "wa_events (observe_units lines_of now ss w) =
      (if st_readable (wa_status w)
       then last_n max_journal_events (wa_events w
         @ map (event_of lines_of) (take max_reads_per_tick (concat (map (unit_due now w) (services_of ss)))))
       else wa_events w)
    \<and> (\<forall>s\<in>set (services_of ss). wa_failed (observe_units lines_of now ss w) (sv_unit s) =
         (if sv_active_state s = ''failed'' then Some (failure_moment s) else None))
    \<and> wa_status (observe_units lines_of now ss w) = wa_status w"
proof -
  obtain w' ds where u: "watch_units now ss w = (w', ds)" by force
  note spec = watch_units_spec [OF assms u]
  show ?thesis
    using spec seen_services [of _ ss] by (auto simp: observe_units_def u Let_def forget_units_fields)
qed

lemma failures_facts:
  "distinct (map sv_unit ss) \<Longrightarrow>
     \<forall>s\<in>set (services_of ss). \<not> new_failure (observe_units lines_of now ss w) s"
  using observe_units_spec [of ss lines_of now w] by (auto simp: new_failure_def split: if_splits)


text \<open>
  Of the failures of one collection only five are ever told: the others are remembered as told
  already, so the collections after do not tell them.
\<close>

theorem failures_past_five_are_dropped:
  fixes lines_of :: "string \<Rightarrow> go_time \<Rightarrow> go_time \<Rightarrow> snippet" and now :: go_time
  assumes "distinct (map sv_unit ss)" "\<forall>s\<in>set ss. sv_restarts s = None"
    "st_readable (wa_status w)" "\<forall>s\<in>set (services_of ss). new_failure w s"
  defines "once \<equiv> observe_units lines_of now ss w"
  shows "wa_events once = last_n max_journal_events
      (wa_events w @ map (event_of lines_of) (map (failure_due now) (take max_reads_per_tick (services_of ss))))
    \<and> wa_events (observe_units lines_of later ss once) = last_n max_journal_events (wa_events once)"
proof -
  have quiet: "\<not> new_loop t v s" if "s \<in> set (services_of ss)" for t v s
    using that assms(2) by (auto simp: new_loop_def services_of_def split: option.splits)
  have one: "map (unit_due now w) (services_of ss) = map (\<lambda>s. [failure_due now s]) (services_of ss)"
    using assms(4) quiet by (intro map_cong) (auto simp: unit_due_def)
  have told: "\<not> new_failure once s" if "s \<in> set (services_of ss)" for s
    using failures_facts [OF assms(1)] that unfolding once_def by blast
  have none: "concat (map (unit_due later once) (services_of ss)) = []"
    using quiet told by (auto simp: unit_due_def)
  show ?thesis
    using observe_units_spec [OF assms(1), of lines_of later once]
      observe_units_spec [OF assms(1), of lines_of now w] assms(3)
    by (simp add: one none once_def [symmetric] concat_map_singleton take_map)
qed

text \<open>A machine of six units that all failed, seen by a watch that was never asked.\<close>

definition failed_unit :: "char \<Rightarrow> service" where
  "failed_unit c = (blank_service ([c] @ ''.service''))\<lparr>sv_active_state := ''failed'', sv_changed := Some 7\<rparr>"

definition no_lines :: snippet where
  "no_lines = \<lparr>s_lines = [], s_compressed = 0, s_truncated = False, s_withheld = []\<rparr>"

definition readable_watch :: journal_watch where
  "readable_watch = new_watch\<lparr>wa_status := \<lparr>st_readable = True, st_reason = ''ok''\<rparr>\<rparr>"


theorem failures_past_five_are_dropped_witness:
  "map ev_unit (wa_events (observe_units (\<lambda>_ _ _. no_lines) 10 (map failed_unit ''abcdef'')
      (observe_units (\<lambda>_ _ _. no_lines) 9 (map failed_unit ''abcdef'') readable_watch)))
    = map (\<lambda>c. [c] @ ''.service'') ''abcde''"
proof -
  have "distinct (map sv_unit (map failed_unit ''abcdef''))"
    "\<forall>s\<in>set (map failed_unit ''abcdef''). sv_restarts s = None"
    "st_readable (wa_status readable_watch)"
    "\<forall>s\<in>set (services_of (map failed_unit ''abcdef'')). new_failure readable_watch s"
    by code_simp+
  note dropped = failures_past_five_are_dropped [OF this, of "\<lambda>_ _ _. no_lines" 9 10]
  have "wa_events (observe_units (\<lambda>_ _ _. no_lines) 9 (map failed_unit ''abcdef'') readable_watch)
      = map (\<lambda>c. \<lparr>ev_unit = [c] @ ''.service'', ev_kind = Unit_Failed, ev_at = 7, ev_lines = [],
          ev_compressed = 0, ev_truncated = False, ev_withheld = []\<rparr>) ''abcde''"
    unfolding conjunct1 [OF dropped] by code_simp
  then show ?thesis
    unfolding conjunct2 [OF dropped] by (simp add: max_journal_events_def last_n_def)
qed

section \<open>What waits for a push\<close>

text \<open>
  The watch after any number of collections and pushes, the pushes landing or not. A count of an
  hour is a count of that hour.
\<close>

inductive watched :: "journal_watch option \<Rightarrow> bool" where
  fresh: "watched None"
| collected: "watched w \<Longrightarrow> watched (observe_journal has_journal status lines_of now ss w)"
| pushed: "watched w \<Longrightarrow> \<forall>h. h_hour (count h) = h \<Longrightarrow>
    watched (snd (journal_for_push has_journal status count now w))"
| landed: "watched w \<Longrightarrow> watched (journal_delivered w)"

definition event_private :: "journal_event \<Rightarrow> bool" where
  "event_private e = (\<not> is_instance (ev_unit e)
     \<and> (is_login (ev_unit e) \<longrightarrow> ev_lines e = [] \<and> ev_withheld e = ''login''))"

definition watch_ok :: "journal_watch \<Rightarrow> bool" where
  "watch_ok w = (length (wa_events w) \<le> 10 \<and> length (wa_hours w) \<le> 6
     \<and> list_all event_private (wa_events w)
     \<and> sorted_wrt (<) (map h_hour (wa_hours w)) \<and> (\<forall>h\<in>set (wa_hours w). h_hour h \<le> wa_counted w))"

lemma event_of_private: "event_private (event_of lines_of d)"
proof (cases "is_instance (due_unit d)")
  case True
  then have "is_login (due_unit d)" by (auto simp: is_instance_def split: option.splits)
  then show ?thesis
    using reported_facts(3) [OF True] by (simp add: event_private_def event_of_def Let_def)
next
  case False
  then show ?thesis by (simp add: event_private_def event_of_def Let_def reported_def)
qed

lemma watch_units_keeps:
  "watch_units now ss w = (w', ds) \<Longrightarrow>
     wa_events w' = wa_events w \<and> wa_hours w' = wa_hours w \<and> wa_counted w' = wa_counted w"
proof (induction ss arbitrary: w ds)
  case (Cons s ss)
  obtain w1 fs where f: "watch_failure now s w = (w1, fs)" by force
  obtain w2 ls where l: "watch_restarts now s w1 = (w2, ls)" by force
  show ?case
    using Cons watch_failure_spec [OF f] watch_restarts_spec [OF l] f l
    by (auto split: if_splits prod.splits)
qed simp

lemma observe_units_ok:
  assumes "watch_ok w"
  shows "watch_ok (observe_units lines_of now ss w)"
proof -
  obtain w' ds where u: "watch_units now ss w = (w', ds)" by force
  have "list_all event_private (last_n max_journal_events
      (wa_events w @ map (event_of lines_of) (take max_reads_per_tick ds)))"
    using assms set_last_n_subset event_of_private by (fastforce simp: watch_ok_def list_all_iff)
  then show ?thesis
    using assms watch_units_keeps [OF u]
    by (simp add: observe_units_def u Let_def watch_ok_def forget_units_fields max_journal_events_def)
qed

lemma count_ended_hour_ok:
  assumes "watch_ok w" "\<forall>h. h_hour (count h) = h"
  shows "watch_ok (count_ended_hour count now w)"
proof (cases "wa_counted w < ended_hour now")
  case True
  let ?hs = "wa_hours w @ [count (ended_hour now)]"
  have "sorted_wrt (<) (map h_hour ?hs)"
    using assms True by (force simp: watch_ok_def sorted_wrt_append)
  then have "sorted_wrt (<) (map h_hour (last_n max_journal_hours ?hs))"
    unfolding last_n_def drop_map [symmetric] by (rule sorted_wrt_drop)
  moreover have "\<forall>h\<in>set (last_n max_journal_hours ?hs). h_hour h \<le> ended_hour now"
    using assms True set_last_n_subset [of max_journal_hours ?hs] by (force simp: watch_ok_def)
  ultimately show ?thesis
    using assms(1) True by (simp add: count_ended_hour_def Let_def watch_ok_def max_journal_hours_def)
qed (use assms(1) in \<open>simp add: count_ended_hour_def Let_def\<close>)

lemma new_watch_ok: "watch_ok new_watch"
  by (simp add: watch_ok_def new_watch_def)

lemma watch_ok_status: "watch_ok (w\<lparr>wa_status := st\<rparr>) = watch_ok w"
  by (simp add: watch_ok_def)

lemma journal_watcher_ok:
  "pred_option watch_ok w \<Longrightarrow> pred_option watch_ok (journal_watcher has_journal w)"
  by (cases w) (simp_all add: journal_watcher_def new_watch_ok)

text \<open>
  C5: Whatever was collected and pushed, at most ten events and six hours wait, the hours in strict
  order, and no event names a login connection or carries the lines of a login service.
\<close>

theorem waiting_events_are_private:
  assumes "watched (Some w)"
  shows "length (wa_events w) \<le> 10 \<and> length (wa_hours w) \<le> 6 \<and> sorted_wrt (<) (map h_hour (wa_hours w))
    \<and> (\<forall>e\<in>set (wa_events w). \<not> is_instance (ev_unit e)
        \<and> (is_login (ev_unit e) \<longrightarrow> ev_lines e = [] \<and> ev_withheld e = ''login''))"
proof -
  have "watched v \<Longrightarrow> pred_option watch_ok v" for v
  proof (induction rule: watched.induct)
    case (collected w has_journal status lines_of now ss)
    then show ?case
      using journal_watcher_ok [OF collected.IH, of has_journal]
      by (auto simp: observe_journal_def Let_def observe_units_ok watch_ok_status split: option.splits)
  next
    case (pushed w count has_journal status now)
    then show ?case
      using journal_watcher_ok [OF pushed.IH, of has_journal]
      by (auto simp: journal_for_push_def Let_def count_ended_hour_ok watch_ok_status split: option.splits)
  next
    case (landed w)
    then show ?case
      by (cases w rule: option.exhaust) (simp_all add: journal_delivered_def watch_ok_def)
  qed simp
  from this [OF assms] show ?thesis
    by (auto simp: watch_ok_def event_private_def list_all_iff)
qed

text \<open>An ssh connection's unit that failed, watched, and what its event says.\<close>

definition ssh_watch :: "journal_watch option" where
  "ssh_watch = observe_journal True \<lparr>st_readable = True, st_reason = ''ok''\<rparr> (\<lambda>_ _ _. no_lines) 9
     (Some [(blank_service ''ssh@3-10.0.0.2:22-10.0.0.9:40022.service'')\<lparr>sv_active_state := ''failed''\<rparr>]) None"

theorem waiting_events_are_private_witness:
  "map (\<lambda>e. (ev_unit e, ev_withheld e)) (wa_events (the ssh_watch)) = [(''ssh@.service'', ''login'')]
    \<and> list_all (\<lambda>e. \<not> is_instance (ev_unit e)) (wa_events (the ssh_watch))"
proof -
  have "ssh_watch \<noteq> None" by (simp add: ssh_watch_def observe_journal_def journal_watcher_def Let_def)
  then have "watched (Some (the ssh_watch))"
    using watched.collected [OF watched.fresh] unfolding ssh_watch_def by auto
  from waiting_events_are_private [OF this]
  have "list_all (\<lambda>e. \<not> is_instance (ev_unit e)) (wa_events (the ssh_watch))" by (simp add: list_all_iff)
  then show ?thesis
    by (intro conjI) (code_simp, assumption)
qed

end
