(* ===== verification/Go_Float.thy ===== *)
theory Go_Float
  imports Complex_Main Go_Json
begin

text \<open>
  The finite \<^verbatim>\<open>float64\<close> numbers, as the rationals they are. \<open>fl\<close> rounds a rational to the nearest
  number of 53 significant bits, ties to even, as every operation on floats and every conversion to
  them does; numbers too large for the format do not arise from what the agent divides.
\<close>

section \<open>Rounding\<close>

function bit_count :: "int \<Rightarrow> int" where
  "bit_count n = (if n \<le> 0 then 0 else bit_count (n div 2) + 1)"
  by pat_completeness auto
termination
  by (relation "measure nat") auto

declare bit_count.simps [simp del]

definition pow2 :: "int \<Rightarrow> rat" where
  "pow2 e = (if 0 \<le> e then 2 ^ nat e else 1 / 2 ^ nat (- e))"

text \<open>The exponent of a positive rational: the power of two it lies at or above.\<close>

definition exponent_of :: "rat \<Rightarrow> int" where
  "exponent_of q =
     (let (n, d) = quotient_of q; e = bit_count n - bit_count d
      in if pow2 e \<le> q then e else e - 1)"

definition round_even :: "rat \<Rightarrow> int" where
  "round_even r =
     (let f = \<lfloor>r\<rfloor>; d = r - of_int f
      in if d < 1 / 2 then f else if 1 / 2 < d then f + 1 else if even f then f else f + 1)"

text \<open>The last place of a number is 52 below its exponent, or the last one of the format.\<close>

definition round_up_to_float :: "rat \<Rightarrow> rat" where
  "round_up_to_float q =
     (let e = max (exponent_of q - 52) (- 1074) in of_int (round_even (q / pow2 e)) * pow2 e)"

definition fl :: "rat \<Rightarrow> rat" where
  "fl q = (if q = 0 then 0 else if q < 0 then - round_up_to_float (- q) else round_up_to_float q)"

abbreviation float_of_int :: "int \<Rightarrow> rat" where
  "float_of_int n \<equiv> fl (of_int n)"

definition float_div :: "rat \<Rightarrow> rat \<Rightarrow> rat" where
  "float_div x y = fl (x / y)"

text \<open>\<^verbatim>\<open>math.Round\<close>: half away from zero.\<close>

definition math_round :: "rat \<Rightarrow> int" where
  "math_round x = (if x < 0 then - \<lfloor>- x + 1 / 2\<rfloor> else \<lfloor>x + 1 / 2\<rfloor>)"

section \<open>Numbers in JSON\<close>

text \<open>The number of a text of the grammar of numbers, exactly.\<close>

definition digits_of :: "string \<Rightarrow> int" where
  "digits_of s = foldl (\<lambda>n c. 10 * n + (of_char c - 48)) 0 s"

definition exponent_value :: "string \<Rightarrow> int" where
  "exponent_value s =
     (if s = [] then 0
      else (case tl s of [] \<Rightarrow> 0
        | c # r \<Rightarrow> if c = CHR ''-'' then - digits_of r
                 else if c = CHR ''+'' then digits_of r else digits_of (c # r)))"

definition ten_to :: "int \<Rightarrow> rat" where
  "ten_to e = (if 0 \<le> e then 10 ^ nat e else 1 / 10 ^ nat (- e))"

definition number_value :: "string \<Rightarrow> rat" where
  "number_value s =
     (let m = trim_prefix s ''-'';
          whole = takeWhile is_digit m;
          r = dropWhile is_digit m;
          frac = (if has_prefix r ''.'' then takeWhile is_digit (tl r) else []);
          e = (if has_prefix r ''.'' then dropWhile is_digit (tl r) else r);
          v = of_int (digits_of (whole @ frac)) * ten_to (exponent_value e - int (length frac))
      in if has_prefix s ''-'' then - v else v)"

text \<open>Reading a float: past the largest one it is a value of the wrong type.\<close>

fun read_float :: "rat reader" where
  "read_float (JNum s) r =
     (let x = fl (number_value s) in if pow2 1024 \<le> \<bar>x\<bar> then (r, Wrong) else (x, Fine))"
| "read_float JNull r = (r, Fine)"
| "read_float v r = (r, Wrong)"

section \<open>Lemmas\<close>

lemma round_even_mono: "x \<le> y \<Longrightarrow> round_even x \<le> round_even y"
proof -
  assume le: "x \<le> y"
  have f: "\<lfloor>x\<rfloor> \<le> \<lfloor>y\<rfloor>" using le by (rule floor_mono)
  show ?thesis
  proof (cases "\<lfloor>x\<rfloor> = \<lfloor>y\<rfloor>")
    case True
    then show ?thesis using le by (auto simp: round_even_def Let_def)
  next
    case False
    then have "\<lfloor>x\<rfloor> + 1 \<le> \<lfloor>y\<rfloor>" using f by simp
    moreover have "round_even x \<le> \<lfloor>x\<rfloor> + 1" "\<lfloor>y\<rfloor> \<le> round_even y"
      by (auto simp: round_even_def Let_def)
    ultimately show ?thesis by linarith
  qed
qed

lemma round_even_int [simp]: "round_even (of_int n) = n"
  by (simp add: round_even_def Let_def)

lemma pow2_pos [simp]: "0 < pow2 e"
  by (simp add: pow2_def)

lemma fl_zero [simp]: "fl 0 = 0"
  by (simp add: fl_def)

lemma fl_nonneg: "0 \<le> q \<Longrightarrow> 0 \<le> fl q"
proof -
  assume q: "0 \<le> q"
  have "0 \<le> round_even (q / pow2 e)" for e
    using q round_even_mono [of "of_int 0" "q / pow2 e"] round_even_int [of 0]
    by (simp add: less_imp_le [OF pow2_pos])
  then show ?thesis
    using q by (simp add: fl_def round_up_to_float_def Let_def less_imp_le [OF pow2_pos])
qed

end
