(* ===== verification/Go_Seconds.thy ===== *)
theory Go_Seconds
  imports Go_Float Go_Time
begin

text \<open>Durations in seconds, as a \<^verbatim>\<open>float64\<close>.\<close>

text \<open>\<^verbatim>\<open>d.Seconds()\<close> and its rounding, with the divisions of Go, which truncate.\<close>

definition seconds_of :: "int \<Rightarrow> rat" where
  "seconds_of d =
     (let q = (if d < 0 then - (- d div second_ns) else d div second_ns)
      in fl (float_of_int q + float_div (float_of_int (d - q * second_ns)) (of_int second_ns)))"

end
