(* ===== verification/Agent_State.thy ===== *)
theory Agent_State
  imports Go_Float Go_Time Spool
begin

text \<open>
  The state file, \<^verbatim>\<open>internal/agent/state.go\<close>: what \<^verbatim>\<open>status\<close> reads, and the only thing the run loop
  keeps on disk besides the spool. The directory it lies in is the association list of the spool's
  theory, with the same file operations and faults.
\<close>

record agent_state =
  last_attempt :: go_time
  last_success :: go_time
  last_error :: string
  clock_skew :: rat
  token_rejected :: bool
  token_rejected_at :: go_time
  not_activated :: bool
  not_activated_at :: go_time
  spool_error_text :: string
  collector_errors :: "string \<rightharpoonup> string"
  last_usage_scan :: go_time
  state_url :: string

definition blank_state :: agent_state where
  "blank_state = \<lparr>last_attempt = zero_time, last_success = zero_time, last_error = [], clock_skew = 0,
     token_rejected = False, token_rejected_at = zero_time, not_activated = False,
     not_activated_at = zero_time, spool_error_text = [], collector_errors = Map.empty,
     last_usage_scan = zero_time, state_url = []\<rparr>"

text \<open>
  A map: null clears it, an object adds to it; a member of the wrong type is added with the zero
  value.
\<close>

fun read_map_members :: "'a reader \<Rightarrow> 'a \<Rightarrow> (string \<times> json) list \<Rightarrow> (string \<rightharpoonup> 'a) \<Rightarrow> (string \<rightharpoonup> 'a) \<times> verdict" where
  "read_map_members rd zero [] m = (m, Fine)"
| "read_map_members rd zero ((k, v) # ms) m =
     (case rd v zero of (x, Refused) \<Rightarrow> (m, Refused)
      | (x, e) \<Rightarrow>
        (let (m2, e2) = read_map_members rd zero ms (m(unquote_json k \<mapsto> x)) in (m2, worse e e2)))"

fun read_map :: "'a reader \<Rightarrow> 'a \<Rightarrow> (string \<rightharpoonup> 'a) reader" where
  "read_map rd zero (JObj ms) m = read_map_members rd zero ms m"
| "read_map rd zero JNull m = (Map.empty, Fine)"
| "read_map rd zero v m = (m, Wrong)"

definition state_fields :: "(string \<Rightarrow> go_time option) \<Rightarrow> (string \<times> agent_state reader) list" where
  "state_fields lax =
     [(''last_attempt_at'', in_field last_attempt (\<lambda>x r. r\<lparr>last_attempt := x\<rparr>) (read_time lax)),
      (''last_success_at'', in_field last_success (\<lambda>x r. r\<lparr>last_success := x\<rparr>) (read_time lax)),
      (''last_error'', in_field last_error (\<lambda>x r. r\<lparr>last_error := x\<rparr>) read_str),
      (''clock_skew_seconds'', in_field clock_skew (\<lambda>x r. r\<lparr>clock_skew := x\<rparr>) read_float),
      (''token_rejected'', in_field token_rejected (\<lambda>x r. r\<lparr>token_rejected := x\<rparr>) read_bool),
      (''token_rejected_at'', in_field token_rejected_at (\<lambda>x r. r\<lparr>token_rejected_at := x\<rparr>) (read_time lax)),
      (''not_activated'', in_field not_activated (\<lambda>x r. r\<lparr>not_activated := x\<rparr>) read_bool),
      (''not_activated_at'', in_field not_activated_at (\<lambda>x r. r\<lparr>not_activated_at := x\<rparr>) (read_time lax)),
      (''spool_error'', in_field spool_error_text (\<lambda>x r. r\<lparr>spool_error_text := x\<rparr>) read_str),
      (''collector_errors'', in_field collector_errors (\<lambda>x r. r\<lparr>collector_errors := x\<rparr>) (read_map read_str [])),
      (''last_usage_scan_at'', in_field last_usage_scan (\<lambda>x r. r\<lparr>last_usage_scan := x\<rparr>) (read_time lax)),
      (''url'', in_field state_url (\<lambda>x r. r\<lparr>state_url := x\<rparr>) read_str)]"

definition state_path :: string where
  "state_path = ''state.json''"

text \<open>\<open>LoadState\<close>: what cannot be read is forgotten, and an error of the decoder is not looked at.\<close>

definition load_state :: "(string \<Rightarrow> go_time option) \<Rightarrow> faults \<Rightarrow> dir_content \<Rightarrow> agent_state" where
  "load_state lax f dir =
     (case (fetch f state_path, map_of dir state_path) of
        (Fetched, Some (Plain b)) \<Rightarrow> fst (unmarshal (read_struct (state_fields lax)) b blank_state)
      | _ \<Rightarrow> blank_state)"

datatype save_error = State_Encoding | State_Writing | State_Renaming

text \<open>\<open>SaveState\<close>, on what \<^verbatim>\<open>json.MarshalIndent\<close> makes of the state.\<close>

definition save_state :: "faults \<Rightarrow> string option \<Rightarrow> dir_content \<Rightarrow> save_error option \<times> dir_content" where
  "save_state f encoded dir =
     (case encoded of None \<Rightarrow> (Some State_Encoding, dir)
      | Some body \<Rightarrow>
        (let tmp = state_path @ ''.tmp'' in
         case os_write f tmp body dir of
           (False, d) \<Rightarrow> (Some State_Writing, d)
         | (True, d) \<Rightarrow>
           (case os_rename f tmp state_path d of None \<Rightarrow> (Some State_Renaming, d)
            | Some d2 \<Rightarrow> (None, d2))))"

lemma os_write_spec:
  "os_write f n b d = (ok, d') \<Longrightarrow>
     (\<forall>m. m \<noteq> n \<longrightarrow> map_of d' m = map_of d m) \<and> (ok \<longrightarrow> map_of d' n = Some (Plain b))"
  by (auto simp: os_write_def update_conv' split: option.splits node.splits written.splits)

lemma os_rename_spec:
  "os_rename f a b d = Some d' \<Longrightarrow> a \<noteq> b \<Longrightarrow>
     map_of d' b = map_of d a \<and> (\<forall>m. m \<noteq> a \<and> m \<noteq> b \<longrightarrow> map_of d' m = map_of d m)"
  by (auto simp: os_rename_def update_conv' delete_conv' split: option.splits node.splits if_splits)

text \<open>
  C6: Whatever goes wrong while the state is saved, the state file afterwards is the whole new one,
  when the save reports success, or the one there was, when it reports an error; and no other file
  of the directory is touched but the temporary one.
\<close>

theorem state_file_is_never_torn:
  assumes "save_state f encoded dir = (err, dir')"
  shows "(if err = None then map_of dir' state_path = map_option Plain encoded \<and> encoded \<noteq> None
      else map_of dir' state_path = map_of dir state_path)
    \<and> (\<forall>n. n \<noteq> state_path \<and> n \<noteq> state_path @ ''.tmp'' \<longrightarrow> map_of dir' n = map_of dir n)"
proof (cases encoded)
  case None
  then show ?thesis using assms by (auto simp: save_state_def)
next
  case (Some body)
  obtain ok d where w: "os_write f (state_path @ ''.tmp'') body dir = (ok, d)" by force
  note wrote = os_write_spec [OF w]
  show ?thesis
  proof (cases "ok \<and> os_rename f (state_path @ ''.tmp'') state_path d \<noteq> None")
    case True
    then obtain d2 where r: "os_rename f (state_path @ ''.tmp'') state_path d = Some d2" by blast
    show ?thesis
      using assms True r wrote os_rename_spec [OF r] by (auto simp: save_state_def Some w)
  next
    case False
    then show ?thesis
      using assms wrote by (auto simp: save_state_def Some w split: if_splits bool.splits)
  qed
qed

text \<open>A write that stops after three bytes.\<close>

theorem state_file_is_never_torn_witness:
  "map_of (snd (save_state (no_faults\<lparr>write_end := (\<lambda>_. Part 3)\<rparr>) (Some ''{ }'') [(state_path, Plain ''{}'')]))
     state_path = Some (Plain ''{}'')"
proof -
  let ?s = "save_state (no_faults\<lparr>write_end := (\<lambda>_. Part 3)\<rparr>) (Some ''{ }'') [(state_path, Plain ''{}'')]"
  have "fst ?s = Some State_Writing" by code_simp
  then have "?s = (Some State_Writing, snd ?s)" by (simp add: prod_eq_iff)
  from state_file_is_never_torn [OF this] show ?thesis by simp
qed

end
