(* ===== verification/Usage.thy ===== *)
theory Usage
  imports Prelude
begin

text \<open>
  What a walk of one mount found, \<^verbatim>\<open>internal/collect/diskusage.go\<close>: the data the run loop holds for the
  next push. The walk itself is an argument of the run loop.
\<close>

record dir_usage =
  du_path :: string
  du_bytes :: int
  du_kind :: string

record unreadable_dir =
  ud_path :: string
  ud_mode :: string
  ud_root_owned :: bool

record usage_scan =
  us_mount_point :: string
  us_dirs :: "dir_usage list"
  us_scanned_at :: go_time
  us_partial :: bool
  us_accounted :: int
  us_unreadable :: "unreadable_dir list"
  us_more_unreadable :: int

end
