(* ===== verification/Agent_Run.thy ===== *)
theory Agent_Run
  imports Go_Seconds Agent_State Agent_Journal Agent_Batch Jobs Config Usage
begin

text \<open>
  The run loop, \<^verbatim>\<open>internal/agent/run.go\<close>: collect and spool, walk the fullest mount when it is due,
  wait, send what is waiting, and decide how long to wait next.

  What the runner is given is a record \<open>equipment\<close>: the platform, and functions of the standard
  library and of the encoder that stay the same. What the outside does during one round is a record
  \<open>surroundings\<close>: the clock at every reading of it, the answer of the collectors, the faults of the
  file system, the drop folder and the network. The log is not modelled.
\<close>

section \<open>State and surroundings\<close>

definition max_batch :: nat where "max_batch = 60"
definition min_backoff :: int where "min_backoff = 30 * second_ns"
definition max_backoff :: int where "max_backoff = 15 * 60 * second_ns"
definition usage_interval :: int where "usage_interval = 3600 * second_ns"
definition max_server_interval :: int where "max_server_interval = 3600 * second_ns"

text \<open>What the collectors are asked for, and what of their reading the loop looks into.\<close>

record 'p options =
  op_processes :: bool
  op_process_args :: bool
  op_max_processes :: nat
  op_cpu_interval :: int
  op_services :: bool
  op_renewers :: bool
  op_listening :: bool
  op_known_peers :: "'p option"
  op_cron :: bool
  op_setup :: bool

record collected =
  co_failed :: "string \<rightharpoonup> string"
  co_mounts :: "mount list"
  co_services :: "service list option"
  co_encoded :: "string option"

record platform =
  has_journal :: bool
  has_services :: bool
  has_listening :: bool
  has_cron :: bool
  has_setup :: bool
  is_windows :: bool

record 'p equipment =
  eq_platform :: platform
  eq_version :: string
  eq_lax_time :: "string \<Rightarrow> go_time option"
  eq_lower :: "string \<Rightarrow> string"
  eq_owner :: "nat \<Rightarrow> string"
  eq_arrange :: "(string \<times> go_time) list \<Rightarrow> (string \<times> go_time) list"
  eq_peer_set :: "string list \<Rightarrow> 'p"
  eq_usage_json :: "usage_scan \<Rightarrow> json"
  eq_reports_json :: "report list \<Rightarrow> json"
  eq_journal_json :: "journal_payload \<Rightarrow> json"
  eq_state_json :: "agent_state \<Rightarrow> string option"
  eq_spool_text :: "spool_error \<Rightarrow> string"
  eq_push_text :: "push_error \<Rightarrow> string"

text \<open>The points of a round where the clock is read or a file operation may fail.\<close>

datatype moment =
    At_Observe | At_Add | At_First_Save | At_Scan_Due | At_Scan_Done | At_Take | At_Attempt | At_Jobs
  | At_Push | At_Answer | At_Drop | At_Refused | At_Success | At_Last_Save

record 'p surroundings =
  su_clock :: "moment \<Rightarrow> go_time"
  su_faults :: "moment \<Rightarrow> faults"
  su_collect :: "'p options \<Rightarrow> collected option"
  su_scan :: "string \<Rightarrow> usage_scan"
  su_journal :: "moment \<Rightarrow> journal_status"
  su_lines :: "string \<Rightarrow> go_time \<Rightarrow> go_time \<Rightarrow> snippet"
  su_count :: "go_time \<Rightarrow> hour_counts"
  su_job_listing :: "take_error + string list"
  su_job_stat :: "string \<Rightarrow> drop_file option"
  su_job_open :: "string \<Rightarrow> drop_file option"
  su_network :: "string \<Rightarrow> string \<Rightarrow> http_outcome"

record 'p runner =
  ru_config :: config
  ru_spool :: spool
  ru_mounts :: "mount list"
  ru_pending :: "usage_scan option"
  ru_journal :: "journal_watch option"
  ru_jobs_folder :: bool
  ru_server_interval :: int
  ru_refused :: int
  ru_peers :: "'p option"

text \<open>The variables of \<open>Run\<close>, with the directory the state file is in.\<close>

record 'p loop =
  lo_runner :: "'p runner"
  lo_state :: agent_state
  lo_dir :: dir_content
  lo_url :: string
  lo_seq :: int
  lo_backoff :: int

section \<open>Collecting\<close>

definition save :: "'p equipment \<Rightarrow> faults \<Rightarrow> 'p loop \<Rightarrow> 'p loop" where
  "save eq f l = l\<lparr>lo_dir := snd (save_state f (eq_state_json eq (lo_state l)) (lo_dir l))\<rparr>"

definition collect_options :: "'p equipment \<Rightarrow> 'p runner \<Rightarrow> 'p options" where
  "collect_options eq r =
     (let c = ru_config r; p = eq_platform eq in
      \<lparr>op_processes = processes c, op_process_args = process_args c, op_max_processes = 10,
       op_cpu_interval = 300000000, op_services = services c, op_renewers = renewers c,
       op_listening = listening c, op_known_peers = ru_peers r, op_cron = cron c \<and> has_cron p,
       op_setup = has_setup p\<rparr>)"

definition collect_once :: "'p equipment \<Rightarrow> 'p surroundings \<Rightarrow> 'p loop \<Rightarrow> 'p loop" where
  "collect_once eq su l =
     (let r = lo_runner l in
      case su_collect su (collect_options eq r) of None \<Rightarrow> l
      | Some c \<Rightarrow>
        (let watch = observe_journal (has_journal (eq_platform eq))
               (journal_status_now (journal_setting (ru_config r)) (su_journal su At_Observe))
               (su_lines su) (su_clock su At_Observe) (co_services c) (ru_journal r);
             (err, sp) = spool_add (su_faults su At_Add) (lo_seq l) (co_encoded c) (ru_spool r);
             st = (lo_state l)\<lparr>collector_errors := co_failed c,
               spool_error_text := (case err of None \<Rightarrow> [] | Some e \<Rightarrow> eq_spool_text eq e)\<rparr>;
             r = r\<lparr>ru_mounts := co_mounts c, ru_journal := watch, ru_spool := sp\<rparr>
         in save eq (su_faults su At_First_Save) (l\<lparr>lo_runner := r, lo_state := st\<rparr>)))"

text \<open>The mount closest to full, by the quotient of the two sizes as floats; the first of equals.\<close>

definition used_part :: "mount \<Rightarrow> rat" where
  "used_part m = float_div (float_of_int (used_bytes m)) (float_of_int (total_bytes m))"

fun fullest_from :: "mount list \<Rightarrow> rat \<Rightarrow> string \<Rightarrow> string" where
  "fullest_from [] worst point = point"
| "fullest_from (m # ms) worst point =
     (if total_bytes m \<le> 0 then fullest_from ms worst point
      else if worst < used_part m then fullest_from ms (used_part m) (mount_point m)
      else fullest_from ms worst point)"

definition fullest_mount :: "'p runner \<Rightarrow> string" where
  "fullest_mount r = fullest_from (ru_mounts r) 0 []"

definition scan_usage_if_due :: "'p surroundings \<Rightarrow> 'p loop \<Rightarrow> 'p loop" where
  "scan_usage_if_due su l =
     (let t = last_usage_scan (lo_state l); point = fullest_mount (lo_runner l) in
      if t \<noteq> zero_time \<and> time_sub (su_clock su At_Scan_Due) t < usage_interval then l
      else if point = [] then l
      else l\<lparr>lo_runner := (lo_runner l)\<lparr>ru_pending := Some (su_scan su point)\<rparr>,
             lo_state := (lo_state l)\<lparr>last_usage_scan := su_clock su At_Scan_Done\<rparr>\<rparr>)"

section \<open>Sending\<close>

definition collectors_on :: "'p equipment \<Rightarrow> 'p runner \<Rightarrow> collectors" where
  "collectors_on eq r =
     (let c = ru_config r; p = eq_platform eq in
      \<lparr>on_processes = processes c, on_process_args = process_args c,
       on_services = (services c \<and> has_services p), on_renewers = renewers c,
       on_listening = (listening c \<and> has_listening p), on_cron = (cron c \<and> has_cron p),
       on_job_reports = ru_jobs_folder r\<rparr>)"

definition runner_interval :: "'p runner \<Rightarrow> int" where
  "runner_interval r = max (ru_server_interval r) (interval_setting (ru_config r))"

definition apply_cadence :: "result \<Rightarrow> 'p runner \<Rightarrow> 'p runner" where
  "apply_cadence res r =
     (if max_server_interval < res_min_interval res
      then (if res_min_interval res \<noteq> ru_refused r then r\<lparr>ru_refused := res_min_interval res\<rparr> else r)
      else if interval_setting (ru_config r) < res_min_interval res
           \<and> res_min_interval res \<noteq> ru_server_interval r
      then r\<lparr>ru_server_interval := res_min_interval res\<rparr> else r)"

definition is_rejection :: "push_error \<Rightarrow> bool" where
  "is_rejection e = (case e of Token_Rejected _ \<Rightarrow> True | _ \<Rightarrow> False)"

definition is_deactivation :: "push_error \<Rightarrow> bool" where
  "is_deactivation e = (case e of Not_Activated _ \<Rightarrow> True | _ \<Rightarrow> False)"

datatype send_error = Spool_Unreadable spool_error | Push_Error push_error

text \<open>
  \<open>sendOnce\<close> up to the answer: the readings, the job reports and the journal's part, and the request
  made of them. Beside the new state it gives the names of the job reports it removed.
\<close>

record request =
  rq_readings :: "reading list"
  rq_reports :: "waiting list"
  rq_body :: "string option"

definition take_jobs :: "'p equipment \<Rightarrow> 'p surroundings \<Rightarrow> 'p runner \<Rightarrow> (take_error + waiting list) \<times> string list" where
  "take_jobs eq su r =
     take_reports (eq_lax_time eq) (eq_owner eq) (eq_arrange eq)
       (reports_dir (is_windows (eq_platform eq)) (Config.jobs_dir (ru_config r)))
       (su_job_listing su) (su_job_stat su) (su_job_open su) (int max_per_push) (su_clock su At_Jobs)"

definition reports_part :: "'p equipment \<Rightarrow> 'p runner \<Rightarrow> waiting list \<Rightarrow> json option" where
  "reports_part eq r ws =
     (if ws = [] then None else Some (eq_reports_json eq (reports ws (job_output (ru_config r)))))"

definition prepare ::
  "'p equipment \<Rightarrow> 'p surroundings \<Rightarrow> reading list \<Rightarrow> 'p loop \<Rightarrow> request \<times> string list \<times> 'p loop" where
  "prepare eq su es l =
     (let r = lo_runner l;
          (taken, gone) = take_jobs eq su r;
          ws = (case taken of Inl _ \<Rightarrow> [] | Inr ws \<Rightarrow> ws);
          folder = (\<not> isl taken \<and> reports_dir (is_windows (eq_platform eq)) (Config.jobs_dir (ru_config r)) \<noteq> []);
          (part, watch) = journal_for_push (has_journal (eq_platform eq))
            (journal_status_now (journal_setting (ru_config r)) (su_journal su At_Push))
            (su_count su) (su_clock su At_Push) (ru_journal r);
          r = r\<lparr>ru_jobs_folder := folder, ru_journal := watch\<rparr>;
          body = encode (trim_snapshots (eq_lax_time eq) (map reading_data es)) [] (eq_version eq)
            (map_option (eq_usage_json eq) (ru_pending r)) (reports_part eq r ws)
            (map_option (eq_journal_json eq) part) (collectors_on eq r)
      in (\<lparr>rq_readings = es, rq_reports = ws, rq_body = body\<rparr>, gone,
          l\<lparr>lo_runner := r, lo_state := (lo_state l)\<lparr>last_attempt := su_clock su At_Attempt\<rparr>\<rparr>))"

definition note_skew :: "'p surroundings \<Rightarrow> result \<Rightarrow> agent_state \<Rightarrow> agent_state" where
  "note_skew su res st =
     (if res_server_time res = zero_time then st
      else st\<lparr>clock_skew := of_int (math_round (seconds_of
             (time_sub (su_clock su At_Answer) (res_server_time res))))\<rparr>)"

text \<open>A push that failed: its readings are dropped only when the answer named them.\<close>

definition note_failure :: "'p equipment \<Rightarrow> 'p surroundings \<Rightarrow> push_error \<Rightarrow> agent_state \<Rightarrow> agent_state" where
  "note_failure eq su e st =
     (let st = st\<lparr>last_error := eq_push_text eq e, token_rejected := is_rejection e\<rparr>;
          st = (if token_rejected st \<and> token_rejected_at st = zero_time
                then st\<lparr>token_rejected_at := su_clock su At_Refused\<rparr> else st);
          st = st\<lparr>not_activated := is_deactivation e\<rparr>
      in if not_activated st \<and> not_activated_at st = zero_time
         then st\<lparr>not_activated_at := su_clock su At_Refused\<rparr> else st)"

definition drop_sent :: "faults \<Rightarrow> reading list \<Rightarrow> 'p runner \<Rightarrow> 'p runner" where
  "drop_sent f es r = r\<lparr>ru_spool := spool_drop f es (ru_spool r)\<rparr>"

definition push_failed ::
  "'p equipment \<Rightarrow> 'p surroundings \<Rightarrow> request \<Rightarrow> result \<Rightarrow> push_error \<Rightarrow> 'p loop \<Rightarrow> 'p loop" where
  "push_failed eq su rq res e l =
     save eq (su_faults su At_Last_Save)
       (l\<lparr>lo_runner := (if res_settled res then drop_sent (su_faults su At_Drop) (rq_readings rq) (lo_runner l)
                        else lo_runner l),
          lo_state := note_failure eq su e (lo_state l)\<rparr>)"

definition note_success :: "'p surroundings \<Rightarrow> agent_state \<Rightarrow> agent_state" where
  "note_success su st =
     st\<lparr>last_success := su_clock su At_Success, last_error := [], token_rejected := False,
        token_rejected_at := zero_time, not_activated := False, not_activated_at := zero_time\<rparr>"

definition take_address :: "'p equipment \<Rightarrow> result \<Rightarrow> 'p loop \<Rightarrow> 'p loop" where
  "take_address eq res l =
     (let (adopted, moved) = adopt (eq_lower eq) (lo_url l) (res_ingest_url res) in
      if moved then l\<lparr>lo_url := adopted, lo_state := (lo_state l)\<lparr>state_url := adopted\<rparr>\<rparr> else l)"

definition push_landed ::
  "'p equipment \<Rightarrow> 'p surroundings \<Rightarrow> request \<Rightarrow> result \<Rightarrow> 'p loop \<Rightarrow> 'p loop" where
  "push_landed eq su rq res l =
     (let r = (lo_runner l)\<lparr>ru_pending := None, ru_journal := journal_delivered (ru_journal (lo_runner l))\<rparr>;
          r = apply_cadence res (drop_sent (su_faults su At_Drop) (rq_readings rq) r);
          r = (case res_peers res of None \<Rightarrow> r | Some addresses \<Rightarrow> r\<lparr>ru_peers := Some (eq_peer_set eq addresses)\<rparr>)
      in save eq (su_faults su At_Last_Save)
           (take_address eq res (l\<lparr>lo_runner := r, lo_state := note_success su (lo_state l)\<rparr>)))"

definition push_request ::
  "'p equipment \<Rightarrow> 'p surroundings \<Rightarrow> string \<Rightarrow> request \<Rightarrow> result \<times> push_error option" where
  "push_request eq su url rq =
     send (eq_lax_time eq) (rq_body rq)
       (case rq_body rq of None \<Rightarrow> Unbuildable | Some b \<Rightarrow> su_network su url b)"

definition send_once ::
  "'p equipment \<Rightarrow> 'p surroundings \<Rightarrow> 'p loop \<Rightarrow> send_error option \<times> string list \<times> 'p loop" where
  "send_once eq su l =
     (let (taken, sp) = spool_take (su_faults su At_Take) max_batch (ru_spool (lo_runner l));
          l = l\<lparr>lo_runner := (lo_runner l)\<lparr>ru_spool := sp\<rparr>\<rparr>
      in case taken of
           Inl e \<Rightarrow> (Some (Spool_Unreadable e), [], l)
         | Inr es \<Rightarrow>
           if es = [] then (None, [], l)
           else
             (let (rq, gone, l) = prepare eq su es l;
                  (res, err) = push_request eq su (lo_url l) rq;
                  l = l\<lparr>lo_state := note_skew su res (lo_state l)\<rparr>
              in case err of
                   Some e \<Rightarrow> (Some (Push_Error e), gone, push_failed eq su rq res e l)
                 | None \<Rightarrow> (None, gone @ remove_reports (rq_reports rq), push_landed eq su rq res l)))"

section \<open>The loop\<close>

definition next_backoff :: "int \<Rightarrow> int" where
  "next_backoff current = (if current = 0 then min_backoff else min max_backoff (current * 2))"

definition backoff_after :: "send_error option \<Rightarrow> int \<Rightarrow> int" where
  "backoff_after err current =
     (case err of None \<Rightarrow> 0
      | Some (Push_Error e) \<Rightarrow> if is_deactivation e \<or> is_rejection e then max_backoff else next_backoff current
      | Some (Spool_Unreadable e) \<Rightarrow> next_backoff current)"

definition wait_time :: "'p loop \<Rightarrow> int" where
  "wait_time l = max (runner_interval (lo_runner l)) (lo_backoff l)"

text \<open>What \<open>Run\<close> does before its first round, with what \<open>LoadState\<close> gives.\<close>

definition start :: "'p equipment \<Rightarrow> config \<Rightarrow> spool \<Rightarrow> dir_content \<Rightarrow> faults \<Rightarrow> go_time \<Rightarrow> 'p loop" where
  "start eq c sp dir f now =
     (let st = load_state (eq_lax_time eq) f dir;
          url = push_url c;
          url = (if state_url st \<noteq> [] then fst (adopt (eq_lower eq) url (state_url st)) else url)
      in \<lparr>lo_runner = \<lparr>ru_config = c, ru_spool = sp, ru_mounts = [], ru_pending = None, ru_journal = None,
            ru_jobs_folder = False, ru_server_interval = 0, ru_refused = 0, ru_peers = None\<rparr>,
          lo_state = st, lo_dir = dir, lo_url = url, lo_seq = now, lo_backoff = 0\<rparr>)"

definition collect_phase :: "'p equipment \<Rightarrow> 'p surroundings \<Rightarrow> 'p loop \<Rightarrow> 'p loop" where
  "collect_phase eq su l = scan_usage_if_due su (collect_once eq su (l\<lparr>lo_seq := i64 (lo_seq l + 1)\<rparr>))"

definition send_phase :: "'p equipment \<Rightarrow> 'p surroundings \<Rightarrow> 'p loop \<Rightarrow> 'p loop" where
  "send_phase eq su l =
     (let (err, gone, l') = send_once eq su l in l'\<lparr>lo_backoff := backoff_after err (lo_backoff l')\<rparr>)"

text \<open>
  The loop as a step relation: it is about to collect, or waits, and returns when its context ends
  during a wait.
\<close>

datatype 'p phase = Collecting "'p loop" | Waiting "'p loop" | Returned "'p loop"

inductive run_step :: "'p equipment \<Rightarrow> 'p phase \<Rightarrow> 'p phase \<Rightarrow> bool" for eq where
  collects: "run_step eq (Collecting l) (Waiting (collect_phase eq su l))"
| sends: "run_step eq (Waiting l) (Collecting (send_phase eq su l))"
| ends: "run_step eq (Waiting l) (Returned l)"

inductive_cases run_step_from: "run_step eq p q"

end
