(* ===== verification/Agent_Run_Facts.thy ===== *)
theory Agent_Run_Facts
  imports Agent_Run Spool_Facts Config_Facts
begin

text \<open>
  Lemmas on the run loop: what each step changes and what it leaves, first the settings and the
  address, then the spool.
\<close>

named_theorems run_fields \<open>fields a step of the loop leaves as they are\<close>

section \<open>What the steps leave as it is\<close>

lemma save_fields [run_fields]:
  "lo_runner (save eq f l) = lo_runner l" "lo_state (save eq f l) = lo_state l"
  "lo_url (save eq f l) = lo_url l" "lo_seq (save eq f l) = lo_seq l"
  "lo_backoff (save eq f l) = lo_backoff l"
  by (simp_all add: save_def)

lemma collect_once_fields [run_fields]:
  "ru_config (lo_runner (collect_once eq su l)) = ru_config (lo_runner l)"
  "ru_server_interval (lo_runner (collect_once eq su l)) = ru_server_interval (lo_runner l)"
  "ru_pending (lo_runner (collect_once eq su l)) = ru_pending (lo_runner l)"
  "lo_url (collect_once eq su l) = lo_url l" "lo_seq (collect_once eq su l) = lo_seq l"
  "lo_backoff (collect_once eq su l) = lo_backoff l"
  by (simp_all add: collect_once_def Let_def run_fields split: option.split prod.split)

lemma scan_usage_if_due_fields [run_fields]:
  "ru_config (lo_runner (scan_usage_if_due su l)) = ru_config (lo_runner l)"
  "ru_server_interval (lo_runner (scan_usage_if_due su l)) = ru_server_interval (lo_runner l)"
  "ru_spool (lo_runner (scan_usage_if_due su l)) = ru_spool (lo_runner l)"
  "ru_journal (lo_runner (scan_usage_if_due su l)) = ru_journal (lo_runner l)"
  "lo_url (scan_usage_if_due su l) = lo_url l" "lo_seq (scan_usage_if_due su l) = lo_seq l"
  "lo_backoff (scan_usage_if_due su l) = lo_backoff l"
  by (simp_all add: scan_usage_if_due_def Let_def)

lemma prepare_fields:
  assumes "prepare eq su es l = (rq, gone, l')"
  shows "rq_readings rq = es" "lo_url l' = lo_url l" "lo_seq l' = lo_seq l" "lo_backoff l' = lo_backoff l"
    "ru_config (lo_runner l') = ru_config (lo_runner l)" "ru_spool (lo_runner l') = ru_spool (lo_runner l)"
    "ru_server_interval (lo_runner l') = ru_server_interval (lo_runner l)"
    "ru_pending (lo_runner l') = ru_pending (lo_runner l)"
    "gone = snd (take_jobs eq su (lo_runner l))"
    "ru_journal (lo_runner l') = snd (journal_for_push (has_journal (eq_platform eq))
      (journal_status_now (journal_setting (ru_config (lo_runner l))) (su_journal su At_Push))
      (su_count su) (su_clock su At_Push) (ru_journal (lo_runner l)))"
  using assms by (auto simp: prepare_def Let_def split: prod.splits)

lemma drop_sent_fields [run_fields]:
  "ru_config (drop_sent f es r) = ru_config r" "ru_server_interval (drop_sent f es r) = ru_server_interval r"
  "ru_pending (drop_sent f es r) = ru_pending r" "ru_journal (drop_sent f es r) = ru_journal r"
  "ru_spool (drop_sent f es r) = spool_drop f es (ru_spool r)"
  by (simp_all add: drop_sent_def)

lemma apply_cadence_fields [run_fields]:
  "ru_config (apply_cadence res r) = ru_config r" "ru_spool (apply_cadence res r) = ru_spool r"
  "ru_pending (apply_cadence res r) = ru_pending r" "ru_journal (apply_cadence res r) = ru_journal r"
  by (simp_all add: apply_cadence_def)

lemma take_address_fields [run_fields]:
  "lo_runner (take_address eq res l) = lo_runner l" "lo_seq (take_address eq res l) = lo_seq l"
  "lo_backoff (take_address eq res l) = lo_backoff l"
  by (simp_all add: take_address_def Let_def split: prod.split)

lemma push_failed_fields [run_fields]:
  "ru_config (lo_runner (push_failed eq su rq res e l)) = ru_config (lo_runner l)"
  "ru_server_interval (lo_runner (push_failed eq su rq res e l)) = ru_server_interval (lo_runner l)"
  "ru_pending (lo_runner (push_failed eq su rq res e l)) = ru_pending (lo_runner l)"
  "ru_journal (lo_runner (push_failed eq su rq res e l)) = ru_journal (lo_runner l)"
  "lo_url (push_failed eq su rq res e l) = lo_url l" "lo_seq (push_failed eq su rq res e l) = lo_seq l"
  "lo_backoff (push_failed eq su rq res e l) = lo_backoff l"
  "ru_spool (lo_runner (push_failed eq su rq res e l)) =
     (if res_settled res then spool_drop (su_faults su At_Drop) (rq_readings rq) (ru_spool (lo_runner l))
      else ru_spool (lo_runner l))"
  by (simp_all add: push_failed_def run_fields)

lemma push_landed_fields [run_fields]:
  "ru_config (lo_runner (push_landed eq su rq res l)) = ru_config (lo_runner l)"
  "ru_server_interval (lo_runner (push_landed eq su rq res l)) =
     ru_server_interval (apply_cadence res (lo_runner l))"
  "ru_pending (lo_runner (push_landed eq su rq res l)) = None"
  "ru_journal (lo_runner (push_landed eq su rq res l)) = journal_delivered (ru_journal (lo_runner l))"
  "lo_seq (push_landed eq su rq res l) = lo_seq l"
  "lo_backoff (push_landed eq su rq res l) = lo_backoff l"
  "ru_spool (lo_runner (push_landed eq su rq res l)) =
     spool_drop (su_faults su At_Drop) (rq_readings rq) (ru_spool (lo_runner l))"
  "lo_url (push_landed eq su rq res l) = fst (adopt (eq_lower eq) (lo_url l) (res_ingest_url res))"
  by (simp_all add: push_landed_def Let_def run_fields split: option.split)
    (auto simp: apply_cadence_def drop_sent_def take_address_def adopt_def Let_def
      split: option.split prod.split if_splits)

section \<open>A sending, case by case\<close>

text \<open>What the server, or the network, made of the push with these readings.\<close>

definition push_answer ::
  "'p equipment \<Rightarrow> 'p surroundings \<Rightarrow> reading list \<Rightarrow> 'p loop \<Rightarrow> result \<times> push_error option" where
  "push_answer eq su es l = (let (rq, gone, l') = prepare eq su es l in push_request eq su (lo_url l) rq)"

definition settles :: "result \<times> push_error option \<Rightarrow> bool" where
  "settles a = (snd a = None \<or> res_settled (fst a))"

lemma send_once_cases:
  obtains (unreadable) e where "fst (spool_take (su_faults su At_Take) max_batch (ru_spool (lo_runner l))) = Inl e"
      "send_once eq su l = (Some (Spool_Unreadable e), [],
         l\<lparr>lo_runner := (lo_runner l)\<lparr>ru_spool := snd (spool_take (su_faults su At_Take) max_batch (ru_spool (lo_runner l)))\<rparr>\<rparr>)"
  | (idle) "fst (spool_take (su_faults su At_Take) max_batch (ru_spool (lo_runner l))) = Inr []"
      "send_once eq su l = (None, [],
         l\<lparr>lo_runner := (lo_runner l)\<lparr>ru_spool := snd (spool_take (su_faults su At_Take) max_batch (ru_spool (lo_runner l)))\<rparr>\<rparr>)"
  | (answered) es l0 rq gone l1 res err
    where "fst (spool_take (su_faults su At_Take) max_batch (ru_spool (lo_runner l))) = Inr es" "es \<noteq> []"
      "l0 = l\<lparr>lo_runner := (lo_runner l)\<lparr>ru_spool := snd (spool_take (su_faults su At_Take) max_batch (ru_spool (lo_runner l)))\<rparr>\<rparr>"
      "prepare eq su es l0 = (rq, gone, l1)" "push_answer eq su es l0 = (res, err)"
      "push_request eq su (lo_url l) rq = (res, err)"
      "send_once eq su l =
         (let l2 = l1\<lparr>lo_state := note_skew su res (lo_state l1)\<rparr> in
          case err of Some e \<Rightarrow> (Some (Push_Error e), gone, push_failed eq su rq res e l2)
          | None \<Rightarrow> (None, gone @ remove_reports (rq_reports rq), push_landed eq su rq res l2))"
proof -
  obtain t sp where sp: "spool_take (su_faults su At_Take) max_batch (ru_spool (lo_runner l)) = (t, sp)"
    by (metis prod.exhaust)
  let ?l0 = "l\<lparr>lo_runner := (lo_runner l)\<lparr>ru_spool := sp\<rparr>\<rparr>"
  consider e where "t = Inl e" | "t = Inr []" | es where "t = Inr es" "es \<noteq> []"
    by (cases t) auto
  then show thesis
  proof cases
    case (1 e)
    with sp show thesis using unreadable by (simp add: send_once_def)
  next
    case 2
    with sp show thesis using idle by (simp add: send_once_def)
  next
    case (3 es)
    obtain rq gone l1 where p: "prepare eq su es ?l0 = (rq, gone, l1)" by (metis prod.exhaust)
    obtain res err where q: "push_request eq su (lo_url l) rq = (res, err)" by (metis prod.exhaust)
    have u: "lo_url l1 = lo_url l" using prepare_fields(2) [OF p] by simp
    have a: "push_answer eq su es ?l0 = (res, err)" using q by (simp add: push_answer_def p)
    have s: "send_once eq su l = (let l2 = l1\<lparr>lo_state := note_skew su res (lo_state l1)\<rparr> in
          case err of Some e \<Rightarrow> (Some (Push_Error e), gone, push_failed eq su rq res e l2)
          | None \<Rightarrow> (None, gone @ remove_reports (rq_reports rq), push_landed eq su rq res l2))"
      using 3 p q u by (simp add: send_once_def sp)
    show thesis
      using answered [OF _ 3(2) _ p a q s] 3(1) sp by simp
  qed
qed

section \<open>What a sending does to the spool\<close>

lemma send_not_acknowledged:
  "case net of Answer status payload \<Rightarrow> \<not> settles (receive lax status payload) | _ \<Rightarrow> True \<Longrightarrow>
     snd (send lax body net) \<noteq> None \<and> \<not> res_settled (fst (send lax body net))"
  by (auto simp: send_def settles_def no_result_def split: option.splits http_outcome.splits)

lemma spool_take_keeps:
  assumes "spool_take f k s = (r, t)" "tidy (kept_in s)" "e \<in> set (held (kept_in s))"
    "json_valid (reading_data e)" "fetch f (reading_name e) \<noteq> Gone"
  shows "e \<in> set (held (kept_in t))"
proof -
  have "t = s \<or> kept_in t = snd (take_each f (take k (map reading_name (held (kept_in s)))) (kept_in s))"
    using assms(1) by (auto simp: spool_take_def names_held split: if_splits prod.splits)
  then show ?thesis using take_each_keeps [OF assms(2-5)] assms(3) by auto
qed

lemma send_once_spool:
  assumes "send_once eq su l = (err, gone, l')"
    "spool_take (su_faults su At_Take) max_batch (ru_spool (lo_runner l)) = (taken, sp)"
  shows "ru_spool (lo_runner l') =
    (case taken of Inl e \<Rightarrow> sp
     | Inr es \<Rightarrow>
       if es \<noteq> [] \<and> settles (push_answer eq su es (l\<lparr>lo_runner := (lo_runner l)\<lparr>ru_spool := sp\<rparr>\<rparr>))
       then spool_drop (su_faults su At_Drop) es sp else sp)"
proof (cases rule: send_once_cases [of su l eq])
  case (answered es l0 rq gone0 l1 res e)
  note p = prepare_fields [OF answered(4)]
  have "l0 = l\<lparr>lo_runner := (lo_runner l)\<lparr>ru_spool := sp\<rparr>\<rparr>" "taken = Inr es"
    using answered(1,3) assms(2) by simp_all
  then show ?thesis
    using assms(1) answered(2,5,7) p
    by (auto simp: Let_def run_fields settles_def split: option.splits)
qed (use assms in auto)

definition pending_events :: "journal_watch option \<Rightarrow> journal_event list" where
  "pending_events w = (case w of None \<Rightarrow> [] | Some w \<Rightarrow> wa_events w)"

lemma count_ended_hour_events: "wa_events (count_ended_hour count now w) = wa_events w"
  by (simp add: count_ended_hour_def Let_def)

lemma journal_for_push_events:
  "pending_events (snd (journal_for_push hj status count now w)) = pending_events w"
  by (cases hj; cases w)
    (simp_all add: journal_for_push_def journal_watcher_def Let_def pending_events_def
      count_ended_hour_events new_watch_def)

lemma journal_delivered_events [simp]: "pending_events (journal_delivered w) = []"
  by (cases w) (simp_all add: pending_events_def journal_delivered_def)

section \<open>A request that can be made\<close>

lemma embed_all_valid: "\<forall>s\<in>set ss. json_valid s \<Longrightarrow> \<exists>vs. embed_all ss = Some vs"
  by (induction ss) (auto simp: json_valid_def)

lemma encode_valid:
  "\<forall>s\<in>set ss. json_valid s \<Longrightarrow>
     \<exists>b. encode (trim_snapshots lax ss) failed version usage job_runs journal_part c = Some b"
  using embed_all_valid [OF trim_snapshots_valid, of ss lax] by (auto simp: encode_def envelope_def)

lemma prepare_body:
  assumes "prepare eq su es l = (rq, gone, l')" "\<forall>e\<in>set es. json_valid (reading_data e)"
  shows "\<exists>b. rq_body rq = Some b"
  using assms encode_valid [of "map reading_data es"] by (auto simp: prepare_def Let_def split: prod.splits)

text \<open>With readings that are JSON, the answer to the push is what the network gives.\<close>

lemma push_answer_network:
  assumes "\<forall>e\<in>set es. json_valid (reading_data e)" "\<forall>body. su_network su (lo_url l) body = Answer status payload"
  shows "push_answer eq su es l = receive (eq_lax_time eq) status payload"
proof -
  obtain rq gone l' where p: "prepare eq su es l = (rq, gone, l')" by (metis prod.exhaust)
  obtain b where "rq_body rq = Some b" using prepare_body [OF p assms(1)] by blast
  then show ?thesis
    using assms(2) prepare_fields(2) [OF p] by (simp add: push_answer_def p push_request_def send_def)
qed

lemma receive_no_json:
  assumes "parse_json (take response_limit payload) = None" "200 \<le> status" "status < 300"
  shows "receive lax status payload = (result_of nothing_decoded, None)"
  using assms by (simp add: receive_def unmarshal_def classify_def nothing_decoded_def not_activated_reason_def)

lemma peek_readings_take:
  "spool_take f k s = (taken, sp) \<Longrightarrow> f = no_faults \<Longrightarrow>
     peek_readings k s = ((case taken of Inl _ \<Rightarrow> [] | Inr es \<Rightarrow> es), sp)"
  by (simp add: peek_readings_def split: sum.split)

text \<open>What one sending delivers: the readings it took, when the answer settles them.\<close>

definition delivers :: "'p equipment \<Rightarrow> 'p surroundings \<Rightarrow> 'p loop \<Rightarrow> reading list" where
  "delivers eq su l =
     (let (es, sp) = peek_readings max_batch (ru_spool (lo_runner l)) in
      if settles (push_answer eq su es (l\<lparr>lo_runner := (lo_runner l)\<lparr>ru_spool := sp\<rparr>\<rparr>)) then es else [])"

definition sound_disk :: "'p surroundings \<Rightarrow> bool" where
  "sound_disk su = (su_faults su At_Add = no_faults \<and> su_faults su At_Take = no_faults
     \<and> su_faults su At_Drop = no_faults)"

lemma spool_drop_none [simp]: "spool_drop f [] s = s"
  by (simp add: spool_drop_def)

lemma send_phase_queue:
  assumes "sound_disk su"
  shows "(ru_spool (lo_runner (send_phase eq su l)), sent @ delivers eq su l) =
    queue_step put_reading peek_readings (spool_drop no_faults)
      (if delivers eq su l \<noteq> [] then Delivered max_batch else Undelivered max_batch)
      (ru_spool (lo_runner l), sent)"
proof -
  obtain taken sp where t: "spool_take (su_faults su At_Take) max_batch (ru_spool (lo_runner l)) = (taken, sp)"
    by (metis prod.exhaust)
  obtain err gone l' where s: "send_once eq su l = (err, gone, l')" by (metis prod.exhaust)
  have p: "peek_readings max_batch (ru_spool (lo_runner l)) = ((case taken of Inl _ \<Rightarrow> [] | Inr es \<Rightarrow> es), sp)"
    using peek_readings_take [OF t] assms by (simp add: sound_disk_def)
  show ?thesis
    using send_once_spool [OF s t] assms p
    by (auto simp: send_phase_def s delivers_def sound_disk_def split: sum.splits)
qed

definition gathered_reading :: "'p equipment \<Rightarrow> 'p surroundings \<Rightarrow> 'p loop \<Rightarrow> string option" where
  "gathered_reading eq su l =
     Option.bind (su_collect su (collect_options eq (lo_runner l))) co_encoded"

lemma spool_add_unencoded: "spool_add f q None s = (Some Cannot_Encode, s)"
  by (simp add: spool_add_def)

lemma collect_phase_queue:
  assumes "sound_disk su"
  shows "ru_spool (lo_runner (collect_phase eq su l)) =
    (case gathered_reading eq su l of None \<Rightarrow> ru_spool (lo_runner l)
     | Some b \<Rightarrow> put_reading (i64 (lo_seq l + 1)) b (ru_spool (lo_runner l)))"
  using assms
  by (auto simp: collect_phase_def run_fields collect_once_def gathered_reading_def sound_disk_def
      put_reading_def spool_add_unencoded Let_def split: option.splits prod.splits)

end
