(* ===== verification/Agent_Run_Props.thy ===== *)
theory Agent_Run_Props
  imports Agent_Run_Facts
begin

text \<open>
  What the run loop promises in every state it can reach: how long it waits, where it sends, what it
  keeps while it is not answered, and what it delivers.
\<close>

section \<open>Bounds in every reachable state\<close>

definition loop_of :: "'p phase \<Rightarrow> 'p loop" where
  "loop_of p = (case p of Collecting l \<Rightarrow> l | Waiting l \<Rightarrow> l | Returned l \<Rightarrow> l)"

definition reaches :: "'p equipment \<Rightarrow> 'p loop \<Rightarrow> 'p loop \<Rightarrow> bool" where
  "reaches eq l0 l = (\<exists>p. (run_step eq)\<^sup>*\<^sup>* (Collecting l0) p \<and> loop_of p = l)"

lemma reaches_induct [consumes 1, case_names start collects sends]:
  assumes "reaches eq l0 l" "Q l0"
    "\<And>su l. Q l \<Longrightarrow> Q (collect_phase eq su l)" "\<And>su l. Q l \<Longrightarrow> Q (send_phase eq su l)"
  shows "Q l"
proof -
  obtain p where p: "(run_step eq)\<^sup>*\<^sup>* (Collecting l0) p" "loop_of p = l"
    using assms(1) by (auto simp: reaches_def)
  have "Q (loop_of p)" using p(1)
  proof (induction rule: rtranclp_induct)
    case base
    then show ?case using assms(2) by (simp add: loop_of_def)
  next
    case (step p q)
    from step.hyps(2) show ?case
      by (rule run_step_from) (use step.IH assms(3,4) in \<open>simp_all add: loop_of_def\<close>)
  qed
  then show ?thesis using p(2) by simp
qed

definition same_site :: "'p equipment \<Rightarrow> url \<Rightarrow> string \<Rightarrow> bool" where
  "same_site eq base s = (\<exists>u. parse_url s = Some u \<and> u_scheme u = ''https'' \<and> u_host u \<noteq> [] \<and> \<not> u_user u
     \<and> registrable (eq_lower eq) (hostname u) = registrable (eq_lower eq) (hostname base))"

definition in_bounds :: "'p equipment \<Rightarrow> config \<Rightarrow> url \<Rightarrow> 'p loop \<Rightarrow> bool" where
  "in_bounds eq c base l =
     (ru_config (lo_runner l) = c
      \<and> (lo_backoff l = 0 \<or> min_backoff \<le> lo_backoff l \<and> lo_backoff l \<le> max_backoff)
      \<and> ru_server_interval (lo_runner l) \<le> max_server_interval
      \<and> same_site eq base (lo_url l))"

lemma same_site_adopt:
  assumes "same_site eq base s" "registrable (eq_lower eq) (hostname base) \<noteq> []"
  shows "same_site eq base (fst (adopt (eq_lower eq) s offered))"
proof -
  obtain u ok where a: "adopt (eq_lower eq) s offered = (u, ok)" by (metis prod.exhaust)
  show ?thesis
  proof (cases ok)
    case True
    obtain cur where c: "parse_url s = Some cur"
        "registrable (eq_lower eq) (hostname cur) = registrable (eq_lower eq) (hostname base)"
      using assms(1) by (auto simp: same_site_def)
    have "adopt (eq_lower eq) s offered = (u, True)" using a True by simp
    from adopt_True [OF this c(1)] c(2) assms(2)
    show ?thesis by (auto simp: a same_site_def validate_url_None)
  next
    case False
    then have "u = s" using a by (auto simp: adopt_def Let_def split: if_splits option.splits)
    then show ?thesis using assms(1) a by simp
  qed
qed

lemma backoff_after_bounds:
  "b = 0 \<or> min_backoff \<le> b \<and> b \<le> max_backoff \<Longrightarrow>
     backoff_after err b = 0 \<or> min_backoff \<le> backoff_after err b \<and> backoff_after err b \<le> max_backoff"
  by (auto simp: backoff_after_def next_backoff_def min_backoff_def max_backoff_def second_ns_def
      split: option.split send_error.split)

lemma apply_cadence_bound:
  "ru_server_interval r \<le> max_server_interval \<Longrightarrow>
     ru_server_interval (apply_cadence res r) \<le> max_server_interval"
  by (simp add: apply_cadence_def)

lemma send_once_bounds:
  assumes "in_bounds eq c base l" "registrable (eq_lower eq) (hostname base) \<noteq> []"
    "send_once eq su l = (e, gone, l')"
  shows "in_bounds eq c base l'"
proof (cases rule: send_once_cases [of su l eq])
  case (answered es l0 rq gone0 l1 res err)
  note p = prepare_fields [OF answered(4)]
  show ?thesis
    using assms p answered(3,7) same_site_adopt [OF _ assms(2)]
    by (auto simp: in_bounds_def Let_def run_fields apply_cadence_bound split: option.splits)
qed (use assms in \<open>auto simp: in_bounds_def\<close>)

text \<open>
  C3: In every state the loop can reach, whatever the servers answered and whatever failed: the wait
  is at least the configured interval and at most an hour or that interval, the back-off is none or
  between half a minute and a quarter of an hour, and the address is https, without user info, on
  the registrable domain of the configured one.
\<close>

theorem run_stays_in_bounds:
  assumes "reaches eq (start eq c sp dir f now) l"
    and "parse_url (push_url c) = Some base" "u_scheme base = ''https''" "u_host base \<noteq> []" "\<not> u_user base"
      "registrable (eq_lower eq) (hostname base) \<noteq> []"
  shows "interval_setting c \<le> wait_time l \<and> wait_time l \<le> max max_server_interval (interval_setting c)
    \<and> (lo_backoff l = 0 \<or> min_backoff \<le> lo_backoff l \<and> lo_backoff l \<le> max_backoff)
    \<and> (\<exists>u. parse_url (lo_url l) = Some u \<and> u_scheme u = ''https'' \<and> u_host u \<noteq> [] \<and> \<not> u_user u
        \<and> registrable (eq_lower eq) (hostname u) = registrable (eq_lower eq) (hostname base))"
proof -
  have "in_bounds eq c base l"
    using assms(1)
  proof (induction rule: reaches_induct)
    case start
    have "same_site eq base (push_url c)" using assms(2-5) by (simp add: same_site_def)
    then show ?case
      using same_site_adopt [OF _ assms(6)]
      by (simp add: start_def Let_def in_bounds_def max_server_interval_def second_ns_def)
  next
    case (collects su l)
    then show ?case by (simp add: collect_phase_def in_bounds_def run_fields)
  next
    case (sends su l)
    obtain e gone l' where s: "send_once eq su l = (e, gone, l')" by (metis prod.exhaust)
    from send_once_bounds [OF sends assms(6) s] show ?case
      by (simp add: send_phase_def s in_bounds_def backoff_after_bounds)
  qed
  then show ?thesis
    by (auto simp: in_bounds_def same_site_def wait_time_def runner_interval_def max_backoff_def
        max_server_interval_def second_ns_def)
qed

section \<open>What is kept until it is answered\<close>

text \<open>An answer that says something of the readings: a success, or a refusal that names them.\<close>

definition acknowledged :: "'p equipment \<Rightarrow> http_outcome \<Rightarrow> bool" where
  "acknowledged eq net =
     (case net of Answer status payload \<Rightarrow> settles (receive (eq_lax_time eq) status payload) | _ \<Rightarrow> False)"

lemma push_answer_settles:
  assumes "\<forall>body. \<not> acknowledged eq (su_network su (lo_url l) body)"
  shows "\<not> settles (push_answer eq su es l)"
proof -
  obtain rq gone l1 where p: "prepare eq su es l = (rq, gone, l1)" by (metis prod.exhaust)
  have "case (case rq_body rq of None \<Rightarrow> Unbuildable | Some b \<Rightarrow> su_network su (lo_url l) b) of
      Answer status payload \<Rightarrow> \<not> settles (receive (eq_lax_time eq) status payload) | _ \<Rightarrow> True"
    using assms by (auto simp: acknowledged_def split: option.splits http_outcome.splits)
  from send_not_acknowledged [OF this, of "rq_body rq"] show ?thesis
    using prepare_fields(2) [OF p] by (simp add: push_answer_def p push_request_def settles_def)
qed


section \<open>The cadence\<close>

text \<open>
  A cadence stated by the server slows the agent down, within an hour, and nothing but a restart
  or a slower one ends it: when a later answer states one at or below the configured interval, or
  none at all, the interval stays the slow one.
\<close>

theorem slow_cadence_is_never_undone:
  fixes r :: "'p runner"
  assumes "\<forall>res\<in>set answers. res_min_interval res \<le> interval_setting (ru_config r)"
    "interval_setting (ru_config r) \<le> max_server_interval"
  shows "runner_interval (fold apply_cadence answers (apply_cadence slow r)) = runner_interval (apply_cadence slow r)"
proof -
  have "fold apply_cadence answers v = v" if "ru_config v = ru_config r" for v :: "'p runner"
    using assms that by (induction answers) (auto simp: apply_cadence_def)
  then show ?thesis by (simp add: run_fields)
qed

section \<open>What is delivered\<close>

text \<open>Any number of whole rounds: the readings collected, those delivered, and the state after.\<close>

fun rounds :: "'p equipment \<Rightarrow> 'p surroundings list \<Rightarrow> 'p loop \<Rightarrow> reading list \<times> reading list \<times> 'p loop" where
  "rounds eq [] l = ([], [], l)"
| "rounds eq (su # sus) l =
     (let l1 = collect_phase eq su l;
          (got, sent, l2) = rounds eq sus (send_phase eq su l1)
      in ((case gathered_reading eq su l of None \<Rightarrow> [] | Some b \<Rightarrow> [the_reading (lo_seq l1) b]) @ got,
          delivers eq su l1 @ sent, l2))"

definition whole_rounds :: "'p surroundings list \<Rightarrow> bool" where
  "whole_rounds sus = (\<forall>su\<in>set sus. sound_disk su
     \<and> (\<forall>ops c b. su_collect su ops = Some c \<and> co_encoded c = Some b \<longrightarrow> json_valid b))"

lemma collect_phase_seq: "lo_seq (collect_phase eq su l) = i64 (lo_seq l + 1)"
  by (simp add: collect_phase_def run_fields)

lemma send_phase_seq: "lo_seq (send_phase eq su l) = lo_seq l"
proof -
  obtain err gone l' where s: "send_once eq su l = (err, gone, l')" by (metis prod.exhaust)
  have "lo_seq l' = lo_seq l"
  proof (cases rule: send_once_cases [of su l eq])
    case (answered es l0 rq gone0 l1 res e)
    then show ?thesis
      using s prepare_fields [OF answered(4)] by (auto simp: Let_def run_fields split: option.splits)
  qed (use s in auto)
  then show ?thesis by (simp add: send_phase_def s)
qed

lemma rounds_are_queue_events:
  assumes "rounds eq sus l = (got, sent, l')" "whole_rounds sus" "0 \<le> lo_seq l"
    "lo_seq l + int (length sus) < 9223372036854775808"
  shows "\<exists>evs. in_order good_reading (lo_seq l) evs \<and> puts the_reading evs = got
    \<and> (\<forall>before. fold (queue_step put_reading peek_readings (spool_drop no_faults)) evs (ru_spool (lo_runner l), before)
        = (ru_spool (lo_runner l'), before @ sent))"
  using assms
proof (induction sus arbitrary: l got sent)
  case Nil
  then show ?case by (intro exI [of _ "[]"]) simp
next
  case (Cons su sus)
  define l1 where "l1 = collect_phase eq su l"
  define l2 where "l2 = send_phase eq su l1"
  obtain got2 sent2 where r: "rounds eq sus l2 = (got2, sent2, l')"
    using Cons.prems(1) by (auto simp: l1_def l2_def Let_def split: prod.splits)
  have seq: "lo_seq l1 = lo_seq l + 1" "lo_seq l2 = lo_seq l + 1"
    using Cons.prems(3,4) by (simp_all add: l1_def l2_def collect_phase_seq send_phase_seq i64_id)
  obtain evs where evs: "in_order good_reading (lo_seq l2) evs" "puts the_reading evs = got2"
    "\<And>before. fold (queue_step put_reading peek_readings (spool_drop no_faults)) evs (ru_spool (lo_runner l2), before)
        = (ru_spool (lo_runner l'), before @ sent2)"
    using Cons.IH [OF r] Cons.prems seq by (force simp: whole_rounds_def)
  define first where "first = (case gathered_reading eq su l of None \<Rightarrow> [] | Some b \<Rightarrow> [Put (lo_seq l1) b])"
  define last where "last = (if delivers eq su l1 \<noteq> [] then Delivered max_batch else (Undelivered max_batch :: (int, string) queue_event))"
  have disk: "sound_disk su" using Cons.prems(2) by (simp add: whole_rounds_def)
  have good: "gathered_reading eq su l = Some b \<Longrightarrow> good_reading (lo_seq l1) b" for b
    using Cons.prems(2-4) seq
    by (auto simp: gathered_reading_def good_reading_def whole_rounds_def bind_eq_Some_conv)
  have weaker: "in_order good_reading q evs \<Longrightarrow> r \<le> q \<Longrightarrow> in_order good_reading r evs" for q r evs
    by (induction good_reading q evs arbitrary: r rule: in_order.induct) auto
  show ?case
  proof (intro exI [of _ "first @ last # evs"] conjI allI)
    show "in_order good_reading (lo_seq l) (first @ last # evs)"
      using good evs(1) seq weaker [OF evs(1), of "lo_seq l"]
      by (auto simp: first_def last_def split: option.split)
    show "puts the_reading (first @ last # evs) = got"
      using Cons.prems(1) r evs(2)
      by (auto simp: first_def last_def l1_def l2_def Let_def split: option.splits prod.splits)
    fix before
    have "fold (queue_step put_reading peek_readings (spool_drop no_faults)) first (ru_spool (lo_runner l), before)
        = (ru_spool (lo_runner l1), before)"
      using collect_phase_queue [OF disk, of eq l]
      by (simp add: first_def l1_def collect_phase_seq split: option.split)
    moreover have "queue_step put_reading peek_readings (spool_drop no_faults) last (ru_spool (lo_runner l1), before)
        = (ru_spool (lo_runner l2), before @ delivers eq su l1)"
      using send_phase_queue [OF disk, of eq l1 before] by (simp add: last_def l2_def)
    ultimately show "fold (queue_step put_reading peek_readings (spool_drop no_faults)) (first @ last # evs)
        (ru_spool (lo_runner l), before) = (ru_spool (lo_runner l'), before @ sent)"
      using evs(3) Cons.prems(1) r by (auto simp: l1_def l2_def Let_def split: prod.splits)
  qed
qed


text \<open>
  An answer of the 200s that is not JSON, as a captive portal gives, is a success like any
  other: up to sixty readings that nobody stored are deleted.
\<close>

theorem page_of_a_stranger_deletes_readings:
  assumes "usable_spool (ru_spool (lo_runner l))" "sound_disk su"
    "\<forall>body. su_network su (lo_url l) body = Answer status page"
    "parse_json (take response_limit page) = None" "200 \<le> status" "status < 300"
  shows "fst (send_once eq su l) = None
    \<and> held (kept_in (ru_spool (lo_runner (send_phase eq su l)))) = drop max_batch (held (kept_in (ru_spool (lo_runner l))))"
proof -
  let ?s = "ru_spool (lo_runner l)" and ?es = "take max_batch (held (kept_in (ru_spool (lo_runner l))))"
  have valid: "\<forall>e\<in>set ?es. json_valid (reading_data e)"
    using assms(1) by (auto simp: usable_spool_def dest: in_set_takeD)
  have answer: "push_answer eq su ?es (l\<lparr>lo_runner := r\<rparr>) = (result_of nothing_decoded, None)" for r
    using push_answer_network [OF valid, of su "l\<lparr>lo_runner := r\<rparr>"] assms(3)
    by (simp add: receive_no_json [OF assms(4-6)])
  note peek = peek_readings_usable [OF assms(1), of max_batch]
  have "delivers eq su l = ?es"
    using answer by (simp add: delivers_def peek settles_def)
  then have spool: "ru_spool (lo_runner (send_phase eq su l)) = spool_drop no_faults ?es ?s"
    using send_phase_queue [OF assms(2), of eq l "[]"] by (auto simp: peek split: if_splits)
  have "fst (send_once eq su l) = None"
  proof (cases rule: send_once_cases [of su l eq])
    case (unreadable e)
    then show ?thesis
      using spool_take_usable [OF assms(1)] assms(2) by (simp add: sound_disk_def)
  next
    case (answered es l0 rq gone l1 res err)
    have "es = ?es"
      using answered(1) spool_take_usable [OF assms(1)] assms(2) by (simp add: sound_disk_def)
    then show ?thesis using answered(3,5,7) answer by (simp add: Let_def)
  qed simp
  then show ?thesis using spool drop_taken_held [OF assms(1)] by simp
qed

section \<open>A runner to look at\<close>

definition plain_config :: config where
  "plain_config = \<lparr>token = ''t'', url_setting = ''https://ingest.infranest.io'', interval_setting = 60 * second_ns,
     processes = True, process_args = False, services = True, renewers = True, listening = True, cron = True,
     job_output = True, journal_setting = True, jobs_dir = [], state_dir = []\<rparr>"

definition plain_equipment :: "string list equipment" where
  "plain_equipment = \<lparr>eq_platform = \<lparr>has_journal = False, has_services = False, has_listening = False,
       has_cron = False, has_setup = False, is_windows = True\<rparr>,
     eq_version = [], eq_lax_time = (\<lambda>_. None), eq_lower = id, eq_owner = (\<lambda>_. ''root''),
     eq_arrange = id, eq_peer_set = id, eq_usage_json = (\<lambda>_. JNull), eq_reports_json = (\<lambda>_. JNull),
     eq_journal_json = (\<lambda>_. JNull), eq_state_json = (\<lambda>_. Some ''{}''), eq_spool_text = (\<lambda>_. ''spool''),
     eq_push_text = (\<lambda>_. ''push'')\<rparr>"

definition plain_round :: "http_outcome \<Rightarrow> string list surroundings" where
  "plain_round net = \<lparr>su_clock = (\<lambda>_. 0), su_faults = (\<lambda>_. no_faults),
     su_collect = (\<lambda>_. Some \<lparr>co_failed = Map.empty, co_mounts = [], co_services = None, co_encoded = Some ''1''\<rparr>),
     su_scan = (\<lambda>p. \<lparr>us_mount_point = p, us_dirs = [], us_scanned_at = 0, us_partial = False, us_accounted = 0,
       us_unreadable = [], us_more_unreadable = 0\<rparr>),
     su_journal = (\<lambda>_. \<lparr>st_readable = False, st_reason = ''off''\<rparr>),
     su_lines = (\<lambda>_ _ _. \<lparr>s_lines = [], s_compressed = 0, s_truncated = False, s_withheld = []\<rparr>),
     su_count = (\<lambda>h. \<lparr>h_hour = h, h_units = [], h_more = 0, h_partial = False, h_auth_failures = 0\<rparr>),
     su_job_listing = Inr [], su_job_stat = (\<lambda>_. None), su_job_open = (\<lambda>_. None), su_network = (\<lambda>_ _. net)\<rparr>"

definition holding_one :: "string list loop" where
  "holding_one = (start plain_equipment plain_config
     \<lparr>kept_in = [(reading_file 7, Plain ''1'')], max_held = default_max\<rparr> [] no_faults 7)"

lemma holding_one_spool:
  "ru_spool (lo_runner holding_one) = \<lparr>kept_in = [(reading_file 7, Plain ''1'')], max_held = default_max\<rparr>"
  by (simp add: holding_one_def start_def Let_def)

lemma holding_one_usable:
  "usable_spool (ru_spool (lo_runner holding_one))" "held (kept_in (ru_spool (lo_runner holding_one))) = [the_reading 7 ''1'']"
proof -
  have "json_valid ''1''" by code_simp
  then show "usable_spool (ru_spool (lo_runner holding_one))"
      "held (kept_in (ru_spool (lo_runner holding_one))) = [the_reading 7 ''1'']"
    by (simp_all add: holding_one_spool usable_spool_def tidy_def held_def reading_entry_def is_file_def
        reading_file_json reading_of_def contents_def the_reading_def default_max_def)
qed

lemma run_stays_in_bounds_witness:
  "lo_backoff (collect_phase plain_equipment (plain_round Unreachable) holding_one) = 0
    \<and> 60 * second_ns \<le> wait_time (collect_phase plain_equipment (plain_round Unreachable) holding_one)
    \<and> wait_time (collect_phase plain_equipment (plain_round Unreachable) holding_one) \<le> max_server_interval"
proof -
  let ?l = "collect_phase plain_equipment (plain_round Unreachable) holding_one"
  have "(run_step plain_equipment)\<^sup>*\<^sup>* (Collecting holding_one) (Waiting ?l)"
    by (rule r_into_rtranclp) (rule run_step.collects)
  then have r: "reaches plain_equipment holding_one ?l"
    unfolding reaches_def by (intro exI [of _ "Waiting ?l"]) (simp add: loop_of_def)
  obtain u where u: "parse_url (push_url plain_config) = Some u"
    and "u_scheme u = ''https'' \<and> u_host u \<noteq> [] \<and> \<not> u_user u \<and> registrable id (hostname u) \<noteq> []"
  proof -
    have "(case parse_url (push_url plain_config) of Some u \<Rightarrow>
        u_scheme u = ''https'' \<and> u_host u \<noteq> [] \<and> \<not> u_user u \<and> registrable id (hostname u) \<noteq> [] | None \<Rightarrow> False)"
      by code_simp
    then show thesis using that by (auto split: option.splits)
  qed
  then have ok: "u_scheme u = ''https''" "u_host u \<noteq> []" "\<not> u_user u"
      "registrable (eq_lower plain_equipment) (hostname u) \<noteq> []"
    by (simp_all add: plain_equipment_def)
  from run_stays_in_bounds [OF r [unfolded holding_one_def] u ok, folded holding_one_def]
  have "60 * second_ns \<le> wait_time ?l \<and> wait_time ?l \<le> max_server_interval"
    by (simp add: plain_config_def max_server_interval_def second_ns_def)
  moreover have "lo_backoff ?l = 0"
    by (simp add: collect_phase_def run_fields holding_one_def start_def Let_def)
  ultimately show ?thesis by blast
qed



lemma page_of_a_stranger_deletes_readings_witness:
  "held (kept_in (ru_spool (lo_runner (send_phase plain_equipment (plain_round (Answer 200 ''<html>'')) holding_one)))) = []"
proof -
  have "parse_json (take response_limit ''<html>'') = None" by (simp add: response_limit_def) code_simp
  then show ?thesis
    using page_of_a_stranger_deletes_readings [OF holding_one_usable(1),
        of "plain_round (Answer 200 ''<html>'')" 200 "''<html>''" plain_equipment]
    by (simp add: sound_disk_def holding_one_usable(2) max_batch_def) (simp add: plain_round_def)
qed

lemma slow_cadence_is_never_undone_witness:
  "runner_interval (fold apply_cadence [no_result\<lparr>res_min_interval := 60 * second_ns\<rparr>]
      (apply_cadence (no_result\<lparr>res_min_interval := 300 * second_ns\<rparr>) (lo_runner holding_one))) = 300 * second_ns"
proof -
  have "runner_interval (apply_cadence (no_result\<lparr>res_min_interval := 300 * second_ns\<rparr>) (lo_runner holding_one))
      = 300 * second_ns"
    by (simp add: holding_one_def start_def Let_def plain_config_def apply_cadence_def runner_interval_def
        max_server_interval_def second_ns_def)
  moreover have "\<forall>res\<in>set [no_result\<lparr>res_min_interval := 60 * second_ns\<rparr>].
      res_min_interval res \<le> interval_setting (ru_config (lo_runner holding_one))"
    "interval_setting (ru_config (lo_runner holding_one)) \<le> max_server_interval"
    by (simp_all add: holding_one_def start_def Let_def plain_config_def max_server_interval_def second_ns_def)
  ultimately show ?thesis
    using slow_cadence_is_never_undone by metis
qed

end
