(* ===== verification/Jobrun.thy ===== *)
theory Jobrun
  imports Jobs Journal_Query
begin

text \<open>
  The wrapper of a cron job, \<^verbatim>\<open>internal/jobrun/jobrun.go\<close>: its command line, the tails of the command's
  two outputs, and what it reports and exits with. The command itself is the argument \<open>x\<close> of
  \<open>run_job\<close>: what it wrote, in the pieces it was read in, and how it ended.
\<close>

section \<open>The command line\<close>

definition job_flags :: "string list" where
  "job_flags = [''--job'', ''-job'']"

definition job_prefixes :: "string list" where
  "job_prefixes = [''--job='', ''-job='']"

definition wants :: "string list \<Rightarrow> bool" where
  "wants args = list_ex (\<lambda>a. a \<in> set job_flags \<or> a = ''--'' \<or> list_ex (has_prefix a) job_prefixes) args"

record job_options =
  opt_job :: string
  opt_no_output :: bool
  opt_command :: "string list"

datatype parse_error = Job_Needs_Name | Unexpected string | No_Job_Name | Job_Too_Long | Nothing_To_Run

text \<open>What follows the first equals sign.\<close>

definition after_equals :: "string \<Rightarrow> string" where
  "after_equals a = (case index_byte a CHR ''='' of None \<Rightarrow> a | Some i \<Rightarrow> drop (Suc i) a)"

fun parse_args :: "string list \<Rightarrow> job_options \<Rightarrow> parse_error + job_options" where
  "parse_args [] opts = Inr opts"
| "parse_args (a # args) opts =
     (if a = ''--'' then Inr (opts\<lparr>opt_command := args\<rparr>)
      else if a \<in> set job_flags
      then (case args of [] \<Rightarrow> Inl Job_Needs_Name | n # rest \<Rightarrow> parse_args rest (opts\<lparr>opt_job := n\<rparr>))
      else if list_ex (has_prefix a) job_prefixes then parse_args args (opts\<lparr>opt_job := after_equals a\<rparr>)
      else if a = ''--no-output'' \<or> a = ''-no-output'' then parse_args args (opts\<lparr>opt_no_output := True\<rparr>)
      else Inl (Unexpected a))"

definition no_options :: job_options where
  "no_options = \<lparr>opt_job = [], opt_no_output = False, opt_command = []\<rparr>"

definition parse_command_line :: "string list \<Rightarrow> parse_error + job_options" where
  "parse_command_line args =
     (case parse_args args no_options of Inl e \<Rightarrow> Inl e
      | Inr opts \<Rightarrow>
        (let opts = opts\<lparr>opt_job := trim_space (opt_job opts)\<rparr> in
         if opt_job opts = [] then Inl No_Job_Name
         else if max_job_bytes < length (opt_job opts) then Inl Job_Too_Long
         else if opt_command opts = [] then Inl Nothing_To_Run
         else Inr opts))"

section \<open>The tail of an output\<close>

record tail_buffer =
  tb_max :: nat
  tb_partial :: string
  tb_kept :: "string list"

definition new_tail :: "nat \<Rightarrow> tail_buffer" where
  "new_tail n = \<lparr>tb_max = n, tb_partial = [], tb_kept = []\<rparr>"

definition without_cr :: "string \<Rightarrow> string" where
  "without_cr = trim_right_of [CHR 0x0D]"

definition push_line :: "string \<Rightarrow> tail_buffer \<Rightarrow> tail_buffer" where
  "push_line l t = t\<lparr>tb_kept := last_n (tb_max t) (tb_kept t @ [without_cr l])\<rparr>"

definition write_byte :: "char \<Rightarrow> tail_buffer \<Rightarrow> tail_buffer" where
  "write_byte b t =
     (if b = CHR 0x0A then (push_line (tb_partial t) t)\<lparr>tb_partial := []\<rparr>
      else if length (tb_partial t) < max_line_bytes * 2 then t\<lparr>tb_partial := tb_partial t @ [b]\<rparr>
      else t)"

definition write_tail :: "string \<Rightarrow> tail_buffer \<Rightarrow> tail_buffer" where
  "write_tail p t = fold write_byte p t"

definition tail_lines :: "tail_buffer \<Rightarrow> string list" where
  "tail_lines t =
     last_n (tb_max t) (tb_kept t @ (if tb_partial t = [] then [] else [without_cr (tb_partial t)]))"

definition last_of_both :: "string list \<Rightarrow> string list \<Rightarrow> nat \<Rightarrow> string list" where
  "last_of_both out errs m =
     (let keep = length errs;
          keep = (if m div 2 < keep \<and> out \<noteq> [] then m div 2 else keep);
          keep = (if m < keep then m else keep);
          errs = last_n keep errs
      in last_n (m - length errs) out @ errs)"

section \<open>Running the command\<close>

text \<open>
  How a command ends: it exits with a code, a signal ends it (told apart only on Unix), it exits with
  zero but its output could not be passed on, or it cannot be started, for want of the file or else.
\<close>

datatype ending = Exited int | Signalled nat string | Not_Passed_On string | Missing string | Unstartable string

record ran =
  ran_out :: "string list"
  ran_err :: "string list"
  ran_ending :: ending
  ran_started :: go_time
  ran_ended :: go_time

definition milliseconds :: "int \<Rightarrow> int" where
  "milliseconds d = (if d < 0 then - (- d div 1000000) else d div 1000000)"

text \<open>The exit code, and the signal and the error of the report.\<close>

fun judged :: "ending \<Rightarrow> int \<times> string \<times> string" where
  "judged (Exited c) = (c, [], [])"
| "judged (Signalled n name) = (128 + int n, name, [])"
| "judged (Not_Passed_On e) = (126, [], e)"
| "judged (Missing e) = (127, [], e)"
| "judged (Unstartable e) = (126, [], e)"

definition run_job :: "(string \<Rightarrow> string) \<Rightarrow> string \<Rightarrow> job_options \<Rightarrow> ran \<Rightarrow> report \<times> int" where
  "run_job msk fresh opts x =
     (let out_tail = fold write_tail (ran_out x) (new_tail max_lines);
          err_tail = fold write_tail (ran_err x) (new_tail max_lines);
          (code, sig, err) = judged (ran_ending x);
          r = blank_report\<lparr>rep_id := fresh, rep_job := opt_job opts, rep_started := ran_started x,
                rep_ended := ran_ended x, rep_duration := milliseconds (time_sub (ran_ended x) (ran_started x)),
                rep_signal := sig, rep_error := err, rep_exit := code\<rparr>;
          r = (if code = 0 then r
               else if opt_no_output opts then r\<lparr>rep_withheld := True\<rparr>
               else r\<lparr>rep_output := mask_lines msk (last_of_both (tail_lines out_tail) (tail_lines err_tail) max_lines)\<rparr>)
      in (clipped r, code))"

text \<open>\<open>Main\<close>: the code to leave with, and the report handed to \<open>Write\<close>, if any.\<close>

definition wrapper_main ::
  "(string \<Rightarrow> string) \<Rightarrow> string \<Rightarrow> bool \<Rightarrow> (job_options \<Rightarrow> ran) \<Rightarrow> string list \<Rightarrow> int \<times> report option" where
  "wrapper_main msk fresh borrowed_rights execute args =
     (case parse_command_line args of Inl e \<Rightarrow> (2, None)
      | Inr opts \<Rightarrow>
        if borrowed_rights then (126, None)
        else (let (r, code) = run_job msk fresh opts (execute opts) in (code, Some r)))"

end
