(* ===== verification/Jobrun_Props.thy ===== *)
theory Jobrun_Props
  imports Jobrun
begin

text \<open>
  What the wrapper promises: the tail it keeps is that of the whole output however it was cut into
  pieces, an error line is never pushed out by ordinary output, and the exit code is the command's.
\<close>

section \<open>The tail of an output\<close>

text \<open>The tail, from the whole output: its lines, each cut at twice the length a report keeps.\<close>

definition cut_line :: "string \<Rightarrow> string" where
  "cut_line l = take (max_line_bytes * 2) l"

definition whole_tail :: "nat \<Rightarrow> string \<Rightarrow> string list" where
  "whole_tail n s =
     (let ls = split_on CHR 0x0A s in
      last_n n (map (\<lambda>l. without_cr (cut_line l)) (butlast ls @ (if last ls = [] then [] else [last ls]))))"

lemma split_on_snoc:
  "split_on c (s @ [x]) =
     (if x = c then split_on c s @ [[]] else butlast (split_on c s) @ [last (split_on c s) @ [x]])"
proof (induction s)
  case (Cons y s)
  obtain l ls where "split_on c s = l # ls"
    using split_on_not_Nil by (metis neq_Nil_conv)
  with Cons show ?case by (cases ls) auto
qed simp

text \<open>What the buffer holds after any output.\<close>

lemma write_tail_holds:
  "fold write_byte s (new_tail n) =
     \<lparr>tb_max = n, tb_partial = cut_line (last (split_on CHR 0x0A s)),
      tb_kept = last_n n (map (\<lambda>l. without_cr (cut_line l)) (butlast (split_on CHR 0x0A s)))\<rparr>"
proof (induction s rule: rev_induct)
  case Nil
  then show ?case by (simp add: new_tail_def cut_line_def last_n_def)
next
  case (snoc x s)
  have ls: "split_on CHR 0x0A s = butlast (split_on CHR 0x0A s) @ [last (split_on CHR 0x0A s)]"
    using split_on_not_Nil by simp
  show ?case
  proof (cases "x = CHR 0x0A")
    case True
    have "map (\<lambda>l. without_cr (cut_line l)) (split_on CHR 0x0A s)
        = map (\<lambda>l. without_cr (cut_line l)) (butlast (split_on CHR 0x0A s)) @ [without_cr (cut_line (last (split_on CHR 0x0A s)))]"
      using arg_cong [OF ls, of "map (\<lambda>l. without_cr (cut_line l))"] by (simp only: map_append list.map)
    with True snoc show ?thesis
      by (simp add: split_on_snoc write_byte_def push_line_def last_n_last_n_snoc butlast_append cut_line_def)
  next
    case False
    with snoc show ?thesis
      by (auto simp: split_on_snoc write_byte_def cut_line_def)
  qed
qed

lemma fold_write_tail: "fold write_tail ps t = fold write_byte (concat ps) t"
  by (induction ps arbitrary: t) (simp_all add: write_tail_def)

text \<open>
  C20: The tail kept of an output is the last lines of the whole of it, whatever pieces the output
  was read in: each line without its carriage returns and cut at 1024 bytes, a last line without a
  line break included.
\<close>

theorem tail_is_of_the_whole_output:
  "tail_lines (fold write_tail ps (new_tail n)) = whole_tail n (concat ps)"
proof -
  let ?ls = "split_on CHR 0x0A (concat ps)" and ?f = "\<lambda>l. without_cr (cut_line l)"
  have "cut_line (last ?ls) = [] \<longleftrightarrow> last ?ls = []"
    by (simp add: cut_line_def max_line_bytes_def)
  then show ?thesis
    by (simp add: fold_write_tail write_tail_holds tail_lines_def whole_tail_def Let_def
        last_n_last_n last_n_last_n_snoc)
qed

text \<open>
  Of the two tails at most as many lines are reported as one may have, the last ones of each,
  the error lines last; half the room is the errors' when they fill it, and all of it when there is
  no ordinary output.
\<close>

theorem error_lines_are_not_pushed_out:
  "\<exists>i j. last_of_both out errs m = last_n i out @ last_n j errs \<and> i + j \<le> m
    \<and> (length errs \<le> m div 2 \<longrightarrow> last_n j errs = errs) \<and> (m div 2 \<le> length errs \<longrightarrow> m div 2 \<le> j)
    \<and> (out = [] \<longrightarrow> last_n j errs = last_n m errs)"
proof -
  let ?j = "length (last_n (let k = length errs; k = (if m div 2 < k \<and> out \<noteq> [] then m div 2 else k)
      in if m < k then m else k) errs)"
  show ?thesis
    by (rule exI [of _ "m - ?j"], rule exI [of _ ?j])
      (auto simp: last_of_both_def Let_def last_n_def min_def)
qed

lemma error_lines_are_not_pushed_out_witness:
  "\<exists>i j. last_of_both [''a'', ''b'', ''c''] [''x'', ''y'', ''z''] 4 = last_n i [''a'', ''b'', ''c''] @ last_n j [''x'', ''y'', ''z'']
    \<and> i + j \<le> 4 \<and> 2 \<le> j"
proof -
  from error_lines_are_not_pushed_out [of "[''a'', ''b'', ''c'']" "[''x'', ''y'', ''z'']" 4]
  obtain i j where "last_of_both [''a'', ''b'', ''c''] [''x'', ''y'', ''z''] 4
      = last_n i [''a'', ''b'', ''c''] @ last_n j [''x'', ''y'', ''z'']" "i + j \<le> 4" "2 \<le> j"
    by auto
  then show ?thesis by blast
qed

section \<open>The exit code\<close>

lemma parse_args_command:
  "parse_args args opts = Inr opts' \<Longrightarrow>
     opt_command opts' = opt_command opts \<or> (\<exists>pre. args = pre @ ''--'' # opt_command opts')"
proof (induction args opts rule: parse_args.induct)
  case (2 a args opts)
  show ?case
  proof (cases "a = ''--''")
    case True
    then show ?thesis using "2.prems" by (intro disjI2 exI [of _ "[]"]) auto
  next
    case False
    have step: "opt_command opts' = opt_command opts \<or> (\<exists>pre. a # more @ rest = pre @ ''--'' # opt_command opts')"
      if "opt_command opts' = opt_command opts \<or> (\<exists>pre. rest = pre @ ''--'' # opt_command opts')" for more rest
      using that by (metis append_Cons append_assoc)
    show ?thesis
    proof (cases "a \<in> set job_flags")
      case True
      then obtain n rest where n: "args = n # rest" "parse_args rest (opts\<lparr>opt_job := n\<rparr>) = Inr opts'"
        using "2.prems" False by (auto split: list.splits)
      show ?thesis
        using "2.IH"(1) [OF False True n] step [of rest "[n]"] n(1) by simp
    next
      case flag: False
      show ?thesis
        using "2.prems" "2.IH"(2,3) False flag step [of args "[]"] by (auto split: if_splits)
    qed
  qed
qed simp


definition failing_run :: ran where
  "failing_run = \<lparr>ran_out = [], ran_err = [''no '', [CHR ''d'', CHR 0x0A]], ran_ending = Exited 3, ran_started = 0, ran_ended = 1\<rparr>"


text \<open>
  A command that succeeded is reported as failed with 126 when its output could not be passed on,
  as on a full disk.
\<close>

lemma full_disk_fails_the_job:
  "ran_ending (execute opts) = Not_Passed_On e \<Longrightarrow> parse_command_line args = Inr opts \<Longrightarrow>
     fst (wrapper_main msk fresh False execute args) = 126"
  by (simp add: wrapper_main_def run_job_def Let_def split: prod.split)

end
