(* ===== verification/Services.thy ===== *)
theory Services
  imports Dbus_Systemd Sample Login_Unit Go_Time "HOL-Library.Product_Lexorder"
begin

text \<open>
  The service units and the containers of a reading, \<^verbatim>\<open>internal/collect/services_linux.go\<close> and
  \<^verbatim>\<open>containers.go\<close>, asked over the bus connection of the D-Bus theories: which units are watched, what
  is read of each, and the order and the cap of the lists. A question that fails costs only its
  field.
\<close>

section \<open>Questions whose failure is ignored\<close>

definition attempt :: "'a answer \<Rightarrow> ('a option \<times> conn) outcome" where
  "attempt m = and_then m (\<lambda>(r, c). Returns (case r of Inl e \<Rightarrow> None | Inr x \<Rightarrow> Some x, c))"

text \<open>A question that is asked only sometimes.\<close>

definition attempt_if :: "bool \<Rightarrow> (conn \<Rightarrow> 'a answer) \<Rightarrow> conn \<Rightarrow> ('a option \<times> conn) outcome" where
  "attempt_if b ask c = (if b then attempt (ask c) else Returns (None, c))"

text \<open>A time of the bus, in microseconds, kept unless it is the zero time.\<close>

definition kept_time :: "int option option \<Rightarrow> go_time option" where
  "kept_time r =
     (case r of Some (Some us) \<Rightarrow> if unix_micro us = zero_time then None else Some (unix_micro us) | _ \<Rightarrow> None)"

definition kept_memory :: "64 word option \<Rightarrow> 64 word option" where
  "kept_memory r = (case r of Some b \<Rightarrow> if b = memory_unknown then None else Some b | None \<Rightarrow> None)"

section \<open>Which units\<close>

definition max_services :: nat where "max_services = 200"
definition max_unit :: nat where "max_unit = 255"
definition max_description :: nat where "max_description = 255"
definition max_state :: nat where "max_state = 32"

definition watchable :: "unit_info \<Rightarrow> bool" where
  "watchable u =
     (u_name u \<noteq> [] \<and> \<not> contains (u_name u) ''@.'' \<and> \<not> is_instance (u_name u)
      \<and> u_load_state u \<noteq> ''not-found''
      \<and> (has_suffix (u_name u) ''.service'' \<or> has_suffix (u_name u) ''.timer''))"

definition is_enabled :: "string \<Rightarrow> bool" where
  "is_enabled state = (trim_space state \<in> set [''enabled'', ''enabled-runtime'', ''generated'', ''indirect''])"

definition unit_failed :: "unit_info \<Rightarrow> bool" where
  "unit_failed u = (u_active_state u = ''failed'')"

definition included :: "nat \<Rightarrow> nat \<Rightarrow> unit_info \<Rightarrow> conn \<Rightarrow> (bool \<times> conn) outcome" where
  "included w f u c =
     (if unit_failed u then Returns (True, c)
      else and_then (attempt (unit_file_state w f c (u_name u))) (\<lambda>(state, c).
             Returns (case state of None \<Rightarrow> False | Some s \<Rightarrow> is_enabled s, c)))"

section \<open>What is read of a unit\<close>

definition listed_service :: "unit_info \<Rightarrow> service" where
  "listed_service u = (blank_service (clip (u_name u) max_unit))\<lparr>
     sv_description := clip (u_description u) max_description,
     sv_active_state := clip (u_active_state u) max_state, sv_sub_state := clip (u_sub_state u) max_state,
     sv_object_path := u_path u\<rparr>"

definition read_timer :: "nat \<Rightarrow> nat \<Rightarrow> unit_info \<Rightarrow> service \<Rightarrow> conn \<Rightarrow> (service \<times> conn) outcome" where
  "read_timer w f u s c =
     and_then (attempt (timer_last_trigger w f c (u_path u))) (\<lambda>(before, c).
     and_then (attempt (timer_next_elapse w f c (u_path u))) (\<lambda>(following, c).
     Returns (s\<lparr>sv_last_trigger := kept_time before, sv_next_elapse := kept_time following\<rparr>, c)))"

text \<open>Why a unit failed: the code and the status of its main process only as a pair.\<close>

definition kept_result :: "string option \<Rightarrow> string" where
  "kept_result r =
     (case r of Some x \<Rightarrow> if x = [] \<or> x = ''success'' then [] else clip x max_state | None \<Rightarrow> [])"

definition read_failure :: "nat \<Rightarrow> nat \<Rightarrow> unit_info \<Rightarrow> service \<Rightarrow> conn \<Rightarrow> (service \<times> conn) outcome" where
  "read_failure w f u s c =
     and_then (attempt (unit_result w f c (u_path u))) (\<lambda>(res, c).
     and_then (attempt (exec_main_code w f c (u_path u))) (\<lambda>(code, c).
     and_then (attempt (exec_main_status w f c (u_path u))) (\<lambda>(status, c).
     (let s = s\<lparr>sv_result := kept_result res\<rparr> in
      Returns (case (code, status) of
          (Some k, Some x) \<Rightarrow> if k \<noteq> 0 then s\<lparr>sv_main_code := Some k, sv_main_status := Some x\<rparr> else s
        | _ \<Rightarrow> s, c)))))"

definition read_running :: "nat \<Rightarrow> nat \<Rightarrow> unit_info \<Rightarrow> service \<Rightarrow> conn \<Rightarrow> (service \<times> conn) outcome" where
  "read_running w f u s c =
     and_then (attempt (restarts w f c (u_path u))) (\<lambda>(n, c).
     and_then (attempt (memory_current w f c (u_path u))) (\<lambda>(b, c).
     (let s = s\<lparr>sv_restarts := n, sv_memory := kept_memory b\<rparr> in
      if unit_failed u then read_failure w f u s c else Returns (s, c))))"

definition read_service :: "nat \<Rightarrow> nat \<Rightarrow> unit_info \<Rightarrow> conn \<Rightarrow> (service \<times> conn) outcome" where
  "read_service w f u c =
     (let s = listed_service u in
      if u_path u = [] then Returns (s, c)
      else
        and_then (attempt (state_changed_at w f c (u_path u))) (\<lambda>(since, c).
        (let s = s\<lparr>sv_changed := kept_time since\<rparr> in
         and_then (if has_suffix (u_name u) ''.timer'' then read_timer w f u s c else Returns (s, c)) (\<lambda>(s, c).
         if has_suffix (u_name u) ''.service'' then read_running w f u s c else Returns (s, c)))))"

fun read_units :: "nat \<Rightarrow> nat \<Rightarrow> unit_info list \<Rightarrow> conn \<Rightarrow> (service list \<times> conn) outcome" where
  "read_units w f [] c = Returns ([], c)"
| "read_units w f (u # us) c =
     (if \<not> watchable u then read_units w f us c
      else and_then (included w f u c) (\<lambda>(keep, c).
        if \<not> keep then read_units w f us c
        else and_then (read_service w f u c) (\<lambda>(s, c).
             and_then (read_units w f us c) (\<lambda>(ss, c). Returns (s # ss, c)))))"

text \<open>Failures first, then by name, and no more than the cap.\<close>

definition failed_first :: "service \<Rightarrow> bool \<times> string" where
  "failed_first s = (sv_active_state s \<noteq> ''failed'', sv_unit s)"

definition ranked_services :: "service list \<Rightarrow> service list" where
  "ranked_services ss = take max_services (sort_key failed_first ss)"

text \<open>\<open>readFragments\<close>: the file each reported unit was loaded from.\<close>

fun read_fragments :: "nat \<Rightarrow> nat \<Rightarrow> service list \<Rightarrow> conn \<Rightarrow> (service list \<times> conn) outcome" where
  "read_fragments w f [] c = Returns ([], c)"
| "read_fragments w f (s # ss) c =
     and_then (attempt_if (sv_object_path s \<noteq> []) (\<lambda>c. fragment_path w f c (sv_object_path s)) c) (\<lambda>(p, c).
     and_then (read_fragments w f ss c) (\<lambda>(ss, c).
     Returns ((case p of Some x \<Rightarrow> if has_prefix x ''/'' then s\<lparr>sv_fragment := x\<rparr> else s | None \<Rightarrow> s) # ss, c)))"

section \<open>Containers\<close>

definition max_containers :: nat where "max_containers = 100"
definition tracker_forget :: int where "tracker_forget = 30 * 60 * 1000000000"

record published_port =
  pp_protocol :: string
  pp_host_ip :: string
  pp_host_port :: int
  pp_container_port :: int

record container =
  ct_id :: string
  ct_runtime :: string
  ct_active_state :: string
  ct_started :: "go_time option"
  ct_restarts :: "64 word option"
  ct_memory :: "64 word option"
  ct_main_pid :: int
  ct_main_process :: string
  ct_main_command :: string
  ct_ports :: "published_port list"
  ct_cgroup :: string

record tracked =
  tr_started :: go_time
  tr_last_seen :: go_time
  tr_restarts :: "64 word"

type_synonym tracker = "string \<rightharpoonup> tracked"

definition observe_start :: "string \<Rightarrow> go_time \<Rightarrow> go_time \<Rightarrow> tracker \<Rightarrow> 64 word \<times> tracker" where
  "observe_start i started now t =
     (case t i of
        None \<Rightarrow> (0, t(i \<mapsto> \<lparr>tr_started = started, tr_last_seen = now, tr_restarts = 0\<rparr>))
      | Some e \<Rightarrow>
        (let e = (if tr_started e < started then e\<lparr>tr_restarts := tr_restarts e + 1, tr_started := started\<rparr> else e);
             e = e\<lparr>tr_last_seen := now\<rparr>
         in (tr_restarts e, t(i \<mapsto> e))))"

definition forget_containers :: "go_time \<Rightarrow> tracker \<Rightarrow> tracker" where
  "forget_containers now t =
     (\<lambda>i. case t i of None \<Rightarrow> None
        | Some e \<Rightarrow> if tracker_forget < time_sub now (tr_last_seen e) then None else Some e)"

definition lower_hex :: "char \<Rightarrow> bool" where
  "lower_hex c = (is_digit c \<or> 97 \<le> byte_val c \<and> byte_val c \<le> 102)"

definition scope_of :: "string \<Rightarrow> string \<Rightarrow> string option" where
  "scope_of prefix u =
     (if length u = length prefix + 64 + 6 \<and> has_prefix u prefix \<and> has_suffix u ''.scope''
         \<and> list_all lower_hex (take 64 (drop (length prefix) u))
      then Some (take 12 (drop (length prefix) u)) else None)"

definition container_scope :: "string \<Rightarrow> (string \<times> string) option" where
  "container_scope u =
     (case scope_of ''docker-'' u of Some i \<Rightarrow> Some (i, ''docker'')
      | None \<Rightarrow> (case scope_of ''libpod-'' u of Some i \<Rightarrow> Some (i, ''podman'') | None \<Rightarrow> None))"

definition read_container ::
  "nat \<Rightarrow> nat \<Rightarrow> string \<times> string \<Rightarrow> unit_info \<Rightarrow> go_time \<Rightarrow> tracker \<Rightarrow> conn \<Rightarrow> (container \<times> tracker \<times> conn) outcome" where
  "read_container w f i u now t c =
     and_then (attempt (scope_control_group w f c (u_path u))) (\<lambda>(group, c).
     and_then (attempt (active_entered_at w f c (u_path u))) (\<lambda>(since, c).
     and_then (attempt (scope_memory_current w f c (u_path u))) (\<lambda>(b, c).
     (let (n, t) = (case kept_time since of None \<Rightarrow> (None, t)
                    | Some started \<Rightarrow> (case observe_start (fst i) started now t of (k, t) \<Rightarrow> (Some k, t)))
      in Returns (\<lparr>ct_id = fst i, ct_runtime = snd i, ct_active_state = clip (u_active_state u) max_state,
           ct_started = kept_time since, ct_restarts = n, ct_memory = kept_memory b,
           ct_main_pid = 0, ct_main_process = [], ct_main_command = [], ct_ports = [],
           ct_cgroup = (case group of Some g \<Rightarrow> if has_prefix g ''/'' then g else ''/system.slice/'' @ u_name u
                        | None \<Rightarrow> ''/system.slice/'' @ u_name u)\<rparr>, t, c)))))"

fun read_containers ::
  "nat \<Rightarrow> nat \<Rightarrow> unit_info list \<Rightarrow> go_time \<Rightarrow> tracker \<Rightarrow> conn \<Rightarrow> (container list \<times> tracker \<times> conn) outcome" where
  "read_containers w f [] now t c = Returns ([], t, c)"
| "read_containers w f (u # us) now t c =
     (case container_scope (u_name u) of None \<Rightarrow> read_containers w f us now t c
      | Some i \<Rightarrow>
        if u_path u = [] then read_containers w f us now t c
        else and_then (read_container w f i u now t c) (\<lambda>(x, t, c).
             and_then (read_containers w f us now t c) (\<lambda>(xs, t, c). Returns (x # xs, t, c))))"

definition restarts_first :: "container \<Rightarrow> int \<times> string" where
  "restarts_first x = (- uint (case ct_restarts x of None \<Rightarrow> 0 | Some n \<Rightarrow> n), ct_id x)"

definition collect_containers ::
  "nat \<Rightarrow> nat \<Rightarrow> unit_info list \<Rightarrow> go_time \<Rightarrow> tracker \<Rightarrow> conn
     \<Rightarrow> (container list \<times> tracker \<times> conn) outcome" where
  "collect_containers w f us now t c =
     and_then (read_containers w f us now t c) (\<lambda>(xs, t, c).
     Returns (take max_containers (sort_key restarts_first xs), forget_containers now t, c))"

section \<open>The whole collection\<close>

text \<open>\<open>CollectUnits\<close> on a connection; the containers only when there is a tracker.\<close>

definition services_of_units :: "nat \<Rightarrow> nat \<Rightarrow> unit_info list \<Rightarrow> conn \<Rightarrow> (service list \<times> conn) outcome" where
  "services_of_units w f us c =
     and_then (read_units w f us c) (\<lambda>(ss, c). read_fragments w f (ranked_services ss) c)"

definition collect_units ::
  "nat \<Rightarrow> nat \<Rightarrow> go_time \<Rightarrow> tracker option \<Rightarrow> conn
     \<Rightarrow> ((call_err + service list \<times> container list option) \<times> tracker option \<times> conn) outcome" where
  "collect_units w f now t c =
     and_then (list_units w f c) (\<lambda>(r, c).
     case r of Inl e \<Rightarrow> Returns (Inl e, t, c)
     | Inr us \<Rightarrow>
       and_then (case t of None \<Rightarrow> Returns (None, None, c)
                 | Some tr \<Rightarrow> and_then (collect_containers w f us now tr c)
                     (\<lambda>(xs, tr, c). Returns (Some xs, Some tr, c))) (\<lambda>(xs, t, c).
       and_then (services_of_units w f us c) (\<lambda>(ss, c). Returns (Inr (ss, xs), t, c))))"

end
