(* ===== verification/Services_Props.thy ===== *)
theory Services_Props
  imports Services
begin

text \<open>
  What a reading says of the service units, whatever the bus answers to each question: every unit
  reported is one that is watched, what is not known is left out, and the cap never cuts a failure
  for a unit that runs.
\<close>

section \<open>One unit\<close>

text \<open>A row of the list that was made of a unit.\<close>

definition row_of :: "unit_info \<Rightarrow> service \<Rightarrow> bool" where
  "row_of u s = (sv_unit s = clip (u_name u) max_unit \<and> sv_active_state s = clip (u_active_state u) max_state
     \<and> (sv_main_code s = None \<longleftrightarrow> sv_main_status s = None) \<and> sv_main_code s \<noteq> Some 0
     \<and> sv_memory s \<noteq> Some memory_unknown)"

lemma listed_service_row: "row_of u (listed_service u)"
  by (simp add: row_of_def listed_service_def blank_service_def)

lemma row_of_updates:
  "row_of u s \<Longrightarrow> row_of u (s\<lparr>sv_changed := a\<rparr>)"
  "row_of u s \<Longrightarrow> row_of u (s\<lparr>sv_last_trigger := a, sv_next_elapse := b\<rparr>)"
  "row_of u s \<Longrightarrow> row_of u (s\<lparr>sv_restarts := n, sv_memory := kept_memory m\<rparr>)"
  "row_of u s \<Longrightarrow> row_of u (s\<lparr>sv_result := r\<rparr>)"
  "row_of u s \<Longrightarrow> k \<noteq> 0 \<Longrightarrow> row_of u (s\<lparr>sv_result := r, sv_main_code := Some k, sv_main_status := Some x\<rparr>)"
  "row_of u s \<Longrightarrow> row_of u (s\<lparr>sv_fragment := p\<rparr>)"
  by (simp_all add: row_of_def kept_memory_def split: option.split)

lemma read_timer_row: "row_of u s \<Longrightarrow> yields (\<lambda>(s, c). row_of u s) (read_timer w f u s c)"
  unfolding read_timer_def by (intro yields_any) (auto simp: row_of_updates intro!: yields_any)

lemma read_failure_row: "row_of u s \<Longrightarrow> yields (\<lambda>(s, c). row_of u s) (read_failure w f u s c)"
  unfolding read_failure_def Let_def
  by (intro yields_any) (auto simp: row_of_updates intro!: yields_any split: option.split)

lemma read_running_row: "row_of u s \<Longrightarrow> yields (\<lambda>(s, c). row_of u s) (read_running w f u s c)"
  unfolding read_running_def Let_def
  by (intro yields_any) (auto simp: row_of_updates intro!: yields_any read_failure_row)

lemma read_service_row: "yields (\<lambda>(s, c). row_of u s) (read_service w f u c)"
proof -
  have kept: "yields (\<lambda>(s, c). row_of u s) (if has_suffix (u_name u) ''.service'' then read_running w f u s c else Returns (s, c))"
    if "row_of u s" for s c
    using that by (simp add: read_running_row)
  have timed: "yields (\<lambda>(s, c). row_of u s) (if has_suffix (u_name u) ''.timer'' then read_timer w f u s c else Returns (s, c))"
    if "row_of u s" for s c
    using that by (simp add: read_timer_row)
  have asked: "yields (\<lambda>(s, c). row_of u s)
      (and_then (if has_suffix (u_name u) ''.timer'' then read_timer w f u s c else Returns (s, c)) (\<lambda>(s, c).
         if has_suffix (u_name u) ''.service'' then read_running w f u s c else Returns (s, c)))"
    if "row_of u s" for s c
    by (rule yields_and_then [OF timed [OF that]]) (use kept in auto)
  show ?thesis
    unfolding read_service_def Let_def
    by (auto simp: listed_service_row intro!: yields_any asked row_of_updates(1) simp del: if_split)
qed

section \<open>The list\<close>

definition failing :: "unit_info list \<Rightarrow> unit_info set" where
  "failing us = {u \<in> set us. watchable u \<and> unit_failed u}"

text \<open>Rows of some of the watched units, all that failed among them.\<close>

definition rows_of :: "unit_info list \<Rightarrow> service list \<Rightarrow> bool" where
  "rows_of us ss = ((\<forall>s\<in>set ss. \<exists>u\<in>set us. watchable u \<and> row_of u s) \<and> (\<forall>u\<in>failing us. \<exists>s\<in>set ss. row_of u s))"

lemma rows_of_skip: "rows_of us ss \<Longrightarrow> \<not> (watchable u \<and> unit_failed u) \<Longrightarrow> rows_of (u # us) ss"
  by (auto simp: rows_of_def failing_def)

lemma rows_of_Cons: "rows_of us ss \<Longrightarrow> watchable u \<Longrightarrow> row_of u s \<Longrightarrow> rows_of (u # us) (s # ss)"
  by (auto simp: rows_of_def failing_def)

lemma included_failed: "yields (\<lambda>(keep, c). unit_failed u \<longrightarrow> keep) (included w f u c)"
  by (auto simp: included_def intro!: yields_any)

lemma read_units_rows: "yields (\<lambda>(ss, c). rows_of us ss) (read_units w f us c)"
proof (induction us arbitrary: c)
  case Nil
  then show ?case by (simp add: rows_of_def failing_def)
next
  case (Cons u us)
  have skip: "yields (\<lambda>(ss, c). rows_of (u # us) ss) (read_units w f us c)" if "\<not> (watchable u \<and> unit_failed u)" for c
    using Cons [of c] that by (cases "read_units w f us c") (auto simp: rows_of_skip)
  have one: "yields (\<lambda>(ss, c). rows_of (u # us) ss)
      (and_then (read_units w f us c) (\<lambda>(ss, c). Returns (s # ss, c)))" if "watchable u" "row_of u s" for s c
    using Cons [of c] that by (cases "read_units w f us c") (auto simp: rows_of_Cons)
  show ?case
  proof (cases "watchable u")
    case True
    then show ?thesis
      by (auto intro!: yields_and_then [OF included_failed] yields_and_then [OF read_service_row] skip one)
  qed (simp add: skip)
qed

lemma failed_first_fragment [simp]: "failed_first (s\<lparr>sv_fragment := p\<rparr>) = failed_first s"
  by (simp add: failed_first_def)

text \<open>Reading the files changes nothing but the file.\<close>

definition same_rows :: "service list \<Rightarrow> service list \<Rightarrow> bool" where
  "same_rows ss ts = list_all2 (\<lambda>s t. \<exists>p. t = s\<lparr>sv_fragment := p\<rparr>) ss ts"

lemma read_fragments_rows: "yields (\<lambda>(ts, c). same_rows ss ts) (read_fragments w f ss c)"
proof (induction ss arbitrary: c)
  case (Cons s ss)
  have self: "\<exists>p. s = s\<lparr>sv_fragment := p\<rparr>" by (rule exI [of _ "sv_fragment s"]) simp
  show ?case
    using self
    by (auto intro!: yields_any yields_and_then [OF Cons] simp: same_rows_def split: option.split)
qed (simp add: same_rows_def)

lemma same_rows_map: "same_rows ss ts \<Longrightarrow> map failed_first ts = map failed_first ss"
  unfolding same_rows_def by (induction rule: list_all2_induct) auto

lemma same_rows_row: "same_rows ss ts \<Longrightarrow> (\<exists>t\<in>set ts. row_of u t) \<longleftrightarrow> (\<exists>s\<in>set ss. row_of u s)"
  unfolding same_rows_def by (induction rule: list_all2_induct) (auto simp: row_of_def)

lemma same_rows_back: "same_rows ss ts \<Longrightarrow> \<forall>t\<in>set ts. \<exists>s\<in>set ss. \<exists>p. t = s\<lparr>sv_fragment := p\<rparr>"
  unfolding same_rows_def by (induction rule: list_all2_induct) auto

lemma ranked_failed:
  assumes "s \<in> set ss" "sv_active_state s = ''failed''" "s \<notin> set (ranked_services ss)"
  shows "length (ranked_services ss) = max_services \<and> (\<forall>t\<in>set (ranked_services ss). sv_active_state t = ''failed'')"
proof -
  have low: "failed_first t \<le> failed_first s \<and> length (ranked_services ss) = max_services"
    if "t \<in> set (ranked_services ss)" for t
    using cut_sorted [OF assms(1) _ that [unfolded ranked_services_def]] assms(3) by (simp add: ranked_services_def)
  have "ranked_services ss \<noteq> []"
    using assms(1,3) by (auto simp: ranked_services_def max_services_def) (metis length_pos_if_in_set length_sort list.size(3) not_less_zero)
  then show ?thesis
    using low assms(2) by (fastforce simp: failed_first_def less_eq_prod_def dest: hd_in_set)
qed

text \<open>
  C22: Whatever the bus answers: at most 200 units are reported, the failed ones first and each part
  in the order of the names; every one is a unit that is watched, so no template and no login
  connection, with both the code and the status of its main process or neither, and no memory that
  systemd does not know; and a unit that failed is missing only when 200 that failed are there.
\<close>

theorem failed_units_are_reported_first:
  assumes "services_of_units w f us c = Returns (ss, c')"
  shows "length ss \<le> 200 \<and> sorted (map failed_first ss)
    \<and> (\<forall>s\<in>set ss. \<exists>u\<in>set us. watchable u \<and> \<not> is_instance (u_name u) \<and> row_of u s)
    \<and> (\<forall>u\<in>set us. watchable u \<and> unit_failed u \<longrightarrow> (\<exists>s\<in>set ss. row_of u s)
        \<or> length ss = 200 \<and> (\<forall>s\<in>set ss. sv_active_state s = ''failed''))"
proof -
  obtain rs c1 where r: "read_units w f us c = Returns (rs, c1)"
    and g: "read_fragments w f (ranked_services rs) c1 = Returns (ss, c')"
    using assms by (auto simp: services_of_units_def and_then_eq_Returns)
  have rows: "rows_of us rs" using read_units_rows [of us w f c] r by simp
  have same: "same_rows (ranked_services rs) ss" using read_fragments_rows [of "ranked_services rs" w f c1] g by simp
  have len: "length ss = length (ranked_services rs)" using same by (simp add: same_rows_def list_all2_lengthD)
  have "sorted (map failed_first (ranked_services rs))"
    unfolding ranked_services_def take_map [symmetric] by (rule sorted_wrt_take) simp
  then have order: "sorted (map failed_first ss)" using same_rows_map [OF same] by simp
  have all: "\<exists>u\<in>set us. watchable u \<and> \<not> is_instance (u_name u) \<and> row_of u s" if in_ss: "s \<in> set ss" for s
  proof -
    obtain t p where t: "t \<in> set (ranked_services rs)" "s = t\<lparr>sv_fragment := p\<rparr>"
      using bspec [OF same_rows_back [OF same] in_ss] by (elim bexE exE)
    then have "t \<in> set rs" by (auto simp: ranked_services_def dest: in_set_takeD)
    then obtain u where "u \<in> set us" "watchable u" "row_of u t" using rows by (auto simp: rows_of_def)
    moreover have "\<not> is_instance (u_name u)" using \<open>watchable u\<close> by (simp add: watchable_def)
    moreover have "row_of u s" unfolding t(2) by (rule row_of_updates(6)) (rule \<open>row_of u t\<close>)
    ultimately show ?thesis by (intro bexI [of _ u] conjI)
  qed
  have failed: "(\<exists>s\<in>set ss. row_of u s) \<or> length ss = 200 \<and> (\<forall>s\<in>set ss. sv_active_state s = ''failed'')"
    if u: "u \<in> set us" "watchable u" "unit_failed u" for u
  proof -
    have "u \<in> failing us" using u by (simp add: failing_def)
    then obtain s where s: "s \<in> set rs" "row_of u s" using rows by (auto simp: rows_of_def)
    then have "sv_active_state s = ''failed''"
      using u(3) by (simp add: row_of_def unit_failed_def max_state_def clip_id)
    note cut = ranked_failed [OF s(1) this]
    show ?thesis
    proof (cases "s \<in> set (ranked_services rs)")
      case True
      then show ?thesis using s(2) same_rows_row [OF same, of u] by blast
    next
      case False
      have "sv_active_state t = ''failed''" if "t \<in> set ss" for t
        using same_rows_back [OF same] that cut [OF False] by fastforce
      then show ?thesis using cut [OF False] len by (simp add: max_services_def)
    qed
  qed
  have "length ss \<le> 200" using len by (simp add: ranked_services_def max_services_def)
  then show ?thesis using order all failed by blast
qed

text \<open>A bus that answers nothing any more, and a unit that failed.\<close>

definition silent_bus :: conn where
  "silent_bus = \<lparr>sent = [], input = [], serial = 0, writes_left = 0\<rparr>"

definition failed_cron :: unit_info where
  "failed_cron = \<lparr>u_name = ''cron.service'', u_description = [], u_load_state = ''loaded'',
     u_active_state = ''failed'', u_sub_state = ''failed'', u_path = []\<rparr>"

lemma failed_units_are_reported_first_witness:
  "\<exists>ss c. services_of_units 64 9 [failed_cron] silent_bus = Returns (ss, c) \<and> (\<exists>s\<in>set ss. row_of failed_cron s)"
proof -
  have "case services_of_units 64 9 [failed_cron] silent_bus of Returns (ss, c) \<Rightarrow> length ss = 1 | _ \<Rightarrow> False"
    by code_simp
  then obtain ss c where s: "services_of_units 64 9 [failed_cron] silent_bus = Returns (ss, c)" "length ss = 1"
    by (auto split: outcome.splits)
  have "watchable failed_cron" "unit_failed failed_cron" by code_simp+
  then show ?thesis
    using failed_units_are_reported_first [OF s(1)] s by auto
qed

section \<open>Containers\<close>

text \<open>What the tracker holds after the sightings of a container, one after the other.\<close>

definition sightings :: "string \<Rightarrow> (go_time \<times> go_time) list \<Rightarrow> tracker" where
  "sightings i xs = foldl (\<lambda>t (started, now). snd (observe_start i started now t)) Map.empty xs"

text \<open>A start is a restart when it is later than every one before it.\<close>

definition later_starts :: "go_time list \<Rightarrow> nat" where
  "later_starts ts = card {k. 0 < k \<and> k < length ts \<and> (\<forall>j<k. ts ! j < ts ! k)}"

lemma later_starts_snoc:
  assumes "ts \<noteq> []"
  shows "later_starts (ts @ [t]) = later_starts ts + (if Max (set ts) < t then 1 else 0)"
proof -
  let ?K = "\<lambda>us. {k. 0 < k \<and> k < length us \<and> (\<forall>j<k. us ! j < us ! k)}"
  have old: "k \<in> ?K (ts @ [t]) \<longleftrightarrow> k \<in> ?K ts" if "k < length ts" for k
    using that by (auto simp: nth_append)
  have new: "length ts \<in> ?K (ts @ [t]) \<longleftrightarrow> Max (set ts) < t"
    using assms by (auto simp: nth_append all_set_conv_all_nth)
  have "?K (ts @ [t]) = ?K ts \<union> (if Max (set ts) < t then {length ts} else {})"
  proof (intro set_eqI)
    fix k
    consider "k < length ts" | "k = length ts" | "length ts < k" by linarith
    then show "k \<in> ?K (ts @ [t]) \<longleftrightarrow> k \<in> ?K ts \<union> (if Max (set ts) < t then {length ts} else {})"
      by cases (use old new in auto)
  qed
  moreover have "finite (?K ts)" "length ts \<notin> ?K ts" by simp_all
  ultimately show ?thesis by (simp add: later_starts_def)
qed

lemma later_starts_single: "later_starts [t] = 0"
  unfolding later_starts_def by (subst card_eq_0_iff) force

text \<open>
  However a container's starts are sighted, a clock stepping back included, its restarts are the
  sightings of a start later than all before, modulo 2 to the 64; and sightings of one container
  change nothing of another.
\<close>

theorem container_restarts_count_later_starts:
  "sightings i (xs @ [(started, now)]) i = Some \<lparr>tr_started = Max (set (map fst xs @ [started])),
      tr_last_seen = now, tr_restarts = word_of_nat (later_starts (map fst xs @ [started]))\<rparr>
    \<and> (j = i \<or> sightings i xs j = None)"
proof -
  have keep: "snd (observe_start i s n t) j = t j" if "j \<noteq> i" for s n t
    using that by (simp add: observe_start_def Let_def split: option.split)
  have other: "j = i \<or> sightings i ys j = None" for ys
    by (cases "j = i"; induction ys rule: rev_induct) (auto simp: sightings_def keep)
  have "sightings i (ys @ [(s, n)]) i = Some \<lparr>tr_started = Max (set (map fst ys @ [s])),
      tr_last_seen = n, tr_restarts = word_of_nat (later_starts (map fst ys @ [s]))\<rparr>" for ys s n
  proof (induction ys arbitrary: s n rule: rev_induct)
    case Nil
    then show ?case by (simp add: sightings_def observe_start_def later_starts_single)
  next
    case (snoc y ys)
    obtain s0 n0 where y: "y = (s0, n0)" by (cases y)
    have step: "sightings i ((ys @ [y]) @ [(s, n)]) = snd (observe_start i s n (sightings i (ys @ [y])))"
      by (simp add: sightings_def)
    define zs where "zs = map fst ys @ [s0]"
    have zs: "zs \<noteq> []" "map fst (ys @ [y]) @ [s] = zs @ [s]" by (simp_all add: zs_def y)
    have mx: "Max (set (zs @ [s])) = max s (Max (set zs))" using zs(1) by simp
    have ih: "sightings i (ys @ [y]) i = Some \<lparr>tr_started = Max (set zs), tr_last_seen = n0,
        tr_restarts = word_of_nat (later_starts zs)\<rparr>"
      using snoc.IH [of s0 n0] by (simp only: y zs_def)
    show ?case
      unfolding step zs(2) mx later_starts_snoc [OF zs(1)]
      by (simp add: observe_start_def Let_def ih max_def)
  qed
  from this [of xs started now] other [of xs] show ?thesis by (rule conjI)
qed

end
