(* ===== verification/Go_Text.thy ===== *)
theory Go_Text
  imports Go_Std
begin

text \<open>
  Words, lines and numbers of the text files the collectors read: \<^verbatim>\<open>strings.Fields\<close>, a
  \<^verbatim>\<open>bufio.Scanner\<close> over lines, \<^verbatim>\<open>filepath.Base\<close> and decimal numbers.
\<close>

section \<open>Words\<close>

text \<open>\<^verbatim>\<open>strings.Fields\<close>: the words between white space.\<close>

definition space_width :: "string \<Rightarrow> nat" where
  "space_width s = (case List.find (has_prefix s) space_runes of None \<Rightarrow> 0 | Some r \<Rightarrow> length r)"

definition word_end :: "string \<Rightarrow> string list" where
  "word_end w = (if w = [] then [] else [w])"

function words_from :: "string \<Rightarrow> string \<Rightarrow> string list" where
  "words_from w s =
     (if s = [] then word_end w
      else if space_width s = 0 then words_from (w @ [hd s]) (tl s)
      else word_end w @ words_from [] (drop (space_width s) s))"
  by pat_completeness auto
termination
  by (relation "measure (\<lambda>(w, s). length s)") auto

declare words_from.simps [simp del]

definition go_fields :: "string \<Rightarrow> string list" where
  "go_fields s = words_from [] s"

section \<open>Lines\<close>

text \<open>The lines of a file, each without a carriage return, and whether one did not fit the scanner's buffer.\<close>

definition file_lines :: "string \<Rightarrow> string list \<times> bool" where
  "file_lines s =
     (let ls = split_on CHR 0x0A s in
      case scanned_lines (if last ls = [] then butlast ls else ls) of
        (out, e) \<Rightarrow> (map (\<lambda>l. trim_suffix l [CHR 0x0D]) out, e))"

text \<open>The same with a scanner whose buffer was made larger.\<close>

fun scanned_upto :: "nat \<Rightarrow> string list \<Rightarrow> string list" where
  "scanned_upto m [] = []"
| "scanned_upto m (l # ls) = (if m \<le> length l then [] else l # scanned_upto m ls)"

definition file_lines_upto :: "nat \<Rightarrow> string \<Rightarrow> string list" where
  "file_lines_upto m s =
     (let ls = split_on CHR 0x0A s in
      map (\<lambda>l. trim_suffix l [CHR 0x0D]) (scanned_upto m (if last ls = [] then butlast ls else ls)))"

section \<open>Paths and numbers\<close>

text \<open>\<^verbatim>\<open>filepath.Base\<close>.\<close>

definition file_base :: "string \<Rightarrow> string" where
  "file_base p =
     (if p = [] then ''.''
      else (let q = trim_right_of ''/'' p in
        if q = [] then ''/'' else rev (takeWhile (\<lambda>c. c \<noteq> CHR ''/'') (rev q))))"

text \<open>\<^verbatim>\<open>filepath.Clean\<close>, on the parts between slashes.\<close>

fun clean_parts :: "bool \<Rightarrow> string list \<Rightarrow> string list \<Rightarrow> string list" where
  "clean_parts rooted out [] = rev out"
| "clean_parts rooted out (p # ps) =
     (if p = [] \<or> p = ''.'' then clean_parts rooted out ps
      else if p \<noteq> ''..'' then clean_parts rooted (p # out) ps
      else if out \<noteq> [] \<and> hd out \<noteq> ''..'' then clean_parts rooted (tl out) ps
      else if rooted then clean_parts rooted out ps
      else clean_parts rooted (p # out) ps)"

definition path_clean :: "string \<Rightarrow> string" where
  "path_clean p =
     (let rooted = has_prefix p ''/'';
          s = join_with ''/'' (clean_parts rooted [] (split_on CHR ''/'' p))
      in if rooted then CHR ''/'' # s else if s = [] then ''.'' else s)"

text \<open>\<^verbatim>\<open>filepath.Dir\<close>; \<^verbatim>\<open>filepath.Join\<close> of a clean path and a name, and \<^verbatim>\<open>Dir\<close> of a clean path.\<close>

definition file_dir :: "string \<Rightarrow> string" where
  "file_dir p = path_clean (case last_index_byte p CHR ''/'' of None \<Rightarrow> [] | Some i \<Rightarrow> take (Suc i) p)"

definition path_join :: "string \<Rightarrow> string \<Rightarrow> string" where
  "path_join p n = (if p = ''/'' then CHR ''/'' # n else p @ ''/'' @ n)"

definition path_dir :: "string \<Rightarrow> string" where
  "path_dir p =
     (case last_index_byte p CHR ''/'' of None \<Rightarrow> ''.''
      | Some i \<Rightarrow> if i = 0 then ''/'' else take i p)"

fun decimal_digits :: "nat \<Rightarrow> nat \<Rightarrow> string" where
  "decimal_digits 0 n = []"
| "decimal_digits (Suc k) n =
     (if n < 10 then [byte (48 + n)] else decimal_digits k (n div 10) @ [byte (48 + n mod 10)])"

text \<open>\<^verbatim>\<open>%d\<close> of a 64-bit number: nineteen digits at most.\<close>

definition decimal64 :: "int \<Rightarrow> string" where
  "decimal64 n = (if n < 0 then ''-'' else []) @ decimal_digits 19 (nat \<bar>n\<bar>)"

section \<open>Lemmas\<close>

fun no_space :: "string \<Rightarrow> bool" where
  "no_space [] = True"
| "no_space (c # s) = (space_width (c # s) = 0 \<and> no_space s)"

definition plain_word :: "string \<Rightarrow> bool" where
  "plain_word s = (s \<noteq> [] \<and> no_space s)"

lemma space_runes_nonempty: "r \<in> set space_runes \<Longrightarrow> r \<noteq> []"
  by (auto simp: space_runes_def)

lemma space_width_zero: "space_width s = 0 \<longleftrightarrow> (\<forall>r\<in>set space_runes. \<not> has_prefix s r)"
proof (cases "List.find (has_prefix s) space_runes")
  case None
  then have "\<not> (\<exists>r. r \<in> set space_runes \<and> has_prefix s r)"
    by (simp only: find_None_iff simp_thms)
  with None show ?thesis by (auto simp: space_width_def)
next
  case (Some r)
  then have r: "r \<in> set space_runes" "has_prefix s r"
    by (auto simp: find_Some_iff)
  with Some show ?thesis
    using space_runes_nonempty by (auto simp: space_width_def)
qed

lemma space_inside: "r \<in> set space_runes \<Longrightarrow> r = '' '' \<or> CHR 0x20 \<notin> set r"
  by (auto simp: space_runes_def)

text \<open>A blank ends every reach of a white-space character from its left, and from its right.\<close>

lemma no_rune_before_blank:
  assumes "x \<noteq> []" "\<not> has_prefix x p" "p = '' '' \<or> CHR 0x20 \<notin> set p"
  shows "\<not> has_prefix (x @ CHR 0x20 # r) p"
proof
  assume "has_prefix (x @ CHR 0x20 # r) p"
  then obtain t where t: "x @ CHR 0x20 # r = p @ t" by (auto simp: has_prefix_iff)
  have "length x < length p"
  proof (rule ccontr)
    assume "\<not> length x < length p"
    then have "x = p @ drop (length p) x"
      using arg_cong [OF t, of "take (length p)"] append_take_drop_id [of "length p" x] by simp
    then have "has_prefix x p" by (metis has_prefix_iff)
    then show False using assms(2) by simp
  qed
  then have "CHR 0x20 \<in> set p" "p \<noteq> '' ''"
    using t assms(1) by (auto simp: append_eq_append_conv2 Cons_eq_append_conv)
  then show False using assms(3) by simp
qed

definition starts_plain :: "string \<Rightarrow> bool" where
  "starts_plain s = (s \<noteq> [] \<and> space_width s = 0)"

definition ends_plain :: "string \<Rightarrow> bool" where
  "ends_plain s = (s \<noteq> [] \<and> (\<forall>p\<in>set space_runes. \<not> has_prefix (rev s) (rev p)))"

lemma starts_plain_before_blank: "starts_plain x \<Longrightarrow> starts_plain (x @ CHR 0x20 # r)"
  unfolding starts_plain_def space_width_zero
  using no_rune_before_blank space_inside by blast

lemma plain_word_context:
  assumes "x \<noteq> []" "space_width x = 0"
  shows "space_width (x @ CHR 0x20 # r) = 0"
  using starts_plain_before_blank [of x r] assms by (simp add: starts_plain_def)

lemma ends_plain_after_blank:
  assumes "ends_plain y"
  shows "ends_plain (r @ CHR 0x20 # y)"
proof -
  have "\<not> has_prefix (rev y @ CHR 0x20 # rev r) (rev p)" if p: "p \<in> set space_runes" for p
  proof (rule no_rune_before_blank)
    show "rev y \<noteq> []" "\<not> has_prefix (rev y) (rev p)" using assms p by (auto simp: ends_plain_def)
    show "rev p = '' '' \<or> CHR 0x20 \<notin> set (rev p)" using space_inside [OF p] by auto
  qed
  then show ?thesis by (simp add: ends_plain_def)
qed

lemma plain_word_starts: "plain_word x \<Longrightarrow> starts_plain x"
  by (cases x) (simp_all add: plain_word_def starts_plain_def)

lemma strip_left_none: "\<forall>p\<in>set rs. \<not> has_prefix s p \<Longrightarrow> strip_left rs n s = s"
proof (cases n)
  case (Suc m)
  assume "\<forall>p\<in>set rs. \<not> has_prefix s p"
  then have "List.find (\<lambda>r. has_prefix s r) rs = None" by (auto simp: find_None_iff)
  then show ?thesis using Suc by simp
qed simp

lemma trim_space_plain: "starts_plain s \<Longrightarrow> ends_plain s \<Longrightarrow> trim_space s = s"
  by (simp add: trim_space_def starts_plain_def space_width_zero ends_plain_def strip_left_none)

lemma trim_space_blank:
  assumes "starts_plain s" "ends_plain s"
  shows "trim_space (CHR 0x20 # s) = s"
proof -
  have "strip_left space_runes (length s) s = s"
    using assms(1) by (intro strip_left_none) (simp add: starts_plain_def space_width_zero)
  then have "strip_left space_runes (length (CHR 0x20 # s)) (CHR 0x20 # s) = s"
    by (simp add: space_runes_def)
  then show ?thesis
    using assms(2) by (simp only: trim_space_def Let_def) (simp add: ends_plain_def strip_left_none)
qed

lemma words_from_word:
  "no_space x \<Longrightarrow> w @ x \<noteq> [] \<Longrightarrow>
     words_from w (x @ CHR 0x20 # r) = (w @ x) # words_from [] r"
proof (induction x arbitrary: w)
  case Nil
  have "space_width (CHR 0x20 # r) = 1"
    by (simp add: space_width_def space_runes_def has_prefix_def)
  with Nil show ?case by (subst words_from.simps) (simp add: word_end_def)
next
  case (Cons c x)
  then have "space_width ((c # x) @ CHR 0x20 # r) = 0" by (intro plain_word_context) simp_all
  then show ?case
    using Cons.IH [of "w @ [c]"] Cons.prems(1) by (subst words_from.simps) simp
qed

lemma go_fields_word: "plain_word x \<Longrightarrow> go_fields (x @ CHR 0x20 # r) = x # go_fields r"
  using words_from_word [of x "[]" r] by (simp add: plain_word_def go_fields_def)

text \<open>Where a byte stands.\<close>

lemma index_byte_at: "c \<notin> set a \<Longrightarrow> index_byte (a @ c # r) c = Some (length a)"
  by (induction a) auto

lemma last_index_byte_at: "c \<notin> set r \<Longrightarrow> last_index_byte (a @ c # r) c = Some (length a)"
  by (induction a) (auto simp: last_index_byte_None [THEN iffD2])

text \<open>A file of whole lines is read as its lines.\<close>

lemma file_lines_entries:
  assumes "\<forall>l\<in>set ls. CHR 0x0A \<notin> set l \<and> length l < 65536 \<and> \<not> has_suffix l [CHR 0x0D]"
  shows "file_lines (concat (map (\<lambda>l. l @ [CHR 0x0A]) ls)) = (ls, False)"
proof -
  have "map (\<lambda>l. trim_suffix l [CHR 0x0D]) ls = ls"
    using assms by (induction ls) (auto simp: trim_suffix_def)
  then show ?thesis
    using assms split_on_lines [of ls "CHR 0x0A"] scanned_lines_all [of ls]
    by (simp add: file_lines_def Let_def)
qed

lemma scanned_upto_all: "\<forall>l\<in>set ls. length l < m \<Longrightarrow> scanned_upto m ls = ls"
  by (induction ls) auto

lemma file_lines_upto_entries:
  assumes "\<forall>l\<in>set ls. CHR 0x0A \<notin> set l \<and> length l < m \<and> \<not> has_suffix l [CHR 0x0D]"
  shows "file_lines_upto m (concat (map (\<lambda>l. l @ [CHR 0x0A]) ls)) = ls"
proof -
  have "map (\<lambda>l. trim_suffix l [CHR 0x0D]) ls = ls"
    using assms by (induction ls) (auto simp: trim_suffix_def)
  then show ?thesis
    using assms split_on_lines [of ls "CHR 0x0A"] scanned_upto_all [of ls m]
    by (simp add: file_lines_upto_def Let_def)
qed

end
