(* ===== verification/Proc_Parse.thy ===== *)
theory Proc_Parse
  imports Go_Float Go_Utf8 Go_Text Sample
begin

text \<open>
  The readers of the kernel's text files, \<^verbatim>\<open>internal/collect/proc.go\<close> and \<^verbatim>\<open>parse_extra.go\<close>: processor
  times, memory, mounts and processes. Each takes the text of its file; \<^verbatim>\<open>strconv\<close>'s readers of
  64-bit numbers refuse what does not fit.
\<close>

section \<open>Numbers\<close>

definition parse_uint64 :: "string \<Rightarrow> 64 word option" where
  "parse_uint64 s =
     (if s \<noteq> [] \<and> list_all is_digit s \<and> digits_of s < 18446744073709551616
      then Some (of_int (digits_of s)) else None)"

definition parse_int64 :: "string \<Rightarrow> int option" where
  "parse_int64 s =
     (let neg = has_prefix s ''-''; ds = (if neg \<or> has_prefix s ''+'' then tl s else s);
          v = (if neg then - digits_of ds else digits_of ds)
      in if ds \<noteq> [] \<and> list_all is_digit ds \<and> - 9223372036854775808 \<le> v \<and> v \<le> 9223372036854775807
         then Some v else None)"

section \<open>Processor times\<close>

record cpu_times =
  cpu_user :: "64 word"
  cpu_nice :: "64 word"
  cpu_system :: "64 word"
  cpu_idle :: "64 word"
  cpu_iowait :: "64 word"
  cpu_irq :: "64 word"
  cpu_softirq :: "64 word"
  cpu_steal :: "64 word"

definition cpu_busy :: "cpu_times \<Rightarrow> 64 word" where
  "cpu_busy c = cpu_user c + cpu_nice c + cpu_system c + cpu_irq c + cpu_softirq c"

definition cpu_total :: "cpu_times \<Rightarrow> 64 word" where
  "cpu_total c = cpu_busy c + cpu_idle c + cpu_iowait c + cpu_steal c"

definition cpu_of :: "64 word list \<Rightarrow> cpu_times" where
  "cpu_of v = \<lparr>cpu_user = v ! 0, cpu_nice = v ! 1, cpu_system = v ! 2, cpu_idle = v ! 3,
     cpu_iowait = v ! 4, cpu_irq = v ! 5, cpu_softirq = v ! 6, cpu_steal = v ! 7\<rparr>"

text \<open>Eight numbers, a missing one being zero; the first that cannot be read is an error.\<close>

fun cpu_values :: "nat \<Rightarrow> string list \<Rightarrow> 64 word list option" where
  "cpu_values 0 ws = Some []"
| "cpu_values (Suc n) [] = Some (replicate (Suc n) 0)"
| "cpu_values (Suc n) (x # ws) =
     (case parse_uint64 x of None \<Rightarrow> None | Some v \<Rightarrow> map_option ((#) v) (cpu_values n ws))"

fun stat_lines :: "string list \<Rightarrow> cpu_times option option" where
  "stat_lines [] = None"
| "stat_lines (l # ls) =
     (let ws = go_fields l in
      if length ws < 8 \<or> hd ws \<noteq> ''cpu'' then stat_lines ls
      else Some (map_option cpu_of (cpu_values 8 (tl ws))))"

definition parse_stat :: "string \<Rightarrow> cpu_times option" where
  "parse_stat s = (case stat_lines (fst (file_lines s)) of Some r \<Rightarrow> r | None \<Rightarrow> None)"

definition clamp_percent :: "rat \<Rightarrow> rat" where
  "clamp_percent v = (if v < 0 then 0 else if 100 < v then 100 else v)"

definition cpu_percent :: "cpu_times \<Rightarrow> cpu_times \<Rightarrow> rat option" where
  "cpu_percent b a =
     (if cpu_total a < cpu_total b \<or> cpu_busy a < cpu_busy b then None
      else (let tot = cpu_total a - cpu_total b in
        if tot = 0 then None
        else Some (clamp_percent (fl (float_div (float_of_int (uint (cpu_busy a - cpu_busy b)))
               (float_of_int (uint tot)) * 100)))))"

section \<open>Memory\<close>

definition meminfo_line :: "string \<Rightarrow> (string \<rightharpoonup> int) \<Rightarrow> (string \<rightharpoonup> int)" where
  "meminfo_line l m =
     (case index_byte l CHR '':'' of None \<Rightarrow> m
      | Some i \<Rightarrow>
        (case go_fields (drop (Suc i) l) of [] \<Rightarrow> m
         | w # _ \<Rightarrow> (case parse_int64 w of None \<Rightarrow> m | Some n \<Rightarrow> m(take i l \<mapsto> i64 (n * 1024)))))"

definition or_none :: "int option \<Rightarrow> int" where
  "or_none v = (case v of None \<Rightarrow> 0 | Some x \<Rightarrow> x)"

text \<open>\<open>parseMeminfo\<close>: used, tot and used swap.\<close>

definition parse_meminfo :: "string \<Rightarrow> (int \<times> int \<times> int) option" where
  "parse_meminfo s =
     (case file_lines s of
        (ls, True) \<Rightarrow> None
      | (ls, False) \<Rightarrow>
        (let m = fold meminfo_line ls Map.empty in
         case m ''MemTotal'' of None \<Rightarrow> None
         | Some tot \<Rightarrow>
           if tot \<le> 0 then None
           else (let available = (case m ''MemAvailable'' of Some a \<Rightarrow> a
                   | None \<Rightarrow> i64 (i64 (or_none (m ''MemFree'') + or_none (m ''Buffers'')) + or_none (m ''Cached'')))
                 in Some (max 0 (i64 (tot - available)), tot,
                          max 0 (i64 (or_none (m ''SwapTotal'') - or_none (m ''SwapFree'')))))))"

section \<open>Mounts\<close>

record mount_entry =
  me_device :: string
  me_point :: string
  me_fstype :: string

definition pseudo_filesystems :: "string list" where
  "pseudo_filesystems =
     [''autofs'', ''bpf'', ''cgroup'', ''cgroup2'', ''configfs'', ''debugfs'', ''devpts'', ''devtmpfs'',
      ''efivarfs'', ''fuse.gvfsd-fuse'', ''fusectl'', ''hugetlbfs'', ''mqueue'', ''nsfs'', ''overlay'',
      ''proc'', ''pstore'', ''ramfs'', ''rpc_pipefs'', ''securityfs'', ''selinuxfs'', ''squashfs'',
      ''sysfs'', ''tmpfs'', ''tracefs'']"

text \<open>Three octal digits that make a byte.\<close>

definition octal_byte :: "string \<Rightarrow> char option" where
  "octal_byte s =
     (if length s = 3 \<and> list_all (\<lambda>c. 48 \<le> byte_val c \<and> byte_val c \<le> 55) s
      then (let n = (byte_val (s ! 0) - 48) * 64 + (byte_val (s ! 1) - 48) * 8 + (byte_val (s ! 2) - 48)
            in if n < 256 then Some (byte n) else None)
      else None)"

fun unescape_mount :: "string \<Rightarrow> string" where
  "unescape_mount [] = []"
| "unescape_mount (c # r) =
     (if c = CHR 0x5C then
        (case octal_byte (take 3 r) of Some b \<Rightarrow> b # unescape_mount (drop 3 r) | None \<Rightarrow> c # unescape_mount r)
      else c # unescape_mount r)"

definition mount_of_line :: "string \<Rightarrow> mount_entry option" where
  "mount_of_line l =
     (case go_fields l of
        d # p # t # _ \<Rightarrow>
          if t \<in> set pseudo_filesystems then None
          else Some \<lparr>me_device = d, me_point = unescape_mount p, me_fstype = t\<rparr>
      | _ \<Rightarrow> None)"

text \<open>An entry takes the place of the one at the same mount point.\<close>

fun put_mount :: "mount_entry \<Rightarrow> mount_entry list \<Rightarrow> mount_entry list" where
  "put_mount e [] = [e]"
| "put_mount e (x # xs) = (if me_point x = me_point e then e # xs else x # put_mount e xs)"

definition mounts_of_lines :: "string list \<Rightarrow> mount_entry list" where
  "mounts_of_lines ls =
     fold (\<lambda>l out. case mount_of_line l of None \<Rightarrow> out | Some e \<Rightarrow> put_mount e out) ls []"

definition parse_mounts :: "string \<Rightarrow> mount_entry list \<times> bool" where
  "parse_mounts s = (case file_lines s of (ls, e) \<Rightarrow> (mounts_of_lines ls, e))"

text \<open>\<open>dedupeMounts\<close>: the key of the code, three values joined by bars, is here the three values.\<close>

definition mount_key :: "mount \<Rightarrow> string \<times> int \<times> int" where
  "mount_key m = (device m, total_bytes m, used_bytes m)"

fun dedupe_mounts :: "mount list \<Rightarrow> (string \<times> int \<times> int) list \<Rightarrow> mount list" where
  "dedupe_mounts [] seen = []"
| "dedupe_mounts (m # ms) seen =
     (if device m \<noteq> [] \<and> mount_key m \<in> set seen then dedupe_mounts ms seen
      else m # dedupe_mounts ms (mount_key m # seen))"

section \<open>Processes\<close>

definition parse_proc_comm :: "string \<Rightarrow> string option" where
  "parse_proc_comm stat =
     (case (index_byte stat CHR 0x28, last_index_byte stat CHR 0x29) of
        (Some i, Some j) \<Rightarrow>
          if j \<le> i then None
          else (let comm = trim_space (take (j - Suc i) (drop (Suc i) stat))
                in if comm = [] then None else Some comm)
      | _ \<Rightarrow> None)"

record proc_times =
  pt_cpu :: "64 word"
  pt_start :: int

definition parse_proc_times :: "string \<Rightarrow> proc_times option" where
  "parse_proc_times stat =
     (case last_index_byte stat CHR 0x29 of None \<Rightarrow> None
      | Some j \<Rightarrow>
        (let ws = go_fields (drop (Suc j) stat) in
         if length ws < 20 then None
         else (case (parse_uint64 (ws ! 11), parse_uint64 (ws ! 12), parse_int64 (ws ! 19)) of
             (Some u, Some s, Some t) \<Rightarrow> Some \<lparr>pt_cpu = u + s, pt_start = t\<rparr>
           | _ \<Rightarrow> None)))"

fun boot_time_lines :: "string list \<Rightarrow> int option" where
  "boot_time_lines [] = None"
| "boot_time_lines (l # ls) =
     (if \<not> has_prefix l ''btime '' then boot_time_lines ls
      else (case go_fields l of _ # v # _ \<Rightarrow> parse_int64 v | _ \<Rightarrow> None))"

definition parse_boot_time :: "string \<Rightarrow> int option" where
  "parse_boot_time stat = boot_time_lines (split_on CHR 0x0A stat)"

definition parse_statm_rss :: "string \<Rightarrow> int \<Rightarrow> int option" where
  "parse_statm_rss statm page_size =
     (case go_fields statm of _ # v # _ \<Rightarrow> map_option (\<lambda>n. i64 (n * page_size)) (parse_int64 v) | _ \<Rightarrow> None)"

definition atoi_strict :: "string \<Rightarrow> int option" where
  "atoi_strict s = (if s = [] \<or> \<not> list_all is_digit s then None else parse_int64 s)"

definition memory_of :: "process \<Rightarrow> int" where
  "memory_of p = or_none (p_memory p)"

definition top_by_memory :: "process list \<Rightarrow> int \<Rightarrow> process list" where
  "top_by_memory ps limit =
     take (nat (if limit \<le> 0 then 10 else limit)) (sort_key (\<lambda>p. - memory_of p) ps)"

text \<open>\<open>baseName\<close>, of both separators.\<close>

definition path_base :: "string \<Rightarrow> string" where
  "path_base p = rev (takeWhile (\<lambda>c. c \<noteq> CHR ''/'' \<and> c \<noteq> CHR 0x5C) (rev p))"

text \<open>\<open>inodeCounts\<close>: used and total, unless the file system keeps no table of them.\<close>

definition inode_counts :: "64 word \<Rightarrow> 64 word \<Rightarrow> (int \<times> int) option" where
  "inode_counts tot free =
     (if tot = 0 \<or> tot < free \<or> 2 ^ 62 < uint tot then None
      else Some (uint (tot - free), uint tot))"

end
