(* ===== verification/Proc_Props.thy ===== *)
theory Proc_Props
  imports Proc_Parse
begin

text \<open>
  What the readers of the kernel's files promise: a mount point is read as it was before the kernel
  escaped it, the last of several mounts at a place counts, the name of a process cannot move its
  other fields.
\<close>

section \<open>Mounts\<close>

text \<open>What the kernel makes of a path in its table of mounts.\<close>

definition octal3 :: "char \<Rightarrow> string" where
  "octal3 c = [byte (48 + byte_val c div 64), byte (48 + byte_val c div 8 mod 8), byte (48 + byte_val c mod 8)]"

definition kernel_mangle :: "string \<Rightarrow> string" where
  "kernel_mangle s =
     concat (map (\<lambda>c. if c \<in> {CHR 0x20, CHR 0x09, CHR 0x0A, CHR 0x5C, CHR 0x23} then CHR 0x5C # octal3 c else [c]) s)"

lemma octal_byte_octal3: "octal_byte (octal3 c) = Some c"
proof -
  define v where "v = byte_val c"
  have v: "v < 256" "c = byte v" by (simp_all add: v_def byte_def)
  have d: "v div 64 \<le> 7" "v div 8 mod 8 \<le> 7" "v mod 8 \<le> 7" using v(1) by auto
  have b: "byte_val (byte (48 + k)) = 48 + k" if "k \<le> 7" for k
    using that by (simp add: byte_def of_char_of)
  have "v div 8 div 8 * 8 + v div 8 mod 8 = v div 8" "v div 8 * 8 + v mod 8 = v"
    by (rule div_mult_mod_eq)+
  moreover have "v div 8 div 8 = v div 64" using div_mult2_eq [of v 8 8] by simp
  ultimately have e: "v div 64 * 64 + v div 8 mod 8 * 8 + v mod 8 = v" by linarith
  show ?thesis
    unfolding octal_byte_def octal3_def v_def [symmetric]
    using d e v by (simp add: b Let_def)
qed

lemma unescape_octal: "unescape_mount (CHR 0x5C # octal3 c @ x) = c # unescape_mount x"
proof -
  have "length (octal3 c) = 3" by (simp add: octal3_def)
  then have "take 3 (octal3 c @ x) = octal3 c" "drop 3 (octal3 c @ x) = x" by simp_all
  then show ?thesis by (simp del: take_append drop_append add: octal_byte_octal3)
qed

lemma unescape_mangle: "unescape_mount (kernel_mangle s @ r) = s @ unescape_mount r"
proof (induction s)
  case (Cons c s)
  show ?case
  proof (cases "c \<in> {CHR 0x20, CHR 0x09, CHR 0x0A, CHR 0x5C, CHR 0x23}")
    case True
    then have "kernel_mangle (c # s) = CHR 0x5C # octal3 c @ kernel_mangle s"
      by (simp add: kernel_mangle_def)
    then show ?thesis using Cons.IH by (simp only: append_Cons append_assoc unescape_octal)
  next
    case False
    then have "kernel_mangle (c # s) = c # kernel_mangle s" "c \<noteq> CHR 0x5C"
      by (auto simp: kernel_mangle_def)
    then show ?thesis using Cons.IH by simp
  qed
qed (simp add: kernel_mangle_def)

text \<open>
  The line the kernel writes for a mount is read as the mount: spaces, tabs, line breaks,
  backslashes and hashes of the path come back, as long as no other white space is in it.
\<close>

theorem mount_line_reads_back:
  assumes "plain_word d" "plain_word (kernel_mangle p)" "plain_word t" "t \<notin> set pseudo_filesystems"
  shows "mount_of_line (d @ '' '' @ kernel_mangle p @ '' '' @ t @ '' '' @ rest)
    = Some \<lparr>me_device = d, me_point = p, me_fstype = t\<rparr>"
proof -
  have "go_fields (d @ '' '' @ kernel_mangle p @ '' '' @ t @ '' '' @ rest)
      = d # kernel_mangle p # t # go_fields rest"
    using assms(1-3) by (simp add: go_fields_word)
  then show ?thesis
    using assms(4) unescape_mangle [of p "[]"] by (simp add: mount_of_line_def)
qed

theorem mount_line_reads_back_witness:
  "mount_of_line (''/dev/sda1'' @ '' '' @ kernel_mangle ''/mnt/my backup'' @ '' '' @ ''ext4'' @ '' '' @ ''rw 0 0'')
    = Some \<lparr>me_device = ''/dev/sda1'', me_point = ''/mnt/my backup'', me_fstype = ''ext4''\<rparr>"
  by (rule mount_line_reads_back) code_simp+

text \<open>
  The kernel escapes a space, a tab and a line break, and nothing else that counts as white space: a
  path with a no-break space (bytes C2 A0) is cut there, and what follows is taken for the type.
\<close>

lemma no_break_space_cuts_the_path:
  "kernel_mangle (''/mnt/a'' @ [CHR 0xC2, CHR 0xA0] @ ''b'') = ''/mnt/a'' @ [CHR 0xC2, CHR 0xA0] @ ''b'' \<and>
   mount_of_line (''/dev/sda1 '' @ kernel_mangle (''/mnt/a'' @ [CHR 0xC2, CHR 0xA0] @ ''b'') @ '' ext4 rw 0 0'')
     = Some \<lparr>me_device = ''/dev/sda1'', me_point = ''/mnt/a'', me_fstype = ''b''\<rparr>"
  by code_simp

text \<open>The table of mounts, as the entries of its lines.\<close>

lemma mounts_of_lines_fold: "mounts_of_lines ls = fold put_mount (List.map_filter mount_of_line ls) []"
proof -
  have "fold (\<lambda>l out. case mount_of_line l of None \<Rightarrow> out | Some e \<Rightarrow> put_mount e out) ls acc
      = fold put_mount (List.map_filter mount_of_line ls) acc" for acc
    by (induction ls arbitrary: acc) (auto simp: List.map_filter_simps split: option.splits)
  then show ?thesis by (simp add: mounts_of_lines_def)
qed

lemma put_mount_points: "set (map me_point (put_mount e xs)) = insert (me_point e) (set (map me_point xs))"
  by (induction xs) auto

lemma put_mount_distinct: "distinct (map me_point xs) \<Longrightarrow> distinct (map me_point (put_mount e xs))"
  by (induction xs) (auto simp: put_mount_points [simplified])

lemma put_mount_find:
  "List.find (\<lambda>m. me_point m = p) (put_mount e xs)
    = (if me_point e = p then Some e else List.find (\<lambda>m. me_point m = p) xs)"
  by (induction xs) auto

lemma find_append: "List.find P (xs @ ys) = (case List.find P xs of Some x \<Rightarrow> Some x | None \<Rightarrow> List.find P ys)"
  by (induction xs) auto

lemma fold_put_mount:
  "distinct (map me_point acc) \<Longrightarrow> distinct (map me_point (fold put_mount es acc))"
  "List.find (\<lambda>m. me_point m = p) (fold put_mount es acc)
    = (case List.find (\<lambda>m. me_point m = p) (rev es) of Some e \<Rightarrow> Some e
         | None \<Rightarrow> List.find (\<lambda>m. me_point m = p) acc)"
proof (induction es arbitrary: acc)
  case (Cons e es)
  {
    case 1
    then show ?case using Cons.IH(1) [of "put_mount e acc"] by (simp add: put_mount_distinct)
  next
    case 2
    show ?case
      using Cons.IH(2) [of "put_mount e acc"]
      by (simp add: put_mount_find find_append split: option.split)
  }
qed simp_all

text \<open>
  A mount point is listed once, with the entry of its last line: a place mounted over shows the
  file system on top, for every table the kernel may write.
\<close>

theorem last_mount_wins:
  "distinct (map me_point (mounts_of_lines ls)) \<and>
   List.find (\<lambda>m. me_point m = p) (mounts_of_lines ls)
     = List.find (\<lambda>m. me_point m = p) (rev (List.map_filter mount_of_line ls))"
  using fold_put_mount(1) [of "[]" "List.map_filter mount_of_line ls"]
    fold_put_mount(2) [of p "List.map_filter mount_of_line ls" "[]"]
  by (simp add: mounts_of_lines_fold split: option.split)

section \<open>Processes\<close>

text \<open>
  The name of a process is data: whatever it contains, parentheses and spaces included, it is
  read back trimmed, and the times read after it are those of the same line without it, so no name
  moves the fields.
\<close>

theorem process_name_cannot_move_fields:
  assumes "CHR 0x28 \<notin> set pid" "CHR 0x29 \<notin> set rest"
  shows "parse_proc_comm (pid @ CHR 0x28 # name @ CHR 0x29 # rest)
       = (if trim_space name = [] then None else Some (trim_space name)) \<and>
     parse_proc_times (pid @ CHR 0x28 # name @ CHR 0x29 # rest) = parse_proc_times (CHR 0x29 # rest)"
proof -
  let ?s = "pid @ CHR 0x28 # name @ CHR 0x29 # rest"
  have i: "index_byte ?s CHR 0x28 = Some (length pid)"
    by (rule index_byte_at [OF assms(1)])
  have j: "last_index_byte ?s CHR 0x29 = Some (Suc (length pid + length name))"
    using last_index_byte_at [OF assms(2), of "pid @ CHR 0x28 # name"] by simp
  have n: "take (length name) (drop (Suc (length pid)) ?s) = name"
    "drop (Suc (Suc (length pid + length name))) ?s = rest" by simp_all
  have "last_index_byte (CHR 0x29 # rest) CHR 0x29 = Some 0"
    using last_index_byte_at [OF assms(2), of "[]"] by simp
  then have "parse_proc_times ?s = parse_proc_times (CHR 0x29 # rest)"
    unfolding parse_proc_times_def j by (simp only: option.case n drop_Suc_Cons drop_0)
  moreover have "parse_proc_comm ?s = (if trim_space name = [] then None else Some (trim_space name))"
    unfolding parse_proc_comm_def i j by (simp add: Let_def)
  ultimately show ?thesis by simp
qed

theorem process_name_cannot_move_fields_witness:
  "parse_proc_comm (''812 '' @ CHR 0x28 # ''tmux: server) S 1'' @ CHR 0x29 # '' S 1 2 3'') = Some ''tmux: server) S 1'' \<and>
   parse_proc_times (''812 '' @ CHR 0x28 # ''tmux: server) S 1'' @ CHR 0x29 # '' S 1 2 3'')
     = parse_proc_times (CHR 0x29 # '' S 1 2 3'')"
proof -
  have "trim_space ''tmux: server) S 1'' = ''tmux: server) S 1''" by code_simp
  then show ?thesis
    using process_name_cannot_move_fields [of "''812 ''" "'' S 1 2 3''" "''tmux: server) S 1''"] by simp
qed

end
