(* ===== verification/Cron.thy ===== *)
theory Cron
  imports Go_Text Go_Utf8
begin

text \<open>
  The jobs cron runs on the machine, \<^verbatim>\<open>internal/collect/cron.go\<close>: the system crontabs and the
  run-parts folders, read through a view of the file tree, and the name of the program a command
  runs. The regular expressions of the code are written out as the readers they are.
\<close>

section \<open>Patterns\<close>

definition pattern_space :: "char \<Rightarrow> bool" where
  "pattern_space c = (c \<in> {CHR 0x09, CHR 0x0A, CHR 0x0C, CHR 0x0D, CHR 0x20})"

definition letter_char :: "char \<Rightarrow> bool" where
  "letter_char c = (65 \<le> byte_val c \<and> byte_val c \<le> 90 \<or> 97 \<le> byte_val c \<and> byte_val c \<le> 122)"

definition word_char :: "char \<Rightarrow> bool" where
  "word_char c = (is_digit c \<or> letter_char c \<or> c = CHR ''_'')"

text \<open>\<open>cronEnvLine\<close>: the name and what it is set to.\<close>

definition env_line :: "string \<Rightarrow> (string \<times> string) option" where
  "env_line s =
     (let s = dropWhile pattern_space s;
          name = takeWhile word_char s;
          r = dropWhile pattern_space (dropWhile word_char s)
      in if name \<noteq> [] \<and> \<not> is_digit (hd name) \<and> has_prefix r ''=''
           \<and> CHR 0x0A \<notin> set (dropWhile pattern_space (tl r))
         then Some (name, dropWhile pattern_space (tl r)) else None)"

text \<open>\<open>cronUser\<close>.\<close>

definition cron_user :: "string \<Rightarrow> bool" where
  "cron_user s =
     (let t = trim_suffix s ''$'' in
      t \<noteq> [] \<and> word_char (hd t) \<and> list_all (\<lambda>c. word_char c \<or> c = CHR ''.'' \<or> c = CHR ''-'') t)"

text \<open>\<open>runParts\<close>: a folder named, as a whole word, after \<open>run-parts\<close> as a whole word.\<close>

definition cron_folders :: "string list" where
  "cron_folders = [''hourly'', ''daily'', ''weekly'', ''monthly'']"

definition word_ends :: "string \<Rightarrow> bool" where
  "word_ends s = (s = [] \<or> \<not> word_char (hd s))"

definition folder_at :: "string \<Rightarrow> string option" where
  "folder_at s =
     (case cut_prefix s ''/etc/cron.'' of None \<Rightarrow> None
      | Some r \<Rightarrow> List.find (\<lambda>f. has_prefix r f \<and> word_ends (drop (length f) r)) cron_folders)"

fun folder_after :: "string \<Rightarrow> string option" where
  "folder_after [] = None"
| "folder_after (c # s) = (case folder_at (c # s) of Some f \<Rightarrow> Some f | None \<Rightarrow> folder_after s)"

fun run_parts_from :: "bool \<Rightarrow> string \<Rightarrow> string option" where
  "run_parts_from inside [] = None"
| "run_parts_from inside (c # s) =
     (case cut_prefix (c # s) ''run-parts'' of
        Some r \<Rightarrow> if \<not> inside \<and> word_ends r then folder_after r else run_parts_from (word_char c) s
      | None \<Rightarrow> run_parts_from (word_char c) s)"

definition run_parts_folder :: "string \<Rightarrow> string option" where
  "run_parts_folder command = run_parts_from False command"

text \<open>\<open>debianName\<close> and \<open>leftover\<close>.\<close>

definition debian_name :: "string \<Rightarrow> bool" where
  "debian_name s = (s \<noteq> [] \<and> list_all (\<lambda>c. word_char c \<or> c = CHR ''-'') s)"

definition dpkg_leftover :: "string \<Rightarrow> bool" where
  "dpkg_leftover s =
     (let r = rev s; tail = takeWhile (\<lambda>c. 97 \<le> byte_val c \<and> byte_val c \<le> 122) r
      in tail \<noteq> [] \<and> has_prefix (drop (length tail) r) (rev ''.dpkg-''))"

definition leftover :: "string \<Rightarrow> bool" where
  "leftover s =
     (list_ex (has_suffix s)
        [''~'', '','', ''.rpmsave'', ''.rpmorig'', ''.rpmnew'', ''.swp'', ''.cfsaved'', ''.bak'']
      \<or> dpkg_leftover s)"

section \<open>Words of a command\<close>

text \<open>
  \<open>shellSplit\<close>: whether a word has begun, and the word so far.
\<close>

definition flush_word :: "bool \<Rightarrow> string \<Rightarrow> string list" where
  "flush_word inside w = (if inside then [w] else [])"

definition operator_char :: "char \<Rightarrow> bool" where
  "operator_char c = (c \<in> {CHR '';'', CHR ''|'', CHR ''&'', CHR ''('', CHR '')''})"

definition quote_char :: "char \<Rightarrow> bool" where
  "quote_char c = (c = CHR 0x27 \<or> c = CHR 0x22)"

function shell_from :: "bool \<Rightarrow> string \<Rightarrow> string \<Rightarrow> string list" where
  "shell_from inside w [] = flush_word inside w"
| "shell_from inside w (c # r) =
     (if quote_char c
      then (case index_byte r c of None \<Rightarrow> [w @ r]
            | Some e \<Rightarrow> shell_from True (w @ take e r) (drop (Suc e) r))
      else if c = CHR 0x5C \<and> r \<noteq> [] then shell_from True (w @ [hd r]) (tl r)
      else if c = CHR 0x20 \<or> c = CHR 0x09 then flush_word inside w @ shell_from False [] r
      else if operator_char c
      then (let twice = (c = CHR ''|'' \<or> c = CHR ''&'') \<and> has_prefix r [c] in
            flush_word inside w @ (if twice then [c, c] else [c])
              # shell_from False [] (if twice then tl r else r))
      else shell_from True (w @ [c]) r)"
  by pat_completeness auto
termination
  by (relation "measure (\<lambda>(inside, w, s). length s)") auto

declare shell_from.simps(2) [simp del]

definition shell_split :: "string \<Rightarrow> string list" where
  "shell_split s = shell_from False [] s"

section \<open>The program a command runs\<close>

definition shell_words :: "string list" where
  "shell_words =
     [''if'', ''then'', ''else'', ''elif'', ''fi'', ''do'', ''done'', ''!'', ''{'', ''}'', ''('', '')'',
      ''exec'', ''command'', ''time'', ''&&'', ''||'', '';'', ''|'']"

definition wrappers :: "string list" where
  "wrappers =
     [''nice'', ''ionice'', ''nohup'', ''chronic'', ''env'', ''flock'', ''timeout'', ''sudo'', ''su'',
      ''setlock'', ''cronic'']"

definition interpreters :: "string list" where
  "interpreters = [''php'', ''python'', ''python3'', ''perl'', ''ruby'', ''node'', ''bash'', ''sh'']"

definition condition_ends :: "string list" where
  "condition_ends = ['']'', '']]'', ''&&'', ''||'', '';'']"

fun skip_options :: "bool \<Rightarrow> string list \<Rightarrow> string list" where
  "skip_options valued [] = []"
| "skip_options valued [x] = (if has_prefix x ''-'' then [] else [x])"
| "skip_options valued (x # y # ws) =
     (if \<not> has_prefix x ''-'' then x # y # ws
      else if valued \<and> length x = 2 then skip_options valued ws
      else skip_options valued (y # ws))"

definition after_wrapper :: "string \<Rightarrow> string list \<Rightarrow> string list" where
  "after_wrapper base ws =
     (let ws = skip_options (base \<in> set [''ionice'', ''nice'', ''sudo'', ''su'']) ws
      in if base \<in> set [''flock'', ''timeout'', ''setlock''] then tl ws else ws)"

text \<open>The script an interpreter runs: its first word that is not an option, when it looks like a file.\<close>

definition script_of :: "string list \<Rightarrow> string option" where
  "script_of ws =
     (case dropWhile (\<lambda>w. has_prefix w ''-'') ws of [] \<Rightarrow> None
      | w # _ \<Rightarrow> if CHR ''/'' \<in> set w \<or> CHR ''.'' \<in> set w then Some (file_base w) else None)"

lemma skip_options_length: "length (skip_options v ws) \<le> length ws"
  by (induction v ws rule: skip_options.induct) auto

lemma tl_dropWhile_length: "length (dropWhile P ws) - Suc 0 < Suc (length ws)"
  using length_dropWhile_le [of P ws] by linarith

lemma after_wrapper_length: "length (after_wrapper base ws) \<le> length ws"
  using skip_options_length [of "base \<in> set [''ionice'', ''nice'', ''sudo'', ''su'']" ws]
  by (auto simp: after_wrapper_def Let_def)

function program_of_words :: "string list \<Rightarrow> string" where
  "program_of_words [] = []"
| "program_of_words (w # ws) =
     (if w \<in> set shell_words then program_of_words ws
      else if w \<in> set [''test'', ''['', ''[['']
      then program_of_words (tl (dropWhile (\<lambda>x. x \<notin> set condition_ends) ws))
      else if w = ''cd'' then program_of_words (tl ws)
      else if env_line w \<noteq> None \<and> \<not> has_prefix w ''-'' then program_of_words ws
      else if file_base w \<in> set wrappers then program_of_words (after_wrapper (file_base w) ws)
      else if has_prefix w ''-'' \<or> w = [] then program_of_words ws
      else if file_base w \<in> set interpreters
      then (case script_of ws of Some p \<Rightarrow> p | None \<Rightarrow> file_base w)
      else file_base w)"
  by pat_completeness auto
termination
  by (relation "measure length")
    (auto simp: le_imp_less_Suc after_wrapper_length tl_dropWhile_length)

declare program_of_words.simps(2) [simp del]

definition program_of :: "string \<Rightarrow> string" where
  "program_of command = program_of_words (shell_split command)"

section \<open>A job run by the agent's own wrapper\<close>

function wrapped_args :: "string \<Rightarrow> string list \<Rightarrow> string \<times> string" where
  "wrapped_args n [] = ([], [])"
| "wrapped_args n (w # ws) =
     (if w = ''--job'' \<and> ws \<noteq> [] then wrapped_args (hd ws) (tl ws)
      else if has_prefix w ''--job='' then wrapped_args (trim_prefix w ''--job='') ws
      else if w = ''--'' then (if n \<noteq> [] then (n, program_of (join_with '' '' ws)) else ([], []))
      else wrapped_args n ws)"
  by pat_completeness auto
termination
  by (relation "measure (\<lambda>(n, ws). length ws)") auto

declare wrapped_args.simps(2) [simp del]

fun wrapped_words :: "string list \<Rightarrow> string \<times> string" where
  "wrapped_words [] = ([], [])"
| "wrapped_words (w # ws) =
     (if file_base w = ''infranest-agent'' \<and> ws \<noteq> [] \<and> hd ws = ''run'' then wrapped_args [] (tl ws)
      else wrapped_words ws)"

definition wrapped_job :: "string \<Rightarrow> string \<times> string" where
  "wrapped_job command = wrapped_words (shell_split command)"

section \<open>A crontab\<close>

definition max_cron_jobs :: nat where "max_cron_jobs = 200"
definition max_cron_files :: nat where "max_cron_files = 100"
definition max_cron_file_bytes :: nat where "max_cron_file_bytes = 65536"
definition max_cron_source :: nat where "max_cron_source = 255"
definition max_cron_schedule :: nat where "max_cron_schedule = 64"
definition max_cron_user :: nat where "max_cron_user = 64"
definition max_cron_program :: nat where "max_cron_program = 128"
definition max_cron_command :: nat where "max_cron_command = 1024"
definition max_cron_zone :: nat where "max_cron_zone = 64"
definition max_cron_job :: nat where "max_cron_job = 128"

record cron_line =
  cl_source :: string
  cl_line :: nat
  cl_schedule :: string
  cl_user :: string
  cl_command :: string
  cl_zone :: string
  cl_anacron :: bool

definition cron_names :: "string list" where
  "cron_names =
     [''jan'', ''feb'', ''mar'', ''apr'', ''may'', ''jun'', ''jul'', ''aug'', ''sep'', ''oct'', ''nov'', ''dec'',
      ''sun'', ''mon'', ''tue'', ''wed'', ''thu'', ''fri'', ''sat'']"

definition all_digits :: "string \<Rightarrow> bool" where
  "all_digits s = (s \<noteq> [] \<and> list_all is_digit s)"

definition cron_atom :: "string \<Rightarrow> bool" where
  "cron_atom s = (all_digits s \<or> s \<in> set cron_names)"

text \<open>\<^verbatim>\<open>strings.Cut\<close> at a byte.\<close>

definition cut_at :: "char \<Rightarrow> string \<Rightarrow> string \<times> string option" where
  "cut_at c s = (case index_byte s c of None \<Rightarrow> (s, None) | Some i \<Rightarrow> (take i s, Some (drop (Suc i) s)))"

definition valid_cron_part :: "string \<Rightarrow> bool" where
  "valid_cron_part part =
     (case cut_at CHR ''/'' part of (rng, step) \<Rightarrow>
        (case step of None \<Rightarrow> True | Some n \<Rightarrow> all_digits n)
        \<and> (rng = ''*''
           \<or> (case cut_at CHR ''-'' rng of (lo, hi) \<Rightarrow>
                cron_atom lo \<and> (case hi of None \<Rightarrow> True | Some h \<Rightarrow> cron_atom h))))"

definition valid_cron_field :: "(string \<Rightarrow> string) \<Rightarrow> string \<Rightarrow> bool" where
  "valid_cron_field ulower f = list_all valid_cron_part (split_on CHR '','' (to_lower ulower f))"

definition cron_nicknames :: "string list" where
  "cron_nicknames =
     [''@reboot'', ''@yearly'', ''@annually'', ''@monthly'', ''@weekly'', ''@daily'', ''@midnight'', ''@hourly'']"

text \<open>What follows the first fields of a line, and what comes before an unescaped percent sign.\<close>

definition blank_char :: "char \<Rightarrow> bool" where
  "blank_char c = (c = CHR 0x20 \<or> c = CHR 0x09)"

fun after_fields :: "nat \<Rightarrow> string \<Rightarrow> string" where
  "after_fields 0 s = s"
| "after_fields (Suc n) s = after_fields n (dropWhile (\<lambda>c. \<not> blank_char c) (dropWhile blank_char s))"

fun before_percent :: "string \<Rightarrow> string option" where
  "before_percent [] = None"
| "before_percent (c # s) =
     (if c = CHR 0x5C
      then (case s of [] \<Rightarrow> None | d # r \<Rightarrow> map_option (\<lambda>p. c # d # p) (before_percent r))
      else if c = CHR ''%'' then Some []
      else map_option ((#) c) (before_percent s))"

definition command_after :: "string \<Rightarrow> nat \<Rightarrow> string" where
  "command_after line n =
     (let rest = trim_space (after_fields n line) in
      case before_percent rest of Some p \<Rightarrow> trim_space p | None \<Rightarrow> rest)"

text \<open>The schedule of a line and the number of its fields, if cron would read it.\<close>

definition schedule_of :: "(string \<Rightarrow> string) \<Rightarrow> string list \<Rightarrow> (string \<times> nat) option" where
  "schedule_of ulower ws =
     (if has_prefix (hd ws) ''@''
      then (if to_lower ulower (hd ws) \<in> set cron_nicknames \<and> 3 \<le> length ws
            then Some (to_lower ulower (hd ws), 1) else None)
      else if 7 \<le> length ws \<and> list_all (valid_cron_field ulower) (take 5 ws)
      then Some (join_with '' '' (take 5 ws), 5) else None)"

definition job_line :: "(string \<Rightarrow> string) \<Rightarrow> string \<Rightarrow> nat \<Rightarrow> string \<Rightarrow> string \<Rightarrow> cron_line option" where
  "job_line ulower path n zone line =
     (let ws = go_fields line in
      case schedule_of ulower ws of None \<Rightarrow> None
      | Some (schedule, k) \<Rightarrow>
        if \<not> cron_user (ws ! k) then None
        else Some \<lparr>cl_source = path, cl_line = n, cl_schedule = schedule, cl_user = ws ! k,
               cl_command = command_after line (Suc k), cl_zone = zone, cl_anacron = False\<rparr>)"

text \<open>The zone in force, and the lines from line \<open>n\<close> on.\<close>

definition set_zone :: "string \<times> string \<Rightarrow> string \<Rightarrow> string" where
  "set_zone env zone =
     (if fst env = ''CRON_TZ'' \<or> fst env = ''TZ'' \<and> zone = []
      then trim_right_of [CHR 0x22, CHR 0x27] (trim_left_of [CHR 0x22, CHR 0x27] (trim_space (snd env)))
      else zone)"

fun crontab_lines :: "(string \<Rightarrow> string) \<Rightarrow> string \<Rightarrow> nat \<Rightarrow> string \<Rightarrow> string list \<Rightarrow> cron_line list" where
  "crontab_lines ulower path n zone [] = []"
| "crontab_lines ulower path n zone (l # ls) =
     (let line = trim_space l in
      if line = [] \<or> has_prefix line ''#'' then crontab_lines ulower path (Suc n) zone ls
      else (case (if has_prefix line ''@'' then None else env_line line) of
          Some env \<Rightarrow> crontab_lines ulower path (Suc n) (set_zone env zone) ls
        | None \<Rightarrow>
          (case job_line ulower path n zone line of None \<Rightarrow> [] | Some j \<Rightarrow> [j])
          @ crontab_lines ulower path (Suc n) zone ls))"

definition parse_crontab :: "(string \<Rightarrow> string) \<Rightarrow> string \<Rightarrow> string \<Rightarrow> cron_line list" where
  "parse_crontab ulower content path =
     crontab_lines ulower path 1 [] (fst (file_lines (take max_cron_file_bytes content)))"

section \<open>What is sent of a line\<close>

record cron_job =
  cj_source :: string
  cj_line :: nat
  cj_schedule :: string
  cj_user :: string
  cj_program :: string
  cj_command :: string
  cj_folder :: string
  cj_anacron :: bool
  cj_timezone :: string
  cj_job :: string

definition job_of_line :: "string \<Rightarrow> bool \<Rightarrow> cron_line \<Rightarrow> cron_job" where
  "job_of_line system_zone args l =
     (let (n, program) = wrapped_job (cl_command l);
          program = (if program = [] then program_of (cl_command l) else program)
      in \<lparr>cj_source = clip (cl_source l) max_cron_source, cj_line = cl_line l,
          cj_schedule = clip (cl_schedule l) max_cron_schedule, cj_user = clip (cl_user l) max_cron_user,
          cj_program = clip program max_cron_program,
          cj_command = (if args then clip (cl_command l) max_cron_command else []),
          cj_folder = [], cj_anacron = False,
          cj_timezone = clip (if cl_zone l = [] then system_zone else cl_zone l) max_cron_zone,
          cj_job = clip n max_cron_job\<rparr>)"

section \<open>The file tree\<close>

text \<open>
  What the reader sees of the tree below its root: the target of \<^verbatim>\<open>/etc/localtime\<close>, what \<^verbatim>\<open>stat\<close>
  says of a path, the names in a folder in their order (and whether listing it failed part way), and
  what can be read of a file.
\<close>

record file_stat =
  fs_size :: int
  fs_mtime :: int
  fs_regular :: bool
  fs_perm :: "32 word"

record cron_tree =
  tree_localtime :: "string option"
  tree_stat :: "string \<Rightarrow> file_stat option"
  tree_dir :: "string \<Rightarrow> string list \<times> bool"
  tree_open :: "string \<Rightarrow> string option"

definition tree_exists :: "cron_tree \<Rightarrow> string \<Rightarrow> bool" where
  "tree_exists t path = (tree_stat t path \<noteq> None)"

definition small_file :: "cron_tree \<Rightarrow> string \<Rightarrow> string" where
  "small_file t path = (case tree_open t path of None \<Rightarrow> [] | Some c \<Rightarrow> take max_cron_file_bytes c)"

definition system_zone :: "cron_tree \<Rightarrow> string" where
  "system_zone t =
     (case Option.bind (tree_localtime t)
             (\<lambda>target. map_option (\<lambda>i. drop (i + 9) target) (index_of target ''zoneinfo/'')) of
        Some z \<Rightarrow> z
      | None \<Rightarrow> trim_space (small_file t ''etc/timezone''))"

definition read_crontab :: "(string \<Rightarrow> string) \<Rightarrow> cron_tree \<Rightarrow> string \<Rightarrow> cron_line list" where
  "read_crontab ulower t path =
     (case tree_open t (tl path) of None \<Rightarrow> [] | Some c \<Rightarrow> parse_crontab ulower c path)"

definition cron_file :: "cron_tree \<Rightarrow> string \<Rightarrow> bool \<Rightarrow> bool \<Rightarrow> string \<Rightarrow> bool" where
  "cron_file t dir debian executable n =
     (\<not> has_prefix n ''.'' \<and> \<not> leftover n \<and> (debian \<longrightarrow> debian_name n)
      \<and> (case tree_stat t (dir @ ''/'' @ n) of None \<Rightarrow> False
         | Some i \<Rightarrow> fs_regular i \<and> (executable \<longrightarrow> and (fs_perm i) 73 \<noteq> 0)))"

definition cron_files :: "cron_tree \<Rightarrow> string \<Rightarrow> bool \<Rightarrow> bool \<Rightarrow> string list" where
  "cron_files t dir debian executable =
     (case tree_dir t dir of
        (ns, True) \<Rightarrow> []
      | (ns, False) \<Rightarrow> sort (take max_cron_files (filter (cron_file t dir debian executable) ns)))"

text \<open>The lines that run a folder are kept apart, the first of each folder.\<close>

fun sort_lines ::
  "bool \<Rightarrow> string \<Rightarrow> bool \<Rightarrow> cron_line list \<Rightarrow> (string \<rightharpoonup> cron_line) \<Rightarrow> cron_job list \<times> (string \<rightharpoonup> cron_line)" where
  "sort_lines anacron zone args [] folders = ([], folders)"
| "sort_lines anacron zone args (l # ls) folders =
     (case run_parts_folder (cl_command l) of
        Some f \<Rightarrow>
          sort_lines anacron zone args ls
            (if folders f = None
             then folders(f \<mapsto> l\<lparr>cl_anacron := anacron \<and> contains (cl_command l) ''anacron''\<rparr>)
             else folders)
      | None \<Rightarrow>
          (case sort_lines anacron zone args ls folders of
             (js, folders) \<Rightarrow> (job_of_line zone args l # js, folders)))"

definition folder_schedule :: "string \<Rightarrow> cron_line option \<Rightarrow> string \<Rightarrow> string \<times> bool" where
  "folder_schedule anacrontab line folder =
     (case line of
        Some l \<Rightarrow> if cl_anacron l then (''@'' @ folder, True) else (cl_schedule l, False)
      | None \<Rightarrow> if contains anacrontab (''cron.'' @ folder) then (''@'' @ folder, True) else ([], False))"

definition folder_job :: "string \<Rightarrow> string \<Rightarrow> string \<times> bool \<Rightarrow> string \<Rightarrow> cron_job" where
  "folder_job zone folder schedule n =
     \<lparr>cj_source = clip (''/etc/cron.'' @ folder @ ''/'' @ n) max_cron_source, cj_line = 0,
      cj_schedule = clip (fst schedule) max_cron_schedule, cj_user = ''root'',
      cj_program = clip n max_cron_program, cj_command = [], cj_folder = folder,
      cj_anacron = snd schedule, cj_timezone = clip zone max_cron_zone, cj_job = []\<rparr>"

definition read_cron :: "(string \<Rightarrow> string) \<Rightarrow> cron_tree \<Rightarrow> bool \<Rightarrow> cron_job list" where
  "read_cron ulower t args =
     (let zone = system_zone t;
          debian = tree_exists t ''etc/debian_version'';
          anacron = tree_exists t ''usr/sbin/anacron'';
          lines = read_crontab ulower t ''/etc/crontab''
            @ concat (map (\<lambda>n. read_crontab ulower t (''/etc/cron.d/'' @ n)) (cron_files t ''etc/cron.d'' debian False));
          (jobs, folders) = sort_lines anacron zone args lines Map.empty;
          anacrontab = small_file t ''etc/anacrontab''
      in take max_cron_jobs (jobs
           @ concat (map (\<lambda>f. map (folder_job zone f (folder_schedule anacrontab (folders f) f))
                (cron_files t (''etc/cron.'' @ f) debian True)) cron_folders)))"

section \<open>The reader and its cache\<close>

definition noted :: "cron_tree \<Rightarrow> string \<Rightarrow> string" where
  "noted t path =
     (case tree_stat t path of None \<Rightarrow> []
      | Some i \<Rightarrow> path @ '':'' @ decimal64 (fs_size i) @ '':'' @ decimal64 (fs_mtime i) @ '';'')"

definition noted_folder :: "cron_tree \<Rightarrow> string \<Rightarrow> string" where
  "noted_folder t d =
     (let rel = ''etc/cron.'' @ d in
      noted t rel @ concat (map (\<lambda>n. noted t (rel @ ''/'' @ n)) (take max_cron_files (fst (tree_dir t rel)))))"

definition cron_fingerprint :: "cron_tree \<Rightarrow> string" where
  "cron_fingerprint t =
     (case tree_localtime t of None \<Rightarrow> [] | Some target \<Rightarrow> ''tz='' @ target @ '';'')
     @ concat (map (noted t)
         [''etc/crontab'', ''etc/anacrontab'', ''etc/timezone'', ''usr/sbin/anacron'', ''etc/debian_version''])
     @ concat (map (noted_folder t) (''d'' # cron_folders))"

record cron_reader =
  cr_fingerprint :: string
  cr_jobs :: "cron_job list option"

definition new_cron_reader :: cron_reader where
  "new_cron_reader = \<lparr>cr_fingerprint = [], cr_jobs = None\<rparr>"

definition cron_read :: "(string \<Rightarrow> string) \<Rightarrow> cron_tree \<Rightarrow> bool \<Rightarrow> cron_reader \<Rightarrow> cron_job list \<times> cron_reader" where
  "cron_read ulower t args r =
     (let fp = cron_fingerprint t @ ''|args='' @ (if args then ''true'' else ''false'') in
      case cr_jobs r of
        Some js \<Rightarrow>
          if fp = cr_fingerprint r then (js, r)
          else (read_cron ulower t args, \<lparr>cr_fingerprint = fp, cr_jobs = Some (read_cron ulower t args)\<rparr>)
      | None \<Rightarrow> (read_cron ulower t args, \<lparr>cr_fingerprint = fp, cr_jobs = Some (read_cron ulower t args)\<rparr>))"

end
