(* ===== verification/Cron_Props.thy ===== *)
theory Cron_Props
  imports Cron Jobrun
begin

text \<open>
  What the reader of cron's tables promises: a line cron accepts is listed as it is written, with the
  line it is on; a line through the agent's wrapper names the job the wrapper reports under; and
  of a command only its program is told, unless its words are quoted.
\<close>

section \<open>Programs\<close>

text \<open>Text without quotes and backslashes, and a word of such text.\<close>

definition unquoted :: "string \<Rightarrow> bool" where
  "unquoted s = list_all (\<lambda>c. \<not> quote_char c \<and> c \<noteq> CHR 0x5C) s"

definition bare_word :: "string \<Rightarrow> bool" where
  "bare_word s = (unquoted s \<and> list_all (\<lambda>c. \<not> blank_char c) s)"

lemma unquoted_simps [simp]:
  "unquoted []" "unquoted (c # s) \<longleftrightarrow> \<not> quote_char c \<and> c \<noteq> CHR 0x5C \<and> unquoted s"
  "unquoted (a @ b) \<longleftrightarrow> unquoted a \<and> unquoted b"
  by (auto simp: unquoted_def)

lemma bare_word_simps [simp]:
  "bare_word []"
  "bare_word (c # s) \<longleftrightarrow> \<not> quote_char c \<and> c \<noteq> CHR 0x5C \<and> \<not> blank_char c \<and> bare_word s"
  "bare_word (a @ b) \<longleftrightarrow> bare_word a \<and> bare_word b"
  by (auto simp: bare_word_def)

lemma bare_word_set: "bare_word s \<longleftrightarrow> (\<forall>c\<in>set s. bare_word [c])"
  by (induction s) auto

lemma bare_word_subset: "bare_word s \<Longrightarrow> set t \<subseteq> set s \<Longrightarrow> bare_word t"
  by (subst bare_word_set) (auto simp: bare_word_set [of s])

lemma set_tl_subset: "set (tl xs) \<subseteq> set xs"
  by (cases xs) auto

lemma set_dropWhile_subset: "set (dropWhile P xs) \<subseteq> set xs"
  by (auto dest: set_dropWhileD)

lemma set_file_base: "set (file_base p) \<subseteq> insert CHR ''.'' (insert CHR ''/'' (set p))"
proof -
  have "set (trim_right_of ''/'' p) \<subseteq> set p"
    using set_dropWhile_subset [of _ "rev p"] by (auto simp: trim_right_of_def)
  moreover have "set (takeWhile P (rev q)) \<subseteq> set q" for P and q :: string
    by (auto dest: set_takeWhileD)
  ultimately have "set (takeWhile P (rev (trim_right_of ''/'' p))) \<subseteq> set p" for P
    by blast
  then show ?thesis by (auto simp: file_base_def Let_def)
qed

lemma bare_file_base:
  assumes "bare_word p"
  shows "bare_word (file_base p)"
proof -
  have "bare_word ''.''" "bare_word ''/''" by (simp_all add: blank_char_def quote_char_def)
  then show ?thesis
    using assms set_file_base [of p] bare_word_subset [of "CHR ''.'' # CHR ''/'' # p"] by simp
qed

lemma shell_from_bare:
  "bare_word w \<Longrightarrow> unquoted s \<Longrightarrow> x \<in> set (shell_from inside w s) \<Longrightarrow> bare_word x"
proof (induction s arbitrary: inside w rule: length_induct)
  case (1 s)
  show ?case
  proof (cases s)
    case Nil
    with 1 show ?thesis by (auto simp: flush_word_def split: if_splits)
  next
    case (Cons c r)
    then have q: "\<not> quote_char c" "c \<noteq> CHR 0x5C" and r: "unquoted r" "unquoted (tl r)"
      using "1.prems" by (auto, cases r, auto)
    have IH: "bare_word w' \<Longrightarrow> t = r \<or> t = tl r \<Longrightarrow> x \<in> set (shell_from i w' t) \<Longrightarrow> bare_word x" for i w' t
    proof -
      assume a: "bare_word w'" "t = r \<or> t = tl r" "x \<in> set (shell_from i w' t)"
      have "length t < length s" "unquoted t" using a(2) Cons r by auto
      then show "bare_word x" using "1.IH" a by blast
    qed
    consider "blank_char c" | "\<not> blank_char c" "operator_char c" | "\<not> blank_char c" "\<not> operator_char c" by blast
    then show ?thesis
    proof cases
      case 1
      then have "x \<in> set (flush_word inside w) \<or> x \<in> set (shell_from False [] r)"
        using "1.prems"(3) Cons q by (auto simp: shell_from.simps(2) blank_char_def)
      then show ?thesis using IH [of "[]" r False] "1.prems"(1) by (auto simp: flush_word_def split: if_splits)
    next
      case 2
      have "x \<in> set (flush_word inside w) \<or> x = [c, c] \<or> x = [c]
          \<or> x \<in> set (shell_from False [] r) \<or> x \<in> set (shell_from False [] (tl r))"
        using "1.prems"(3) q 2 Cons
        by (auto simp: shell_from.simps(2) blank_char_def Let_def split: if_splits)
      then show ?thesis
        using IH [of "[]" r False] IH [of "[]" "tl r" False] "1.prems"(1) 2 q
        by (auto simp: flush_word_def split: if_splits)
    next
      case 3
      then have "x \<in> set (shell_from True (w @ [c]) r)"
        using "1.prems"(3) q Cons by (simp add: shell_from.simps(2) blank_char_def)
      then show ?thesis using IH [of "w @ [c]" r True] "1.prems"(1) 3 q by simp
    qed
  qed
qed

lemma shell_split_bare: "unquoted s \<Longrightarrow> \<forall>w\<in>set (shell_split s). bare_word w"
  using shell_from_bare [of "[]" s] by (auto simp: shell_split_def)

lemma script_of_bare:
  assumes "script_of ws = Some p" "\<forall>w\<in>set ws. bare_word w"
  shows "bare_word p"
proof (cases "dropWhile (\<lambda>w. has_prefix w ''-'') ws")
  case Nil
  with assms show ?thesis by (simp only: script_of_def list.case option.distinct)
next
  case (Cons w rest)
  then have "w \<in> set ws" by (metis list.set_intros(1) set_dropWhileD)
  with Cons assms show ?thesis by (auto simp: script_of_def bare_file_base split: if_splits)
qed

lemma skip_options_subset: "set (skip_options v ws) \<subseteq> set ws"
  by (induction v ws rule: skip_options.induct) auto

lemma after_wrapper_subset: "set (after_wrapper base ws) \<subseteq> set ws"
proof -
  define v where "v = (base \<in> set [''ionice'', ''nice'', ''sudo'', ''su''])"
  have "set (skip_options v ws) \<subseteq> set ws" "set (tl (skip_options v ws)) \<subseteq> set ws"
    using skip_options_subset [of v ws] set_tl_subset [of "skip_options v ws"] by blast+
  then show ?thesis by (simp only: after_wrapper_def Let_def v_def [symmetric] split: if_split) blast
qed

lemma program_of_words_bare: "\<forall>w\<in>set ws. bare_word w \<Longrightarrow> bare_word (program_of_words ws)"
proof (induction ws rule: length_induct)
  case (1 ws)
  show ?case
  proof (cases ws)
    case (Cons w rest)
    have ok: "\<forall>w\<in>set rest. bare_word w" "bare_word (file_base w)" using "1.prems" Cons bare_file_base by auto
    have IH: "bare_word (program_of_words vs)" if "set vs \<subseteq> set rest" "length vs \<le> length rest" for vs
      using "1.IH" Cons ok that by (metis in_mono le_imp_less_Suc length_Cons)
    have "bare_word (program_of_words rest)" "bare_word (program_of_words (tl rest))"
      "bare_word (program_of_words (after_wrapper (file_base w) rest))"
      by (intro IH; simp add: set_tl_subset after_wrapper_subset after_wrapper_length)+
    moreover have "bare_word (program_of_words (tl (dropWhile P rest)))" for P
      using set_tl_subset [of "dropWhile P rest"] set_dropWhile_subset [of P rest] length_dropWhile_le [of P rest]
      by (intro IH) (auto simp del: length_dropWhile_le)
    moreover have "bare_word (case script_of rest of Some p \<Rightarrow> p | None \<Rightarrow> file_base w)"
      using ok script_of_bare [of rest] by (auto split: option.split)
    ultimately show ?thesis
      using ok(2) Cons by (simp only: program_of_words.simps(2) if_splits) simp
  qed simp
qed

lemma bare_clip: "bare_word s \<Longrightarrow> bare_word (clip s n)"
  by (auto simp: clip_def intro: bare_word_subset [OF _ set_take_subset])

lemma unquoted_join: "unquoted sep \<Longrightarrow> \<forall>w\<in>set ws. unquoted w \<Longrightarrow> unquoted (join_with sep ws)"
  by (induction sep ws rule: join_with.induct) auto

lemma program_of_bare: "unquoted s \<Longrightarrow> bare_word (program_of s)"
  by (simp add: program_of_def program_of_words_bare shell_split_bare)

lemma wrapped_args_bare: "\<forall>w\<in>set ws. bare_word w \<Longrightarrow> bare_word (snd (wrapped_args n ws))"
proof (induction n ws rule: wrapped_args.induct)
  case (2 n w ws)
  have "unquoted (join_with '' '' ws)"
    using "2.prems" by (intro unquoted_join) (auto simp: bare_word_def quote_char_def)
  then have "\<forall>w\<in>set (tl ws). bare_word w" "bare_word (program_of (join_with '' '' ws))"
    using "2.prems" set_tl_subset [of ws] by (auto intro!: program_of_bare)
  with 2 show ?case by (simp add: wrapped_args.simps(2))
qed simp

lemma wrapped_words_bare: "\<forall>w\<in>set ws. bare_word w \<Longrightarrow> bare_word (snd (wrapped_words ws))"
proof (induction ws)
  case (Cons w ws)
  then have "\<forall>w\<in>set (tl ws). bare_word w" using set_tl_subset [of ws] by auto
  with Cons show ?case by (simp add: wrapped_args_bare)
qed simp

text \<open>
  Of a command without quotes and backslashes the program told has no blank in it, and none of
  its arguments therefore; and the command itself is told only when command lines are switched on.
\<close>

theorem unquoted_arguments_stay_home:
  assumes "unquoted (cl_command l)"
  shows "CHR 0x20 \<notin> set (cj_program (job_of_line zone args l))
    \<and> CHR 0x09 \<notin> set (cj_program (job_of_line zone args l))
    \<and> (args \<or> cj_command (job_of_line zone args l) = [])"
proof -
  have "bare_word (program_of (cl_command l))" "bare_word (snd (wrapped_job (cl_command l)))"
    using program_of_bare assms by (simp_all add: wrapped_job_def wrapped_words_bare shell_split_bare)
  then have "bare_word (cj_program (job_of_line zone args l))"
    by (cases "wrapped_job (cl_command l)") (simp add: job_of_line_def bare_clip)
  then have "\<forall>c\<in>set (cj_program (job_of_line zone args l)). \<not> blank_char c"
    by (simp add: bare_word_def list_all_iff)
  moreover have "args \<or> cj_command (job_of_line zone args l) = []"
    by (simp add: job_of_line_def split: prod.split)
  ultimately show ?thesis unfolding blank_char_def by blast
qed

theorem unquoted_arguments_stay_home_witness:
  "CHR 0x20 \<notin> set (cj_program (job_of_line [] False \<lparr>cl_source = ''/etc/crontab'', cl_line = 1,
     cl_schedule = ''@daily'', cl_user = ''root'', cl_command = ''nice mysqldump -psecret db'', cl_zone = [],
     cl_anacron = False\<rparr>))"
  by (rule unquoted_arguments_stay_home [THEN conjunct1]) code_simp

text \<open>
  A quoted word is one word, and with it whatever it holds: the arguments of a command given to
  \<open>flock -c\<close>, or of one with a dot that is given to \<open>bash -c\<close>, are told as the program's name.
\<close>

lemma quoted_arguments_leak:
  "program_of (''flock -n /run/db.lock -c \"mysqldump -psecret db\"'') = ''mysqldump -psecret db'' \<and>
   program_of (''bash -c \"mysqldump -psecret db > db.sql\"'') = ''mysqldump -psecret db > db.sql''"
  by code_simp

section \<open>The cache\<close>

text \<open>
  The fingerprint of the tree says nothing of permissions: a script of a run-parts folder that is
  made executable, or no longer is, leaves the answer as it was.
\<close>

definition with_perm :: "(string \<Rightarrow> 32 word) \<Rightarrow> cron_tree \<Rightarrow> cron_tree" where
  "with_perm p t = t\<lparr>tree_stat := (\<lambda>path. map_option (\<lambda>i. i\<lparr>fs_perm := p path\<rparr>) (tree_stat t path))\<rparr>"

lemma permissions_go_unnoticed:
  "fst (cron_read ulower (with_perm p t) args (snd (cron_read ulower t args new_cron_reader)))
     = read_cron ulower t args"
proof -
  have n: "noted (with_perm p t) path = noted t path" for path
    by (simp add: noted_def with_perm_def split: option.split)
  have "noted_folder (with_perm p t) d = noted_folder t d" for d
    by (simp add: noted_folder_def n Let_def) (simp add: with_perm_def)
  then have "noted_folder (with_perm p t) = noted_folder t" "noted (with_perm p t) = noted t"
    using n by blast+
  then have "cron_fingerprint (with_perm p t) = cron_fingerprint t"
    by (simp only: cron_fingerprint_def) (simp add: with_perm_def)
  then show ?thesis by (simp add: cron_read_def new_cron_reader_def Let_def)
qed

section \<open>Jobs run by the agent's wrapper\<close>

text \<open>A command as the words it is of, each in single quotes.\<close>

definition quoted_command :: "string list \<Rightarrow> string" where
  "quoted_command ws = join_with '' '' (map (\<lambda>w. [CHR 0x27] @ w @ [CHR 0x27]) ws)"

lemma shell_from_quoted:
  "CHR 0x27 \<notin> set w \<Longrightarrow> shell_from inside v (CHR 0x27 # w @ CHR 0x27 # r) = shell_from True (v @ w) r"
  by (simp add: shell_from.simps(2) quote_char_def index_byte_at)

lemma shell_split_quoted: "\<forall>w\<in>set ws. CHR 0x27 \<notin> set w \<Longrightarrow> shell_split (quoted_command ws) = ws"
proof (induction ws)
  case (Cons w ws)
  show ?case
  proof (cases ws)
    case Nil
    then show ?thesis
      using Cons.prems shell_from_quoted [of w False "[]" "[]"]
      by (simp add: quoted_command_def shell_split_def flush_word_def)
  next
    case (Cons v vs)
    then have "quoted_command (w # ws) = CHR 0x27 # w @ CHR 0x27 # CHR 0x20 # quoted_command ws"
      by (simp add: quoted_command_def)
    then have "shell_split (quoted_command (w # ws)) = w # shell_split (quoted_command ws)"
      using Cons.prems shell_from_quoted [of w False "[]"]
      by (simp add: shell_split_def shell_from.simps(2) quote_char_def flush_word_def)
    then show ?thesis using Cons.IH Cons.prems by simp
  qed
qed (simp add: quoted_command_def shell_split_def flush_word_def)

text \<open>The job is named with two dashes.\<close>

fun two_dashes :: "string list \<Rightarrow> bool" where
  "two_dashes [] = True"
| "two_dashes [a] = (a \<noteq> ''-job'' \<and> \<not> has_prefix a ''-job='')"
| "two_dashes (a # b # args) =
     (a = ''--'' \<or> a \<noteq> ''-job'' \<and> \<not> has_prefix a ''-job='' \<and> two_dashes (if a = ''--job'' then args else b # args))"

lemma two_dashes_head: "two_dashes (a # args) \<Longrightarrow> a = ''--'' \<or> a \<noteq> ''-job'' \<and> \<not> has_prefix a ''-job=''"
  by (cases args) auto

lemma two_dashes_tail:
  "two_dashes (a # args) \<Longrightarrow> a \<noteq> ''--'' \<Longrightarrow> a \<noteq> ''--job'' \<Longrightarrow> two_dashes args"
  by (cases args) auto

lemma wrapped_args_parse:
  assumes "parse_args args o1 = Inr o2" "opt_command o1 = []" "opt_command o2 \<noteq> []" "two_dashes args"
  shows "wrapped_args (opt_job o1) args
    = (if opt_job o2 = [] then ([], []) else (opt_job o2, program_of (join_with '' '' (opt_command o2))))"
  using assms
proof (induction args o1 rule: parse_args.induct)
  case (2 a args opts)
  note w = wrapped_args.simps(2) [of "opt_job opts" a args]
  consider "a = ''--''" | "a = ''--job''" | t where "a = ''--job='' @ t"
    | "a = ''--no-output'' \<or> a = ''-no-output''"
    using "2.prems"(1) two_dashes_head [OF "2.prems"(4)]
    by (auto simp: job_flags_def job_prefixes_def has_prefix_iff split: if_splits)
  then show ?case
  proof cases
    case 1
    then show ?thesis using "2.prems"(1) w by auto
  next
    case 2
    then obtain n rest where args: "args = n # rest"
      using "2.prems"(1) by (cases args) (simp_all add: job_flags_def)
    then show ?thesis
      using "2.IH"(1) [of n rest] "2.prems" w 2 by (simp add: job_flags_def)
  next
    case 3
    then have "a \<noteq> ''--''" "a \<noteq> ''--job''" "a \<notin> set job_flags" "list_ex (has_prefix a) job_prefixes"
      "after_equals a = t" "trim_prefix a ''--job='' = t"
      by (simp_all add: job_flags_def job_prefixes_def after_equals_def trim_prefix_def)
    then show ?thesis
      using "2.IH"(2) "2.prems" w 3 two_dashes_tail [of a args] by simp
  next
    case 4
    then have "a \<noteq> ''--''" "a \<noteq> ''--job''" "a \<notin> set job_flags" "\<not> list_ex (has_prefix a) job_prefixes"
      "\<not> has_prefix a ''--job=''"
      by (auto simp: job_flags_def job_prefixes_def)
    then show ?thesis
      using "2.IH"(3) "2.prems" w 4 two_dashes_tail [of a args] by simp
  qed
qed simp



text \<open>The wrapper takes a job named with one dash, and the reader does not see it.\<close>

lemma one_dash_job_is_not_named:
  "parse_command_line [''-job'', ''backup'', ''--'', ''b.sh'']
     = Inr \<lparr>opt_job = ''backup'', opt_no_output = False, opt_command = [''b.sh'']\<rparr> \<and>
   wrapped_job ''infranest-agent run -job backup -- b.sh'' = ([], []) \<and>
   program_of ''infranest-agent run -job backup -- b.sh'' = ''infranest-agent''"
  by code_simp

end
