(* ===== verification/Crontab_Props.thy ===== *)
theory Crontab_Props
  imports Cron
begin

text \<open>
  A crontab reads back: the lines of jobs that cron accepts are listed as they are written, each with
  its number, in order and none else.
\<close>

section \<open>Words and lines of a crontab\<close>

lemma no_space_char: "no_space w \<Longrightarrow> [c] \<in> set space_runes \<Longrightarrow> c \<notin> set w"
proof (induction w)
  case (Cons x w)
  then have "\<not> has_prefix (x # w) [c]" by (auto simp: space_width_zero)
  with Cons show ?case by auto
qed simp

lemma plain_word_chars:
  assumes "plain_word w" "c \<in> set w"
  shows "\<not> pattern_space c" "\<not> blank_char c"
  using assms no_space_char [of w]
  by (auto simp: plain_word_def pattern_space_def blank_char_def space_runes_def)

lemma words_from_nonempty: "w \<noteq> [] \<Longrightarrow> words_from w s \<noteq> []"
  by (induction w s rule: words_from.induct) (subst words_from.simps, auto simp: word_end_def)

lemma go_fields_nonempty: "starts_plain c \<Longrightarrow> go_fields c \<noteq> []"
  unfolding go_fields_def starts_plain_def
  by (subst words_from.simps) (auto simp: words_from_nonempty)

text \<open>Words with a blank after each.\<close>

definition blanked :: "string list \<Rightarrow> string \<Rightarrow> string" where
  "blanked ws t = concat (map (\<lambda>w. w @ '' '') ws) @ t"

lemma blanked_simps: "blanked [] t = t" "blanked (w # ws) t = w @ CHR 0x20 # blanked ws t"
  by (simp_all add: blanked_def)

lemma go_fields_blanked: "\<forall>w\<in>set ws. plain_word w \<Longrightarrow> go_fields (blanked ws t) = ws @ go_fields t"
  by (induction ws) (simp_all add: blanked_simps go_fields_word)

lemma starts_plain_blanked: "\<forall>w\<in>set ws. plain_word w \<Longrightarrow> starts_plain t \<Longrightarrow> starts_plain (blanked ws t)"
  by (induction ws) (simp_all add: blanked_simps starts_plain_before_blank plain_word_starts)

lemma ends_plain_blanked: "ends_plain t \<Longrightarrow> ends_plain (blanked ws t)"
  by (induction ws) (simp_all add: blanked_simps ends_plain_after_blank)

lemma after_fields_blank: "after_fields (Suc n) (CHR 0x20 # s) = after_fields (Suc n) s"
  by (simp add: blank_char_def)

lemma after_fields_word:
  assumes "plain_word w"
  shows "after_fields (Suc n) (w @ CHR 0x20 # r) = after_fields n (CHR 0x20 # r)"
proof -
  have n: "\<forall>c\<in>set w. \<not> blank_char c" and ne: "w \<noteq> []"
    using plain_word_chars [OF assms] assms by (auto simp: plain_word_def)
  then have "dropWhile blank_char (w @ CHR 0x20 # r) = w @ CHR 0x20 # r" by (cases w) auto
  moreover have "dropWhile (\<lambda>c. \<not> blank_char c) (w @ CHR 0x20 # r) = CHR 0x20 # r"
    using n by (subst dropWhile_append2) (auto simp: blank_char_def)
  ultimately show ?thesis by simp
qed

lemma after_fields_blanked:
  "\<forall>w\<in>set ws. plain_word w \<Longrightarrow> ws \<noteq> [] \<Longrightarrow> after_fields (length ws) (blanked ws t) = CHR 0x20 # t"
proof (induction ws)
  case (Cons w ws)
  then show ?case
    by (cases ws) (simp_all add: blanked_simps after_fields_word after_fields_blank del: after_fields.simps(2))
qed simp

section \<open>The fields of a schedule\<close>

definition outside_field :: "char \<Rightarrow> bool" where
  "outside_field c = (c = CHR ''#'' \<or> c = CHR ''@'' \<or> c = CHR ''='')"

lemma digit_chars: "is_digit c \<Longrightarrow> \<not> outside_field c"
  by (auto simp: is_digit_def outside_field_def)

lemma name_chars: "n \<in> set cron_names \<Longrightarrow> c \<in> set n \<Longrightarrow> \<not> outside_field c"
proof -
  have "list_all (list_all (\<lambda>c. \<not> outside_field c)) cron_names" by code_simp
  then show "n \<in> set cron_names \<Longrightarrow> c \<in> set n \<Longrightarrow> \<not> outside_field c"
    unfolding list_all_iff by blast
qed

lemma cron_atom_chars: "cron_atom s \<Longrightarrow> c \<in> set s \<Longrightarrow> \<not> outside_field c"
  unfolding cron_atom_def all_digits_def list_all_iff using digit_chars name_chars by blast

lemma cut_at_set:
  "set s \<subseteq> insert c (set (fst (cut_at c s)) \<union> (case snd (cut_at c s) of None \<Rightarrow> {} | Some t \<Rightarrow> set t))"
proof (cases "index_byte s c")
  case (Some i)
  then have "s = take i s @ c # drop (Suc i) s"
    using index_byte_Some [OF Some] by (metis id_take_nth_drop)
  then have "set s = set (take i s @ c # drop (Suc i) s)" by simp
  then show ?thesis using Some by (auto simp: cut_at_def)
qed (auto simp: cut_at_def)

lemma valid_cron_part_chars:
  assumes "valid_cron_part p" "c \<in> set p"
  shows "\<not> outside_field c"
proof -
  obtain rng step where r: "cut_at CHR ''/'' p = (rng, step)" by fastforce
  obtain lo hi where l: "cut_at CHR ''-'' rng = (lo, hi)" by fastforce
  have d: "all_digits n \<Longrightarrow> x \<in> set n \<Longrightarrow> \<not> outside_field x" for n x
    by (rule cron_atom_chars) (auto simp: cron_atom_def)
  have "c = CHR ''/'' \<or> c \<in> set rng \<or> (\<exists>n. step = Some n \<and> c \<in> set n)"
    using cut_at_set [of p "CHR ''/''"] assms(2) r by (auto split: option.splits)
  moreover have "c \<in> set rng \<Longrightarrow> c = CHR ''-'' \<or> c \<in> set lo \<or> (\<exists>h. hi = Some h \<and> c \<in> set h)"
    using cut_at_set [of rng "CHR ''-''"] l by (auto split: option.splits)
  ultimately show ?thesis
    using assms(1) r l d cron_atom_chars
    by (auto simp: valid_cron_part_def outside_field_def split: option.splits)
qed

lemma set_split_on: "x \<in> set s \<Longrightarrow> x = c \<or> (\<exists>p\<in>set (split_on c s). x \<in> set p)"
  by (induction s) (auto split: list.splits)

lemma valid_cron_field_chars:
  assumes "valid_cron_field ulower f" "is_ascii f" "c \<in> set f"
  shows "\<not> outside_field c"
proof
  assume o: "outside_field c"
  then have "lower_byte c = c" by (auto simp: outside_field_def lower_byte_def)
  then have "c \<in> set (to_lower ulower f)" using assms(2,3) by (force simp: to_lower_def)
  then have "c = CHR '','' \<or> (\<exists>p\<in>set (split_on CHR '','' (to_lower ulower f)). c \<in> set p)"
    by (rule set_split_on)
  then show False
    using assms(1) o valid_cron_part_chars
    by (auto simp: valid_cron_field_def list_all_iff) (simp add: outside_field_def)
qed

section \<open>Entries\<close>

text \<open>
  An entry is its time fields or its nickname, the user and the command; it is written with blanks
  between them. The command has no white space around it and no percent sign that is not escaped.
\<close>

type_synonym cron_entry = "string list \<times> string \<times> string"

definition entry_text :: "cron_entry \<Rightarrow> string" where
  "entry_text e = (case e of (fs, u, c) \<Rightarrow> blanked (fs @ [u]) c)"

definition time_fields :: "(string \<Rightarrow> string) \<Rightarrow> string list \<Rightarrow> bool" where
  "time_fields ulower fs =
     (length fs = 5 \<and> list_all (\<lambda>f. plain_word f \<and> is_ascii f \<and> valid_cron_field ulower f) fs
      \<or> length fs = 1 \<and> hd fs \<in> set cron_nicknames)"

definition good_entry :: "(string \<Rightarrow> string) \<Rightarrow> cron_entry \<Rightarrow> bool" where
  "good_entry ulower e =
     (case e of (fs, u, c) \<Rightarrow>
        time_fields ulower fs \<and> plain_word u \<and> cron_user u \<and> starts_plain c \<and> ends_plain c
        \<and> before_percent c = None \<and> CHR 0x0A \<notin> set c)"

definition entry_line :: "string \<Rightarrow> nat \<Rightarrow> cron_entry \<Rightarrow> cron_line" where
  "entry_line path n e =
     (case e of (fs, u, c) \<Rightarrow>
        \<lparr>cl_source = path, cl_line = n, cl_schedule = join_with '' '' fs, cl_user = u, cl_command = c,
         cl_zone = [], cl_anacron = False\<rparr>)"

lemma nickname_facts:
  "n \<in> set cron_nicknames \<Longrightarrow>
     plain_word n \<and> has_prefix n ''@'' \<and> to_lower ulower n = n"
proof -
  have "list_all (\<lambda>n. plain_word n \<and> has_prefix n ''@'' \<and> is_ascii n \<and> map lower_byte n = n) cron_nicknames"
    by code_simp
  then show "n \<in> set cron_nicknames \<Longrightarrow> plain_word n \<and> has_prefix n ''@'' \<and> to_lower ulower n = n"
    by (auto simp: list_all_iff to_lower_def simp del: list.pred_map)
qed

lemma time_fields_plain: "time_fields ulower fs \<Longrightarrow> \<forall>f\<in>set fs. plain_word f"
proof (cases fs)
  case (Cons f gs)
  assume "time_fields ulower fs"
  then show ?thesis using Cons nickname_facts [of f] by (auto simp: time_fields_def list_all_iff)
qed simp

lemma time_fields_schedule:
  assumes "time_fields ulower fs" "2 \<le> length ws"
  shows "schedule_of ulower (fs @ ws) = Some (join_with '' '' fs, length fs)"
proof (cases fs)
  case Nil
  then show ?thesis using assms by (simp add: time_fields_def)
next
  case (Cons f gs)
  show ?thesis
  proof (cases "length fs = 5")
    case True
    then have v: "list_all (valid_cron_field ulower) fs" "valid_cron_field ulower f" "is_ascii f"
      using assms Cons by (auto simp: time_fields_def list_all_iff)
    then have "\<not> has_prefix f ''@''"
      using valid_cron_field_chars [of ulower f] by (cases f) (auto simp: outside_field_def)
    then show ?thesis using v True assms(2) Cons by (simp add: schedule_of_def)
  next
    case False
    then have "gs = []" "f \<in> set cron_nicknames" using assms Cons by (auto simp: time_fields_def)
    then show ?thesis using nickname_facts [of f ulower] assms(2) Cons by (simp add: schedule_of_def)
  qed
qed

lemma env_line_none:
  assumes "plain_word f" "CHR ''='' \<notin> set f" "plain_word g" "hd g \<noteq> CHR ''=''"
  shows "env_line (f @ CHR 0x20 # g @ r) = None"
proof -
  let ?s = "f @ CHR 0x20 # g @ r"
  obtain x f' y g' where xy: "f = x # f'" "g = y # g'" using assms(1,3) by (auto simp: plain_word_def neq_Nil_conv)
  have s: "dropWhile pattern_space ?s = ?s" using plain_word_chars(1) [OF assms(1), of x] xy by simp
  have sp: "\<not> word_char CHR 0x20" "pattern_space CHR 0x20"
    by (simp_all add: word_char_def is_digit_def letter_char_def pattern_space_def)
  have "\<not> has_prefix (dropWhile pattern_space (dropWhile word_char ?s)) ''=''"
  proof (cases "\<forall>c\<in>set f. word_char c")
    case True
    then have "dropWhile word_char ?s = CHR 0x20 # g @ r" using sp by (simp add: dropWhile_append2)
    then show ?thesis using sp plain_word_chars(1) [OF assms(3), of y] xy assms(4) by simp
  next
    case False
    then obtain c where c: "c \<in> set f" "\<not> word_char c" by blast
    then have d: "dropWhile word_char ?s = dropWhile word_char f @ CHR 0x20 # g @ r"
      by (simp add: dropWhile_append1)
    obtain z t where z: "dropWhile word_char f = z # t" using c by (cases "dropWhile word_char f") (auto simp: dropWhile_eq_Nil_conv)
    then have "z \<in> set f" by (metis list.set_intros(1) set_dropWhileD)
    then have "\<not> pattern_space z" "z \<noteq> CHR ''=''" using plain_word_chars(1) [OF assms(1)] assms(2) by auto
    then show ?thesis using d z by simp
  qed
  then show ?thesis unfolding env_line_def s by (simp add: Let_def)
qed

lemma entry_trimmed:
  assumes "good_entry ulower e"
  shows "trim_space (entry_text e) = entry_text e" "entry_text e \<noteq> []" "CHR 0x0A \<notin> set (entry_text e)"
    "\<not> has_suffix (entry_text e) [CHR 0x0D]"
proof -
  obtain fs u c where e: "e = (fs, u, c)" by (cases e)
  have g: "time_fields ulower fs" "plain_word u" "starts_plain c" "ends_plain c" "CHR 0x0A \<notin> set c"
    using assms e by (simp_all add: good_entry_def)
  have p: "\<forall>w\<in>set (fs @ [u]). plain_word w" using g(2) time_fields_plain [OF g(1)] by auto
  have s: "starts_plain (entry_text e)" and d: "ends_plain (entry_text e)"
    using starts_plain_blanked [OF p g(3)] ends_plain_blanked [OF g(4)] e by (simp_all add: entry_text_def)
  show "trim_space (entry_text e) = entry_text e" "entry_text e \<noteq> []"
    using s d by (auto simp: trim_space_plain starts_plain_def)
  have "CHR 0x0A \<notin> set w" if "w \<in> set (fs @ [u])" for w
    using plain_word_chars(1) [of w "CHR 0x0A"] p that by (auto simp: pattern_space_def)
  then show "CHR 0x0A \<notin> set (entry_text e)"
    using g(5) e by (auto simp: entry_text_def blanked_def)
  have "[CHR 0x0D] \<in> set space_runes" by (simp add: space_runes_def)
  then have "\<not> has_prefix (rev (entry_text e)) (rev [CHR 0x0D])" using d unfolding ends_plain_def by blast
  then show "\<not> has_suffix (entry_text e) [CHR 0x0D]" by (auto simp: has_suffix_iff)
qed

lemma entry_not_skipped:
  assumes "good_entry ulower e"
  shows "\<not> has_prefix (entry_text e) ''#''" "has_prefix (entry_text e) ''@'' \<or> env_line (entry_text e) = None"
proof -
  obtain fs u c where e: "e = (fs, u, c)" by (cases e)
  have t: "time_fields ulower fs" and p: "\<forall>f\<in>set fs. plain_word f"
    using assms e time_fields_plain by (auto simp: good_entry_def)
  then obtain f gs where fs: "fs = f # gs" by (cases fs) (auto simp: time_fields_def)
  then have f: "f \<noteq> []" using p by (auto simp: plain_word_def)
  have x: "entry_text e = f @ CHR 0x20 # blanked (gs @ [u]) c" using e fs by (simp add: entry_text_def blanked_simps)
  have "\<not> has_prefix f ''#'' \<and> (has_prefix f ''@'' \<or> env_line (entry_text e) = None)"
  proof (cases "length fs = 5")
    case True
    then obtain g hs where gs: "gs = g # hs" using fs by (cases gs) auto
    have ok: "\<forall>f\<in>set fs. \<forall>c\<in>set f. \<not> outside_field c"
      using t True valid_cron_field_chars [of ulower] by (auto simp: time_fields_def list_all_iff)
    have pg: "plain_word g" using p fs gs by simp
    then have "hd g \<in> set g" by (simp add: plain_word_def)
    then have "\<not> outside_field (hd g)" "\<forall>c\<in>set f. \<not> outside_field c" using ok fs gs by simp_all
    then have "hd g \<noteq> CHR ''=''" "CHR ''='' \<notin> set f" unfolding outside_field_def by blast+
    moreover have "entry_text e = f @ CHR 0x20 # g @ CHR 0x20 # blanked (hs @ [u]) c"
      using x gs by (simp add: blanked_simps)
    ultimately have "env_line (entry_text e) = None" using env_line_none [of f g] pg p fs by simp
    moreover have "\<not> has_prefix f ''#''" using ok fs f by (cases f) (auto simp: outside_field_def)
    ultimately show ?thesis by simp
  next
    case False
    then have "f \<in> set cron_nicknames" using t fs by (auto simp: time_fields_def)
    then have "has_prefix f ''@''" using nickname_facts by blast
    then show ?thesis using f by (cases f) auto
  qed
  then show "\<not> has_prefix (entry_text e) ''#''" "has_prefix (entry_text e) ''@'' \<or> env_line (entry_text e) = None"
    using x f by (cases f; auto)+
qed

lemma job_line_entry:
  assumes "good_entry ulower e"
  shows "job_line ulower path n [] (entry_text e) = Some (entry_line path n e)"
proof -
  obtain fs u c where e: "e = (fs, u, c)" by (cases e)
  have g: "time_fields ulower fs" "plain_word u" "cron_user u" "starts_plain c" "ends_plain c" "before_percent c = None"
    using assms e by (simp_all add: good_entry_def)
  have p: "\<forall>w\<in>set (fs @ [u]). plain_word w" using g(2) time_fields_plain [OF g(1)] by auto
  have w: "go_fields (entry_text e) = fs @ u # go_fields c"
    using go_fields_blanked [OF p] e by (simp add: entry_text_def)
  have "2 \<le> length (u # go_fields c)" using go_fields_nonempty [OF g(4)] by (cases "go_fields c") auto
  then have s: "schedule_of ulower (go_fields (entry_text e)) = Some (join_with '' '' fs, length fs)"
    unfolding w by (rule time_fields_schedule [OF g(1)])
  have "after_fields (Suc (length fs)) (entry_text e) = CHR 0x20 # c"
    using after_fields_blanked [OF p, of c] e by (simp add: entry_text_def)
  then have "command_after (entry_text e) (Suc (length fs)) = c"
    using g(4-6) by (simp add: command_after_def trim_space_blank del: after_fields.simps)
  then show ?thesis
    unfolding job_line_def s Let_def using w g(3) e by (simp add: entry_line_def)
qed

lemma crontab_lines_entries:
  "\<forall>e\<in>set es. good_entry ulower e \<Longrightarrow>
     crontab_lines ulower path n [] (map entry_text es) = map2 (entry_line path) [n..<n + length es] es"
proof (induction es arbitrary: n)
  case (Cons e es)
  then have g: "good_entry ulower e" by simp
  have "crontab_lines ulower path n [] (map entry_text (e # es))
      = entry_line path n e # crontab_lines ulower path (Suc n) [] (map entry_text es)"
    using entry_trimmed(1,2) [OF g] entry_not_skipped [OF g] job_line_entry [OF g]
    by (auto simp: Let_def)
  moreover have "[n..<n + length (e # es)] = n # [Suc n..<Suc n + length es]"
    using upt_conv_Cons [of n "n + length (e # es)"] by (simp del: upt_Suc)
  moreover have "crontab_lines ulower path (Suc n) [] (map entry_text es)
      = map2 (entry_line path) [Suc n..<Suc n + length es] es"
    using Cons.prems by (intro Cons.IH) simp
  ultimately show ?case by (simp only: zip_Cons_Cons list.map prod.case)
qed simp



end
