(* ===== verification/Disk_Usage.thy ===== *)
theory Disk_Usage
  imports Usage Go_Text Go_Utf8 "HOL-Library.Product_Lexorder"
begin

text \<open>
  The walk of one mount, \<^verbatim>\<open>internal/collect/diskusage.go\<close>: what each directory holds, what the walk was
  refused, and what is reported of both. The file system is a tree that stands still during the walk;
  the clock is an argument, asked at each step the code asks it.
\<close>

section \<open>Paths\<close>

definition slashes :: "string \<Rightarrow> nat" where
  "slashes p = count_list p CHR ''/''"

section \<open>Kinds and bounds\<close>

definition usage_max_depth :: nat where "usage_max_depth = 4"
definition usage_top_n :: nat where "usage_top_n = 8"
definition max_unreadable_dirs :: nat where "max_unreadable_dirs = 6"
definition max_unreadable_collected :: nat where "max_unreadable_collected = 128"
definition max_usage_path :: nat where "max_usage_path = 512"
definition max_usage_kind :: nat where "max_usage_kind = 64"

definition skip_dirs :: "string list" where
  "skip_dirs = [''/proc'', ''/sys'', ''/dev'', ''/run'']"

definition known_kinds :: "(string \<times> string) list" where
  "known_kinds =
     [(''/var/log/journal'', ''journal logs''), (''/var/log'', ''logs''),
      (''/var/lib/docker'', ''docker images and containers''), (''/var/lib/containers'', ''container images''),
      (''/var/cache/apt'', ''apt package cache''), (''/var/cache/yum'', ''yum package cache''),
      (''/var/cache/dnf'', ''dnf package cache''), (''/var/lib/postgresql'', ''postgres data''),
      (''/var/lib/mysql'', ''mysql data''), (''/var/backups'', ''backups''),
      (''/home'', ''home directories''), (''/tmp'', ''temporary files'')]"

definition kind_for :: "string \<Rightarrow> string" where
  "kind_for path =
     (case List.find (\<lambda>k. path = fst k \<or> has_prefix path (fst k @ ''/'')) known_kinds of
        None \<Rightarrow> [] | Some k \<Rightarrow> snd k)"

section \<open>The tree\<close>

text \<open>
  A directory has the device it is on (if \<^verbatim>\<open>lstat\<close> works), what listing it gives, and the mode and
  whether root owns it (if \<^verbatim>\<open>lstat\<close> works); a regular file its size, if it can be had.
\<close>

datatype listing = Listed | Forbidden | Unlisted

record folder =
  fo_device :: "int option"
  fo_listing :: listing
  fo_meta :: "(nat \<times> bool) option"

datatype fnode = Regular_File "int option" | Other_Node | Folder folder "(string \<times> fnode) list"

definition other_filesystem :: "int option \<Rightarrow> folder \<Rightarrow> bool" where
  "other_filesystem root_device f =
     (case (root_device, fo_device f) of (Some a, Some b) \<Rightarrow> a \<noteq> b | _ \<Rightarrow> False)"

section \<open>What was refused\<close>

text \<open>\<^verbatim>\<open>%#o\<close>.\<close>

fun octal_digits :: "nat \<Rightarrow> nat \<Rightarrow> string" where
  "octal_digits 0 n = []"
| "octal_digits (Suc k) n =
     (if n < 8 then [byte (48 + n)] else octal_digits k (n div 8) @ [byte (48 + n mod 8)])"

definition octal_mode :: "nat \<Rightarrow> string" where
  "octal_mode n = (if n = 0 then ''0'' else CHR ''0'' # octal_digits 4 n)"

record walk_state =
  ws_totals :: "(string \<times> int) list"
  ws_unreadable :: "unreadable_dir list"
  ws_more :: int
  ws_partial :: bool
  ws_asked :: nat

definition unreadable_of :: "string \<Rightarrow> folder \<Rightarrow> unreadable_dir" where
  "unreadable_of path f =
     (case fo_meta f of
        None \<Rightarrow> \<lparr>ud_path = path, ud_mode = [], ud_root_owned = False\<rparr>
      | Some (mode, root) \<Rightarrow> \<lparr>ud_path = path, ud_mode = octal_mode mode, ud_root_owned = root\<rparr>)"

definition note_unreadable :: "string \<Rightarrow> folder \<Rightarrow> walk_state \<Rightarrow> walk_state" where
  "note_unreadable path f s =
     (if max_unreadable_collected \<le> length (ws_unreadable s) then s\<lparr>ws_more := ws_more s + 1\<rparr>
      else if list_ex (\<lambda>u. has_prefix path (ud_path u @ ''/'')) (ws_unreadable s) then s
      else s\<lparr>ws_unreadable := ws_unreadable s @ [unreadable_of path f]\<rparr>)"

definition refusal_key :: "unreadable_dir \<Rightarrow> bool \<times> nat \<times> string" where
  "refusal_key u = (kind_for (ud_path u) = [], slashes (ud_path u), ud_path u)"

definition rank_unreadable :: "walk_state \<Rightarrow> walk_state" where
  "rank_unreadable s =
     (let us = sort_key refusal_key (ws_unreadable s) in
      s\<lparr>ws_more := ws_more s + int (length us - max_unreadable_dirs),
        ws_unreadable := map (\<lambda>u. u\<lparr>ud_path := clip (ud_path u) max_usage_path\<rparr>) (take max_unreadable_dirs us)\<rparr>)"

section \<open>What was counted\<close>

text \<open>\<open>bucketFor\<close>: the directory a file's bytes are put down to.\<close>

function bucket_dir :: "string \<Rightarrow> nat \<Rightarrow> string" where
  "bucket_dir d root_depth =
     (if root_depth + usage_max_depth < slashes d then bucket_dir (path_dir d) root_depth else d)"
  by pat_completeness auto

lemma slashes_path_dir: "1 < slashes d \<Longrightarrow> slashes (path_dir d) < slashes d"
proof (cases "last_index_byte d CHR ''/''")
  case None
  then show "1 < slashes d \<Longrightarrow> slashes (path_dir d) < slashes d"
    by (simp add: slashes_def last_index_byte_None count_list_0_iff)
next
  case (Some i)
  then have "i < length d" "d ! i = CHR ''/''" using last_index_byte_Some [OF Some] by simp_all
  then have "d = take i d @ CHR ''/'' # drop (Suc i) d" by (metis id_take_nth_drop)
  then have "slashes d = slashes (take i d) + 1 + slashes (drop (Suc i) d)"
    unfolding slashes_def by (metis count_list.simps(2) count_list_append add.assoc add.commute)
  then have "slashes (take i d) < slashes d" by simp
  moreover have "slashes ''/'' = 1" by (simp add: slashes_def)
  ultimately show "1 < slashes d \<Longrightarrow> slashes (path_dir d) < slashes d"
    using Some by (simp add: path_dir_def)
qed

termination bucket_dir
  by (relation "measure (\<lambda>(d, n). slashes d)") (auto simp: usage_max_depth_def intro: slashes_path_dir)

declare bucket_dir.simps [simp del]

definition bucket_for :: "string \<Rightarrow> nat \<Rightarrow> string" where
  "bucket_for path root_depth = bucket_dir (path_dir path) root_depth"

fun add_bytes :: "string \<Rightarrow> int \<Rightarrow> (string \<times> int) list \<Rightarrow> (string \<times> int) list" where
  "add_bytes d n [] = [(d, i64 n)]"
| "add_bytes d n ((e, m) # t) = (if e = d then (e, i64 (m + n)) # t else (e, m) # add_bytes d n t)"

definition dir_of_total :: "string \<times> int \<Rightarrow> dir_usage" where
  "dir_of_total t =
     \<lparr>du_path = clip (fst t) max_usage_path, du_bytes = snd t, du_kind = clip (kind_for (fst t)) max_usage_kind\<rparr>"

definition top_dirs :: "(string \<times> int) list \<Rightarrow> nat \<Rightarrow> dir_usage list" where
  "top_dirs totals n = take n (sort_key (\<lambda>d. (- du_bytes d, du_path d)) (map dir_of_total totals))"

section \<open>The walk\<close>

text \<open>
  \<^verbatim>\<open>filepath.WalkDir\<close> with the callback of \<open>walk\<close>: whether the walk stops, and the state. \<open>late\<close>
  says of each call of the callback whether its deadline is past.
\<close>

record walk_env =
  we_root_device :: "int option"
  we_root_depth :: nat

fun walk_node :: "walk_env \<Rightarrow> (nat \<Rightarrow> bool) \<Rightarrow> string \<Rightarrow> fnode \<Rightarrow> walk_state \<Rightarrow> bool \<times> walk_state"
and walk_entries :: "walk_env \<Rightarrow> (nat \<Rightarrow> bool) \<Rightarrow> string \<Rightarrow> (string \<times> fnode) list \<Rightarrow> walk_state \<Rightarrow> bool \<times> walk_state"
where
  "walk_node e late path x s =
     (let now = late (ws_asked s); s = s\<lparr>ws_asked := Suc (ws_asked s)\<rparr> in
      if now then (True, s\<lparr>ws_partial := True\<rparr>)
      else (case x of
          Regular_File sz \<Rightarrow>
            (False, case sz of None \<Rightarrow> s
               | Some n \<Rightarrow> s\<lparr>ws_totals := add_bytes (bucket_for path (we_root_depth e)) n (ws_totals s)\<rparr>)
        | Other_Node \<Rightarrow> (False, s)
        | Folder f es \<Rightarrow>
            if path \<in> set skip_dirs \<or> other_filesystem (we_root_device e) f then (False, s)
            else (case fo_listing f of
                Listed \<Rightarrow> walk_entries e late path es s
              | Forbidden \<Rightarrow> (False, note_unreadable path f s)
              | Unlisted \<Rightarrow> (False, s))))"
| "walk_entries e late path [] s = (False, s)"
| "walk_entries e late path (x # xs) s =
     (case walk_node e late (path_join path (fst x)) (snd x) s of
        (True, s) \<Rightarrow> (True, s)
      | (False, s) \<Rightarrow> walk_entries e late path xs s)"

definition walk_subtree ::
  "walk_env \<Rightarrow> (nat \<Rightarrow> bool) \<Rightarrow> int \<Rightarrow> string \<Rightarrow> fnode \<Rightarrow> walk_state \<Rightarrow> walk_state" where
  "walk_subtree e late share path x s =
     (if share \<le> 0 then s\<lparr>ws_partial := True\<rparr> else snd (walk_node e late path x (s\<lparr>ws_asked := 0\<rparr>)))"

text \<open>\<open>usageShare\<close>: Go's division truncates towards zero.\<close>

definition usage_share :: "int \<Rightarrow> nat \<Rightarrow> int" where
  "usage_share remaining left =
     (if left = 0 then 0
      else if 0 \<le> remaining then remaining div int left else - ((- remaining) div int left))"

text \<open>
  The clock of a scan: whether the whole time is up before the \<open>i\<close>-th directory (after the last one: at
  the end), what is left of it then, and whether the directory's share is up at the \<open>k\<close>-th step of its
  walk.
\<close>

record scan_clock =
  sc_over :: "nat \<Rightarrow> bool"
  sc_left :: "nat \<Rightarrow> int"
  sc_late :: "nat \<Rightarrow> nat \<Rightarrow> bool"

fun walk_all ::
  "walk_env \<Rightarrow> scan_clock \<Rightarrow> nat \<Rightarrow> (string \<times> fnode) list \<Rightarrow> walk_state \<Rightarrow> walk_state" where
  "walk_all e ck i [] s = s"
| "walk_all e ck i (x # xs) s =
     (if sc_over ck i then s\<lparr>ws_partial := True\<rparr>
      else walk_all e ck (Suc i) xs
             (walk_subtree e (sc_late ck i) (usage_share (sc_left ck i) (Suc (length xs))) (fst x) (snd x) s))"

definition is_subtree :: "int option \<Rightarrow> string \<Rightarrow> string \<times> fnode \<Rightarrow> bool" where
  "is_subtree dev root x =
     (case snd x of Folder f es \<Rightarrow> path_join root (fst x) \<notin> set skip_dirs \<and> \<not> other_filesystem dev f | _ \<Rightarrow> False)"

definition subtrees_of :: "int option \<Rightarrow> string \<Rightarrow> (string \<times> fnode) list \<Rightarrow> (string \<times> fnode) list" where
  "subtrees_of dev root es = map (\<lambda>x. (path_join root (fst x), snd x)) (filter (is_subtree dev root) es)"

definition root_file :: "string \<Rightarrow> string \<times> fnode \<Rightarrow> (string \<times> int) list \<Rightarrow> (string \<times> int) list" where
  "root_file root x t = (case snd x of Regular_File (Some n) \<Rightarrow> add_bytes root n t | _ \<Rightarrow> t)"

definition no_walk :: walk_state where
  "no_walk = \<lparr>ws_totals = [], ws_unreadable = [], ws_more = 0, ws_partial = False, ws_asked = 0\<rparr>"

text \<open>\<open>ScanUsage\<close> of a mount whose root is the folder \<open>f\<close> with the entries \<open>es\<close>.\<close>

definition scan_usage :: "scan_clock \<Rightarrow> go_time \<Rightarrow> string \<Rightarrow> folder \<Rightarrow> (string \<times> fnode) list \<Rightarrow> usage_scan" where
  "scan_usage ck now mount_point f es =
     (let root = path_clean mount_point;
          blank = \<lparr>us_mount_point = mount_point, us_dirs = [], us_scanned_at = now, us_partial = True,
                    us_accounted = 0, us_unreadable = [], us_more_unreadable = 0\<rparr>
      in case fo_listing f of
           Forbidden \<Rightarrow> blank\<lparr>us_unreadable := ws_unreadable (note_unreadable root f no_walk)\<rparr>
         | Unlisted \<Rightarrow> blank
         | Listed \<Rightarrow>
           (let ts = subtrees_of (fo_device f) root es;
                s = no_walk\<lparr>ws_totals := fold (root_file root) es []\<rparr>;
                s = walk_all \<lparr>we_root_device = fo_device f, we_root_depth = slashes root\<rparr> ck 0 ts s;
                s = (if sc_over ck (length ts) then s\<lparr>ws_partial := True\<rparr> else s);
                s = rank_unreadable s
            in blank\<lparr>us_partial := ws_partial s, us_unreadable := ws_unreadable s, us_more_unreadable := ws_more s,
                 us_dirs := top_dirs (ws_totals s) usage_top_n,
                 us_accounted := fold (\<lambda>t a. i64 (a + snd t)) (ws_totals s) 0\<rparr>))"

end
