(* ===== verification/Disk_Usage_Props.thy ===== *)
theory Disk_Usage_Props
  imports Disk_Usage
begin

text \<open>
  What a scan promises when it does not call itself partial: every byte of every file that is there
  to be seen is counted, in its directory, and every directory the walk was refused is named or
  counted.
\<close>

section \<open>What is there to be seen\<close>

text \<open>The files the agent may see, with the directory each is put down to; and the refusals.\<close>

fun seen_node :: "walk_env \<Rightarrow> string \<Rightarrow> fnode \<Rightarrow> (string \<times> int) list"
and seen_entries :: "walk_env \<Rightarrow> string \<Rightarrow> (string \<times> fnode) list \<Rightarrow> (string \<times> int) list"
where
  "seen_node e path x =
     (case x of
        Regular_File (Some n) \<Rightarrow> [(bucket_for path (we_root_depth e), n)]
      | Folder f es \<Rightarrow>
          if path \<in> set skip_dirs \<or> other_filesystem (we_root_device e) f \<or> fo_listing f \<noteq> Listed then []
          else seen_entries e path es
      | _ \<Rightarrow> [])"
| "seen_entries e path [] = []"
| "seen_entries e path (x # xs) = seen_node e (path_join path (fst x)) (snd x) @ seen_entries e path xs"

fun refused_node :: "walk_env \<Rightarrow> string \<Rightarrow> fnode \<Rightarrow> (string \<times> folder) list"
and refused_entries :: "walk_env \<Rightarrow> string \<Rightarrow> (string \<times> fnode) list \<Rightarrow> (string \<times> folder) list"
where
  "refused_node e path x =
     (case x of
        Folder f es \<Rightarrow>
          if path \<in> set skip_dirs \<or> other_filesystem (we_root_device e) f then []
          else (case fo_listing f of Listed \<Rightarrow> refused_entries e path es | Forbidden \<Rightarrow> [(path, f)] | Unlisted \<Rightarrow> [])
      | _ \<Rightarrow> [])"
| "refused_entries e path [] = []"
| "refused_entries e path (x # xs) = refused_node e (path_join path (fst x)) (snd x) @ refused_entries e path xs"

definition add_all :: "(string \<times> int) list \<Rightarrow> (string \<times> int) list \<Rightarrow> (string \<times> int) list" where
  "add_all fs t = fold (\<lambda>f. add_bytes (fst f) (snd f)) fs t"

definition note_all :: "(string \<times> folder) list \<Rightarrow> walk_state \<Rightarrow> walk_state" where
  "note_all rs s = fold (\<lambda>r. note_unreadable (fst r) (snd r)) rs s"

definition same_notes :: "walk_state \<Rightarrow> walk_state \<Rightarrow> bool" where
  "same_notes s t = (ws_unreadable s = ws_unreadable t \<and> ws_more s = ws_more t)"

lemma note_unreadable_fields [simp]:
  "ws_totals (note_unreadable p f s) = ws_totals s" "ws_partial (note_unreadable p f s) = ws_partial s"
  "ws_asked (note_unreadable p f s) = ws_asked s"
  by (simp_all add: note_unreadable_def)

lemma note_all_fields [simp]:
  "ws_totals (note_all rs s) = ws_totals s" "ws_partial (note_all rs s) = ws_partial s"
  by (induction rs arbitrary: s) (simp_all add: note_all_def)

lemma note_all_same: "same_notes s t \<Longrightarrow> same_notes (note_all rs s) (note_all rs t)"
proof (induction rs arbitrary: s t)
  case (Cons r rs)
  then have "same_notes (note_unreadable (fst r) (snd r) s) (note_unreadable (fst r) (snd r) t)"
    by (simp add: same_notes_def note_unreadable_def)
  then show ?case using Cons.IH by (simp add: note_all_def)
qed (simp add: note_all_def)

lemma same_notes_refl [simp]: "same_notes s s"
  by (simp add: same_notes_def)

lemma same_notes_trans: "same_notes s t \<Longrightarrow> same_notes t u \<Longrightarrow> same_notes s u"
  by (simp add: same_notes_def)

lemma add_all_append: "add_all (a @ b) t = add_all b (add_all a t)"
  by (simp add: add_all_def)

lemma note_all_append: "note_all (a @ b) t = note_all b (note_all a t)"
  by (simp add: note_all_def)

text \<open>A walk that has not run out of time has seen all there is.\<close>

definition did_all :: "(string \<times> int) list \<Rightarrow> (string \<times> folder) list \<Rightarrow> walk_state \<Rightarrow> walk_state \<Rightarrow> bool" where
  "did_all fs rs s t =
     (\<not> ws_partial s \<and> ws_totals t = add_all fs (ws_totals s) \<and> same_notes t (note_all rs s))"

lemma did_all_trans:
  assumes "did_all fs rs s t" "did_all fs' rs' t u"
  shows "did_all (fs @ fs') (rs @ rs') s u"
  using assms note_all_same [of t "note_all rs s" rs'] same_notes_trans
  by (auto simp: did_all_def add_all_append note_all_append)

lemma walk_did_all:
  "walk_node e late path x s = (stop, t) \<Longrightarrow> \<not> ws_partial t \<Longrightarrow>
     \<not> stop \<and> did_all (seen_node e path x) (refused_node e path x) s t"
  "walk_entries e late path xs s = (stop, t) \<Longrightarrow> \<not> ws_partial t \<Longrightarrow>
     \<not> stop \<and> did_all (seen_entries e path xs) (refused_entries e path xs) s t"
proof (induction e late path x s and e late path xs s arbitrary: stop t and stop t rule: walk_node_walk_entries.induct)
  case (1 e late path x s)
  let ?s = "s\<lparr>ws_asked := Suc (ws_asked s)\<rparr>"
  have now: "\<not> late (ws_asked s)" using "1.prems" by (auto simp: Let_def)
  show ?case
  proof (cases x)
    case (Regular_File sz)
    then show ?thesis
      using "1.prems" now by (cases sz) (auto simp: did_all_def add_all_def note_all_def same_notes_def)
  next
    case Other_Node
    then show ?thesis
      using "1.prems" now by (auto simp: did_all_def add_all_def note_all_def same_notes_def)
  next
    case (Folder f es)
    show ?thesis
    proof (cases "path \<in> set skip_dirs \<or> other_filesystem (we_root_device e) f")
      case True
      then show ?thesis
        using "1.prems" now Folder by (auto simp: did_all_def add_all_def note_all_def same_notes_def)
    next
      case False
      show ?thesis
      proof (cases "fo_listing f")
        case Listed
        then have "walk_entries e late path es ?s = (stop, t)" using "1.prems"(1) now Folder False by simp
        then have "\<not> stop \<and> did_all (seen_entries e path es) (refused_entries e path es) ?s t"
          using "1.IH" [of "late (ws_asked s)" ?s f es] now Folder False Listed "1.prems"(2) by simp
        moreover have "same_notes (note_all rs ?s) (note_all rs s)" for rs
          by (rule note_all_same) (simp add: same_notes_def)
        ultimately show ?thesis
          using Folder False Listed same_notes_trans by (auto simp: did_all_def)
      qed (use "1.prems" now Folder False in \<open>auto simp: did_all_def add_all_def note_all_def same_notes_def note_unreadable_def\<close>)
    qed
  qed
next
  case (3 e late path x xs s)
  obtain st u where w: "walk_node e late (path_join path (fst x)) (snd x) s = (st, u)" by fastforce
  show ?case
  proof (cases st)
    case True
    then show ?thesis using 3 w by auto
  next
    case False
    then have r: "walk_entries e late path xs u = (stop, t)" using "3.prems"(1) w by simp
    then have 2: "\<not> stop \<and> did_all (seen_entries e path xs) (refused_entries e path xs) u t"
      using "3.IH"(2) [OF w [symmetric]] False "3.prems"(2) by simp
    then have "\<not> ws_partial u" by (simp add: did_all_def)
    then show ?thesis using "3.IH"(1) [OF w] 2 did_all_trans by fastforce
  qed
qed (auto simp: did_all_def add_all_def note_all_def)

lemma did_all_refl: "\<not> ws_partial s \<Longrightarrow> did_all [] [] s s"
  by (simp add: did_all_def add_all_def note_all_def)

lemma walk_subtree_did_all:
  assumes "\<not> ws_partial (walk_subtree e late share path x s)"
  shows "did_all (seen_node e path x) (refused_node e path x) s (walk_subtree e late share path x s)"
proof -
  obtain st u where w: "walk_node e late path x (s\<lparr>ws_asked := 0\<rparr>) = (st, u)" by fastforce
  have u: "walk_subtree e late share path x s = u" using assms w by (auto simp: walk_subtree_def)
  then have "did_all (seen_node e path x) (refused_node e path x) (s\<lparr>ws_asked := 0\<rparr>) u"
    using walk_did_all(1) [OF w] assms by simp
  moreover have "same_notes (note_all rs (s\<lparr>ws_asked := 0\<rparr>)) (note_all rs s)" for rs
    by (rule note_all_same) (simp add: same_notes_def)
  ultimately show ?thesis using u same_notes_trans by (auto simp: did_all_def)
qed

lemma walk_all_did_all:
  assumes "\<not> ws_partial (walk_all e ck i ts s)"
  shows "did_all (concat (map (\<lambda>t. seen_node e (fst t) (snd t)) ts))
    (concat (map (\<lambda>t. refused_node e (fst t) (snd t)) ts)) s (walk_all e ck i ts s)"
  using assms
proof (induction ts arbitrary: i s)
  case Nil
  then show ?case by (simp add: did_all_refl)
next
  case (Cons x xs)
  let ?u = "walk_subtree e (sc_late ck i) (usage_share (sc_left ck i) (Suc (length xs))) (fst x) (snd x) s"
  have r: "walk_all e ck i (x # xs) s = walk_all e ck (Suc i) xs ?u" using Cons.prems by (auto split: if_splits)
  then have d: "did_all (concat (map (\<lambda>t. seen_node e (fst t) (snd t)) xs))
      (concat (map (\<lambda>t. refused_node e (fst t) (snd t)) xs)) ?u (walk_all e ck i (x # xs) s)"
    using Cons.IH [of "Suc i" ?u] Cons.prems by simp
  then have "did_all (seen_node e (fst x) (snd x)) (refused_node e (fst x) (snd x)) s ?u"
    by (intro walk_subtree_did_all) (simp add: did_all_def)
  then show ?case using did_all_trans [OF _ d] by simp
qed

section \<open>Sums\<close>

definition total_of :: "(string \<times> int) list \<Rightarrow> string \<Rightarrow> int" where
  "total_of t d = (case map_of t d of None \<Rightarrow> 0 | Some n \<Rightarrow> n)"

definition bytes_in :: "string \<Rightarrow> (string \<times> int) list \<Rightarrow> int" where
  "bytes_in d fs = sum_list (map snd (filter (\<lambda>f. fst f = d) fs))"

definition all_bytes :: "(string \<times> int) list \<Rightarrow> int" where
  "all_bytes fs = sum_list (map snd fs)"

lemma total_of_add: "total_of (add_bytes d n t) b = (if b = d then i64 (total_of t d + n) else total_of t b)"
  by (induction d n t rule: add_bytes.induct) (auto simp: total_of_def)

lemma keys_add: "set (map fst (add_bytes d n t)) = insert d (set (map fst t))"
  by (induction d n t rule: add_bytes.induct) auto

lemma distinct_add: "distinct (map fst t) \<Longrightarrow> distinct (map fst (add_bytes d n t))"
  by (induction d n t rule: add_bytes.induct) (auto simp: keys_add [simplified])

lemma add_all_keys:
  "set (map fst (add_all fs t)) = set (map fst fs) \<union> set (map fst t)"
  "distinct (map fst t) \<Longrightarrow> distinct (map fst (add_all fs t))"
proof (induction fs arbitrary: t)
  case (Cons f fs)
  {
    case 1
    show ?case
      using Cons.IH(1) [of "add_bytes (fst f) (snd f) t"] keys_add [of "fst f" "snd f" t] by (auto simp: add_all_def)
  next
    case 2
    then show ?case
      using Cons.IH(2) [of "add_bytes (fst f) (snd f) t"] by (simp add: add_all_def distinct_add)
  }
qed (simp_all add: add_all_def)

lemma total_of_add_all: "i64 (total_of (add_all fs t) d) = i64 (total_of t d + bytes_in d fs)"
proof (induction fs arbitrary: t)
  case (Cons f fs)
  have "i64 (total_of (add_all (f # fs) t) d) = i64 (total_of (add_bytes (fst f) (snd f) t) d + bytes_in d fs)"
    using Cons.IH [of "add_bytes (fst f) (snd f) t"] by (simp add: add_all_def)
  also have "\<dots> = i64 (total_of t d + bytes_in d (f # fs))"
    by (simp add: total_of_add bytes_in_def wrap_int_add add.assoc)
  finally show ?case .
qed (simp add: add_all_def bytes_in_def)

lemma all_bytes_add: "i64 (all_bytes (add_bytes d n t) + k) = i64 (all_bytes t + n + k)"
proof (induction d n t arbitrary: k rule: add_bytes.induct)
  case (2 d n e m t)
  show ?case
  proof (cases "e = d")
    case True
    then show ?thesis
      using wrap_int_add [of 64 "m + n" "all_bytes t + k"] by (simp add: all_bytes_def algebra_simps)
  next
    case False
    then show ?thesis
      using 2 [OF False, of "m + k"] by (simp add: all_bytes_def add.assoc add.left_commute)
  qed
qed (simp add: all_bytes_def wrap_int_add)

lemma all_bytes_add_all: "i64 (all_bytes (add_all fs t)) = i64 (all_bytes t + all_bytes fs)"
proof (induction fs arbitrary: t)
  case (Cons f fs)
  then show ?case
    using all_bytes_add [of "fst f" "snd f" t "all_bytes fs"] by (simp add: add_all_def all_bytes_def add.assoc)
qed (simp add: add_all_def all_bytes_def)

lemma accounted_fold: "i64 (fold (\<lambda>t a. i64 (a + snd t)) ts a) = i64 (a + all_bytes ts)"
proof (induction ts arbitrary: a)
  case (Cons x xs)
  then show ?case by (simp add: all_bytes_def wrap_int_add add.assoc)
qed (simp add: all_bytes_def)

lemma i64_i64: "i64 (i64 a) = i64 a"
  using wrap_int_add [of 64 a 0] by simp

text \<open>Every total is what a wrapped sum gives, so it is its own wrapping.\<close>

definition wrapped_totals :: "(string \<times> int) list \<Rightarrow> bool" where
  "wrapped_totals t = list_all (\<lambda>x. i64 (snd x) = snd x) t"

lemma wrapped_add: "wrapped_totals t \<Longrightarrow> wrapped_totals (add_bytes d n t)"
  by (induction d n t rule: add_bytes.induct) (auto simp: wrapped_totals_def i64_i64)

lemma wrapped_add_all: "wrapped_totals t \<Longrightarrow> wrapped_totals (add_all fs t)"
  by (induction fs arbitrary: t) (simp_all add: add_all_def wrapped_add)

lemma total_in_sum:
  assumes "(d, n) \<in> set (add_all fs [])"
  shows "n = i64 (bytes_in d fs)"
proof -
  have "distinct (map fst (add_all fs []))" by (rule add_all_keys(2)) simp
  then have "total_of (add_all fs []) d = n" using assms by (simp add: total_of_def)
  moreover have "wrapped_totals (add_all fs [])" by (rule wrapped_add_all) (simp add: wrapped_totals_def)
  then have "i64 n = n" using assms by (auto simp: wrapped_totals_def list_all_iff)
  ultimately show ?thesis using total_of_add_all [of fs "[]" d] by (simp add: total_of_def)
qed

section \<open>Refusals\<close>

text \<open>Names in a folder are different, and no name has a slash.\<close>

fun proper_node :: "fnode \<Rightarrow> bool" and proper_entries :: "(string \<times> fnode) list \<Rightarrow> bool" where
  "proper_node (Folder f es) = proper_entries es"
| "proper_node (Regular_File n) = True"
| "proper_node Other_Node = True"
| "proper_entries [] = True"
| "proper_entries (x # xs) =
     (fst x \<noteq> [] \<and> CHR ''/'' \<notin> set (fst x) \<and> fst x \<notin> set (map fst xs) \<and> proper_node (snd x) \<and> proper_entries xs)"

definition below :: "string \<Rightarrow> string \<Rightarrow> bool" where
  "below p r = (r = p \<or> has_prefix r (p @ ''/''))"

definition base_of :: "string \<Rightarrow> string" where
  "base_of p = (if p = ''/'' then ''/'' else p @ ''/'')"

lemma path_join_base: "path_join p n = base_of p @ n"
  by (simp add: path_join_def base_of_def)

lemma path_join_not_root: "n \<noteq> [] \<Longrightarrow> path_join p n \<noteq> ''/''"
  by (cases p) (auto simp: path_join_def)

lemma below_split: "below p r \<longleftrightarrow> (\<exists>t. r = p @ t \<and> (t = [] \<or> hd t = CHR ''/''))"
proof
  assume "\<exists>t. r = p @ t \<and> (t = [] \<or> hd t = CHR ''/'')"
  then obtain t where "r = p @ t" "t = [] \<or> hd t = CHR ''/''" by blast
  then show "below p r" by (cases t) (auto simp: below_def has_prefix_iff)
qed (auto simp: below_def has_prefix_iff)

lemma below_join: "p \<noteq> ''/'' \<Longrightarrow> below (path_join p n) r \<Longrightarrow> below p r"
  by (auto simp: below_split path_join_base base_of_def)

lemma siblings_apart:
  assumes "CHR ''/'' \<notin> set m" "CHR ''/'' \<notin> set n" "m \<noteq> n" "below (path_join p m) a" "below (path_join p n) b"
  shows "\<not> has_prefix b (a @ ''/'')"
proof
  assume "has_prefix b (a @ ''/'')"
  then obtain u where b: "b = a @ ''/'' @ u" by (auto simp: has_prefix_iff)
  obtain t where t: "a = base_of p @ m @ t" "t = [] \<or> hd t = CHR ''/''"
    using assms(4) by (auto simp: below_split path_join_base)
  obtain v where v: "b = base_of p @ n @ v" "v = [] \<or> hd v = CHR ''/''"
    using assms(5) by (auto simp: below_split path_join_base)
  have tw: "takeWhile (\<lambda>c. c \<noteq> CHR ''/'') (k @ w) = k" if "CHR ''/'' \<notin> set k" "w = [] \<or> hd w = CHR ''/''" for k w
    using that by (induction k) (cases w; auto)+
  have "n @ v = m @ t @ ''/'' @ u" using b t(1) v(1) by simp
  moreover have "takeWhile (\<lambda>c. c \<noteq> CHR ''/'') (m @ t @ ''/'' @ u) = m"
    using t(2) by (intro tw assms(1)) (cases t; simp)
  ultimately show False using tw [OF assms(2) v(2)] assms(3) by simp
qed

lemma refused_below:
  "r \<in> set (map fst (refused_node e p x)) \<Longrightarrow> proper_node x \<Longrightarrow> p \<noteq> ''/'' \<Longrightarrow> below p r"
  "r \<in> set (map fst (refused_entries e p xs)) \<Longrightarrow> proper_entries xs \<Longrightarrow>
     \<exists>y\<in>set xs. below (path_join p (fst y)) r"
proof (induction e p x and e p xs arbitrary: r and r rule: refused_node_refused_entries.induct)
  case (1 e path x)
  show ?case
  proof (cases x)
    case (Folder f es)
    let ?skipped = "path \<in> set skip_dirs \<or> other_filesystem (we_root_device e) f"
    have "r = path \<or> \<not> ?skipped \<and> fo_listing f = Listed \<and> r \<in> set (map fst (refused_entries e path es))"
      using "1.prems"(1) Folder by (auto split: if_splits listing.splits)
    moreover have "below path r"
      if l: "\<not> ?skipped" "fo_listing f = Listed" and i: "r \<in> set (map fst (refused_entries e path es))"
    proof -
      obtain y where "below (path_join path (fst y)) r"
        using "1.IH" [OF Folder l i] "1.prems"(2) Folder by auto
      then show ?thesis using below_join "1.prems"(3) by blast
    qed
    ultimately show ?thesis unfolding below_def by blast
  qed (use "1.prems" in auto)
next
  case (3 e path x xs)
  have p: "path_join path (fst x) \<noteq> ''/''" "proper_node (snd x)" "proper_entries xs"
    using "3.prems" path_join_not_root by auto
  have "r \<in> set (map fst (refused_node e (path_join path (fst x)) (snd x)))
      \<or> r \<in> set (map fst (refused_entries e path xs))"
    using "3.prems"(1) by (simp del: refused_node.simps)
  then show ?case using "3.IH"(1) [OF _ p(2,1)] "3.IH"(2) [OF _ p(3)] by (meson list.set_intros)
qed simp

lemma proper_entries_slash: "proper_entries xs \<Longrightarrow> y \<in> set xs \<Longrightarrow> CHR ''/'' \<notin> set (fst y)"
  by (induction xs) auto

lemma refused_apart:
  "proper_node x \<Longrightarrow> p \<noteq> ''/'' \<Longrightarrow>
     sorted_wrt (\<lambda>a b. \<not> has_prefix (fst b) (fst a @ ''/'')) (refused_node e p x)"
  "proper_entries xs \<Longrightarrow>
     sorted_wrt (\<lambda>a b. \<not> has_prefix (fst b) (fst a @ ''/'')) (refused_entries e p xs)"
proof (induction e p x and e p xs rule: refused_node_refused_entries.induct)
  case (1 e path x)
  then show ?case by (auto split: fnode.splits listing.splits)
next
  case (3 e path x xs)
  have p: "path_join path (fst x) \<noteq> ''/''" "proper_node (snd x)" "proper_entries xs"
    using "3.prems" path_join_not_root by auto
  have "\<not> has_prefix (fst b) (fst a @ ''/'')"
    if a: "a \<in> set (refused_node e (path_join path (fst x)) (snd x))" and b: "b \<in> set (refused_entries e path xs)" for a b
  proof -
    have "below (path_join path (fst x)) (fst a)"
      using refused_below(1) [of "fst a" e "path_join path (fst x)" "snd x", OF _ p(2,1)] a by (simp del: refused_node.simps)
    moreover obtain y where y: "y \<in> set xs" "below (path_join path (fst y)) (fst b)"
      using refused_below(2) [of "fst b" e path xs] b p(3) by auto
    moreover have "fst x \<noteq> fst y" "CHR ''/'' \<notin> set (fst y)" "CHR ''/'' \<notin> set (fst x)"
      using y(1) "3.prems" p(3) proper_entries_slash by auto
    ultimately show ?thesis using siblings_apart by blast
  qed
  then show ?case
    using "3.IH"(1) [OF p(2,1)] "3.IH"(2) [OF p(3)] by (simp add: sorted_wrt_append del: refused_node.simps)
qed simp

text \<open>Refusals apart from each other are each named or counted.\<close>

lemma note_all_count:
  assumes "sorted_wrt (\<lambda>a b. \<not> has_prefix (fst b) (fst a @ ''/'')) rs"
    "\<forall>u\<in>set (ws_unreadable s). \<forall>r\<in>set rs. \<not> has_prefix (fst r) (ud_path u @ ''/'')"
  shows "int (length (ws_unreadable (note_all rs s))) + ws_more (note_all rs s)
    = int (length (ws_unreadable s)) + ws_more s + int (length rs)"
  using assms
proof (induction rs arbitrary: s)
  case (Cons r rs)
  let ?t = "note_unreadable (fst r) (snd r) s"
  have n: "\<not> list_ex (\<lambda>u. has_prefix (fst r) (ud_path u @ ''/'')) (ws_unreadable s)"
    using Cons.prems(2) by (auto simp: list_ex_iff)
  have p: "ud_path (unreadable_of (fst r) (snd r)) = fst r"
    by (simp add: unreadable_of_def split: option.split)
  have "set (ws_unreadable ?t) \<subseteq> insert (unreadable_of (fst r) (snd r)) (set (ws_unreadable s))"
    by (auto simp: note_unreadable_def)
  then have "\<forall>u\<in>set (ws_unreadable ?t). \<forall>q\<in>set rs. \<not> has_prefix (fst q) (ud_path u @ ''/'')"
    using Cons.prems p by (auto dest!: subsetD)
  then have "int (length (ws_unreadable (note_all rs ?t))) + ws_more (note_all rs ?t)
      = int (length (ws_unreadable ?t)) + ws_more ?t + int (length rs)"
    using Cons.IH Cons.prems(1) by simp
  then show ?case using n by (simp add: note_all_def) (simp add: note_unreadable_def split: if_splits)
qed (simp add: note_all_def)

section \<open>A whole scan\<close>

definition env_of :: "string \<Rightarrow> folder \<Rightarrow> walk_env" where
  "env_of mount_point f = \<lparr>we_root_device = fo_device f, we_root_depth = slashes (path_clean mount_point)\<rparr>"

definition root_seen :: "string \<Rightarrow> (string \<times> fnode) list \<Rightarrow> (string \<times> int) list" where
  "root_seen root es =
     List.map_filter (\<lambda>x. case snd x of Regular_File (Some n) \<Rightarrow> Some (root, n) | _ \<Rightarrow> None) es"

definition visible :: "string \<Rightarrow> folder \<Rightarrow> (string \<times> fnode) list \<Rightarrow> (string \<times> int) list" where
  "visible mount_point f es =
     (let root = path_clean mount_point in
      root_seen root es @ seen_entries (env_of mount_point f) root (filter (is_subtree (fo_device f) root) es))"

definition refusals :: "string \<Rightarrow> folder \<Rightarrow> (string \<times> fnode) list \<Rightarrow> (string \<times> folder) list" where
  "refusals mount_point f es =
     (let root = path_clean mount_point in
      refused_entries (env_of mount_point f) root (filter (is_subtree (fo_device f) root) es))"

lemma fold_root_file: "fold (root_file root) es t = add_all (root_seen root es) t"
  by (induction es arbitrary: t)
    (auto simp: add_all_def root_seen_def root_file_def List.map_filter_simps split: fnode.splits option.splits)

lemma concat_entries:
  "concat (map (\<lambda>t. seen_node e (fst t) (snd t)) (map (\<lambda>x. (path_join root (fst x), snd x)) xs)) = seen_entries e root xs"
  "concat (map (\<lambda>t. refused_node e (fst t) (snd t)) (map (\<lambda>x. (path_join root (fst x), snd x)) xs)) = refused_entries e root xs"
  by (induction xs) (simp_all del: seen_node.simps refused_node.simps)

lemma proper_filter: "proper_entries xs \<Longrightarrow> proper_entries (filter P xs)"
  by (induction xs) auto

text \<open>What the walk of a scan that is not partial leaves.\<close>

definition walked :: "scan_clock \<Rightarrow> string \<Rightarrow> folder \<Rightarrow> (string \<times> fnode) list \<Rightarrow> walk_state" where
  "walked ck mount_point f es =
     walk_all (env_of mount_point f) ck 0 (subtrees_of (fo_device f) (path_clean mount_point) es)
       (no_walk\<lparr>ws_totals := fold (root_file (path_clean mount_point)) es []\<rparr>)"

lemma complete_scan:
  assumes "fo_listing f = Listed" "\<not> us_partial (scan_usage ck now mp f es)"
  shows "\<not> ws_partial (walked ck mp f es)"
    "scan_usage ck now mp f es
      = (let s = rank_unreadable (walked ck mp f es) in
         \<lparr>us_mount_point = mp, us_dirs = top_dirs (ws_totals s) usage_top_n, us_scanned_at = now,
          us_partial = False, us_accounted = fold (\<lambda>t a. i64 (a + snd t)) (ws_totals s) 0,
          us_unreadable = ws_unreadable s, us_more_unreadable = ws_more s\<rparr>)"
  using assms
  by (auto simp: scan_usage_def walked_def env_of_def rank_unreadable_def Let_def split: if_splits)

lemma walked_did_all:
  assumes "\<not> ws_partial (walked ck mp f es)"
  shows "ws_totals (walked ck mp f es) = add_all (visible mp f es) []"
    "same_notes (walked ck mp f es) (note_all (refusals mp f es) no_walk)"
proof -
  let ?s = "no_walk\<lparr>ws_totals := fold (root_file (path_clean mp)) es []\<rparr>"
  have d: "did_all (seen_entries (env_of mp f) (path_clean mp) (filter (is_subtree (fo_device f) (path_clean mp)) es))
      (refusals mp f es) ?s (walked ck mp f es)"
    using walk_all_did_all [OF assms [unfolded walked_def]]
    by (simp only: subtrees_of_def concat_entries refusals_def Let_def walked_def)
  then show "ws_totals (walked ck mp f es) = add_all (visible mp f es) []"
    by (simp add: did_all_def fold_root_file visible_def add_all_append Let_def)
  have "same_notes (note_all (refusals mp f es) ?s) (note_all (refusals mp f es) no_walk)"
    by (rule note_all_same) (simp add: same_notes_def)
  then show "same_notes (walked ck mp f es) (note_all (refusals mp f es) no_walk)"
    using d same_notes_trans by (auto simp: did_all_def)
qed

lemma top_dirs_rank:
  assumes "(b, n) \<in> set t"
  shows "(\<exists>d\<in>set (top_dirs t k). du_path d = clip b max_usage_path \<and> du_bytes d = n)
    \<or> length (top_dirs t k) = k \<and> (\<forall>d\<in>set (top_dirs t k). n \<le> du_bytes d)"
proof (cases "dir_of_total (b, n) \<in> set (top_dirs t k)")
  case True
  then show ?thesis by (intro disjI1 bexI) (auto simp: dir_of_total_def)
next
  case False
  have x: "dir_of_total (b, n) \<in> set (map dir_of_total t)" using assms by auto
  have "n \<le> du_bytes d \<and> length (top_dirs t k) = k" if "d \<in> set (top_dirs t k)" for d
    using cut_sorted [OF x False [unfolded top_dirs_def] that [unfolded top_dirs_def]]
    by (auto simp: top_dirs_def dir_of_total_def less_eq_prod_def)
  moreover have "length (top_dirs t k) = k"
    using False x by (auto simp: top_dirs_def min_def)
  ultimately show ?thesis by blast
qed

text \<open>
  C25: Whatever the clock does, a scan that does not call itself partial has counted every file there
  is to be seen, modulo 2 to the 64: in its sum, and in the directory each is put down to, of which
  one that is not listed is no larger than the eight that are; and it names or counts every
  directory it was refused.
\<close>

theorem complete_scan_counts_everything:
  assumes "fo_listing f = Listed" "proper_entries es" "\<not> us_partial (scan_usage ck now mp f es)"
  shows "us_accounted (scan_usage ck now mp f es) = i64 (all_bytes (visible mp f es))
    \<and> int (length (us_unreadable (scan_usage ck now mp f es))) + us_more_unreadable (scan_usage ck now mp f es)
        = int (length (refusals mp f es))
    \<and> (\<forall>b\<in>set (map fst (visible mp f es)).
         (\<exists>d\<in>set (us_dirs (scan_usage ck now mp f es)).
            du_path d = clip b max_usage_path \<and> du_bytes d = i64 (bytes_in b (visible mp f es)))
         \<or> length (us_dirs (scan_usage ck now mp f es)) = 8
           \<and> (\<forall>d\<in>set (us_dirs (scan_usage ck now mp f es)). i64 (bytes_in b (visible mp f es)) \<le> du_bytes d))"
proof -
  note p = complete_scan [OF assms(1,3)]
  let ?w = "walked ck mp f es" and ?t = "add_all (visible mp f es) []"
  have w: "ws_totals (rank_unreadable ?w) = ?t" using walked_did_all(1) [OF p(1)] by (simp add: rank_unreadable_def Let_def)
  have "i64 (fold (\<lambda>t a. i64 (a + snd t)) ?t 0) = fold (\<lambda>t a. i64 (a + snd t)) ?t 0"
    by (cases ?t rule: rev_cases) (simp_all add: i64_i64 i64_id)
  then have a: "fold (\<lambda>t a. i64 (a + snd t)) ?t 0 = i64 (all_bytes (visible mp f es))"
    using accounted_fold [of ?t 0] all_bytes_add_all [of "visible mp f es" "[]"] by (simp add: all_bytes_def)
  have "sorted_wrt (\<lambda>a b. \<not> has_prefix (fst b) (fst a @ ''/'')) (refusals mp f es)"
    unfolding refusals_def Let_def by (rule refused_apart(2) [OF proper_filter [OF assms(2)]])
  then have "int (length (ws_unreadable ?w)) + ws_more ?w = int (length (refusals mp f es))"
    using note_all_count [of "refusals mp f es" no_walk] walked_did_all(2) [OF p(1)]
    by (simp add: same_notes_def no_walk_def)
  then have r: "int (length (ws_unreadable (rank_unreadable ?w))) + ws_more (rank_unreadable ?w) = int (length (refusals mp f es))"
    by (auto simp: rank_unreadable_def Let_def min_def)
  have "(\<exists>d\<in>set (top_dirs ?t usage_top_n). du_path d = clip b max_usage_path \<and> du_bytes d = i64 (bytes_in b (visible mp f es)))
      \<or> length (top_dirs ?t usage_top_n) = 8
        \<and> (\<forall>d\<in>set (top_dirs ?t usage_top_n). i64 (bytes_in b (visible mp f es)) \<le> du_bytes d)"
    if b: "b \<in> set (map fst (visible mp f es))" for b
  proof -
    obtain n where n: "(b, n) \<in> set ?t" using b add_all_keys(1) [of "visible mp f es" "[]"] by force
    then show ?thesis using top_dirs_rank [OF n, of usage_top_n] total_in_sum [OF n] by (simp add: usage_top_n_def)
  qed
  then show ?thesis unfolding p(2) Let_def w using a r by simp
qed

definition small_root :: folder where
  "small_root = \<lparr>fo_device = Some 1, fo_listing = Listed, fo_meta = None\<rparr>"

definition small_tree :: "(string \<times> fnode) list" where
  "small_tree =
     [(''swapfile'', Regular_File (Some 5)),
      (''var'', Folder small_root
         [(''lib'', Folder \<lparr>fo_device = Some 1, fo_listing = Forbidden, fo_meta = Some (456, True)\<rparr> []),
          (''log'', Regular_File (Some 3))])]"

definition slow_clock :: scan_clock where
  "slow_clock = \<lparr>sc_over = (\<lambda>i. False), sc_left = (\<lambda>i. 1), sc_late = (\<lambda>i k. False)\<rparr>"

theorem complete_scan_counts_everything_witness:
  "us_accounted (scan_usage slow_clock 0 ''/'' small_root small_tree) = i64 (all_bytes (visible ''/'' small_root small_tree))
   \<and> us_accounted (scan_usage slow_clock 0 ''/'' small_root small_tree) = 8
   \<and> int (length (us_unreadable (scan_usage slow_clock 0 ''/'' small_root small_tree)))
       + us_more_unreadable (scan_usage slow_clock 0 ''/'' small_root small_tree) = 1"
proof -
  have l: "fo_listing small_root = Listed" "proper_entries small_tree"
    "\<not> us_partial (scan_usage slow_clock 0 ''/'' small_root small_tree)" by code_simp+
  have "all_bytes (visible ''/'' small_root small_tree) = 8" "length (refusals ''/'' small_root small_tree) = 1"
    by code_simp+
  then show ?thesis using complete_scan_counts_everything [OF l] by (simp add: i64_id)
qed

text \<open>
  The walk itself has no limit of depth: of any chain of folders, one in the other, the file at its end
  is reached. The limit is one of the directories named.
\<close>

fun chain :: "nat \<Rightarrow> fnode" where
  "chain 0 = Regular_File (Some 1)"
| "chain (Suc n) = Folder small_root [(''d'', chain n)]"

lemma every_depth_is_walked:
  "path \<notin> set skip_dirs \<Longrightarrow> path \<noteq> ''/'' \<Longrightarrow> hd path = CHR ''/'' \<Longrightarrow>
     length (seen_node \<lparr>we_root_device = Some 1, we_root_depth = d\<rparr> path (chain n)) = 1"
proof (induction n arbitrary: path)
  case (Suc n)
  have j: "path_join path ''d'' = path @ ''/d''" using Suc.prems by (simp add: path_join_def)
  have "path @ ''/d'' \<notin> set skip_dirs" by (cases path) (auto simp: skip_dirs_def append_eq_Cons_conv)
  then have "length (seen_node \<lparr>we_root_device = Some 1, we_root_depth = d\<rparr> (path @ ''/d'') (chain n)) = 1"
    using Suc.prems by (intro Suc.IH) (cases path; auto)+
  then show ?case using Suc.prems j by (simp add: small_root_def other_filesystem_def)
qed simp

end
