(* ===== verification/Listening.thy ===== *)
theory Listening
  imports Go_Text "HOL-Library.Product_Lexorder"
begin

text \<open>
  What the machine accepts connections on, \<^verbatim>\<open>internal/collect/listening.go\<close>: the kernel's socket tables,
  the addresses in them in the byte order of the machine, and the list that is sent, in which the
  addresses of peers are counts. The sets and maps of the code are lists without duplicates.
\<close>

section \<open>Addresses\<close>

datatype ip_addr = V4 "32 word" | V6 "128 word"

text \<open>\<^verbatim>\<open>netip.Addr.Compare\<close>: the shorter kind first, then the number.\<close>

definition ip_key :: "ip_addr \<Rightarrow> nat \<times> nat" where
  "ip_key a = (case a of V4 w \<Rightarrow> (4, unat w) | V6 w \<Rightarrow> (6, unat w))"

lemma ip_key_inj: "ip_key a = ip_key b \<Longrightarrow> a = b"
  by (auto simp: ip_key_def word_unat_eq_iff split: ip_addr.splits)

instantiation ip_addr :: linorder
begin

definition less_eq_ip_addr :: "ip_addr \<Rightarrow> ip_addr \<Rightarrow> bool" where
  "less_eq_ip_addr a b = (ip_key a \<le> ip_key b)"

definition less_ip_addr :: "ip_addr \<Rightarrow> ip_addr \<Rightarrow> bool" where
  "less_ip_addr a b = (ip_key a < ip_key b)"

instance
  by standard (auto simp: less_eq_ip_addr_def less_ip_addr_def ip_key_inj)

end

text \<open>The tests of \<^verbatim>\<open>netip\<close> the agent uses, on addresses that are not IPv4 in IPv6.\<close>

definition is_unspecified :: "ip_addr \<Rightarrow> bool" where
  "is_unspecified a = (a = V4 0 \<or> a = V6 0)"

definition is_loopback :: "ip_addr \<Rightarrow> bool" where
  "is_loopback a = (case a of V4 w \<Rightarrow> unat w div 2 ^ 24 = 127 | V6 w \<Rightarrow> w = 1)"

definition is_private :: "ip_addr \<Rightarrow> bool" where
  "is_private a =
     (case a of
        V4 w \<Rightarrow> unat w div 2 ^ 24 = 10 \<or> unat w div 2 ^ 20 = 2753 \<or> unat w div 2 ^ 16 = 49320
      | V6 w \<Rightarrow> unat w div 2 ^ 121 = 126)"

definition is_link_local :: "ip_addr \<Rightarrow> bool" where
  "is_link_local a = (case a of V4 w \<Rightarrow> unat w div 2 ^ 16 = 43518 | V6 w \<Rightarrow> unat w div 2 ^ 118 = 1018)"

definition in_cgnat :: "ip_addr \<Rightarrow> bool" where
  "in_cgnat a = (case a of V4 w \<Rightarrow> unat w div 2 ^ 22 = 401 | V6 w \<Rightarrow> False)"

text \<open>\<^verbatim>\<open>Unmap\<close>.\<close>

definition unmap_v6 :: "nat \<Rightarrow> ip_addr" where
  "unmap_v6 n = (if n div 2 ^ 32 = 65535 then V4 (word_of_nat n) else V6 (word_of_nat n))"

text \<open>\<^verbatim>\<open>String\<close>: dotted, or groups with the first longest run of two zeros or more left out.\<close>

definition groups_of :: "nat \<Rightarrow> nat list" where
  "groups_of n = map (\<lambda>i. n div 2 ^ (16 * (7 - i)) mod 65536) [0..<8]"

fun hex_number :: "nat \<Rightarrow> nat \<Rightarrow> string" where
  "hex_number 0 n = []"
| "hex_number (Suc k) n =
     (let d = [if n mod 16 < 10 then byte (48 + n mod 16) else byte (87 + n mod 16)] in
      if n < 16 then d else hex_number k (n div 16) @ d)"

definition zero_run :: "nat list \<Rightarrow> nat \<Rightarrow> nat" where
  "zero_run g i = length (takeWhile (\<lambda>x. x = 0) (drop i g))"

definition longest_run :: "nat list \<Rightarrow> nat \<times> nat" where
  "longest_run g = foldl (\<lambda>(i, n) j. if n < zero_run g j then (j, zero_run g j) else (i, n)) (8, 1) [0..<8]"

definition ip_string :: "ip_addr \<Rightarrow> string" where
  "ip_string a =
     (case a of
        V4 w \<Rightarrow> join_with ''.'' (map (\<lambda>i. decimal_digits 3 (unat w div 2 ^ (8 * (3 - i)) mod 256)) [0..<4])
      | V6 w \<Rightarrow>
        (let g = groups_of (unat w); hex = map (hex_number 4) g in
         case longest_run g of (i, n) \<Rightarrow>
           if i = 8 then join_with '':'' hex
           else join_with '':'' (take i hex) @ ''::'' @ join_with '':'' (drop (i + n) hex)))"

section \<open>The state of a collection\<close>

datatype proto = Tcp | Udp

record socket_row =
  sr_local :: ip_addr
  sr_local_port :: nat
  sr_remote :: ip_addr
  sr_remote_port :: nat
  sr_state :: string

datatype direction = In | Out

record accumulator =
  ac_ports :: "((proto \<times> nat) \<times> ip_addr list) list"
  ac_peers :: "(nat \<times> ip_addr) list"
  ac_partial :: bool
  ac_known :: "ip_addr list option"
  ac_edges :: "((ip_addr \<times> nat \<times> direction) \<times> nat) list"

definition max_listening_ports :: nat where "max_listening_ports = 100"
definition max_listening_addresses :: nat where "max_listening_addresses = 8"
definition max_socket_rows :: nat where "max_socket_rows = 100000"
definition max_peer_pairs :: nat where "max_peer_pairs = 65536"
definition max_known_peers :: nat where "max_known_peers = 200"

definition new_accumulator :: "ip_addr list option \<Rightarrow> accumulator" where
  "new_accumulator known = \<lparr>ac_ports = [], ac_peers = [], ac_partial = False, ac_known = known, ac_edges = []\<rparr>"

definition listens :: "accumulator \<Rightarrow> proto \<times> nat \<Rightarrow> bool" where
  "listens a k = (k \<in> set (map fst (ac_ports a)))"

fun bump_edge :: "'k \<Rightarrow> ('k \<times> nat) list \<Rightarrow> ('k \<times> nat) list" where
  "bump_edge k [] = [(k, 1)]"
| "bump_edge k ((j, n) # es) = (if j = k then (j, Suc n) # es else (j, n) # bump_edge k es)"

definition note_edge :: "socket_row \<Rightarrow> accumulator \<Rightarrow> accumulator" where
  "note_edge r a =
     (case ac_known a of None \<Rightarrow> a
      | Some known \<Rightarrow>
        if sr_remote r \<notin> set known then a
        else (let k = (if listens a (Tcp, sr_local_port r) then (sr_remote r, sr_local_port r, In)
                       else (sr_remote r, sr_remote_port r, Out))
              in if k \<notin> set (map fst (ac_edges a)) \<and> max_peer_pairs \<le> length (ac_edges a)
                 then a\<lparr>ac_partial := True\<rparr> else a\<lparr>ac_edges := bump_edge k (ac_edges a)\<rparr>))"

fun add_address :: "proto \<times> nat \<Rightarrow> ip_addr \<Rightarrow> ((proto \<times> nat) \<times> ip_addr list) list \<Rightarrow> ((proto \<times> nat) \<times> ip_addr list) list" where
  "add_address k x [] = [(k, [x])]"
| "add_address k x ((j, xs) # ps) =
     (if j = k then (j, List.insert x xs) # ps else (j, xs) # add_address k x ps)"

definition note_listen :: "proto \<Rightarrow> ip_addr \<Rightarrow> nat \<Rightarrow> accumulator \<Rightarrow> accumulator" where
  "note_listen p x port a = a\<lparr>ac_ports := add_address (p, port) x (ac_ports a)\<rparr>"

definition note_peer :: "nat \<Rightarrow> ip_addr \<Rightarrow> accumulator \<Rightarrow> accumulator" where
  "note_peer port x a =
     (if (port, x) \<in> set (ac_peers a) then a
      else if max_peer_pairs \<le> length (ac_peers a) then a\<lparr>ac_partial := True\<rparr>
      else a\<lparr>ac_peers := (port, x) # ac_peers a\<rparr>)"

section \<open>The tables\<close>

text \<open>The value of a hexadecimal digit of either case.\<close>

definition hex_value :: "char \<Rightarrow> nat option" where
  "hex_value c =
     (if is_digit c then Some (byte_val c - 48)
      else if 97 \<le> byte_val c \<and> byte_val c \<le> 102 then Some (byte_val c - 87)
      else if 65 \<le> byte_val c \<and> byte_val c \<le> 70 then Some (byte_val c - 55)
      else None)"

fun hex_digits_of :: "string \<Rightarrow> nat list option" where
  "hex_digits_of [] = Some []"
| "hex_digits_of (c # s) =
     (case (hex_value c, hex_digits_of s) of (Some d, Some ds) \<Rightarrow> Some (d # ds) | _ \<Rightarrow> None)"

fun bytes_of_digits :: "nat list \<Rightarrow> nat list" where
  "bytes_of_digits (a # b # ds) = (16 * a + b) # bytes_of_digits ds"
| "bytes_of_digits ds = []"

fun words_of_bytes :: "nat list \<Rightarrow> nat list list" where
  "words_of_bytes (a # b # c # d # bs) = [a, b, c, d] # words_of_bytes bs"
| "words_of_bytes bs = []"

definition number_of :: "nat \<Rightarrow> nat list \<Rightarrow> nat" where
  "number_of base ds = foldl (\<lambda>n d. n * base + d) 0 ds"

definition decode_proc_addr :: "bool \<Rightarrow> string \<Rightarrow> ip_addr option" where
  "decode_proc_addr little s =
     (if length s \<noteq> 8 \<and> length s \<noteq> 32 then None
      else (case hex_digits_of s of None \<Rightarrow> None
        | Some ds \<Rightarrow>
          (let bs = concat (map (if little then rev else id) (words_of_bytes (bytes_of_digits ds)));
               n = number_of 256 bs
           in Some (if length bs = 4 then V4 (word_of_nat n) else unmap_v6 n))))"

definition decode_endpoint :: "bool \<Rightarrow> string \<Rightarrow> (ip_addr \<times> nat) option" where
  "decode_endpoint little s =
     (case index_byte s CHR '':'' of None \<Rightarrow> None
      | Some i \<Rightarrow>
        if length (drop (Suc i) s) \<noteq> 4 then None
        else (case (decode_proc_addr little (take i s), hex_digits_of (drop (Suc i) s)) of
            (Some a, Some ds) \<Rightarrow> Some (a, number_of 16 ds) | _ \<Rightarrow> None))"

text \<open>\<^verbatim>\<open>strings.ToUpper\<close> of two bytes: of what is not ASCII nothing becomes a state the code knows.\<close>

definition upper_byte :: "char \<Rightarrow> char" where
  "upper_byte c = (if 97 \<le> byte_val c \<and> byte_val c \<le> 122 then byte (byte_val c - 32) else c)"

definition parse_socket_row :: "bool \<Rightarrow> string \<Rightarrow> socket_row option" where
  "parse_socket_row little line =
     (case go_fields line of
        sl # loc # rem # st # _ \<Rightarrow>
          if \<not> has_suffix sl '':'' then None
          else (case (decode_endpoint little loc, decode_endpoint little rem) of
              (Some (l, lp), Some (r, rp)) \<Rightarrow>
                if length st \<noteq> 2 then None
                else Some \<lparr>sr_local = l, sr_local_port = lp, sr_remote = r, sr_remote_port = rp,
                       sr_state = map upper_byte st\<rparr>
            | _ \<Rightarrow> None)
      | _ \<Rightarrow> None)"

definition state_established :: string where "state_established = ''01''"
definition state_close :: string where "state_close = ''07''"
definition state_listen :: string where "state_listen = ''0A''"

definition note_row :: "proto \<Rightarrow> socket_row \<Rightarrow> accumulator \<Rightarrow> accumulator" where
  "note_row p r a =
     (if p = Tcp \<and> sr_state r = state_listen
      then (if sr_local_port r \<noteq> 0 then note_listen p (sr_local r) (sr_local_port r) a else a)
      else if p = Tcp \<and> sr_state r = state_established
      then note_edge r (if listens a (Tcp, sr_local_port r) then note_peer (sr_local_port r) (sr_remote r) a else a)
      else if p = Udp \<and> sr_state r = state_close \<and> is_unspecified (sr_remote r) \<and> sr_remote_port r = 0
      then (if sr_local_port r \<noteq> 0 then note_listen p (sr_local r) (sr_local_port r) a else a)
      else a)"

text \<open>The rows from the \<open>n\<close>-th on; the last argument says whether the scan broke off with an error.\<close>

fun scan_rows :: "bool \<Rightarrow> proto \<Rightarrow> bool \<Rightarrow> nat \<Rightarrow> string list \<Rightarrow> bool \<Rightarrow> accumulator \<Rightarrow> bool \<times> accumulator" where
  "scan_rows little p only n [] broke a = (\<not> broke, a)"
| "scan_rows little p only n (l # ls) broke a =
     (if max_socket_rows \<le> n then (True, a\<lparr>ac_partial := True\<rparr>)
      else (case parse_socket_row little l of None \<Rightarrow> (False, a)
        | Some r \<Rightarrow>
          if only \<and> sr_state r \<noteq> state_listen then (True, a)
          else scan_rows little p only (Suc n) ls broke (note_row p r a)))"

text \<open>A table that is not there, cannot be opened, or holds a text whose reading may break off.\<close>

datatype socket_table = Absent | Unopenable | Table string bool

definition scan_socket_table :: "bool \<Rightarrow> proto \<Rightarrow> bool \<Rightarrow> string \<Rightarrow> bool \<Rightarrow> accumulator \<Rightarrow> bool \<times> accumulator" where
  "scan_socket_table little p only text broke a =
     (case file_lines text of (ls, long) \<Rightarrow>
        (case ls of [] \<Rightarrow> (False, a)
         | h # rows \<Rightarrow>
           if \<not> has_prefix (trim_space h) ''sl'' then (False, a)
           else scan_rows little p only 0 rows (long \<or> broke) a))"

definition read_table :: "bool \<Rightarrow> proto \<Rightarrow> bool \<Rightarrow> bool \<Rightarrow> socket_table \<Rightarrow> accumulator \<Rightarrow> bool \<times> accumulator" where
  "read_table little p required only t a =
     (case t of
        Absent \<Rightarrow> (\<not> required, a)
      | Unopenable \<Rightarrow> (False, a)
      | Table text broke \<Rightarrow> scan_socket_table little p only text broke a)"

section \<open>What is sent\<close>

datatype bind = Bind_All | Bind_Specific | Bind_Loopback

definition bind_rank :: "bind \<Rightarrow> nat" where
  "bind_rank b = (case b of Bind_All \<Rightarrow> 0 | Bind_Specific \<Rightarrow> 1 | Bind_Loopback \<Rightarrow> 2)"

definition bind_of :: "ip_addr \<Rightarrow> bind" where
  "bind_of a = (if is_unspecified a then Bind_All else if is_loopback a then Bind_Loopback else Bind_Specific)"

datatype peer_class = Peer_Loopback | Peer_Private | Peer_Public

definition class_of :: "ip_addr \<Rightarrow> peer_class" where
  "class_of a =
     (if is_loopback a then Peer_Loopback
      else if is_private a \<or> is_link_local a \<or> in_cgnat a then Peer_Private else Peer_Public)"

record peer_counts =
  pc_loopback :: nat
  pc_private :: nat
  pc_public :: nat

record listening_port =
  lp_protocol :: proto
  lp_port :: nat
  lp_bind :: bind
  lp_addresses :: "string list"
  lp_peers :: "peer_counts option"

record known_peer =
  kp_address :: string
  kp_port :: nat
  kp_direction :: direction
  kp_connections :: nat

record listening =
  li_ports :: "listening_port list"
  li_more :: nat
  li_partial :: bool
  li_known :: "known_peer list option"

definition count_class :: "(nat \<times> ip_addr) list \<Rightarrow> nat \<Rightarrow> peer_class \<Rightarrow> nat" where
  "count_class peers port k = length (filter (\<lambda>p. fst p = port \<and> class_of (snd p) = k) peers)"

definition peer_counts_of :: "(nat \<times> ip_addr) list \<Rightarrow> nat \<Rightarrow> peer_counts" where
  "peer_counts_of peers port =
     \<lparr>pc_loopback = count_class peers port Peer_Loopback, pc_private = count_class peers port Peer_Private,
      pc_public = count_class peers port Peer_Public\<rparr>"

definition address_order :: "ip_addr \<Rightarrow> nat \<times> ip_addr" where
  "address_order a = (bind_rank (bind_of a), a)"

definition widest :: "ip_addr list \<Rightarrow> bind" where
  "widest xs = foldl (\<lambda>b a. if bind_rank (bind_of a) < bind_rank b then bind_of a else b) Bind_Loopback xs"

definition port_of :: "accumulator \<Rightarrow> (proto \<times> nat) \<times> ip_addr list \<Rightarrow> listening_port" where
  "port_of a e =
     (let xs = sort_key address_order (snd e) in
      \<lparr>lp_protocol = fst (fst e), lp_port = snd (fst e), lp_bind = widest xs,
       lp_addresses = map ip_string (take max_listening_addresses xs),
       lp_peers = (if fst (fst e) = Tcp then Some (peer_counts_of (ac_peers a) (snd (fst e))) else None)\<rparr>)"

definition port_rank :: "listening_port \<Rightarrow> nat \<times> nat \<times> nat" where
  "port_rank p = (bind_rank (lp_bind p), (if lp_protocol p = Tcp then 0 else 1), lp_port p)"

definition known_of :: "(ip_addr \<times> nat \<times> direction) \<times> nat \<Rightarrow> known_peer" where
  "known_of e =
     (case e of ((x, port, d), n) \<Rightarrow>
        \<lparr>kp_address = ip_string x, kp_port = port, kp_direction = d, kp_connections = n\<rparr>)"

definition known_rank :: "known_peer \<Rightarrow> int \<times> string \<times> nat \<times> nat" where
  "known_rank k = (- int (kp_connections k), kp_address k, (if kp_direction k = In then 0 else 1), kp_port k)"

definition listening_result :: "accumulator \<Rightarrow> listening" where
  "listening_result a =
     (let ports = sort_key port_rank (map (port_of a) (ac_ports a)) in
      \<lparr>li_ports = take max_listening_ports ports, li_more = length ports - max_listening_ports,
       li_partial = ac_partial a,
       li_known = map_option (\<lambda>_. take max_known_peers (sort_key known_rank (map known_of (ac_edges a)))) (ac_known a)\<rparr>)"

record socket_tables =
  st_tcp :: socket_table
  st_tcp6 :: socket_table
  st_udp :: socket_table
  st_udp6 :: socket_table

fun run_steps :: "(accumulator \<Rightarrow> bool \<times> accumulator) list \<Rightarrow> accumulator \<Rightarrow> accumulator option" where
  "run_steps [] a = Some a"
| "run_steps (f # fs) a = (case f a of (True, b) \<Rightarrow> run_steps fs b | (False, b) \<Rightarrow> None)"

definition collect_listening :: "bool \<Rightarrow> ip_addr list option \<Rightarrow> socket_tables \<Rightarrow> listening option" where
  "collect_listening little known t =
     map_option listening_result
       (run_steps
         [read_table little Tcp True True (st_tcp t), read_table little Tcp False True (st_tcp6 t),
          read_table little Tcp True False (st_tcp t), read_table little Tcp False False (st_tcp6 t),
          read_table little Udp False False (st_udp t), read_table little Udp False False (st_udp6 t)]
         (new_accumulator known))"

end
