(* ===== verification/Listening_Props.thy ===== *)
theory Listening_Props
  imports Listening
begin

text \<open>
  What the list of listening ports promises: an address is read as the kernel prints it in either
  byte order, no address of a peer is told unless the server named it, and no port is left out for one
  that is less exposed.
\<close>

section \<open>Addresses as the kernel prints them\<close>

definition hex_char :: "nat \<Rightarrow> char" where
  "hex_char d = (if d < 10 then byte (48 + d) else byte (55 + d))"

definition hex_byte :: "nat \<Rightarrow> string" where
  "hex_byte b = [hex_char (b div 16), hex_char (b mod 16)]"

text \<open>The bytes of an address, in words of four; a word is printed as the number it is on the machine.\<close>

definition kernel_text :: "bool \<Rightarrow> nat list \<Rightarrow> string" where
  "kernel_text little bs =
     concat (map (\<lambda>w. concat (map hex_byte (if little then rev w else w))) (words_of_bytes bs))"

lemma hex_value_char:
  assumes "d < 16"
  shows "hex_value (hex_char d) = Some d"
proof -
  have "byte_val (byte n) = n" if "n < 256" for n using that by (simp add: byte_def of_char_of)
  then show ?thesis using assms by (auto simp: hex_value_def hex_char_def is_digit_def)
qed

lemma hex_digits_bytes:
  "\<forall>b\<in>set bs. b < 256 \<Longrightarrow>
     hex_digits_of (concat (map hex_byte bs)) = Some (concat (map (\<lambda>b. [b div 16, b mod 16]) bs))"
proof (induction bs)
  case (Cons b bs)
  then have "b div 16 < 16" "b mod 16 < 16" by auto
  then show ?case using Cons by (simp add: hex_byte_def hex_value_char)
qed simp

lemma bytes_of_digits_concat: "bytes_of_digits (concat (map (\<lambda>b. [b div 16, b mod 16]) bs)) = bs"
  by (induction bs) simp_all

lemma words_of_bytes_concat: "\<forall>w\<in>set ws. length w = 4 \<Longrightarrow> words_of_bytes (concat ws) = ws"
proof (induction ws)
  case (Cons w ws)
  then obtain a b c d where "w = [a, b, c, d]" by (auto simp: numeral_eq_Suc length_Suc_conv)
  then show ?case using Cons by simp
qed simp

lemma words_of_bytes_lengths: "\<forall>w\<in>set (words_of_bytes bs). length w = 4 \<and> set w \<subseteq> set bs"
  by (induction bs rule: words_of_bytes.induct) auto

lemma concat_words_of_bytes: "length bs mod 4 = 0 \<Longrightarrow> concat (words_of_bytes bs) = bs"
proof (induction bs rule: words_of_bytes.induct)
  case (1 a b c d bs)
  then have "length bs mod 4 = 0" by (simp only: list.size) presburger
  with 1 show ?case by simp
qed simp_all

lemma concat_map_words: "concat (map (\<lambda>w. concat (map f (g w))) ws) = concat (map f (concat (map g ws)))"
  by (induction ws) simp_all

text \<open>
  The address of a socket is read as it is, whatever the byte order of the machine whose kernel
  printed it; one of IPv4 that came as IPv6 is the IPv4 address.
\<close>

theorem proc_addr_reads_back:
  assumes "length bs = 4 \<or> length bs = 16" "\<forall>b\<in>set bs. b < 256"
  shows "decode_proc_addr little (kernel_text little bs)
    = Some (if length bs = 4 then V4 (word_of_nat (number_of 256 bs)) else unmap_v6 (number_of 256 bs))"
proof -
  define turn where "turn = (if little then rev else id :: nat list \<Rightarrow> nat list)"
  let ?ws = "map turn (words_of_bytes bs)"
  have t: "turn (turn w) = w" "length (turn w) = length w" "set (turn w) = set w" for w
    by (simp_all add: turn_def)
  have k: "kernel_text little bs = concat (map hex_byte (concat ?ws))"
    unfolding kernel_text_def concat_map_words [symmetric] by (simp add: turn_def)
  have c: "concat (words_of_bytes bs) = bs" using assms(1) by (intro concat_words_of_bytes) auto
  have ws: "\<forall>w\<in>set ?ws. length w = 4" using words_of_bytes_lengths [of bs] t by auto
  have "\<forall>b\<in>set (concat ?ws). b < 256" using words_of_bytes_lengths [of bs] assms(2) t by fastforce
  then have "hex_digits_of (kernel_text little bs) = Some (concat (map (\<lambda>b. [b div 16, b mod 16]) (concat ?ws)))"
    unfolding k by (rule hex_digits_bytes)
  moreover have "bytes_of_digits (concat (map (\<lambda>b. [b div 16, b mod 16]) (concat ?ws))) = concat ?ws"
    by (rule bytes_of_digits_concat)
  moreover have "words_of_bytes (concat ?ws) = ?ws" using ws by (rule words_of_bytes_concat)
  moreover have "concat (map turn ?ws) = bs" using c t by (simp add: comp_def)
  moreover have "length (concat (map hex_byte xs)) = 2 * length xs" for xs
    by (induction xs) (simp_all add: hex_byte_def)
  then have "length (kernel_text little bs) = 2 * length (concat ?ws)" unfolding k by simp
  moreover have "length (concat ?ws) = length (concat (words_of_bytes bs))"
    by (simp add: length_concat comp_def t)
  ultimately show ?thesis
    using assms(1) c unfolding decode_proc_addr_def turn_def [symmetric] by (auto simp: Let_def)
qed

theorem proc_addr_reads_back_witness:
  "decode_proc_addr True (kernel_text True [127, 0, 0, 1])
     = Some (if length [127, 0, 0, 1 :: nat] = 4 then V4 (word_of_nat (number_of 256 [127, 0, 0, 1]))
             else unmap_v6 (number_of 256 [127, 0, 0, 1]))
   \<and> kernel_text True [127, 0, 0, 1] = ''0100007F'' \<and> kernel_text False [127, 0, 0, 1] = ''7F000001''"
  by (intro conjI proc_addr_reads_back) (simp, simp, code_simp, code_simp)

section \<open>What a collection holds\<close>

definition rows_of :: "bool \<Rightarrow> socket_table \<Rightarrow> socket_row list" where
  "rows_of little t =
     (case t of Table text broke \<Rightarrow> List.map_filter (parse_socket_row little) (tl (fst (file_lines text))) | _ \<Rightarrow> [])"

definition holds :: "accumulator \<Rightarrow> proto \<times> nat \<Rightarrow> ip_addr \<Rightarrow> bool" where
  "holds a k x = (\<exists>xs. (k, xs) \<in> set (ac_ports a) \<and> x \<in> set xs)"

text \<open>Nothing is forgotten in the course of a collection.\<close>

definition grows :: "accumulator \<Rightarrow> accumulator \<Rightarrow> bool" where
  "grows a b = ((\<forall>k x. holds a k x \<longrightarrow> holds b k x) \<and> (ac_partial a \<longrightarrow> ac_partial b))"

lemma grows_refl [simp]: "grows a a"
  by (simp add: grows_def)

lemma grows_trans: "grows a b \<Longrightarrow> grows b c \<Longrightarrow> grows a c"
  by (simp add: grows_def)

lemma set_add_address:
  "(j, ys) \<in> set (add_address k x ps) \<Longrightarrow> (\<exists>xs. (j, xs) \<in> set ps \<and> set ys \<subseteq> insert x (set xs)) \<or> ys = [x]"
  by (induction k x ps rule: add_address.induct) (fastforce split: if_splits)+

lemma add_address_holds: "\<exists>xs. (k, xs) \<in> set (add_address k x ps) \<and> x \<in> set xs"
  by (induction k x ps rule: add_address.induct) auto

lemma add_address_keeps:
  "(j, ys) \<in> set ps \<Longrightarrow> \<exists>xs. (j, xs) \<in> set (add_address k x ps) \<and> set ys \<subseteq> set xs"
  by (induction k x ps rule: add_address.induct) fastforce+

lemma note_edge_fields [simp]:
  "ac_ports (note_edge r a) = ac_ports a" "ac_partial a \<Longrightarrow> ac_partial (note_edge r a)"
  by (simp_all add: note_edge_def Let_def split: option.split)

lemma note_peer_fields [simp]:
  "ac_ports (note_peer port x a) = ac_ports a" "ac_partial a \<Longrightarrow> ac_partial (note_peer port x a)"
  "ac_known (note_peer port x a) = ac_known a" "ac_edges (note_peer port x a) = ac_edges a"
  by (simp_all add: note_peer_def)

lemma note_listen_fields [simp]:
  "ac_ports (note_listen p x port a) = add_address (p, port) x (ac_ports a)"
  "ac_partial (note_listen p x port a) = ac_partial a" "ac_known (note_listen p x port a) = ac_known a"
  "ac_edges (note_listen p x port a) = ac_edges a"
  by (simp_all add: note_listen_def)

lemma note_row_ports:
  "ac_ports (note_row p r a)
    = (if sr_local_port r \<noteq> 0 \<and> (p = Tcp \<and> sr_state r = state_listen
           \<or> p = Udp \<and> sr_state r = state_close \<and> is_unspecified (sr_remote r) \<and> sr_remote_port r = 0)
       then add_address (p, sr_local_port r) (sr_local r) (ac_ports a) else ac_ports a)"
  by (cases p) (simp_all add: note_row_def)

lemma note_row_partial: "ac_partial a \<Longrightarrow> ac_partial (note_row p r a)"
  by (simp add: note_row_def)

lemma note_row_grows: "grows a (note_row p r a)"
proof -
  have "holds (note_row p r a) k x" if h: "holds a k x" for k x
  proof -
    obtain xs where xs: "(k, xs) \<in> set (ac_ports a)" "x \<in> set xs" using h by (auto simp: holds_def)
    obtain ys where "(k, ys) \<in> set (add_address (p, sr_local_port r) (sr_local r) (ac_ports a))" "set xs \<subseteq> set ys"
      using add_address_keeps [OF xs(1)] by blast
    then show ?thesis using xs by (auto simp: holds_def note_row_ports)
  qed
  then show ?thesis by (simp add: grows_def note_row_partial)
qed

lemma scan_rows_grows: "scan_rows little p only n ls broke a = (ok, b) \<Longrightarrow> grows a b"
proof (induction little p only n ls broke a rule: scan_rows.induct)
  case (2 little p only n l ls broke a)
  show ?case
  proof (cases "max_socket_rows \<le> n")
    case True
    then show ?thesis using "2.prems" by (auto simp: grows_def holds_def)
  next
    case n: False
    show ?thesis
    proof (cases "parse_socket_row little l")
      case None
      then show ?thesis using "2.prems" n by simp
    next
      case (Some q)
      then show ?thesis
        using "2.prems" n "2.IH" [OF n Some] grows_trans [OF note_row_grows] by (auto split: if_splits)
    qed
  qed
qed simp

lemma read_table_grows: "read_table little p required only t a = (ok, b) \<Longrightarrow> grows a b"
  using scan_rows_grows
  by (fastforce simp: read_table_def scan_socket_table_def split: socket_table.splits prod.splits list.splits if_splits)

text \<open>A table read to its end without a cut has all its listeners noted.\<close>

definition listener :: "socket_row \<Rightarrow> bool" where
  "listener r = (sr_state r = state_listen \<and> sr_local_port r \<noteq> 0)"

lemma scan_rows_listeners:
  "scan_rows little Tcp False n ls broke a = (True, b) \<Longrightarrow> \<not> ac_partial b \<Longrightarrow>
     r \<in> set (List.map_filter (parse_socket_row little) ls) \<Longrightarrow> listener r \<Longrightarrow> holds b (Tcp, sr_local_port r) (sr_local r)"
proof (induction little Tcp False n ls broke a rule: scan_rows.induct)
  case (2 little n l ls broke a)
  then have n: "\<not> max_socket_rows \<le> n" by (auto split: if_splits)
  obtain q where q: "parse_socket_row little l = Some q" using 2 n by (auto split: option.splits)
  have s: "scan_rows little Tcp False (Suc n) ls broke (note_row Tcp q a) = (True, b)"
    using "2.prems"(1) n q by simp
  show ?case
  proof (cases "r = q")
    case True
    then have "holds (note_row Tcp q a) (Tcp, sr_local_port r) (sr_local r)"
      using "2.prems"(4) add_address_holds by (auto simp: holds_def note_row_ports listener_def)
    then show ?thesis using scan_rows_grows [OF s] by (simp add: grows_def)
  next
    case False
    then have "r \<in> set (List.map_filter (parse_socket_row little) ls)"
      using "2.prems"(3) q by (simp add: List.map_filter_simps)
    then show ?thesis using "2.hyps" [OF n q _ s] "2.prems" by simp
  qed
qed (simp add: List.map_filter_simps)

lemma read_table_listeners:
  assumes "read_table little Tcp required False t a = (True, b)" "\<not> ac_partial b" "r \<in> set (rows_of little t)" "listener r"
  shows "holds b (Tcp, sr_local_port r) (sr_local r)"
proof (cases t)
  case (Table s broke)
  obtain ls long where l: "file_lines s = (ls, long)" by (cases "file_lines s")
  then obtain h rows where h: "ls = h # rows"
    using assms(1) Table by (cases ls) (auto simp: read_table_def scan_socket_table_def)
  then have "scan_rows little Tcp False 0 rows (long \<or> broke) a = (True, b)"
    using assms(1) Table l by (auto simp: read_table_def scan_socket_table_def split: if_splits)
  then show ?thesis using scan_rows_listeners assms(2-4) Table l h by (simp add: rows_of_def)
qed (use assms(3) in \<open>simp_all add: rows_of_def\<close>)

section \<open>Nothing exposed is hidden\<close>

lemma widest_rank: "x \<in> set xs \<Longrightarrow> bind_rank (widest xs) \<le> bind_rank (bind_of x)"
proof -
  define pick where "pick = (\<lambda>b a. if bind_rank (bind_of a) < bind_rank b then bind_of a else b)"
  have "bind_rank (foldl pick b xs) \<le> bind_rank b \<and> (\<forall>x\<in>set xs. bind_rank (foldl pick b xs) \<le> bind_rank (bind_of x))" for b
  proof (induction xs arbitrary: b)
    case (Cons y ys)
    have "bind_rank (pick b y) \<le> bind_rank b" "bind_rank (pick b y) \<le> bind_rank (bind_of y)"
      by (auto simp: pick_def)
    then show ?case using Cons.IH [of "pick b y"] by (auto intro: order_trans)
  qed simp
  then show "x \<in> set xs \<Longrightarrow> bind_rank (widest xs) \<le> bind_rank (bind_of x)"
    unfolding widest_def pick_def by blast
qed

lemma port_of_fields:
  "lp_protocol (port_of a (k, xs)) = fst k" "lp_port (port_of a (k, xs)) = snd k"
  "x \<in> set xs \<Longrightarrow> bind_rank (lp_bind (port_of a (k, xs))) \<le> bind_rank (bind_of x)"
  using widest_rank [of x "sort_key address_order xs"] by (simp_all add: port_of_def Let_def)

lemma held_port_is_listed:
  assumes "holds a (p, port) x"
  shows "(\<exists>q\<in>set (li_ports (listening_result a)).
       lp_protocol q = p \<and> lp_port q = port \<and> bind_rank (lp_bind q) \<le> bind_rank (bind_of x))
    \<or> length (li_ports (listening_result a)) = 100
      \<and> (\<forall>q\<in>set (li_ports (listening_result a)). bind_rank (lp_bind q) \<le> bind_rank (bind_of x))"
proof -
  obtain xs where xs: "((p, port), xs) \<in> set (ac_ports a)" "x \<in> set xs" using assms by (auto simp: holds_def)
  define q where "q = port_of a ((p, port), xs)"
  let ?all = "map (port_of a) (ac_ports a)"
  have q: "q \<in> set ?all" "lp_protocol q = p" "lp_port q = port" "bind_rank (lp_bind q) \<le> bind_rank (bind_of x)"
    using xs port_of_fields by (auto simp: q_def)
  have l: "li_ports (listening_result a) = take max_listening_ports (sort_key port_rank ?all)"
    by (simp add: listening_result_def Let_def)
  show ?thesis
  proof (cases "q \<in> set (take max_listening_ports (sort_key port_rank ?all))")
    case True
    then show ?thesis using q l by auto
  next
    case False
    have "bind_rank (lp_bind y) \<le> bind_rank (bind_of x)
        \<and> length (take max_listening_ports (sort_key port_rank ?all)) = max_listening_ports"
      if "y \<in> set (take max_listening_ports (sort_key port_rank ?all))" for y
      using cut_sorted [OF q(1) False that] q(4) by (auto simp: port_rank_def less_eq_prod_def)
    moreover have "length (take max_listening_ports (sort_key port_rank ?all)) = max_listening_ports"
      using False q(1) by (auto simp: min_def)
    ultimately show ?thesis unfolding l by (auto simp: max_listening_ports_def)
  qed
qed

lemma collected:
  assumes "collect_listening little known t = Some l"
  obtains a1 a2 a3 a4 a5 a6 where
    "read_table little Tcp True True (st_tcp t) (new_accumulator known) = (True, a1)"
    "read_table little Tcp False True (st_tcp6 t) a1 = (True, a2)"
    "read_table little Tcp True False (st_tcp t) a2 = (True, a3)"
    "read_table little Tcp False False (st_tcp6 t) a3 = (True, a4)"
    "read_table little Udp False False (st_udp t) a4 = (True, a5)"
    "read_table little Udp False False (st_udp6 t) a5 = (True, a6)"
    "l = listening_result a6"
  using assms by (auto simp: collect_listening_def split: prod.splits bool.splits)

text \<open>
  C24: Every TCP port a row of either table listens on is listed with a bind as wide as that row's, or
  a hundred ports are and none of them is less exposed; whenever the list is sent and not marked
  partial.
\<close>

theorem no_exposed_port_is_left_out:
  assumes "collect_listening little known t = Some l" "\<not> li_partial l"
    "r \<in> set (rows_of little (st_tcp t) @ rows_of little (st_tcp6 t))"
    "sr_state r = state_listen" "sr_local_port r \<noteq> 0"
  shows "(\<exists>q\<in>set (li_ports l). lp_protocol q = Tcp \<and> lp_port q = sr_local_port r
        \<and> bind_rank (lp_bind q) \<le> bind_rank (bind_of (sr_local r)))
    \<or> length (li_ports l) = 100 \<and> (\<forall>q\<in>set (li_ports l). bind_rank (lp_bind q) \<le> bind_rank (bind_of (sr_local r)))"
proof -
  obtain a1 a2 a3 a4 a5 a6 where a: "read_table little Tcp True False (st_tcp t) a2 = (True, a3)"
    "read_table little Tcp False False (st_tcp6 t) a3 = (True, a4)"
    "read_table little Udp False False (st_udp t) a4 = (True, a5)"
    "read_table little Udp False False (st_udp6 t) a5 = (True, a6)" "l = listening_result a6"
    using collected [OF assms(1)] by metis
  have g: "grows a3 a4" "grows a4 a6"
    using read_table_grows a(2-4) grows_trans by blast+
  have "\<not> ac_partial a6" using assms(2) a(5) by (simp add: listening_result_def Let_def)
  then have "\<not> ac_partial a4" "\<not> ac_partial a3" using g by (auto simp: grows_def)
  then have "holds a3 (Tcp, sr_local_port r) (sr_local r) \<or> holds a4 (Tcp, sr_local_port r) (sr_local r)"
    using read_table_listeners [OF a(1)] read_table_listeners [OF a(2)] assms(3-5) by (auto simp: listener_def)
  then have "holds a6 (Tcp, sr_local_port r) (sr_local r)" using g by (auto simp: grows_def)
  then show ?thesis unfolding a(5) by (rule held_port_is_listed)
qed

text \<open>A machine with one listener, on port 22 of every address.\<close>

definition whole_lines :: "string list \<Rightarrow> socket_table" where
  "whole_lines ls = Table (concat (map (\<lambda>l. l @ [CHR 0x0A]) ls)) False"

definition one_row :: string where
  "one_row = ''0: 00000000:0016 00000000:0000 0A''"

definition one_listener :: socket_tables where
  "one_listener = \<lparr>st_tcp = whole_lines [''sl'', one_row], st_tcp6 = Absent, st_udp = whole_lines [''sl''], st_udp6 = Absent\<rparr>"

lemma one_row_parsed:
  "parse_socket_row True one_row = Some \<lparr>sr_local = V4 0, sr_local_port = 22, sr_remote = V4 0, sr_remote_port = 0, sr_state = ''0A''\<rparr>"
  by code_simp

lemma one_listener_rows:
  "fst (file_lines (concat (map (\<lambda>l. l @ [CHR 0x0A]) [''sl'', one_row]))) = [''sl'', one_row]"
  "file_lines (concat (map (\<lambda>l. l @ [CHR 0x0A]) [''sl'', one_row])) = ([''sl'', one_row], False)"
  "file_lines (concat (map (\<lambda>l. l @ [CHR 0x0A]) [''sl''])) = ([''sl''], False)"
proof -
  show f: "file_lines (concat (map (\<lambda>l. l @ [CHR 0x0A]) [''sl'', one_row])) = ([''sl'', one_row], False)"
    by (rule file_lines_entries) (simp add: one_row_def has_suffix_def)
  show "fst (file_lines (concat (map (\<lambda>l. l @ [CHR 0x0A]) [''sl'', one_row]))) = [''sl'', one_row]"
    by (subst f) simp
  show "file_lines (concat (map (\<lambda>l. l @ [CHR 0x0A]) [''sl''])) = ([''sl''], False)"
    by (rule file_lines_entries) (simp add: has_suffix_def)
qed

lemma one_listener_collected:
  "collect_listening True None one_listener
    = Some (listening_result ((new_accumulator None)\<lparr>ac_ports := [((Tcp, 22), [V4 0])]\<rparr>))"
proof -
  have "trim_space ''sl'' = ''sl''" by code_simp
  then have s: "scan_socket_table True Tcp only (concat (map (\<lambda>l. l @ [CHR 0x0A]) [''sl'', one_row])) False a
      = (True, note_listen Tcp (V4 0) 22 a)"
    "scan_socket_table True Udp only (concat (map (\<lambda>l. l @ [CHR 0x0A]) [''sl''])) False a = (True, a)" for only a
    unfolding scan_socket_table_def one_listener_rows
    by (simp_all add: one_row_parsed note_row_def state_listen_def max_socket_rows_def)
  show ?thesis
    by (simp add: collect_listening_def one_listener_def whole_lines_def read_table_def s del: concat.simps list.map)
      (simp add: new_accumulator_def note_listen_def)
qed

theorem no_exposed_port_is_left_out_witness:
  "\<exists>l q. collect_listening True None one_listener = Some l \<and> q \<in> set (li_ports l) \<and> lp_port q = 22
    \<and> bind_rank (lp_bind q) \<le> 0"
proof -
  let ?l = "listening_result ((new_accumulator None)\<lparr>ac_ports := [((Tcp, 22), [V4 0])]\<rparr>)"
  let ?r = "\<lparr>sr_local = V4 0, sr_local_port = 22, sr_remote = V4 0, sr_remote_port = 0, sr_state = ''0A''\<rparr>"
  have "\<not> li_partial ?l" "length (li_ports ?l) \<noteq> 100"
    by (simp_all add: listening_result_def new_accumulator_def Let_def)
  moreover have "?r \<in> set (rows_of True (st_tcp one_listener) @ rows_of True (st_tcp6 one_listener))"
    unfolding one_listener_def whole_lines_def rows_of_def
    by (simp add: one_listener_rows(2) one_row_parsed List.map_filter_simps del: concat.simps list.map)
  moreover have "bind_rank (bind_of (V4 0)) = 0" by (simp add: bind_of_def is_unspecified_def bind_rank_def)
  ultimately show ?thesis
    using no_exposed_port_is_left_out [OF one_listener_collected, of ?r] one_listener_collected
    by (auto simp: state_listen_def)
qed

section \<open>No peer is named\<close>

definition private_to :: "ip_addr set \<Rightarrow> ip_addr list option \<Rightarrow> accumulator \<Rightarrow> bool" where
  "private_to own known a =
     (ac_known a = known \<and> (\<forall>e\<in>set (ac_ports a). set (snd e) \<subseteq> own)
      \<and> (\<forall>e\<in>set (ac_edges a). case known of None \<Rightarrow> False | Some k \<Rightarrow> fst (fst e) \<in> set k))"

lemma set_bump_edge: "e \<in> set (bump_edge k es) \<Longrightarrow> fst e = k \<or> fst e \<in> set (map fst es)"
  by (induction k es rule: bump_edge.induct) (auto split: if_splits)

lemma note_edge_private:
  assumes "private_to own known a"
  shows "private_to own known (note_edge r a)"
proof -
  define k where "k = (if listens a (Tcp, sr_local_port r) then (sr_remote r, sr_local_port r, In)
    else (sr_remote r, sr_remote_port r, Out))"
  have k: "fst k = sr_remote r" by (simp add: k_def)
  have "note_edge r a = a \<or> note_edge r a = a\<lparr>ac_partial := True\<rparr>
      \<or> (\<exists>ks. ac_known a = Some ks \<and> fst k \<in> set ks \<and> note_edge r a = a\<lparr>ac_edges := bump_edge k (ac_edges a)\<rparr>)"
    unfolding note_edge_def Let_def k_def [symmetric] k by (auto split: option.split)
  then consider "note_edge r a = a" | "note_edge r a = a\<lparr>ac_partial := True\<rparr>"
    | ks where "ac_known a = Some ks" "fst k \<in> set ks" "note_edge r a = a\<lparr>ac_edges := bump_edge k (ac_edges a)\<rparr>"
    by blast
  then show ?thesis
  proof cases
    case 3
    have ks: "known = Some ks" using 3(1) assms by (simp add: private_to_def)
    then have old: "\<forall>e\<in>set (ac_edges a). fst (fst e) \<in> set ks" using assms by (simp add: private_to_def)
    have "\<forall>e\<in>set (bump_edge k (ac_edges a)). fst (fst e) \<in> set ks"
    proof
      fix e assume "e \<in> set (bump_edge k (ac_edges a))"
      then consider "fst e = k" | d where "d \<in> set (ac_edges a)" "fst e = fst d"
        using set_bump_edge by fastforce
      then show "fst (fst e) \<in> set ks" using 3(2) old by cases auto
    qed
    then show ?thesis using 3(3) ks assms by (simp add: private_to_def)
  qed (use assms in \<open>simp_all add: private_to_def\<close>)
qed

lemma note_row_private:
  assumes "private_to own known a" "sr_local r \<in> own"
  shows "private_to own known (note_row p r a)"
proof -
  have "\<forall>e\<in>set (add_address k (sr_local r) (ac_ports a)). set (snd e) \<subseteq> own" for k
  proof
    fix e assume "e \<in> set (add_address k (sr_local r) (ac_ports a))"
    then have "(\<exists>xs. (fst e, xs) \<in> set (ac_ports a) \<and> set (snd e) \<subseteq> insert (sr_local r) (set xs)) \<or> snd e = [sr_local r]"
      using set_add_address [of "fst e" "snd e" k] by simp
    then show "set (snd e) \<subseteq> own" using assms unfolding private_to_def by fastforce
  qed
  then have l: "private_to own known (note_listen q (sr_local r) (sr_local_port r) a)" for q
    using assms by (simp add: private_to_def)
  have "private_to own known (note_peer port x a)" for port x using assms(1) by (simp add: private_to_def)
  then show ?thesis using assms(1) l note_edge_private by (auto simp: note_row_def)
qed

lemma scan_rows_private:
  "scan_rows little p only n ls broke a = (ok, b) \<Longrightarrow> private_to own known a \<Longrightarrow>
     \<forall>r\<in>set (List.map_filter (parse_socket_row little) ls). sr_local r \<in> own \<Longrightarrow> private_to own known b"
proof (induction little p only n ls broke a rule: scan_rows.induct)
  case (2 little p only n l ls broke a)
  show ?case
  proof (cases "max_socket_rows \<le> n \<or> parse_socket_row little l = None")
    case True
    then show ?thesis using "2.prems"(1,2) by (auto simp: private_to_def split: if_splits)
  next
    case False
    then obtain q where q: "parse_socket_row little l = Some q" and n: "\<not> max_socket_rows \<le> n" by auto
    then have o: "sr_local q \<in> own" "\<forall>r\<in>set (List.map_filter (parse_socket_row little) ls). sr_local r \<in> own"
      using "2.prems"(3) by (simp_all add: List.map_filter_simps)
    then have "private_to own known (note_row p q a)" using "2.prems"(2) note_row_private by blast
    then show ?thesis using "2.IH" [OF n q] "2.prems"(1,2) n q o by (auto split: if_splits)
  qed
qed simp

lemma read_table_private:
  assumes "read_table little p required only t a = (ok, b)" "private_to own known a"
    "\<forall>r\<in>set (rows_of little t). sr_local r \<in> own"
  shows "private_to own known b"
proof (cases t)
  case (Table s broke)
  obtain ls long where l: "file_lines s = (ls, long)" by (cases "file_lines s")
  show ?thesis
  proof (cases ls)
    case Nil
    then show ?thesis using assms Table l by (simp add: read_table_def scan_socket_table_def)
  next
    case (Cons h rows)
    then show ?thesis
      using assms Table l scan_rows_private [of little p only 0 rows "long \<or> broke" a ok b]
      by (auto simp: read_table_def scan_socket_table_def rows_of_def split: if_splits)
  qed
qed (use assms in \<open>simp_all add: read_table_def\<close>)

definition all_rows :: "bool \<Rightarrow> socket_tables \<Rightarrow> socket_row list" where
  "all_rows little t = concat (map (rows_of little) [st_tcp t, st_tcp6 t, st_udp t, st_udp6 t])"

text \<open>
  C23: Whatever the tables hold, an address that is sent is the machine's own, of a row's local side, or
  one the server named; and without a list from the server no peer is named at all.
\<close>

theorem no_peer_is_named:
  assumes "collect_listening little known t = Some l"
  shows "(\<forall>p\<in>set (li_ports l). set (lp_addresses p) \<subseteq> (ip_string \<circ> sr_local) ` set (all_rows little t))
    \<and> (case known of None \<Rightarrow> li_known l = None
       | Some k \<Rightarrow> (\<exists>es. li_known l = Some es \<and> (\<forall>e\<in>set es. kp_address e \<in> ip_string ` set k)))"
proof -
  let ?own = "sr_local ` set (all_rows little t)"
  have rows: "\<forall>r\<in>set (rows_of little x). sr_local r \<in> ?own" if "x \<in> {st_tcp t, st_tcp6 t, st_udp t, st_udp6 t}" for x
    using that by (auto simp: all_rows_def)
  obtain a1 a2 a3 a4 a5 a6 where a:
    "read_table little Tcp True True (st_tcp t) (new_accumulator known) = (True, a1)"
    "read_table little Tcp False True (st_tcp6 t) a1 = (True, a2)"
    "read_table little Tcp True False (st_tcp t) a2 = (True, a3)"
    "read_table little Tcp False False (st_tcp6 t) a3 = (True, a4)"
    "read_table little Udp False False (st_udp t) a4 = (True, a5)"
    "read_table little Udp False False (st_udp6 t) a5 = (True, a6)" "l = listening_result a6"
    using collected [OF assms] .
  have "private_to ?own known (new_accumulator known)" by (simp add: private_to_def new_accumulator_def)
  then have "private_to ?own known a1" by (rule read_table_private [OF a(1)]) (rule rows, simp)
  then have "private_to ?own known a2" by (rule read_table_private [OF a(2)]) (rule rows, simp)
  then have "private_to ?own known a3" by (rule read_table_private [OF a(3)]) (rule rows, simp)
  then have "private_to ?own known a4" by (rule read_table_private [OF a(4)]) (rule rows, simp)
  then have "private_to ?own known a5" by (rule read_table_private [OF a(5)]) (rule rows, simp)
  then have p: "private_to ?own known a6" by (rule read_table_private [OF a(6)]) (rule rows, simp)
  have "set (lp_addresses q) \<subseteq> (ip_string \<circ> sr_local) ` set (all_rows little t)" if "q \<in> set (li_ports l)" for q
  proof -
    obtain e where e: "e \<in> set (ac_ports a6)" "q = port_of a6 e"
      using \<open>q \<in> set (li_ports l)\<close> a(7) by (auto simp: listening_result_def Let_def dest!: in_set_takeD)
    then have "set (lp_addresses q) \<subseteq> ip_string ` set (snd e)"
      by (auto simp: port_of_def Let_def dest!: in_set_takeD)
    moreover have "set (snd e) \<subseteq> ?own" using p e(1) by (simp add: private_to_def)
    moreover have "(ip_string \<circ> sr_local) ` set (all_rows little t) = ip_string ` ?own" by (simp add: image_comp)
    ultimately show ?thesis by (metis image_mono order_trans)
  qed
  moreover have "case known of None \<Rightarrow> li_known l = None
       | Some k \<Rightarrow> (\<exists>es. li_known l = Some es \<and> (\<forall>e\<in>set es. kp_address e \<in> ip_string ` set k))"
  proof (cases known)
    case (Some k)
    then have "\<forall>e\<in>set (ac_edges a6). kp_address (known_of e) \<in> ip_string ` set k"
      using p by (auto simp: private_to_def known_of_def)
    then show ?thesis
      using Some p a(7) by (auto simp: listening_result_def Let_def private_to_def dest!: in_set_takeD)
  qed (use p a(7) in \<open>simp add: listening_result_def Let_def private_to_def\<close>)
  ultimately show ?thesis by blast
qed

theorem no_peer_is_named_witness:
  "\<exists>l. collect_listening True None one_listener = Some l \<and> li_known l = None"
  using no_peer_is_named [OF one_listener_collected] one_listener_collected by simp

end
