(* ===== verification/Packages.thy ===== *)
theory Packages
  imports Proc_Parse Go_Time "HOL-Library.AList"
begin

text \<open>
  Which installed package a process or a unit belongs to, \<^verbatim>\<open>internal/collect/packages.go\<close>: dpkg's status
  file and file lists read into an index, and the index asked from the strongest evidence down.
  What can be read of dpkg's folder and of \<^verbatim>\<open>/proc\<close> is an argument; the maps of the code are association
  lists without duplicate keys.
\<close>

section \<open>The index\<close>

definition max_package_name :: nat where "max_package_name = 128"
definition max_package_version :: nat where "max_package_version = 128"
definition max_package_description :: nat where "max_package_description = 255"
definition max_package_priority :: nat where "max_package_priority = 32"
definition max_package_section :: nat where "max_package_section = 64"
definition max_indexed_packages :: nat where "max_indexed_packages = 50000"
definition max_indexed_paths :: nat where "max_indexed_paths = 200000"
definition max_status_bytes :: nat where "max_status_bytes = 67108864"
definition max_list_bytes :: nat where "max_list_bytes = 8388608"
definition min_index_rebuild :: int where "min_index_rebuild = 5 * 60 * 1000000000"

definition program_dirs :: "string list" where
  "program_dirs = [''/usr/local/sbin'', ''/usr/local/bin'', ''/usr/sbin'', ''/usr/bin'', ''/sbin'', ''/bin'']"

definition unit_dirs :: "string list" where
  "unit_dirs =
     [''/lib/systemd/system'', ''/usr/lib/systemd/system'', ''/etc/systemd/system'', ''/usr/local/lib/systemd/system'']"

definition local_unit_dirs :: "string list" where
  "local_unit_dirs = [''/etc/systemd/system'', ''/usr/local/lib/systemd/system'']"

record package_info =
  pi_name :: string
  pi_version :: string
  pi_description :: string
  pi_priority :: string
  pi_section :: string

record package_index =
  px_mtime :: go_time
  px_built_at :: go_time
  px_built :: bool
  px_by_path :: "(string \<times> string) list"
  px_by_name :: "(string \<times> string) list"
  px_packages :: "(string \<times> package_info) list"

definition new_package_index :: package_index where
  "new_package_index = \<lparr>px_mtime = zero_time, px_built_at = zero_time, px_built = False,
     px_by_path = [], px_by_name = [], px_packages = []\<rparr>"

section \<open>dpkg's status file\<close>

record stanza =
  sz_name :: string
  sz_arch :: string
  sz_version :: string
  sz_description :: string
  sz_status :: string
  sz_priority :: string
  sz_section :: string

definition no_stanza :: stanza where
  "no_stanza = \<lparr>sz_name = [], sz_arch = [], sz_version = [], sz_description = [], sz_status = [],
     sz_priority = [], sz_section = []\<rparr>"

definition info_of :: "stanza \<Rightarrow> package_info" where
  "info_of z = \<lparr>pi_name = clip (sz_name z) max_package_name, pi_version = clip (sz_version z) max_package_version,
     pi_description = clip (sz_description z) max_package_description,
     pi_priority = clip (sz_priority z) max_package_priority,
     pi_section = clip (sz_section z) max_package_section\<rparr>"

definition if_absent :: "'k \<Rightarrow> 'v \<Rightarrow> ('k \<times> 'v) list \<Rightarrow> ('k \<times> 'v) list" where
  "if_absent k v m = (if map_of m k = None then AList.update k v m else m)"

definition flush_stanza :: "stanza \<Rightarrow> (string \<times> package_info) list \<Rightarrow> (string \<times> package_info) list" where
  "flush_stanza z out =
     (if sz_name z \<noteq> [] \<and> sz_version z \<noteq> [] \<and> has_suffix (sz_status z) '' installed''
         \<and> length out < max_indexed_packages
      then if_absent (sz_name z) (info_of z)
             (if sz_arch z \<noteq> [] then AList.update (sz_name z @ '':'' @ sz_arch z) (info_of z) out else out)
      else out)"

definition set_field :: "string \<Rightarrow> string \<Rightarrow> stanza \<Rightarrow> stanza" where
  "set_field key v z =
     (if key = ''Package'' then z\<lparr>sz_name := v\<rparr>
      else if key = ''Architecture'' then z\<lparr>sz_arch := v\<rparr>
      else if key = ''Version'' then z\<lparr>sz_version := v\<rparr>
      else if key = ''Status'' then z\<lparr>sz_status := v\<rparr>
      else if key = ''Description'' then z\<lparr>sz_description := v\<rparr>
      else if key = ''Priority'' then z\<lparr>sz_priority := v\<rparr>
      else if key = ''Section'' then z\<lparr>sz_section := v\<rparr>
      else z)"

definition stanza_line :: "string \<Rightarrow> stanza \<Rightarrow> stanza" where
  "stanza_line l z =
     (if hd l = CHR 0x20 \<or> hd l = CHR 0x09 then z
      else (case index_byte l CHR '':'' of None \<Rightarrow> z
        | Some i \<Rightarrow> set_field (take i l) (trim_space (drop (Suc i) l)) z))"

fun dpkg_lines :: "string list \<Rightarrow> stanza \<Rightarrow> (string \<times> package_info) list \<Rightarrow> (string \<times> package_info) list" where
  "dpkg_lines [] z out = flush_stanza z out"
| "dpkg_lines (l # ls) z out =
     (if l = [] then dpkg_lines ls no_stanza (flush_stanza z out)
      else dpkg_lines ls (stanza_line l z) out)"

definition parse_dpkg_status :: "string \<Rightarrow> (string \<times> package_info) list" where
  "parse_dpkg_status s = dpkg_lines (file_lines_upto 1048576 s) no_stanza []"

section \<open>dpkg's file lists\<close>

definition executable_path :: "string \<Rightarrow> bool" where
  "executable_path p =
     (has_prefix p ''/''
      \<and> list_ex (\<lambda>s. s \<in> set [''bin'', ''sbin'', ''libexec''])
          (butlast (split_on CHR ''/'' (trim_right_of ''/'' (trim_left_of ''/'' p)))))"

definition unit_file_path :: "string \<Rightarrow> bool" where
  "unit_file_path p =
     ((has_suffix p ''.service'' \<or> has_suffix p ''.timer'') \<and> file_dir p \<in> set unit_dirs)"

definition local_unit_file :: "string \<Rightarrow> bool" where
  "local_unit_file p = (file_dir (path_clean p) \<in> set local_unit_dirs)"

text \<open>The name a program is looked up by, when its folder is one a shell would look in.\<close>

definition program_name :: "string \<Rightarrow> string option" where
  "program_name p =
     (let (dir, base) = (case last_index_byte p CHR ''/'' of None \<Rightarrow> ([], p) | Some i \<Rightarrow> (take (Suc i) p, drop (Suc i) p))
      in if trim_suffix dir ''/'' \<in> set program_dirs then Some (clip base 15) else None)"

text \<open>A name two packages have is kept with the empty key.\<close>

definition claim_name :: "string \<Rightarrow> string \<Rightarrow> (string \<times> string) list \<Rightarrow> (string \<times> string) list" where
  "claim_name n key m =
     (case map_of m n of None \<Rightarrow> AList.update n key m
      | Some was \<Rightarrow> if was \<noteq> key then AList.update n [] m else m)"

type_synonym path_maps = "(string \<times> string) list \<times> (string \<times> string) list"

fun index_list :: "string \<Rightarrow> string list \<Rightarrow> path_maps \<Rightarrow> path_maps" where
  "index_list key [] m = m"
| "index_list key (p # ps) m =
     (if \<not> executable_path p \<and> \<not> unit_file_path p then index_list key ps m
      else if max_indexed_paths \<le> length (fst m) then m
      else index_list key ps (if_absent p key (fst m),
             case program_name p of None \<Rightarrow> snd m | Some n \<Rightarrow> claim_name n key (snd m)))"

text \<open>What can be read of dpkg's folder.\<close>

record dpkg_folder =
  df_mtime :: "go_time option"
  df_status :: "string option"
  df_entries :: "(string \<times> bool) list option"
  df_list :: "string \<Rightarrow> string option"

definition list_key :: "(string \<times> package_info) list \<Rightarrow> string \<Rightarrow> string option" where
  "list_key packages stem =
     (if map_of packages stem \<noteq> None then Some stem
      else (case index_byte stem CHR '':'' of None \<Rightarrow> None
        | Some i \<Rightarrow> if map_of packages (take i stem) \<noteq> None then Some (take i stem) else None))"

fun index_entries ::
  "(string \<Rightarrow> string option) \<Rightarrow> (string \<times> package_info) list \<Rightarrow> (string \<times> bool) list \<Rightarrow> path_maps \<Rightarrow> path_maps" where
  "index_entries open_list packages [] m = m"
| "index_entries open_list packages ((n, is_dir) # es) m =
     (case (cut_suffix n ''.list'', is_dir) of
        (Some stem, False) \<Rightarrow>
          (case list_key packages stem of None \<Rightarrow> index_entries open_list packages es m
           | Some key \<Rightarrow>
             (case open_list n of None \<Rightarrow> index_entries open_list packages es m
              | Some c \<Rightarrow>
                (let m = index_list key (fst (file_lines (take max_list_bytes c))) m in
                 if max_indexed_paths \<le> length (fst m) then m else index_entries open_list packages es m)))
      | _ \<Rightarrow> index_entries open_list packages es m)"

definition read_dpkg_lists :: "dpkg_folder \<Rightarrow> (string \<times> package_info) list \<Rightarrow> path_maps" where
  "read_dpkg_lists d packages =
     (case df_entries d of None \<Rightarrow> ([], []) | Some es \<Rightarrow> index_entries (df_list d) packages es ([], []))"

definition refresh_index :: "dpkg_folder \<Rightarrow> go_time \<Rightarrow> package_index \<Rightarrow> bool \<times> package_index" where
  "refresh_index d now x =
     (case df_mtime d of None \<Rightarrow> (False, x)
      | Some mtime \<Rightarrow>
        if px_built x \<and> (mtime = px_mtime x \<or> time_sub now (px_built_at x) < min_index_rebuild) then (True, x)
        else (case df_status d of None \<Rightarrow> (px_built x, x)
          | Some s \<Rightarrow>
            (let packages = parse_dpkg_status (take max_status_bytes s);
                 (by_path, by_name) = read_dpkg_lists d packages
             in (True, \<lparr>px_mtime = mtime, px_built_at = now, px_built = True, px_by_path = by_path,
                         px_by_name = by_name, px_packages = packages\<rparr>))))"

section \<open>Asking the index\<close>

fun merge_twins :: "string list \<Rightarrow> string \<Rightarrow> string list" where
  "merge_twins [] p = [p]"
| "merge_twins (t # ts) p =
     (if has_prefix p t then [p, ''/usr'' @ p]
      else if has_prefix p (''/usr'' @ t) then [p, trim_prefix p ''/usr''] else merge_twins ts p)"

definition usr_merge_twins :: "string \<Rightarrow> string list" where
  "usr_merge_twins p = merge_twins [''/bin/'', ''/sbin/'', ''/lib/'', ''/lib64/''] p"

definition path_owner :: "package_index \<Rightarrow> string \<Rightarrow> package_info option" where
  "path_owner x p = Option.bind (map_of (px_by_path x) p) (map_of (px_packages x))"

fun first_owner :: "package_index \<Rightarrow> string list \<Rightarrow> package_info option" where
  "first_owner x [] = None"
| "first_owner x (p # ps) = (case path_owner x p of Some i \<Rightarrow> Some i | None \<Rightarrow> first_owner x ps)"

definition lookup_path :: "package_index \<Rightarrow> string \<Rightarrow> package_info option" where
  "lookup_path x p = first_owner x (usr_merge_twins (path_clean p))"

definition lookup_name :: "package_index \<Rightarrow> string \<Rightarrow> package_info option" where
  "lookup_name x comm =
     (case map_of (px_by_name x) comm of None \<Rightarrow> None
      | Some key \<Rightarrow> if key = [] then None else map_of (px_packages x) key)"

text \<open>What \<^verbatim>\<open>/proc\<close> shows of a process: its stat line, the link to its file, its command line.\<close>

record proc_view =
  pv_stat :: "string option"
  pv_exe :: "string option"
  pv_cmdline :: "string option"

definition first_arg :: "string option \<Rightarrow> string" where
  "first_arg c = (case c of None \<Rightarrow> [] | Some s \<Rightarrow> takeWhile (\<lambda>c. c \<noteq> CHR 0x00) (take 4096 s))"

definition resolve_command :: "package_index \<Rightarrow> string \<Rightarrow> string \<Rightarrow> (package_info \<times> string) option" where
  "resolve_command x argv0 comm =
     (case (if has_prefix argv0 ''/'' \<and> clip (file_base argv0) 15 = comm then lookup_path x argv0 else None) of
        Some i \<Rightarrow> Some (i, ''command'')
      | None \<Rightarrow> map_option (\<lambda>i. (i, ''name'')) (lookup_name x comm))"

definition resolve :: "package_index \<Rightarrow> proc_view \<Rightarrow> string \<Rightarrow> (package_info \<times> string) option" where
  "resolve x v comm =
     (case pv_exe v of
        None \<Rightarrow> resolve_command x (first_arg (pv_cmdline v)) comm
      | Some exe \<Rightarrow>
        if has_suffix exe '' (deleted)'' then None
        else (case lookup_path x exe of
            Some i \<Rightarrow> Some (i, ''executable'')
          | None \<Rightarrow> resolve_command x (first_arg (pv_cmdline v)) comm))"

definition to_package :: "package_info \<Rightarrow> string \<Rightarrow> package" where
  "to_package i how = \<lparr>pk_name = pi_name i, pk_version = pi_version i, pk_description = pi_description i,
     pk_source = ''dpkg'', pk_match = how, pk_priority = pi_priority i, pk_section = pi_section i\<rparr>"

definition attach_process :: "package_index \<Rightarrow> (int \<Rightarrow> proc_view) \<Rightarrow> process \<Rightarrow> process" where
  "attach_process x view p =
     (if p_container p \<noteq> [] \<or> p_pid p \<le> 0 then p
      else (case Option.bind (pv_stat (view (p_pid p))) parse_proc_comm of None \<Rightarrow> p
        | Some comm \<Rightarrow>
          (case resolve x (view (p_pid p)) comm of None \<Rightarrow> p
           | Some (i, how) \<Rightarrow> p\<lparr>p_package := Some (to_package i how)\<rparr>)))"

text \<open>\<open>attachPackages\<close> and \<open>attachUnitPackages\<close>; no index at all is \<open>None\<close>.\<close>

definition attach_packages ::
  "dpkg_folder \<Rightarrow> (int \<Rightarrow> proc_view) \<Rightarrow> go_time \<Rightarrow> package_index option \<Rightarrow> process list
     \<Rightarrow> process list \<times> package_index option" where
  "attach_packages d view now x ps =
     (case x of None \<Rightarrow> (ps, None)
      | Some x \<Rightarrow>
        if ps = [] then (ps, Some x)
        else (case refresh_index d now x of
            (False, x) \<Rightarrow> (ps, Some x)
          | (True, x) \<Rightarrow> (map (attach_process x view) ps, Some x)))"

definition attach_unit :: "package_index option \<Rightarrow> service \<Rightarrow> service" where
  "attach_unit x s =
     (if sv_fragment s = [] then s
      else (case Option.bind x (\<lambda>x. lookup_path x (sv_fragment s)) of
          Some i \<Rightarrow> s\<lparr>sv_package := Some (to_package i ''unit_file'')\<rparr>
        | None \<Rightarrow> if local_unit_file (sv_fragment s) then s\<lparr>sv_local := Some True\<rparr> else s))"

definition attach_unit_packages ::
  "dpkg_folder \<Rightarrow> go_time \<Rightarrow> package_index option \<Rightarrow> service list \<Rightarrow> service list \<times> package_index option" where
  "attach_unit_packages d now x ss =
     (if ss = [] then (ss, x)
      else (case x of None \<Rightarrow> (map (attach_unit None) ss, None)
        | Some x \<Rightarrow>
          (case refresh_index d now x of (ok, x) \<Rightarrow> (map (attach_unit (if ok then Some x else None)) ss, Some x))))"

end
