(* ===== verification/Packages_Props.thy ===== *)
theory Packages_Props
  imports Packages
begin

text \<open>
  What the index of packages promises: a path belongs to the first package that lists it, a program's
  name only to a package that has it alone, and a process in a container or replaced since it
  started belongs to none.
\<close>

section \<open>Maps filled in order\<close>

lemma map_of_if_absent: "map_of (if_absent k v m) j = (if j = k \<and> map_of m k = None then Some v else map_of m j)"
  by (auto simp: if_absent_def update_conv')

lemma length_if_absent: "length (if_absent k v m) \<le> Suc (length m)"
proof -
  have "length (AList.update k v m) \<le> Suc (length m)"
    by (induction m) auto
  then show ?thesis by (simp add: if_absent_def)
qed

lemma fold_if_absent:
  "map_of (fold (\<lambda>c. if_absent (fst c) (snd c)) cs m) p
    = (case map_of m p of Some k \<Rightarrow> Some k | None \<Rightarrow> map_of cs p)"
proof (induction cs arbitrary: m)
  case (Cons c cs)
  then show ?case by (auto simp: map_of_if_absent split: option.splits)
qed (auto split: option.split)

text \<open>The one owner of a name, given all who claim it; the empty key when there are two.\<close>

definition sole_owner :: "string list \<Rightarrow> string option" where
  "sole_owner ks =
     (case ks of [] \<Rightarrow> None | k # r \<Rightarrow> if list_all (\<lambda>x. x = k) r then Some k else Some [])"

definition claimants :: "string \<Rightarrow> (string \<times> string) list \<Rightarrow> string list" where
  "claimants n cs = map snd (filter (\<lambda>c. fst c = n) cs)"

lemma sole_owner_snoc:
  "k \<noteq> [] \<Longrightarrow> sole_owner (ks @ [k])
    = (case sole_owner ks of None \<Rightarrow> Some k | Some was \<Rightarrow> if was \<noteq> k then Some [] else Some was)"
  by (cases ks) (auto simp: sole_owner_def)

lemma map_of_claim_name:
  "map_of (claim_name n key m) j
    = (if j \<noteq> n then map_of m j
       else (case map_of m n of None \<Rightarrow> Some key | Some was \<Rightarrow> if was \<noteq> key then Some [] else Some was))"
  by (auto simp: claim_name_def update_conv' split: option.split)

lemma fold_claim_name:
  "\<forall>c\<in>set cs. snd c \<noteq> [] \<Longrightarrow>
     map_of (fold (\<lambda>c. claim_name (fst c) (snd c)) cs []) n = sole_owner (claimants n cs)"
proof (induction cs rule: rev_induct)
  case (snoc c cs)
  then have IH: "map_of (fold (\<lambda>c. claim_name (fst c) (snd c)) cs []) n = sole_owner (claimants n cs)" by simp
  show ?case
  proof (cases "fst c = n")
    case True
    then show ?thesis using IH snoc.prems by (simp add: map_of_claim_name claimants_def sole_owner_snoc)
  next
    case False
    then show ?thesis using IH by (simp add: map_of_claim_name claimants_def)
  qed
qed (simp add: claimants_def sole_owner_def)

section \<open>What the lists say\<close>

definition relevant :: "string \<Rightarrow> bool" where
  "relevant p = (executable_path p \<or> unit_file_path p)"

text \<open>The lists of installed packages that can be read, with their keys, in the order of the folder.\<close>

fun read_lists :: "(string \<Rightarrow> string option) \<Rightarrow> (string \<times> package_info) list \<Rightarrow> (string \<times> bool) list \<Rightarrow> (string \<times> string list) list" where
  "read_lists open_list packages [] = []"
| "read_lists open_list packages ((n, is_dir) # es) =
     (case (if is_dir then None else Option.bind (cut_suffix n ''.list'') (list_key packages), open_list n) of
        (Some key, Some c) \<Rightarrow> (key, fst (file_lines (take max_list_bytes c))) # read_lists open_list packages es
      | _ \<Rightarrow> read_lists open_list packages es)"

definition claims :: "(string \<times> string list) list \<Rightarrow> (string \<times> string) list" where
  "claims ls = concat (map (\<lambda>(k, ps). map (\<lambda>p. (p, k)) (filter relevant ps)) ls)"

definition name_claims :: "(string \<times> string) list \<Rightarrow> (string \<times> string) list" where
  "name_claims cs = List.map_filter (\<lambda>c. map_option (\<lambda>n. (n, snd c)) (program_name (fst c))) cs"

definition claim_all :: "(string \<times> string) list \<Rightarrow> path_maps \<Rightarrow> path_maps" where
  "claim_all cs m =
     (fold (\<lambda>c. if_absent (fst c) (snd c)) cs (fst m), fold (\<lambda>c. claim_name (fst c) (snd c)) (name_claims cs) (snd m))"

lemma claims_Nil [simp]: "claims [] = []"
  by (simp add: claims_def)

lemma claims_Cons [simp]:
  "claims ((k, ps) # ls) = map (\<lambda>p. (p, k)) (filter relevant ps) @ claims ls"
  by (simp add: claims_def)

lemma claim_all_append: "claim_all (a @ b) m = claim_all b (claim_all a m)"
  by (simp add: claim_all_def name_claims_def List.map_filter_def)

lemma length_claim_all: "length (fst (claim_all cs m)) \<le> length (fst m) + length cs"
proof -
  have "length (fold (\<lambda>c. if_absent (fst c) (snd c)) cs t) \<le> length t + length cs" for t :: "(string \<times> string) list"
  proof (induction cs arbitrary: t)
    case (Cons c cs)
    show ?case
      using Cons.IH [of "if_absent (fst c) (snd c) t"] length_if_absent [of "fst c" "snd c" t] by simp
  qed simp
  then show ?thesis by (simp add: claim_all_def)
qed

lemma claim_all_Cons:
  "claim_all ((p, key) # cs) m
    = claim_all cs (if_absent p key (fst m),
        case program_name p of None \<Rightarrow> snd m | Some n \<Rightarrow> claim_name n key (snd m))"
  by (simp add: claim_all_def name_claims_def List.map_filter_simps split: option.split)

lemma index_list_claims:
  "length (fst m) + length (filter relevant ps) \<le> max_indexed_paths \<Longrightarrow>
     index_list key ps m = claim_all (map (\<lambda>p. (p, key)) (filter relevant ps)) m"
proof (induction key ps m rule: index_list.induct)
  case (2 key p ps m)
  let ?n = "(if_absent p key (fst m), case program_name p of None \<Rightarrow> snd m | Some n \<Rightarrow> claim_name n key (snd m))"
  show ?case
  proof (cases "relevant p")
    case False
    then show ?thesis using 2 by (simp add: relevant_def)
  next
    case True
    then have r: "\<not> (\<not> executable_path p \<and> \<not> unit_file_path p)" and l: "\<not> max_indexed_paths \<le> length (fst m)"
      using "2.prems" by (simp_all add: relevant_def)
    have "length (fst ?n) + length (filter relevant ps) \<le> max_indexed_paths"
      using "2.prems" True length_if_absent [of p key "fst m"] by simp
    then have "index_list key ps ?n = claim_all (map (\<lambda>p. (p, key)) (filter relevant ps)) ?n"
      using "2.IH"(2) [OF r l] by simp
    then show ?thesis using r l True by (simp add: claim_all_Cons del: de_Morgan_conj)
  qed
qed (simp add: claim_all_def name_claims_def List.map_filter_simps)

lemma index_entries_claims:
  "length (fst m) + length (claims (read_lists open_list packages es)) < max_indexed_paths \<Longrightarrow>
     index_entries open_list packages es m = claim_all (claims (read_lists open_list packages es)) m"
proof (induction es arbitrary: m)
  case Nil
  then show ?case by (simp add: claims_def claim_all_def name_claims_def List.map_filter_simps)
next
  case (Cons entry es)
  obtain n is_dir where e: "entry = (n, is_dir)" by (cases entry)
  show ?case
  proof (cases "(if is_dir then None else Option.bind (cut_suffix n ''.list'') (list_key packages), open_list n)")
    case (Pair k c)
    show ?thesis
    proof (cases "k \<noteq> None \<and> c \<noteq> None")
      case False
      then have "read_lists open_list packages ((n, is_dir) # es) = read_lists open_list packages es"
        using Pair by (auto split: option.splits)
      then show ?thesis using Cons Pair False e by (auto split: option.splits if_splits)
    next
      case True
      then obtain stem key content where k: "\<not> is_dir" "cut_suffix n ''.list'' = Some stem"
        "list_key packages stem = Some key" "open_list n = Some content"
        using Pair by (cases is_dir; cases "cut_suffix n ''.list''") auto
      let ?ls = "fst (file_lines (take max_list_bytes content))"
      let ?own = "map (\<lambda>p. (p, key)) (filter relevant ?ls)"
      have r: "claims (read_lists open_list packages ((n, is_dir) # es)) = ?own @ claims (read_lists open_list packages es)"
        using k by (simp add: claims_def)
      have i: "index_list key ?ls m = claim_all ?own m"
        using Cons.prems e r by (intro index_list_claims) simp
      have "length (fst (claim_all ?own m)) + length (claims (read_lists open_list packages es)) < max_indexed_paths"
        using length_claim_all [of ?own m] Cons.prems e r by simp
      then have "index_entries open_list packages es (claim_all ?own m)
          = claim_all (claims (read_lists open_list packages es)) (claim_all ?own m)"
        and "\<not> max_indexed_paths \<le> length (fst (claim_all ?own m))"
        using Cons.IH k i by auto
      then show ?thesis using k i by (simp add: e r claim_all_append)
    qed
  qed
qed


section \<open>No package has the empty key\<close>

lemma flush_stanza_keys: "[] \<notin> fst ` set m \<Longrightarrow> [] \<notin> fst ` set (flush_stanza z m)"
  by (auto simp: flush_stanza_def if_absent_def dom_update)

lemma dpkg_lines_keys: "[] \<notin> fst ` set m \<Longrightarrow> [] \<notin> fst ` set (dpkg_lines ls z m)"
  by (induction ls z m rule: dpkg_lines.induct) (auto simp: flush_stanza_keys)

lemma no_empty_key: "map_of (parse_dpkg_status s) [] = None"
  using dpkg_lines_keys [of "[]"] by (simp add: parse_dpkg_status_def map_of_eq_None_iff)

lemma list_key_owner: "list_key packages stem = Some key \<Longrightarrow> map_of packages key \<noteq> None"
  by (auto simp: list_key_def split: if_splits option.splits)

lemma read_lists_keys:
  "(k, ps) \<in> set (read_lists open_list packages es) \<Longrightarrow> map_of packages k \<noteq> None"
  by (induction open_list packages es rule: read_lists.induct)
    (auto simp: bind_eq_Some_conv dest: list_key_owner split: option.splits if_splits)

lemma claims_keys: "c \<in> set (claims ls) \<Longrightarrow> \<exists>ps. (snd c, ps) \<in> set ls"
  by (auto simp: claims_def)

lemma name_claims_keys: "c \<in> set (name_claims cs) \<Longrightarrow> snd c \<in> snd ` set cs"
  by (induction cs) (auto simp: name_claims_def List.map_filter_simps split: option.splits)

section \<open>The index the lists make\<close>

definition claims_of :: "dpkg_folder \<Rightarrow> (string \<times> package_info) list \<Rightarrow> (string \<times> string) list" where
  "claims_of d packages =
     (case df_entries d of None \<Rightarrow> [] | Some es \<Rightarrow> claims (read_lists (df_list d) packages es))"

lemma claims_of_keys:
  assumes "map_of packages [] = None"
  shows "\<forall>c\<in>set (name_claims (claims_of d packages)). snd c \<noteq> []"
proof
  fix c assume "c \<in> set (name_claims (claims_of d packages))"
  then obtain a where a: "a \<in> set (claims_of d packages)" "snd c = snd a"
    using name_claims_keys by fastforce
  then obtain es where "a \<in> set (claims (read_lists (df_list d) packages es))"
    by (auto simp: claims_of_def split: option.splits)
  then have "map_of packages (snd a) \<noteq> None"
    using claims_keys read_lists_keys by blast
  then show "snd c \<noteq> []" using a assms by auto
qed

lemma read_dpkg_lists_claims:
  assumes "length (claims_of d packages) < max_indexed_paths"
  shows "read_dpkg_lists d packages = claim_all (claims_of d packages) ([], [])"
proof (cases "df_entries d")
  case None
  then show ?thesis
    by (simp add: read_dpkg_lists_def claims_of_def claim_all_def name_claims_def List.map_filter_simps)
next
  case (Some es)
  then show ?thesis using assms by (simp add: read_dpkg_lists_def claims_of_def index_entries_claims)
qed

text \<open>
  C40: An index newly built from dpkg's files answers like the plain reading of them, as long as they
  list fewer paths than it holds. The owner of a path is the first package whose list has the path,
  and a program's name is answered only when every list that has a program of this name in a folder
  of the search path is of one package: two packages with the name mean no answer.
\<close>

theorem index_answers_what_the_lists_say:
  assumes "df_mtime d = Some mtime" and "df_status d = Some s"
    and "packages = parse_dpkg_status (take max_status_bytes s)"
    and "length (claims_of d packages) < max_indexed_paths"
  shows "\<exists>x. refresh_index d now new_package_index = (True, x)
    \<and> path_owner x p = Option.bind (map_of (claims_of d packages) p) (map_of packages)
    \<and> lookup_name x comm =
        (case claimants comm (name_claims (claims_of d packages)) of
           [] \<Rightarrow> None
         | k # ks \<Rightarrow> if list_all (\<lambda>j. j = k) ks then map_of packages k else None)"
proof -
  let ?m = "claim_all (claims_of d packages) ([], [])"
  have e: "map_of packages [] = None" using no_empty_key assms(3) by simp
  let ?x = "\<lparr>px_mtime = mtime, px_built_at = now, px_built = True, px_by_path = fst ?m, px_by_name = snd ?m,
    px_packages = packages\<rparr>"
  have "refresh_index d now new_package_index = (True, ?x)"
    using read_dpkg_lists_claims [OF assms(4)] assms(1-3)
    by (simp add: refresh_index_def new_package_index_def Let_def split_beta)
  moreover have "map_of (fst ?m) p = map_of (claims_of d packages) p"
    by (simp add: claim_all_def fold_if_absent)
  moreover have "map_of (snd ?m) comm = sole_owner (claimants comm (name_claims (claims_of d packages)))"
    using fold_claim_name [OF claims_of_keys [OF e]] by (simp add: claim_all_def)
  then have "lookup_name ?x comm =
        (case claimants comm (name_claims (claims_of d packages)) of
           [] \<Rightarrow> None
         | k # ks \<Rightarrow> if list_all (\<lambda>j. j = k) ks then map_of packages k else None)"
    using e by (simp add: lookup_name_def sole_owner_def split: list.split)
  ultimately show ?thesis by (intro exI [of _ ?x]) (simp add: path_owner_def)
qed

text \<open>Two packages with a program of one name.\<close>

definition example_lists :: "string \<Rightarrow> string list" where
  "example_lists n = (if n = ''one.list'' then [''/usr/bin/top'', ''/usr/bin/ls''] else [''/bin/top'', ''/usr/bin/ls''])"

definition example_status :: "string list" where
  "example_status = [''Package: one'', ''Version: 1'', ''Status: install ok installed'', [],
     ''Package: two'', ''Version: 2'', ''Status: install ok installed'']"

definition example_folder :: dpkg_folder where
  "example_folder = \<lparr>df_mtime = Some 7,
     df_status = Some (concat (map (\<lambda>l. l @ [CHR 0x0A]) example_status)),
     df_entries = Some [(''one.list'', False), (''two.list'', False)],
     df_list = (\<lambda>n. Some (concat (map (\<lambda>l. l @ [CHR 0x0A]) (example_lists n))))\<rparr>"

definition example_info :: "string \<Rightarrow> string \<Rightarrow> package_info" where
  "example_info n v =
     \<lparr>pi_name = n, pi_version = v, pi_description = [], pi_priority = [], pi_section = []\<rparr>"

lemma example_stanza:
  "stanza_line ''Package: one'' no_stanza = no_stanza\<lparr>sz_name := ''one''\<rparr>"
  "stanza_line ''Package: two'' no_stanza = no_stanza\<lparr>sz_name := ''two''\<rparr>"
  "stanza_line ''Version: 1'' z = z\<lparr>sz_version := ''1''\<rparr>"
  "stanza_line ''Version: 2'' z = z\<lparr>sz_version := ''2''\<rparr>"
  "stanza_line ''Status: install ok installed'' z = z\<lparr>sz_status := ''install ok installed''\<rparr>"
  by code_simp+

lemma example_flush:
  "flush_stanza (no_stanza\<lparr>sz_name := ''one'', sz_version := ''1'', sz_status := ''install ok installed''\<rparr>) []
    = [(''one'', example_info ''one'' ''1'')]"
  "flush_stanza (no_stanza\<lparr>sz_name := ''two'', sz_version := ''2'', sz_status := ''install ok installed''\<rparr>)
      [(''one'', example_info ''one'' ''1'')]
    = [(''one'', example_info ''one'' ''1''), (''two'', example_info ''two'' ''2'')]"
proof -
  have s: "has_suffix ''install ok installed'' '' installed''" by code_simp
  have c: "clip ''one'' 128 = ''one''" "clip ''two'' 128 = ''two''" "clip ''1'' 128 = ''1''" "clip ''2'' 128 = ''2''"
    "clip [] n = []" for n
    by (simp_all add: clip_def)
  note limits = max_indexed_packages_def max_package_name_def max_package_version_def
  show "flush_stanza (no_stanza\<lparr>sz_name := ''one'', sz_version := ''1'', sz_status := ''install ok installed''\<rparr>) []
    = [(''one'', example_info ''one'' ''1'')]"
   "flush_stanza (no_stanza\<lparr>sz_name := ''two'', sz_version := ''2'', sz_status := ''install ok installed''\<rparr>)
      [(''one'', example_info ''one'' ''1'')]
    = [(''one'', example_info ''one'' ''1''), (''two'', example_info ''two'' ''2'')]"
    by (simp_all add: flush_stanza_def if_absent_def info_of_def example_info_def no_stanza_def s c limits)
qed

lemma example_packages:
  "parse_dpkg_status (take max_status_bytes (the (df_status example_folder)))
     = [(''one'', example_info ''one'' ''1''), (''two'', example_info ''two'' ''2'')]"
proof -
  let ?s = "concat (map (\<lambda>l. l @ [CHR 0x0A]) example_status)"
  have "length ?s \<le> max_status_bytes"
    by (simp add: example_status_def max_status_bytes_def)
  moreover have "file_lines_upto 1048576 ?s = example_status"
    by (rule file_lines_upto_entries) (simp add: example_status_def has_suffix_def)
  ultimately have "file_lines_upto 1048576 (take max_status_bytes (the (df_status example_folder))) = example_status"
    by (simp only: example_folder_def dpkg_folder.simps option.sel take_all)
  then show ?thesis
    by (simp add: parse_dpkg_status_def example_status_def example_stanza example_flush)
qed

lemma example_claims:
  "claims_of example_folder [(''one'', example_info ''one'' ''1''), (''two'', example_info ''two'' ''2'')]
    = [(''/usr/bin/top'', ''one''), (''/usr/bin/ls'', ''one''), (''/bin/top'', ''two''), (''/usr/bin/ls'', ''two'')]"
proof -
  have l: "fst (file_lines (take max_list_bytes (concat (map (\<lambda>l. l @ [CHR 0x0A]) (example_lists n))))) = example_lists n" for n
    using file_lines_entries [of "example_lists n"]
    by (simp add: example_lists_def max_list_bytes_def has_suffix_def)
  have r: "relevant ''/usr/bin/top'' \<and> relevant ''/usr/bin/ls'' \<and> relevant ''/bin/top''" by code_simp
  have k: "cut_suffix ''one.list'' ''.list'' = Some ''one''" "cut_suffix ''two.list'' ''.list'' = Some ''two''" by code_simp+
  show ?thesis
    using l r k by (simp add: claims_of_def example_folder_def list_key_def) (simp add: example_lists_def)
qed

lemma index_answers_what_the_lists_say_witness:
  "\<exists>x. refresh_index example_folder 9 new_package_index = (True, x)
     \<and> path_owner x ''/usr/bin/ls'' = Some (example_info ''one'' ''1'') \<and> lookup_name x ''top'' = None"
proof -
  have n: "claimants ''top'' (name_claims [(''/usr/bin/top'', ''one''), (''/usr/bin/ls'', ''one''), (''/bin/top'', ''two''), (''/usr/bin/ls'', ''two'')]) = [''one'', ''two'']"
    by code_simp
  have s: "df_status example_folder = Some (the (df_status example_folder))" "df_mtime example_folder = Some 7"
    by (simp_all add: example_folder_def)
  show ?thesis
    using index_answers_what_the_lists_say [OF s(2,1) example_packages [symmetric], of 9 "''/usr/bin/ls''" "''top''"]
    by (simp add: example_claims n max_indexed_paths_def)
qed

end
