(* ===== verification/Auto_Update.thy ===== *)
theory Auto_Update
  imports Go_Text Go_Utf8
begin

text \<open>
  Whether the machine installs its updates, and restarts, by itself, \<^verbatim>\<open>internal/collect/autoupdate.go\<close>: the
  configuration of apt and of dnf-automatic, read through a view of the file tree.
\<close>

section \<open>The view of the file tree\<close>

text \<open>
  An attempt to look at a path is refused, or says there is nothing, or succeeds. An opened file gives
  the bytes that can be read and whether reading them then fails.
\<close>

datatype 'a looked = Refused | Missing | Found 'a

record file_mark =
  mk_size :: int
  mk_mtime :: int
  mk_mode :: string

record setup_tree =
  st_stat :: "string \<Rightarrow> file_mark looked"
  st_lstat_missing :: "string \<Rightarrow> bool"
  st_list :: "string \<Rightarrow> (string \<times> bool) list looked"
  st_open :: "string \<Rightarrow> (string \<times> bool) option"

fun found_or :: "'a \<Rightarrow> 'a looked \<Rightarrow> 'a" where
  "found_or d (Found x) = x"
| "found_or d _ = d"

definition file_exists :: "setup_tree \<Rightarrow> string \<Rightarrow> bool" where
  "file_exists t p = (case st_stat t p of Found i \<Rightarrow> True | _ \<Rightarrow> False)"

definition any_exists :: "setup_tree \<Rightarrow> string list \<Rightarrow> bool" where
  "any_exists t ps = list_ex (file_exists t) ps"

section \<open>APT's configuration\<close>

definition max_apt_files :: nat where "max_apt_files = 200"
definition max_config_bytes :: nat where "max_config_bytes = 262144"

definition apt_conf_dir :: string where "apt_conf_dir = ''/etc/apt/apt.conf.d''"
definition apt_conf_main :: string where "apt_conf_main = ''/etc/apt/apt.conf''"

definition apt_part_byte :: "char \<Rightarrow> bool" where
  "apt_part_byte c = (is_alnum c \<or> c = CHR ''_'' \<or> c = CHR ''-'' \<or> c = CHR ''.'')"

definition apt_part_name :: "string \<Rightarrow> bool" where
  "apt_part_name n =
     (list_all apt_part_byte n
      \<and> (case last_index_byte n CHR ''.'' of None \<Rightarrow> True | Some i \<Rightarrow> drop i n = ''.conf'')
      \<and> n \<noteq> [])"

datatype apt_token = Word string | Str string | Open | Close | Semi

text \<open>A word ends at white space, at a brace, a semicolon or a quote, and before a comment.\<close>

definition ends_apt_word :: "string \<Rightarrow> bool" where
  "ends_apt_word s =
     (hd s \<in> set [CHR 0x20, CHR 0x09, CHR 0x0D, CHR ''{'', CHR ''}'', CHR '';'', CHR 0x22] \<or> has_prefix s ''//'')"

fun apt_word :: "string \<Rightarrow> string" where
  "apt_word [] = []"
| "apt_word (c # s) = (if ends_apt_word (c # s) then [] else c # apt_word s)"

fun with_token :: "apt_token \<Rightarrow> apt_token list \<times> bool \<Rightarrow> apt_token list \<times> bool" where
  "with_token t (ts, b) = (t # ts, b)"

lemma apt_word_nonempty: "s \<noteq> [] \<Longrightarrow> \<not> ends_apt_word s \<Longrightarrow> apt_word s \<noteq> []"
  by (cases s) auto

text \<open>The tokens of a line, and whether it leaves a block comment open.\<close>

function apt_line :: "bool \<Rightarrow> string \<Rightarrow> apt_token list \<times> bool" where
  "apt_line b s =
     (if s = [] then ([], b)
      else if b
      then (case index_of s ''*/'' of
          Some i \<Rightarrow> apt_line False (drop (i + 2) s)
        | None \<Rightarrow> ([], True))
      else if has_prefix s ''//'' then ([], False)
      else if has_prefix s ''/*'' then apt_line True (drop 2 s)
      else if hd s = CHR 0x22
      then (case index_byte (tl s) CHR 0x22 of
          None \<Rightarrow> ([Str (tl s)], False)
        | Some e \<Rightarrow> with_token (Str (take e (tl s))) (apt_line False (drop (e + 2) s)))
      else if hd s = CHR ''{'' then with_token Open (apt_line False (tl s))
      else if hd s = CHR ''}'' then with_token Close (apt_line False (tl s))
      else if hd s = CHR '';'' then with_token Semi (apt_line False (tl s))
      else if hd s = CHR 0x20 \<or> hd s = CHR 0x09 \<or> hd s = CHR 0x0D then apt_line False (tl s)
      else with_token (Word (apt_word s)) (apt_line False (drop (length (apt_word s)) s)))"
  by pat_completeness auto

termination
proof (relation "measure (\<lambda>(b, s). length s)")
  show "((False, drop (length (apt_word s)) s), b, s) \<in> measure (\<lambda>(b, s). length s)"
    if "s \<noteq> []" "\<not> has_prefix s ''//''" "hd s \<noteq> CHR 0x22" "hd s \<noteq> CHR ''{''" "hd s \<noteq> CHR ''}''" "hd s \<noteq> CHR '';''"
      "\<not> (hd s = CHR 0x20 \<or> hd s = CHR 0x09 \<or> hd s = CHR 0x0D)" for b s
  proof -
    have "\<not> ends_apt_word s" using that by (simp add: ends_apt_word_def)
    then have "apt_word s \<noteq> []" using that(1) by (rule apt_word_nonempty [rotated])
    then show ?thesis using that(1) by simp
  qed
qed auto

declare apt_line.simps [simp del]

fun apt_tokens :: "bool \<Rightarrow> string list \<Rightarrow> apt_token list" where
  "apt_tokens b [] = []"
| "apt_tokens b (l # ls) =
     (if \<not> b \<and> has_prefix (trim_space l) ''#'' then apt_tokens b ls
      else (case apt_line b l of (ts, c) \<Rightarrow> ts @ apt_tokens c ls))"

fun token_text :: "apt_token \<Rightarrow> string" where
  "token_text (Word w) = w"
| "token_text (Str w) = w"
| "token_text _ = []"

text \<open>The scope is the list of the blocks the tokens are in; a later value replaces an earlier one.\<close>

definition apt_key :: "(string \<Rightarrow> string) \<Rightarrow> string list \<Rightarrow> apt_token \<Rightarrow> string" where
  "apt_key ulower scope t = to_lower ulower (join_with ''::'' (scope @ [token_text t]))"

fun apt_parse ::
  "(string \<Rightarrow> string) \<Rightarrow> string list \<Rightarrow> apt_token list \<Rightarrow> (string \<rightharpoonup> string) \<Rightarrow> (string \<rightharpoonup> string)" where
  "apt_parse ulower scope [] conf = conf"
| "apt_parse ulower scope (Close # ts) conf = apt_parse ulower (butlast scope) ts conf"
| "apt_parse ulower scope (Semi # ts) conf = apt_parse ulower scope ts conf"
| "apt_parse ulower scope (Str w # ts) conf = apt_parse ulower scope ts conf"
| "apt_parse ulower scope (t # Open # ts) conf =
     apt_parse ulower (scope @ [to_lower ulower (token_text t)]) ts conf"
| "apt_parse ulower scope (t # Str v # ts) conf =
     apt_parse ulower scope ts (conf(apt_key ulower scope t \<mapsto> v))"
| "apt_parse ulower scope (t # ts) conf = apt_parse ulower scope ts conf"

definition parse_apt_conf :: "(string \<Rightarrow> string) \<Rightarrow> string \<Rightarrow> (string \<rightharpoonup> string) \<Rightarrow> (string \<rightharpoonup> string)" where
  "parse_apt_conf ulower c conf =
     apt_parse ulower [] (apt_tokens False (file_lines_upto max_config_bytes (take max_config_bytes c))) conf"

definition apt_parts :: "setup_tree \<Rightarrow> string list" where
  "apt_parts t =
     map (\<lambda>n. apt_conf_dir @ ''/'' @ n)
       (take max_apt_files (sort (map fst (filter (\<lambda>e. \<not> snd e \<and> apt_part_name (fst e)) (found_or [] (st_list t apt_conf_dir))))))"

definition read_apt_file :: "(string \<Rightarrow> string) \<Rightarrow> setup_tree \<Rightarrow> string \<Rightarrow> (string \<rightharpoonup> string) \<Rightarrow> (string \<rightharpoonup> string)" where
  "read_apt_file ulower t p conf =
     (case st_open t p of None \<Rightarrow> conf | Some (c, broke) \<Rightarrow> parse_apt_conf ulower c conf)"

definition read_apt_config :: "(string \<Rightarrow> string) \<Rightarrow> setup_tree \<Rightarrow> (string \<rightharpoonup> string)" where
  "read_apt_config ulower t = fold (read_apt_file ulower t) (apt_parts t @ [apt_conf_main]) Map.empty"

section \<open>What the settings mean\<close>

record auto_update =
  au_source :: string
  au_enabled :: bool
  au_reboot :: bool
  au_reboot_time :: string
  au_reboot_with_users :: "bool option"
  au_utc_offset :: int

definition auto_update_of :: "string \<Rightarrow> auto_update" where
  "auto_update_of source = \<lparr>au_source = source, au_enabled = False, au_reboot = False, au_reboot_time = [],
     au_reboot_with_users = None, au_utc_offset = 0\<rparr>"

definition apt_true :: "(string \<Rightarrow> string) \<Rightarrow> string \<Rightarrow> bool" where
  "apt_true ulower v = (to_lower ulower v \<in> set [''true'', ''yes'', ''on'', ''1'', ''enable''])"

definition or_empty :: "string option \<Rightarrow> string" where
  "or_empty v = (case v of None \<Rightarrow> [] | Some s \<Rightarrow> s)"

definition max_state_bytes :: nat where "max_state_bytes = 32"

definition unattended_upgrades :: "(string \<Rightarrow> string) \<Rightarrow> (string \<rightharpoonup> string) \<Rightarrow> auto_update" where
  "unattended_upgrades ulower conf =
     (let periodic = or_empty (conf ''apt::periodic::unattended-upgrade'');
          reboot = apt_true ulower (or_empty (conf ''unattended-upgrade::automatic-reboot''));
          at_time = or_empty (conf ''unattended-upgrade::automatic-reboot-time'');
          u = (auto_update_of ''unattended-upgrades'')
            \<lparr>au_enabled := periodic \<noteq> [] \<and> periodic \<noteq> ''0'' \<and> or_empty (conf ''apt::periodic::enable'') \<noteq> ''0'',
             au_reboot := reboot\<rparr>
      in if reboot
         then u\<lparr>au_reboot_time := clip (if at_time = [] then ''now'' else at_time) max_state_bytes,
                au_reboot_with_users := Some
                  (case conf ''unattended-upgrade::automatic-reboot-withusers'' of
                     None \<Rightarrow> True | Some v \<Rightarrow> apt_true ulower v)\<rparr>
         else u)"

section \<open>dnf-automatic\<close>

definition ini_true :: "(string \<Rightarrow> string) \<Rightarrow> string \<Rightarrow> bool" where
  "ini_true ulower v = (to_lower ulower v \<in> set [''yes'', ''true'', ''1'', ''on''])"

fun ini_lines :: "(string \<Rightarrow> string) \<Rightarrow> string \<Rightarrow> string list \<Rightarrow> (string \<rightharpoonup> string) \<Rightarrow> (string \<rightharpoonup> string)" where
  "ini_lines ulower section [] m = m"
| "ini_lines ulower section (raw # ls) m =
     (let l = trim_space raw in
      if l = [] \<or> has_prefix l ''#'' \<or> has_prefix l '';'' then ini_lines ulower section ls m
      else if has_prefix l ''['' \<and> has_suffix l '']''
      then ini_lines ulower (to_lower ulower (trim_space (butlast (tl l)))) ls m
      else (case index_byte l CHR ''='' of
          None \<Rightarrow> ini_lines ulower section ls m
        | Some i \<Rightarrow>
            ini_lines ulower section ls
              (m(section @ ''.'' @ to_lower ulower (trim_space (take i l)) \<mapsto> trim_space (drop (Suc i) l)))))"

definition parse_ini :: "(string \<Rightarrow> string) \<Rightarrow> string \<Rightarrow> (string \<rightharpoonup> string)" where
  "parse_ini ulower c = ini_lines ulower [] (fst (file_lines c)) Map.empty"

definition dnf_automatic :: "(string \<Rightarrow> string) \<Rightarrow> (string \<rightharpoonup> string) \<Rightarrow> string \<Rightarrow> auto_update" where
  "dnf_automatic ulower ini timer =
     (auto_update_of ''dnf-automatic'')
       \<lparr>au_enabled := timer = ''install''
          \<or> (timer = ''plain'' \<and> ini_true ulower (or_empty (ini ''commands.apply_updates''))),
        au_reboot := to_lower ulower (or_empty (ini ''commands.reboot'')) \<in> set [''when-needed'', ''when-changed'']\<rparr>"

definition timer_wants_dirs :: "string list" where
  "timer_wants_dirs = [''/etc/systemd/system/timers.target.wants'', ''/usr/lib/systemd/system/timers.target.wants'']"

fun dnf_timer :: "setup_tree \<Rightarrow> string list \<Rightarrow> string" where
  "dnf_timer t [] = []"
| "dnf_timer t (d # ds) =
     (if file_exists t (d @ ''/dnf-automatic-install.timer'') \<or> file_exists t (d @ ''/dnf5-automatic-install.timer'')
      then ''install''
      else if file_exists t (d @ ''/dnf-automatic.timer'') \<or> file_exists t (d @ ''/dnf5-automatic.timer'')
      then ''plain'' else dnf_timer t ds)"

definition unattended_bins :: "string list" where
  "unattended_bins = [''/usr/bin/unattended-upgrade'', ''/usr/bin/unattended-upgrades'']"

definition dnf_auto_conf :: "string list" where
  "dnf_auto_conf = [''/etc/dnf/automatic.conf'', ''/etc/dnf/dnf5-plugins/automatic.conf'']"

fun first_dnf :: "(string \<Rightarrow> string) \<Rightarrow> setup_tree \<Rightarrow> string list \<Rightarrow> auto_update option" where
  "first_dnf ulower t [] = None"
| "first_dnf ulower t (p # ps) =
     (case st_open t p of None \<Rightarrow> first_dnf ulower t ps
      | Some (c, broke) \<Rightarrow>
          Some (dnf_automatic ulower (parse_ini ulower (take max_config_bytes c)) (dnf_timer t timer_wants_dirs)))"

text \<open>The offset of the machine's zone is in seconds; the division cuts towards zero.\<close>

definition collect_auto_update :: "(string \<Rightarrow> string) \<Rightarrow> setup_tree \<Rightarrow> int \<Rightarrow> auto_update option" where
  "collect_auto_update ulower t offset =
     map_option (\<lambda>u. u\<lparr>au_utc_offset := sgn offset * (\<bar>offset\<bar> div 60)\<rparr>)
       (if any_exists t unattended_bins then Some (unattended_upgrades ulower (read_apt_config ulower t))
        else first_dnf ulower t dnf_auto_conf)"

end
