(* ===== verification/Setup.thy ===== *)
theory Setup
  imports Auto_Update
begin

text \<open>
  How the machine is set up, \<^verbatim>\<open>internal/collect/setup.go\<close>: who may log in over SSH and how, who is an
  administrator, and where the automatic updates are switched on. What a file that could not be read
  would have decided is unknown. \<^verbatim>\<open>path.Match\<close> is the argument \<open>glob\<close>. Every path that is looked at is
  kept, for the fingerprint that says when to read again.
\<close>

definition max_ssh_depth :: nat where "max_ssh_depth = 16"
definition max_ssh_files :: nat where "max_ssh_files = 100"
definition max_ssh_ports :: nat where "max_ssh_ports = 16"
definition max_setup_file :: nat where "max_setup_file = 1048576"
definition max_setup_value :: nat where "max_setup_value = 128"
definition max_setup_path :: nat where "max_setup_path = 255"
definition max_group_members :: nat where "max_group_members = 64"
definition max_dpkg_status :: nat where "max_dpkg_status = 67108864"

text \<open>A scan with a limit on the lines, as a list of lines and whether it ended with an error.\<close>

definition scan_limited :: "nat \<Rightarrow> string \<times> bool \<Rightarrow> string list \<times> bool" where
  "scan_limited m f =
     (let c = take m (fst f) in
      (file_lines_upto m c,
       list_ex (\<lambda>l. m \<le> length l) (split_on CHR 0x0A c) \<or> snd f \<and> length (fst f) < m))"

definition touch :: "string \<Rightarrow> string list \<Rightarrow> string list" where
  "touch p ps = (if p \<in> set ps then ps else ps @ [p])"

section \<open>The settings of sshd\<close>

definition ssh_keywords :: "(string \<times> string) list" where
  "ssh_keywords =
     [(''passwordauthentication'', ''yes''), (''kbdinteractiveauthentication'', ''yes''), (''usepam'', ''no''),
      (''authenticationmethods'', ''any''), (''permitrootlogin'', ''prohibit-password'')]"

text \<open>The words of a line: quotes group, and a word that starts with a hash begins a comment.\<close>

fun ssh_args :: "bool \<Rightarrow> bool \<Rightarrow> string \<Rightarrow> string \<Rightarrow> string list" where
  "ssh_args quoted have cur [] = (if have then [cur] else [])"
| "ssh_args quoted have cur (c # s) =
     (if c = CHR 0x22 then ssh_args (\<not> quoted) True cur s
      else if \<not> quoted \<and> (c = CHR 0x20 \<or> c = CHR 0x09)
      then (if have then cur # ssh_args quoted False [] s else ssh_args quoted have cur s)
      else if \<not> quoted \<and> c = CHR ''#'' \<and> \<not> have then []
      else ssh_args quoted True (cur @ [c]) s)"

definition ssh_line :: "(string \<Rightarrow> string) \<Rightarrow> string \<Rightarrow> string \<times> string list" where
  "ssh_line ulower raw =
     (let l = trim_space raw in
      if l = [] \<or> has_prefix l ''#'' then ([], [])
      else (let k = takeWhile (\<lambda>c. c \<notin> set [CHR 0x20, CHR 0x09, CHR ''='']) l in
        if length k = length l then (to_lower ulower l, [])
        else (let r = dropWhile (\<lambda>c. c \<in> set [CHR 0x20, CHR 0x09]) (drop (length k) l) in
          (to_lower ulower k, ssh_args False False [] (if has_prefix r ''='' then tl r else r)))))"

record ssh_state =
  ss_touched :: "string list"
  ss_values :: "string \<rightharpoonup> string"
  ss_set_in :: "string \<rightharpoonup> string"
  ss_ports :: "int list"
  ss_ports_set :: bool
  ss_match :: "string list"
  ss_unreadable :: "string list"
  ss_blocked :: bool
  ss_files :: nat

definition new_ssh_state :: "string list \<Rightarrow> ssh_state" where
  "new_ssh_state touched = \<lparr>ss_touched = touched, ss_values = Map.empty, ss_set_in = Map.empty, ss_ports = [],
     ss_ports_set = False, ss_match = [], ss_unreadable = [], ss_blocked = False, ss_files = 0\<rparr>"

definition touch_ssh :: "string \<Rightarrow> ssh_state \<Rightarrow> ssh_state" where
  "touch_ssh p s = s\<lparr>ss_touched := touch p (ss_touched s)\<rparr>"

definition cannot_read :: "string \<Rightarrow> bool \<Rightarrow> ssh_state \<Rightarrow> ssh_state" where
  "cannot_read p in_match s =
     s\<lparr>ss_unreadable :=
         (if length (ss_unreadable s) < max_ssh_files then ss_unreadable s @ [clip p max_setup_path] else ss_unreadable s),
       ss_blocked := ss_blocked s \<or> \<not> in_match\<rparr>"

text \<open>The files an argument of \<open>Include\<close> names.\<close>

definition include_path :: "string \<Rightarrow> string" where
  "include_path arg = path_clean (if has_prefix arg ''/'' then arg else ''/etc/ssh/'' @ arg)"

definition is_pattern :: "string \<Rightarrow> bool" where
  "is_pattern p = list_ex (\<lambda>c. c \<in> set ''*?['') p"

definition globbed :: "(string \<Rightarrow> string \<Rightarrow> bool) \<Rightarrow> string \<Rightarrow> (string \<times> bool) list \<Rightarrow> string list" where
  "globbed glob arg es =
     sort (map (\<lambda>e. file_dir arg @ ''/'' @ fst e)
       (filter (\<lambda>e. glob (file_base arg) (fst e) \<and> \<not> has_prefix (fst e) ''.'') es))"

definition expand ::
  "(string \<Rightarrow> string \<Rightarrow> bool) \<Rightarrow> setup_tree \<Rightarrow> string \<Rightarrow> bool \<Rightarrow> ssh_state \<Rightarrow> string list \<times> ssh_state" where
  "expand glob t arg0 in_match s =
     (let arg = include_path arg0; dir = file_dir arg; s = touch_ssh dir s in
      if \<not> is_pattern arg
      then (if st_lstat_missing t arg
            then ([], if st_list t dir = Refused then cannot_read dir in_match s else s)
            else ([arg], s))
      else (case st_list t dir of
          Refused \<Rightarrow> ([], cannot_read dir in_match s)
        | Missing \<Rightarrow> ([], s)
        | Found es \<Rightarrow> (globbed glob arg es, s)))"

definition where_set :: "string \<Rightarrow> nat \<Rightarrow> string" where
  "where_set p n = clip (p @ '':'' @ decimal64 (int n)) max_setup_path"

definition ssh_port :: "string \<Rightarrow> nat \<Rightarrow> string \<Rightarrow> ssh_state \<Rightarrow> ssh_state" where
  "ssh_port p n arg s =
     (case atoi arg of None \<Rightarrow> s
      | Some v \<Rightarrow>
        if v < 1 \<or> 65535 < v then s
        else s\<lparr>ss_set_in := (if ss_ports_set s then ss_set_in s else (ss_set_in s)(''port'' \<mapsto> where_set p n)),
               ss_ports_set := True,
               ss_ports := (if length (ss_ports s) < max_ssh_ports \<and> v \<notin> set (ss_ports s)
                            then ss_ports s @ [v] else ss_ports s)\<rparr>)"

definition ssh_value :: "(string \<Rightarrow> string) \<Rightarrow> string \<Rightarrow> string list \<Rightarrow> string" where
  "ssh_value ulower k args =
     clip (if k = ''authenticationmethods'' then join_with '' '' args else to_lower ulower (hd args)) max_setup_value"

definition ssh_setting ::
  "(string \<Rightarrow> string) \<Rightarrow> string \<Rightarrow> nat \<Rightarrow> string \<Rightarrow> string list \<Rightarrow> bool \<Rightarrow> ssh_state \<Rightarrow> ssh_state" where
  "ssh_setting ulower p n k0 args in_match s =
     (let k = (if k0 = ''challengeresponseauthentication'' then ''kbdinteractiveauthentication'' else k0) in
      if map_of ssh_keywords k = None \<or> args = [] then s
      else if in_match then s\<lparr>ss_match := touch k (ss_match s)\<rparr>
      else if ss_values s k \<noteq> None \<or> ss_blocked s then s
      else s\<lparr>ss_values := (ss_values s)(k \<mapsto> ssh_value ulower k args),
             ss_set_in := (ss_set_in s)(k \<mapsto> where_set p n)\<rparr>)"

text \<open>
  The lines of a file from number \<open>n\<close> on. The first argument reads an included file; it is \<open>None\<close> where
  the depth of includes is used up. The result says whether the file ends inside a \<open>Match\<close> block.
\<close>

type_synonym ssh_reader = "string \<Rightarrow> bool \<Rightarrow> ssh_state \<Rightarrow> ssh_state"

fun include_all ::
  "ssh_reader \<Rightarrow> (string \<Rightarrow> string \<Rightarrow> bool) \<Rightarrow> setup_tree \<Rightarrow> string list \<Rightarrow> bool \<Rightarrow> ssh_state \<Rightarrow> ssh_state" where
  "include_all inc glob t [] in_match s = s"
| "include_all inc glob t (a # as) in_match s =
     (case expand glob t a in_match s of
        (ps, s) \<Rightarrow> include_all inc glob t as in_match (fold (\<lambda>p. inc p in_match) ps s))"

fun ssh_lines ::
  "(string \<Rightarrow> string) \<Rightarrow> (string \<Rightarrow> string \<Rightarrow> bool) \<Rightarrow> setup_tree \<Rightarrow> ssh_reader option \<Rightarrow> string \<Rightarrow> nat \<Rightarrow> string list
     \<Rightarrow> bool \<Rightarrow> ssh_state \<Rightarrow> bool \<times> ssh_state" where
  "ssh_lines ulower glob t inc p n [] in_match s = (in_match, s)"
| "ssh_lines ulower glob t inc p n (l # ls) in_match s =
     (case ssh_line ulower l of
        (k, args) \<Rightarrow>
          if k = [] then ssh_lines ulower glob t inc p (Suc n) ls in_match s
          else if k = ''match'' then ssh_lines ulower glob t inc p (Suc n) ls True s
          else if k = ''include''
          then ssh_lines ulower glob t inc p (Suc n) ls in_match
                 (case inc of None \<Rightarrow> s | Some f \<Rightarrow> include_all f glob t args in_match s)
          else if k = ''port''
          then ssh_lines ulower glob t inc p (Suc n) ls in_match
                 (if args = [] \<or> in_match then s else ssh_port p n (hd args) s)
          else ssh_lines ulower glob t inc p (Suc n) ls in_match (ssh_setting ulower p n k args in_match s))"

definition ssh_read_with ::
  "(string \<Rightarrow> string) \<Rightarrow> (string \<Rightarrow> string \<Rightarrow> bool) \<Rightarrow> setup_tree \<Rightarrow> ssh_reader option \<Rightarrow> ssh_reader" where
  "ssh_read_with ulower glob t inc p in_match s0 =
     (let s = s0\<lparr>ss_files := Suc (ss_files s0)\<rparr> in
      if max_ssh_files < ss_files s then s
      else (let s = touch_ssh p s in
        case st_open t p of None \<Rightarrow> cannot_read p in_match s
        | Some f \<Rightarrow>
            (case scan_limited max_setup_file f of
               (ls, err) \<Rightarrow>
                 (case ssh_lines ulower glob t inc p 1 ls in_match s of
                    (in_match, s) \<Rightarrow> if err then cannot_read p in_match s else s))))"

primrec ssh_file :: "(string \<Rightarrow> string) \<Rightarrow> (string \<Rightarrow> string \<Rightarrow> bool) \<Rightarrow> setup_tree \<Rightarrow> nat \<Rightarrow> ssh_reader" where
  "ssh_file ulower glob t 0 = ssh_read_with ulower glob t None"
| "ssh_file ulower glob t (Suc k) = ssh_read_with ulower glob t (Some (ssh_file ulower glob t k))"

record ssh_setup =
  sh_password :: string
  sh_kbd_interactive :: string
  sh_use_pam :: string
  sh_methods :: string
  sh_root_login :: string
  sh_ports :: "int list"
  sh_set_in :: "string \<rightharpoonup> string"
  sh_match :: "string list"
  sh_unreadable :: "string list"

definition ssh_resolve :: "ssh_state \<Rightarrow> string \<Rightarrow> string" where
  "ssh_resolve s k =
     (case ss_values s k of Some v \<Rightarrow> v
      | None \<Rightarrow> if ss_blocked s then ''unknown'' else or_empty (map_of ssh_keywords k))"

definition resolved_in :: "ssh_state \<Rightarrow> string \<rightharpoonup> string" where
  "resolved_in s k =
     (if map_of ssh_keywords k \<noteq> None \<and> ss_values s k \<noteq> None then ss_set_in s k
      else if k = ''port'' \<and> \<not> ss_blocked s \<and> ss_ports_set s then ss_set_in s k else None)"

definition sshd_config_path :: string where "sshd_config_path = ''/etc/ssh/sshd_config''"

definition ssh_setup_of :: "ssh_state \<Rightarrow> ssh_setup" where
  "ssh_setup_of s =
     \<lparr>sh_password = ssh_resolve s ''passwordauthentication'',
      sh_kbd_interactive = ssh_resolve s ''kbdinteractiveauthentication'',
      sh_use_pam = ssh_resolve s ''usepam'',
      sh_methods = ssh_resolve s ''authenticationmethods'',
      sh_root_login = ssh_resolve s ''permitrootlogin'',
      sh_ports = (if ss_blocked s then [] else if ss_ports_set s then ss_ports s else [22]),
      sh_set_in = resolved_in s, sh_match = sort (ss_match s), sh_unreadable = ss_unreadable s\<rparr>"

definition read_ssh ::
  "(string \<Rightarrow> string) \<Rightarrow> (string \<Rightarrow> string \<Rightarrow> bool) \<Rightarrow> setup_tree \<Rightarrow> string list \<Rightarrow> ssh_setup option \<times> string list" where
  "read_ssh ulower glob t touched =
     (let touched = touch sshd_config_path touched in
      if st_stat t sshd_config_path = Missing then (None, touched)
      else (let s = ssh_file ulower glob t max_ssh_depth sshd_config_path False (new_ssh_state touched)
            in (Some (ssh_setup_of s), ss_touched s)))"

section \<open>The administrators\<close>

definition admin_group_names :: "string list" where
  "admin_group_names = [''sudo'', ''wheel'', ''admin'']"

definition is_admin_group :: "string \<Rightarrow> bool" where
  "is_admin_group n = (n \<in> set admin_group_names)"

record admin_group =
  ag_group :: string
  ag_members :: "string list"

text \<open>The members of each group, and the group of each of their numbers.\<close>

type_synonym group_maps = "(string \<rightharpoonup> string list) \<times> (string \<rightharpoonup> string)"

definition listed_members :: "string \<Rightarrow> string list" where
  "listed_members s = fold touch (filter (\<lambda>m. m \<noteq> []) (map trim_space (split_on CHR '','' s))) []"

definition group_line :: "string \<Rightarrow> group_maps \<Rightarrow> group_maps" where
  "group_line l m =
     (let ps = split_on CHR '':'' l in
      if length ps < 4 \<or> \<not> is_admin_group (hd ps) \<or> fst m (hd ps) \<noteq> None then m
      else ((fst m)(hd ps \<mapsto> listed_members (ps ! 3)), (snd m)(ps ! 2 \<mapsto> hd ps)))"

definition passwd_line :: "string \<Rightarrow> group_maps \<Rightarrow> group_maps" where
  "passwd_line l m =
     (let ps = split_on CHR '':'' l in
      if length ps < 4 \<or> hd ps = [] \<or> has_prefix (hd ps) ''#'' then m
      else (case snd m (ps ! 3) of None \<Rightarrow> m
        | Some g \<Rightarrow> ((fst m)(g := map_option (touch (hd ps)) (fst m g)), snd m)))"

definition admin_group_of :: "(string \<rightharpoonup> string list) \<Rightarrow> string \<Rightarrow> admin_group option" where
  "admin_group_of members g =
     map_option (\<lambda>ms. \<lparr>ag_group = g, ag_members = take max_group_members (sort (map (\<lambda>m. clip m 64) ms))\<rparr>) (members g)"

definition admin_groups_of :: "string list \<Rightarrow> string list option \<Rightarrow> admin_group list" where
  "admin_groups_of groups users =
     (let m = fold group_line groups (Map.empty, Map.empty);
          m = (case users of None \<Rightarrow> m | Some ls \<Rightarrow> fold passwd_line ls m)
      in List.map_filter (admin_group_of (fst m)) admin_group_names)"

definition read_admin_groups :: "setup_tree \<Rightarrow> string list \<Rightarrow> admin_group list option \<times> string list" where
  "read_admin_groups t touched =
     (let touched = touch ''/etc/passwd'' (touch ''/etc/group'' touched) in
      case st_open t ''/etc/group'' of None \<Rightarrow> (None, touched)
      | Some f \<Rightarrow>
          (case scan_limited max_setup_file f of
             (ls, err) \<Rightarrow>
               if err then (None, touched)
               else (Some (admin_groups_of ls
                 (map_option (\<lambda>g. fst (scan_limited max_setup_file g)) (st_open t ''/etc/passwd''))), touched)))"

section \<open>The updates\<close>

record updates_setup =
  us_family :: string
  us_tool :: string
  us_installed :: "bool option"
  us_setting :: string
  us_decided_in :: string
  us_periodic_enable :: string
  us_timer :: string

definition updates_of :: "string \<Rightarrow> string \<Rightarrow> updates_setup" where
  "updates_of family tool = \<lparr>us_family = family, us_tool = tool, us_installed = None, us_setting = [],
     us_decided_in = [], us_periodic_enable = [], us_timer = []\<rparr>"

definition apt_updates_file ::
  "(string \<Rightarrow> string) \<Rightarrow> setup_tree \<Rightarrow> string \<Rightarrow> updates_setup \<Rightarrow> updates_setup" where
  "apt_updates_file ulower t p u =
     (let conf = read_apt_file ulower t p Map.empty;
          u = (case conf ''apt::periodic::unattended-upgrade'' of None \<Rightarrow> u
            | Some v \<Rightarrow> u\<lparr>us_setting := clip v max_setup_value, us_decided_in := p\<rparr>)
      in case conf ''apt::periodic::enable'' of None \<Rightarrow> u
         | Some v \<Rightarrow> u\<lparr>us_periodic_enable := clip v max_setup_value\<rparr>)"

fun status_lines :: "string \<Rightarrow> string \<Rightarrow> string list \<Rightarrow> bool option" where
  "status_lines pkg current [] = None"
| "status_lines pkg current (l # ls) =
     (if l = [] then status_lines pkg [] ls
      else if has_prefix l ''Package: '' then status_lines pkg (trim_space (trim_prefix l ''Package: '')) ls
      else if current = pkg \<and> has_prefix l ''Status: '' then Some (has_suffix (trim_space l) '' installed'')
      else status_lines pkg current ls)"

text \<open>The scanner of the status file takes lines of up to a mebibyte of a file of up to 64.\<close>

definition dpkg_installed :: "setup_tree \<Rightarrow> string \<Rightarrow> bool option" where
  "dpkg_installed t pkg =
     (case st_open t ''/var/lib/dpkg/status'' of None \<Rightarrow> None
      | Some (c, broke) \<Rightarrow>
          (let c = take max_dpkg_status c in
           case status_lines pkg [] (file_lines_upto 1048576 c) of
             Some b \<Rightarrow> Some b
           | None \<Rightarrow>
               if list_ex (\<lambda>l. 1048576 \<le> length l) (split_on CHR 0x0A c) \<or> broke \<and> length c < max_dpkg_status
               then None else Some False))"

definition apt_updates :: "(string \<Rightarrow> string) \<Rightarrow> setup_tree \<Rightarrow> string list \<Rightarrow> updates_setup \<times> string list" where
  "apt_updates ulower t touched =
     ((fold (apt_updates_file ulower t) (apt_parts t @ [apt_conf_main])
         (updates_of ''debian'' ''unattended-upgrades''))
        \<lparr>us_installed := dpkg_installed t ''unattended-upgrades''\<rparr>,
      fold touch (apt_conf_dir # apt_parts t @ [apt_conf_main]) touched)"

fun dnf_config ::
  "(string \<Rightarrow> string) \<Rightarrow> setup_tree \<Rightarrow> string list \<Rightarrow> updates_setup \<times> string list \<Rightarrow> updates_setup \<times> string list" where
  "dnf_config ulower t [] (u, touched) = (u\<lparr>us_installed := Some False\<rparr>, touched)"
| "dnf_config ulower t (p # ps) (u, touched) =
     (case st_open t p of None \<Rightarrow> dnf_config ulower t ps (u, touch p touched)
      | Some (c, broke) \<Rightarrow>
          ((case parse_ini ulower (take max_config_bytes c) ''commands.apply_updates'' of None \<Rightarrow> u
            | Some v \<Rightarrow> u\<lparr>us_setting := clip v max_setup_value, us_decided_in := p\<rparr>)\<lparr>us_installed := Some True\<rparr>,
           touch p touched))"

text \<open>The folders of timers that are looked at: up to the first that has one.\<close>

fun dnf_timer_dirs :: "setup_tree \<Rightarrow> string list \<Rightarrow> string list" where
  "dnf_timer_dirs t [] = []"
| "dnf_timer_dirs t (d # ds) = d # (if dnf_timer t [d] \<noteq> [] then [] else dnf_timer_dirs t ds)"

definition dnf_updates :: "(string \<Rightarrow> string) \<Rightarrow> setup_tree \<Rightarrow> string list \<Rightarrow> updates_setup \<times> string list" where
  "dnf_updates ulower t touched =
     (case dnf_config ulower t dnf_auto_conf (updates_of ''rhel'' ''dnf-automatic'', touched) of
        (u, touched) \<Rightarrow>
          (u\<lparr>us_timer := dnf_timer t timer_wants_dirs\<rparr>, fold touch (dnf_timer_dirs t timer_wants_dirs) touched))"

definition read_updates ::
  "(string \<Rightarrow> string) \<Rightarrow> setup_tree \<Rightarrow> string list \<Rightarrow> updates_setup option \<times> string list" where
  "read_updates ulower t touched =
     (let touched = fold touch [''/etc/debian_version'', ''/var/lib/dpkg/status'', ''/etc/redhat-release''] touched in
      if file_exists t ''/etc/debian_version'' \<or> file_exists t ''/var/lib/dpkg/status''
      then apfst Some (apt_updates ulower t touched)
      else if file_exists t ''/etc/redhat-release'' then apfst Some (dnf_updates ulower t touched)
      else (None, touched))"

section \<open>The reader\<close>

record machine_setup =
  ms_ssh :: "ssh_setup option"
  ms_admin_groups :: "admin_group list option"
  ms_updates :: "updates_setup option"

definition read_setup ::
  "(string \<Rightarrow> string) \<Rightarrow> (string \<Rightarrow> string \<Rightarrow> bool) \<Rightarrow> setup_tree \<Rightarrow> machine_setup option \<times> string list" where
  "read_setup ulower glob t =
     (case read_ssh ulower glob t [] of
        (ssh, touched) \<Rightarrow>
          (case read_admin_groups t touched of
             (groups, touched) \<Rightarrow>
               (case read_updates ulower t touched of
                  (updates, touched) \<Rightarrow>
                    (if ssh = None \<and> groups = None \<and> updates = None then None
                     else Some \<lparr>ms_ssh = ssh, ms_admin_groups = groups, ms_updates = updates\<rparr>, touched))))"

fun mark_of :: "setup_tree \<Rightarrow> string \<Rightarrow> string" where
  "mark_of t p =
     (case st_stat t p of
        Found i \<Rightarrow> p @ '':'' @ decimal64 (mk_size i) @ '':'' @ decimal64 (mk_mtime i) @ '':'' @ mk_mode i @ '';''
      | _ \<Rightarrow> p @ '':-;'')"

definition fingerprint_of :: "setup_tree \<Rightarrow> string list \<Rightarrow> string" where
  "fingerprint_of t ps = concat (map (mark_of t) ps)"

record setup_reader =
  sr_fingerprint :: string
  sr_touched :: "string list option"
  sr_setup :: "machine_setup option"

definition new_setup_reader :: setup_reader where
  "new_setup_reader = \<lparr>sr_fingerprint = [], sr_touched = None, sr_setup = None\<rparr>"

definition setup_read ::
  "(string \<Rightarrow> string) \<Rightarrow> (string \<Rightarrow> string \<Rightarrow> bool) \<Rightarrow> setup_tree \<Rightarrow> setup_reader \<Rightarrow> machine_setup option \<times> setup_reader" where
  "setup_read ulower glob t r =
     (if (case sr_touched r of None \<Rightarrow> False | Some ps \<Rightarrow> fingerprint_of t ps = sr_fingerprint r) then (sr_setup r, r)
      else (case read_setup ulower glob t of
          (m, ps) \<Rightarrow> (m, \<lparr>sr_fingerprint = fingerprint_of t ps, sr_touched = Some ps, sr_setup = m\<rparr>)))"

end
