(* ===== verification/Setup_Props.thy ===== *)
theory Setup_Props
  imports Setup
begin

text \<open>
  What is reported of sshd is what sshd does, whatever is in the files that could not be read, or it is
  called unknown; and the two collectors that read apt's configuration agree.
\<close>

section \<open>What sshd does\<close>

text \<open>
  The settings sshd reads, in order: every line of a file, with the files it includes in their places.
  A \<open>Match\<close> block lasts to the end of its file. The first value of a keyword outside such a
  block is the one that holds.
\<close>

type_synonym ssh_item = "bool \<times> string \<times> string list"

definition plain_lines :: "string \<Rightarrow> string list" where
  "plain_lines c =
     (let ls = split_on CHR 0x0A c in map (\<lambda>l. trim_suffix l [CHR 0x0D]) (if last ls = [] then butlast ls else ls))"

definition included_files :: "(string \<Rightarrow> string \<Rightarrow> bool) \<Rightarrow> setup_tree \<Rightarrow> string \<Rightarrow> string list" where
  "included_files glob t a =
     (let arg = include_path a in
      if is_pattern arg then globbed glob arg (found_or [] (st_list t (file_dir arg))) else [arg])"

fun sshd_lines ::
  "(string \<Rightarrow> string) \<Rightarrow> (string \<Rightarrow> string \<Rightarrow> bool) \<Rightarrow> setup_tree \<Rightarrow> (string \<Rightarrow> bool \<Rightarrow> ssh_item list) option
     \<Rightarrow> string list \<Rightarrow> bool \<Rightarrow> ssh_item list" where
  "sshd_lines ulower glob t inc [] in_match = []"
| "sshd_lines ulower glob t inc (l # ls) in_match =
     (case ssh_line ulower l of
        (k, args) \<Rightarrow>
          if k = [] then sshd_lines ulower glob t inc ls in_match
          else if k = ''match'' then sshd_lines ulower glob t inc ls True
          else if k = ''include''
          then (case inc of None \<Rightarrow> []
                | Some f \<Rightarrow> concat (map (\<lambda>a. concat (map (\<lambda>p. f p in_match) (included_files glob t a))) args))
               @ sshd_lines ulower glob t inc ls in_match
          else (in_match, k, args) # sshd_lines ulower glob t inc ls in_match)"

definition sshd_read_with ::
  "(string \<Rightarrow> string) \<Rightarrow> (string \<Rightarrow> string \<Rightarrow> bool) \<Rightarrow> setup_tree \<Rightarrow> (string \<Rightarrow> bool \<Rightarrow> ssh_item list) option
     \<Rightarrow> string \<Rightarrow> bool \<Rightarrow> ssh_item list" where
  "sshd_read_with ulower glob t inc p in_match =
     (case st_open t p of None \<Rightarrow> []
      | Some f \<Rightarrow> sshd_lines ulower glob t inc (plain_lines (fst f)) in_match)"

primrec sshd_file ::
  "(string \<Rightarrow> string) \<Rightarrow> (string \<Rightarrow> string \<Rightarrow> bool) \<Rightarrow> setup_tree \<Rightarrow> nat \<Rightarrow> string \<Rightarrow> bool \<Rightarrow> ssh_item list" where
  "sshd_file ulower glob t 0 = sshd_read_with ulower glob t None"
| "sshd_file ulower glob t (Suc k) = sshd_read_with ulower glob t (Some (sshd_file ulower glob t k))"

definition canonical :: "string \<Rightarrow> string" where
  "canonical k = (if k = ''challengeresponseauthentication'' then ''kbdinteractiveauthentication'' else k)"

definition decides :: "string \<Rightarrow> ssh_item \<Rightarrow> bool" where
  "decides k i = (case i of (in_match, k2, args) \<Rightarrow>
     map_of ssh_keywords k \<noteq> None \<and> \<not> in_match \<and> canonical k2 = k \<and> args \<noteq> [])"

definition first_value :: "(string \<Rightarrow> string) \<Rightarrow> ssh_item list \<Rightarrow> string \<Rightarrow> string option" where
  "first_value ulower is k = map_option (\<lambda>i. ssh_value ulower k (snd (snd i))) (List.find (decides k) is)"

definition sshd_setting :: "(string \<Rightarrow> string) \<Rightarrow> (string \<Rightarrow> string \<Rightarrow> bool) \<Rightarrow> setup_tree \<Rightarrow> string \<Rightarrow> string" where
  "sshd_setting ulower glob t k =
     (case first_value ulower (sshd_file ulower glob t max_ssh_depth sshd_config_path False) k of
        Some v \<Rightarrow> v | None \<Rightarrow> or_empty (map_of ssh_keywords k))"

text \<open>
  What the agent sees of the machine: the files and folders it can read are what they are, what it is told
  does not exist does not, and a file it opens can be read or gives nothing at all. The others may
  hold anything.
\<close>

definition sees :: "setup_tree \<Rightarrow> setup_tree \<Rightarrow> bool" where
  "sees t u =
     ((\<forall>p c. st_open t p = Some (c, False) \<longrightarrow> st_open u p = Some (c, False) \<and> length c \<le> max_setup_file)
      \<and> (\<forall>p c. st_open t p = Some (c, True) \<longrightarrow> c = [])
      \<and> (\<forall>p. st_lstat_missing t p \<longrightarrow> st_open u p = None)
      \<and> (\<forall>d. st_list t d \<noteq> Refused \<longrightarrow> st_list u d = st_list t d))"

section \<open>Lines of small files\<close>

lemma split_on_lengths: "l \<in> set (split_on x c) \<Longrightarrow> length l \<le> length c \<and> (length l = length c \<longrightarrow> split_on x c = [l])"
proof (induction c arbitrary: l)
  case (Cons y c)
  show ?case
  proof (cases "y = x")
    case True
    then show ?thesis using Cons by (auto dest!: Cons.IH)
  next
    case False
    obtain a as where a: "split_on x c = a # as" by (cases "split_on x c") simp_all
    then show ?thesis using False Cons.prems Cons.IH [of l] Cons.IH [of a] by fastforce
  qed
qed simp

lemma trim_map_scanned:
  "\<forall>l\<in>set (split_on CHR 0x0A c). length l < m \<Longrightarrow> file_lines_upto m c = plain_lines c"
proof -
  assume a: "\<forall>l\<in>set (split_on CHR 0x0A c). length l < m"
  let ?ls = "if last (split_on CHR 0x0A c) = [] then butlast (split_on CHR 0x0A c) else split_on CHR 0x0A c"
  have "\<forall>l\<in>set ?ls. length l < m" using a by (auto dest: in_set_butlastD)
  then show ?thesis by (simp add: file_lines_upto_def plain_lines_def Let_def scanned_upto_all)
qed

lemma scan_whole:
  "scan_limited m (c, broke) = (ls, False) \<Longrightarrow> length c < m \<Longrightarrow> \<not> broke"
  by (auto simp: scan_limited_def Let_def)

lemma scan_small:
  assumes "length c \<le> m" "scan_limited m (c, broke) = (ls, False)"
  shows "ls = plain_lines c"
  using assms trim_map_scanned [of c m] by (auto simp: scan_limited_def Let_def list_ex_iff not_le)

lemma scan_failed:
  assumes "length c \<le> m" "broke \<longrightarrow> c = []" "0 < m" "scan_limited m (c, broke) = (ls, True)"
  shows "ls = []"
proof (cases "list_ex (\<lambda>l. m \<le> length l) (split_on CHR 0x0A c)")
  case True
  then obtain l where l: "l \<in> set (split_on CHR 0x0A c)" "m \<le> length l" by (auto simp: list_ex_iff)
  then have "split_on CHR 0x0A c = [l]" using split_on_lengths [OF l(1)] assms(1) by simp
  then show ?thesis using l assms(1,3,4) by (auto simp: scan_limited_def file_lines_upto_def Let_def)
next
  case False
  then have "c = []" using assms(1,2,4) by (auto simp: scan_limited_def Let_def)
  then show ?thesis using assms(4) by (auto simp: scan_limited_def file_lines_upto_def Let_def)
qed

section \<open>The simulation\<close>

text \<open>
  What is resolved so far is right for the settings so far, and where it is not resolved, no setting has
  decided it or a file could not be read.
\<close>

definition resolved_at :: "string option \<Rightarrow> bool \<Rightarrow> string option \<Rightarrow> bool" where
  "resolved_at v blocked first = (case v of Some x \<Rightarrow> first = Some x | None \<Rightarrow> blocked \<or> first = None)"

definition resolves :: "(string \<Rightarrow> string) \<Rightarrow> ssh_state \<Rightarrow> ssh_item list \<Rightarrow> bool" where
  "resolves ulower s is = (\<forall>k. resolved_at (ss_values s k) (ss_blocked s) (first_value ulower is k))"

definition in_match_only :: "ssh_item list \<Rightarrow> bool" where
  "in_match_only is = list_all fst is"

lemma first_value_Nil [simp]: "first_value ulower [] k = None"
  by (simp add: first_value_def)

lemma first_value_Cons:
  "first_value ulower (i # is) k
    = (if decides k i then Some (ssh_value ulower k (snd (snd i))) else first_value ulower is k)"
  by (simp add: first_value_def)

lemma first_value_append:
  "first_value ulower (is @ xs) k
    = (case first_value ulower is k of None \<Rightarrow> first_value ulower xs k | Some v \<Rightarrow> Some v)"
  by (induction "is") (simp_all add: first_value_Cons)

lemma first_value_in_match: "in_match_only xs \<Longrightarrow> first_value ulower xs k = None"
  by (induction xs) (auto simp: in_match_only_def first_value_Cons decides_def)

lemma case_option_id [simp]: "g = None \<Longrightarrow> (case f of None \<Rightarrow> g | Some v \<Rightarrow> Some v) = f"
  by (cases f) simp_all

lemma resolves_match: "resolves ulower s is \<Longrightarrow> in_match_only xs \<Longrightarrow> resolves ulower s (is @ xs)"
  by (simp add: resolves_def first_value_append first_value_in_match)

lemma resolved_at_later: "resolved_at v True f \<Longrightarrow> resolved_at v True (case f of None \<Rightarrow> g | Some x \<Rightarrow> Some x)"
  by (auto simp: resolved_at_def split: option.splits)

lemma resolved_at_blocked: "resolved_at v b f \<Longrightarrow> resolved_at v (b \<or> c) f"
  by (auto simp: resolved_at_def split: option.splits)

lemma resolves_blocked: "resolves ulower s is \<Longrightarrow> ss_blocked s \<Longrightarrow> resolves ulower s (is @ xs)"
  by (simp add: resolves_def first_value_append resolved_at_later)

lemma resolves_same:
  assumes "resolves ulower s is" "ss_values s2 = ss_values s" "ss_blocked s2 = ss_blocked s"
  shows "resolves ulower s2 is"
  using assms(1) unfolding resolves_def assms(2,3) .

lemma cannot_read_same [simp]:
  "ss_values (cannot_read p m s) = ss_values s" "ss_blocked (cannot_read p m s) = (ss_blocked s \<or> \<not> m)"
  "ss_files (cannot_read p m s) = ss_files s"
  by (simp_all add: cannot_read_def)

lemma touch_ssh_same [simp]:
  "ss_values (touch_ssh p s) = ss_values s" "ss_blocked (touch_ssh p s) = ss_blocked s"
  "ss_files (touch_ssh p s) = ss_files s"
  by (simp_all add: touch_ssh_def)

lemma resolves_cannot_read:
  assumes "resolves ulower s is" "in_match \<longrightarrow> in_match_only xs"
  shows "resolves ulower (cannot_read p in_match s) (is @ xs)"
proof -
  have r: "resolves ulower (cannot_read p in_match s) is"
    using assms(1) resolved_at_blocked by (simp add: resolves_def)
  show ?thesis
  proof (cases in_match)
    case True
    then show ?thesis using resolves_match [OF r] assms(2) by simp
  next
    case False
    then show ?thesis using resolves_blocked [OF r] by simp
  qed
qed

lemma port_same [simp]:
  "ss_values (ssh_port p n a s) = ss_values s" "ss_blocked (ssh_port p n a s) = ss_blocked s"
  "ss_files (ssh_port p n a s) = ss_files s"
  by (simp_all add: ssh_port_def split: option.split)

lemma setting_files [simp]: "ss_files (ssh_setting ulower p n k args m s) = ss_files s"
  by (simp add: ssh_setting_def Let_def)

text \<open>A setting changes only the value of its keyword, and that only once.\<close>

lemma setting_values:
  "ss_values (ssh_setting ulower p n k args m s) j
    = (if decides j (m, k, args) \<and> \<not> ss_blocked s \<and> ss_values s j = None then Some (ssh_value ulower j args)
       else ss_values s j)"
  "ss_blocked (ssh_setting ulower p n k args m s) = ss_blocked s"
  by (auto simp: ssh_setting_def decides_def canonical_def Let_def)

lemma resolved_at_setting:
  "resolved_at v b f \<Longrightarrow> resolved_at (if d \<and> \<not> b \<and> v = None then Some x else v) b
     (case f of None \<Rightarrow> if d then Some x else None | Some y \<Rightarrow> Some y)"
  by (cases v; cases f) (auto simp: resolved_at_def)

lemma resolves_setting:
  "resolves ulower s is \<Longrightarrow> resolves ulower (ssh_setting ulower p n k args m s) (is @ [(m, k, args)])"
  unfolding resolves_def setting_values first_value_append first_value_Cons first_value_Nil snd_conv
  by (blast intro: resolved_at_setting)

lemma resolves_undecided:
  "resolves ulower s is \<Longrightarrow> (\<And>k. \<not> decides k i) \<Longrightarrow> resolves ulower s (is @ [i])"
  by (simp add: resolves_def first_value_append first_value_Cons)

section \<open>Reading a file is reading its settings\<close>

definition counts_up :: "ssh_reader \<Rightarrow> bool" where
  "counts_up f = (\<forall>p m s. ss_files s \<le> ss_files (f p m s))"

text \<open>A reader of files that resolves what the settings it stands for decide.\<close>

definition simulates :: "(string \<Rightarrow> string) \<Rightarrow> ssh_reader \<Rightarrow> (string \<Rightarrow> bool \<Rightarrow> ssh_item list) \<Rightarrow> bool" where
  "simulates ulower f g =
     (counts_up f \<and> (\<forall>p. in_match_only (g p True))
      \<and> (\<forall>p m s is. resolves ulower s is \<longrightarrow> ss_files (f p m s) \<le> max_ssh_files
           \<longrightarrow> resolves ulower (f p m s) (is @ g p m)))"

lemma in_match_only_simps [simp]:
  "in_match_only []" "in_match_only (i # is) = (fst i \<and> in_match_only is)"
  "in_match_only (xs @ ys) = (in_match_only xs \<and> in_match_only ys)"
  "in_match_only (concat xss) = list_all in_match_only xss"
  by (simp_all add: in_match_only_def list_all_iff) (induction xss, auto)

lemma counts_up_fold:
  "counts_up f \<Longrightarrow> ss_files s \<le> ss_files (fold (\<lambda>p. f p m) ps s)"
proof (induction ps arbitrary: s)
  case (Cons p ps)
  then have "ss_files s \<le> ss_files (f p m s)" by (simp add: counts_up_def)
  also have "\<dots> \<le> ss_files (fold (\<lambda>p. f p m) ps (f p m s))" using Cons by blast
  finally show ?case by simp
qed simp

lemma fold_simulates:
  assumes "simulates ulower f g"
  shows "resolves ulower s is \<Longrightarrow> ss_files (fold (\<lambda>p. f p m) ps s) \<le> max_ssh_files
    \<Longrightarrow> resolves ulower (fold (\<lambda>p. f p m) ps s) (is @ concat (map (\<lambda>p. g p m) ps))"
proof (induction ps arbitrary: s "is")
  case (Cons p ps)
  have "ss_files (f p m s) \<le> max_ssh_files"
    using Cons.prems(2) counts_up_fold [of f "f p m s" m ps] assms by (simp add: simulates_def)
  then have "resolves ulower (f p m s) (is @ g p m)" using assms Cons.prems(1) by (simp add: simulates_def)
  then show ?case using Cons.IH [of "f p m s" "is @ g p m"] Cons.prems(2) by simp
qed simp

lemma include_all_counts:
  "counts_up f \<Longrightarrow> ss_files s \<le> ss_files (include_all f glob t as m s)"
proof (induction "as" arbitrary: s)
  case (Cons a "as")
  obtain ps s2 where e: "expand glob t a m s = (ps, s2)" by fastforce
  then have "ss_files s2 = ss_files s"
    by (auto simp: expand_def Let_def split: if_splits looked.splits)
  then have "ss_files s \<le> ss_files (fold (\<lambda>p. f p m) ps s2)" using counts_up_fold [OF Cons.prems, of s2 m ps] by simp
  also have "\<dots> \<le> ss_files (include_all f glob t (a # as) m s)" using Cons e by simp
  finally show ?case .
qed simp

text \<open>The files of an include: those the agent sees, or it is stopped.\<close>

lemma expand_sees:
  assumes "sees t u" "expand glob t a m s = (ps, s2)" "resolves ulower s is"
  shows "ss_files s2 = ss_files s
    \<and> (ps = included_files glob u a \<and> resolves ulower s2 is
       \<or> ps = [] \<and> (\<forall>xs. (m \<longrightarrow> in_match_only xs) \<longrightarrow> resolves ulower s2 (is @ xs))
       \<or> ps = [] \<and> resolves ulower s2 is \<and> included_files glob u a = [include_path a]
         \<and> st_open u (include_path a) = None)"
proof -
  let ?dir = "file_dir (include_path a)"
  have r: "resolves ulower (touch_ssh ?dir s) is" using assms(3) by (rule resolves_same) simp_all
  have l: "st_list t ?dir \<noteq> Refused \<Longrightarrow> st_list u ?dir = st_list t ?dir"
    and n: "st_lstat_missing t (include_path a) \<Longrightarrow> st_open u (include_path a) = None"
    using assms(1) by (auto simp: sees_def)
  have c: "\<forall>xs. (m \<longrightarrow> in_match_only xs) \<longrightarrow> resolves ulower (cannot_read ?dir m (touch_ssh ?dir s)) (is @ xs)"
    using resolves_cannot_read [OF r] by blast
  have cr: "resolves ulower (cannot_read ?dir m (touch_ssh ?dir s)) is"
    using c [rule_format, of "[]"] by simp
  show ?thesis
  proof (cases "is_pattern (include_path a)")
    case True
    then show ?thesis using assms(2) r l c
      by (cases "st_list t ?dir") (auto simp: expand_def included_files_def globbed_def Let_def)
  next
    case False
    then show ?thesis using assms(2) r n cr
      by (auto simp: expand_def included_files_def Let_def split: if_splits)
  qed
qed

definition included_items ::
  "(string \<Rightarrow> string \<Rightarrow> bool) \<Rightarrow> setup_tree \<Rightarrow> (string \<Rightarrow> bool \<Rightarrow> ssh_item list) \<Rightarrow> bool \<Rightarrow> string list \<Rightarrow> ssh_item list" where
  "included_items glob u g m as = concat (map (\<lambda>a. concat (map (\<lambda>p. g p m) (included_files glob u a))) as)"

lemma included_in_match: "\<forall>p. in_match_only (g p True) \<Longrightarrow> in_match_only (included_items glob u g True as)"
  by (simp add: included_items_def list_all_iff)

lemma include_all_simulates:
  assumes "sees t u" "simulates ulower f g" "\<forall>p. st_open u p = None \<longrightarrow> g p m = []"
  shows "resolves ulower s is \<Longrightarrow> ss_files (include_all f glob t as m s) \<le> max_ssh_files
    \<Longrightarrow> resolves ulower (include_all f glob t as m s) (is @ included_items glob u g m as)"
proof (induction "as" arbitrary: s "is")
  case Nil
  then show ?case by (simp add: included_items_def)
next
  case (Cons a "as")
  have f: "counts_up f" and g: "\<forall>p. in_match_only (g p True)" using assms(2) by (simp_all add: simulates_def)
  obtain ps s2 where e: "expand glob t a m s = (ps, s2)" by fastforce
  let ?own = "concat (map (\<lambda>p. g p m) (included_files glob u a))" and ?s3 = "fold (\<lambda>p. f p m) ps s2"
  have b: "ss_files ?s3 \<le> max_ssh_files" and b2: "ss_files (include_all f glob t as m ?s3) \<le> max_ssh_files"
    using Cons.prems(2) include_all_counts [OF f, of ?s3 glob t "as" m] e by simp_all
  have "m \<longrightarrow> in_match_only ?own" using g by (auto simp: list_all_iff)
  then have "resolves ulower ?s3 (is @ ?own)"
    using expand_sees [OF assms(1) e Cons.prems(1)] fold_simulates [OF assms(2) _ b, of "is"] assms(3) by auto
  from Cons.IH [OF this b2] show ?case using e by (simp add: included_items_def)
qed

lemma ssh_lines_counts:
  assumes "\<And>f. inc = Some f \<Longrightarrow> counts_up f"
  shows "ss_files s \<le> ss_files (snd (ssh_lines ulower glob t inc p n ls m s))"
proof (induction ls arbitrary: n m s)
  case (Cons l ls)
  obtain k args where l: "ssh_line ulower l = (k, args)" by fastforce
  have i: "ss_files s \<le> ss_files (case inc of None \<Rightarrow> s | Some f \<Rightarrow> include_all f glob t args m s)"
    using assms include_all_counts by (cases inc) simp_all
  show ?case
    using Cons [of s] Cons [of "ssh_port p n (hd args) s"] Cons [of "ssh_setting ulower p n k args m s"]
      le_trans [OF i Cons] l by simp
qed simp

lemma sshd_lines_in_match:
  assumes "\<And>g p. rinc = Some g \<Longrightarrow> in_match_only (g p True)"
  shows "in_match_only (sshd_lines ulower glob u rinc ls True)"
proof (induction ls)
  case (Cons l ls)
  obtain k args where l: "ssh_line ulower l = (k, args)" by fastforce
  show ?case using Cons assms l by (cases rinc) (auto simp: list_all_iff)
qed simp

lemma ssh_lines_simulates:
  assumes "sees t u"
    and "(inc = None \<and> rinc = None) \<or> (\<exists>f g. inc = Some f \<and> rinc = Some g \<and> simulates ulower f g
      \<and> (\<forall>p m. st_open u p = None \<longrightarrow> g p m = []))"
  shows "resolves ulower s is \<Longrightarrow> ss_files (snd (ssh_lines ulower glob t inc p n ls m s)) \<le> max_ssh_files
    \<Longrightarrow> resolves ulower (snd (ssh_lines ulower glob t inc p n ls m s)) (is @ sshd_lines ulower glob u rinc ls m)"
proof (induction ls arbitrary: n m s "is")
  case (Cons l ls)
  obtain k args where l: "ssh_line ulower l = (k, args)" by fastforce
  have c: "counts_up f" if "inc = Some f" for f using assms(2) that by (auto simp: simulates_def)
  consider "k = []" | "k = ''match''" | "k = ''include''" | "k = ''port''"
    | "k \<noteq> [] \<and> k \<noteq> ''match'' \<and> k \<noteq> ''include'' \<and> k \<noteq> ''port''" by blast
  then show ?case
  proof cases
    case 3
    show ?thesis
    proof (cases inc)
      case None
      then show ?thesis using Cons l 3 assms(2) by simp
    next
      case (Some f)
      then obtain g where g: "rinc = Some g" "simulates ulower f g" "\<forall>p m. st_open u p = None \<longrightarrow> g p m = []"
        using assms(2) by auto
      let ?s = "include_all f glob t args m s"
      have b: "ss_files (snd (ssh_lines ulower glob t inc p (Suc n) ls m ?s)) \<le> max_ssh_files"
        using Cons.prems(2) l 3 Some by simp
      then have "ss_files ?s \<le> max_ssh_files" using ssh_lines_counts [OF c, where s = ?s] le_trans by blast
      then have "resolves ulower ?s (is @ included_items glob u g m args)"
        using include_all_simulates [OF assms(1) g(2) _ Cons.prems(1)] g(3) by blast
      from Cons.IH [OF this b] show ?thesis using l 3 Some g(1) by (simp add: included_items_def)
    qed
  next
    case 4
    let ?s = "if args = [] \<or> m then s else ssh_port p n (hd args) s"
    have "resolves ulower ?s is" using Cons.prems(1) by (rule resolves_same) simp_all
    moreover have "\<not> decides j (m, k, args)" for j using 4 by (auto simp: decides_def canonical_def ssh_keywords_def split: if_splits)
    ultimately have "resolves ulower ?s (is @ [(m, k, args)])" by (rule resolves_undecided)
    from Cons.IH [OF this] show ?thesis using l 4 Cons.prems(2) by simp
  next
    case 5
    from Cons.IH [OF resolves_setting [OF Cons.prems(1)]] show ?thesis using l 5 Cons.prems(2) by simp
  qed (use Cons l in simp_all)
qed simp

lemma read_with_simulates:
  assumes "sees t u"
    and "(inc = None \<and> rinc = None) \<or> (\<exists>f g. inc = Some f \<and> rinc = Some g \<and> simulates ulower f g
      \<and> (\<forall>p m. st_open u p = None \<longrightarrow> g p m = []))"
  shows "simulates ulower (ssh_read_with ulower glob t inc) (sshd_read_with ulower glob u rinc)"
  unfolding simulates_def
proof (intro conjI allI impI)
  have c: "counts_up f" if "inc = Some f" for f using assms(2) that by (auto simp: simulates_def)
  have g: "in_match_only (g p True)" if "rinc = Some g" for g p using assms(2) that by (auto simp: simulates_def)
  have n: "ss_files (snd (ssh_lines ulower glob t inc p 1 ls m s)) \<ge> ss_files s" for p ls m s
    using ssh_lines_counts [OF c] .
  show "counts_up (ssh_read_with ulower glob t inc)"
    unfolding counts_up_def
  proof (intro allI)
    fix p m s
    show "ss_files s \<le> ss_files (ssh_read_with ulower glob t inc p m s)"
      using n [of "touch_ssh p (s\<lparr>ss_files := Suc (ss_files s)\<rparr>)" p]
      by (auto simp: ssh_read_with_def Let_def split_beta split: option.split dest: Suc_leD)
  qed
  show m: "in_match_only (sshd_read_with ulower glob u rinc p True)" for p
    using g by (auto simp: sshd_read_with_def split: option.split intro!: sshd_lines_in_match)
  fix p m s "is"
  assume r: "resolves ulower s is" and b: "ss_files (ssh_read_with ulower glob t inc p m s) \<le> max_ssh_files"
  let ?s = "touch_ssh p (s\<lparr>ss_files := Suc (ss_files s)\<rparr>)" and ?is = "sshd_read_with ulower glob u rinc p m"
  have r: "resolves ulower ?s is" using r by (rule resolves_same) simp_all
  have l: "Suc (ss_files s) \<le> max_ssh_files" using b by (auto simp: ssh_read_with_def Let_def split: if_splits)
  have d: "m \<longrightarrow> in_match_only ?is" using m by (cases m) auto
  show "resolves ulower (ssh_read_with ulower glob t inc p m s) (is @ ?is)"
  proof (cases "st_open t p")
    case None
    then show ?thesis using l resolves_cannot_read [OF r d] by (simp add: ssh_read_with_def)
  next
    case (Some f)
    obtain content broke where f: "f = (content, broke)" by fastforce
    obtain ls err where sc: "scan_limited max_setup_file f = (ls, err)" by fastforce
    have small: "length content \<le> max_setup_file" "broke \<longrightarrow> content = []"
      using assms(1) Some f unfolding sees_def by (cases broke; fastforce)+
    show ?thesis
    proof (cases err)
      case True
      then have "ls = []" using scan_failed [OF small] sc f by (simp add: max_setup_file_def)
      then show ?thesis using l sc Some True resolves_cannot_read [OF r d] by (simp add: ssh_read_with_def)
    next
      case False
      then have ls: "ls = plain_lines content" using scan_small [OF small(1)] sc f by simp
      have "\<not> broke" using False sc f small(2) scan_whole [of max_setup_file content broke ls]
        by (cases broke) (simp_all add: max_setup_file_def)
      then have "st_open t p = Some (content, False)" using Some f by simp
      then have "st_open u p = Some (content, False)" using assms(1) unfolding sees_def by blast
      then have i: "?is = sshd_lines ulower glob u rinc ls m" by (simp add: sshd_read_with_def ls)
      have s: "ssh_read_with ulower glob t inc p m s = snd (ssh_lines ulower glob t inc p 1 ls m ?s)"
        using l sc Some False by (simp add: ssh_read_with_def split_beta)
      show ?thesis unfolding s i
        using ssh_lines_simulates [OF assms r, of glob p 1 ls m] b unfolding s by blast
    qed
  qed
qed

lemma sshd_file_missing: "st_open u p = None \<Longrightarrow> sshd_file ulower glob u k p m = []"
  by (cases k) (simp_all add: sshd_read_with_def)

lemma ssh_file_simulates: "sees t u \<Longrightarrow> simulates ulower (ssh_file ulower glob t k) (sshd_file ulower glob u k)"
proof (induction k)
  case (Suc k)
  then show ?case using sshd_file_missing by (simp add: read_with_simulates)
qed (simp add: read_with_simulates)

section \<open>What is reported\<close>

lemma new_state_resolves: "resolves ulower (new_ssh_state touched) []"
  by (simp add: resolves_def resolved_at_def new_ssh_state_def)

lemma cannot_read_names:
  "(ss_blocked s \<longrightarrow> ss_unreadable s \<noteq> []) \<Longrightarrow> ss_unreadable (cannot_read p m s) \<noteq> []"
  by (auto simp: cannot_read_def max_ssh_files_def)

definition owns_up :: "ssh_state \<Rightarrow> bool" where
  "owns_up s = (ss_blocked s \<longrightarrow> ss_unreadable s \<noteq> [])"

lemma owns_up_cannot_read: "owns_up s \<Longrightarrow> owns_up (cannot_read p m s)"
  using cannot_read_names by (simp add: owns_up_def)

lemma owns_up_same:
  "owns_up (touch_ssh p s) = owns_up s" "owns_up (s\<lparr>ss_files := n\<rparr>) = owns_up s"
  "owns_up (ssh_port p n a s) = owns_up s" "owns_up (ssh_setting ulower p n k args m s) = owns_up s"
  by (simp_all add: owns_up_def touch_ssh_def ssh_port_def ssh_setting_def Let_def split: option.split)

lemma expand_owns_up: "owns_up s \<Longrightarrow> owns_up (snd (expand glob t a m s))"
  by (simp add: expand_def Let_def owns_up_same owns_up_cannot_read split: looked.split)

lemma fold_owns_up: "\<forall>p m s. owns_up s \<longrightarrow> owns_up (f p m s) \<Longrightarrow> owns_up s \<Longrightarrow> owns_up (fold (\<lambda>p. f p m) ps s)"
  by (induction ps arbitrary: s) simp_all

lemma include_all_owns_up:
  "\<forall>p m s. owns_up s \<longrightarrow> owns_up (f p m s) \<Longrightarrow> owns_up s \<Longrightarrow> owns_up (include_all f glob t as m s)"
proof (induction "as" arbitrary: s)
  case (Cons a "as")
  then show ?case using expand_owns_up [of s glob t a m] fold_owns_up [of f] by (simp add: split_beta)
qed simp

lemma ssh_lines_owns_up:
  "\<forall>f. inc = Some f \<longrightarrow> (\<forall>p m s. owns_up s \<longrightarrow> owns_up (f p m s)) \<Longrightarrow> owns_up s
    \<Longrightarrow> owns_up (snd (ssh_lines ulower glob t inc p n ls m s))"
proof (induction ls arbitrary: n m s)
  case (Cons l ls)
  then show ?case
    by (cases inc) (simp_all add: split_beta owns_up_same include_all_owns_up)
qed simp

lemma ssh_file_owns_up: "owns_up s \<Longrightarrow> owns_up (ssh_file ulower glob t k p m s)"
proof (induction k arbitrary: p m s)
  case 0
  then show ?case
    by (auto simp: ssh_read_with_def Let_def split_beta owns_up_same ssh_lines_owns_up owns_up_cannot_read split: option.split)
next
  case (Suc k)
  then show ?case
    by (auto simp: ssh_read_with_def Let_def split_beta owns_up_same ssh_lines_owns_up owns_up_cannot_read split: option.split)
qed


text \<open>A machine whose settings include a file that only root may read.\<close>

definition example_main :: "string list" where
  "example_main = [''PermitRootLogin no'', ''Include sshd_config.d/*.conf'', ''PasswordAuthentication yes'']"

definition example_machine :: "bool \<Rightarrow> setup_tree" where
  "example_machine root =
     \<lparr>st_stat = (\<lambda>p. Found \<lparr>mk_size = 0, mk_mtime = 0, mk_mode = ''644''\<rparr>),
      st_lstat_missing = (\<lambda>p. False),
      st_list = (\<lambda>d. Found [(''50.conf'', False)]),
      st_open = (\<lambda>p. if p = sshd_config_path then Some (concat (map (\<lambda>l. l @ [CHR 0x0A]) example_main), False)
        else if root then Some (''PasswordAuthentication no'' @ [CHR 0x0A], False) else None)\<rparr>"

lemma scan_entries:
  assumes "\<forall>l\<in>set ls. CHR 0x0A \<notin> set l \<and> length l < m \<and> \<not> has_suffix l [CHR 0x0D]"
    "length (concat (map (\<lambda>l. l @ [CHR 0x0A]) ls)) \<le> m" "0 < m"
  shows "scan_limited m (concat (map (\<lambda>l. l @ [CHR 0x0A]) ls), False) = (ls, False)"
proof -
  have "\<forall>l\<in>set (split_on CHR 0x0A (concat (map (\<lambda>l. l @ [CHR 0x0A]) ls))). length l < m"
    using assms(1,3) split_on_lines [of ls "CHR 0x0A"] by auto
  then show ?thesis using assms file_lines_upto_entries [OF assms(1)]
    by (auto simp: scan_limited_def Let_def list_ex_iff not_le)
qed

lemma example_lines:
  "ssh_line id ''PermitRootLogin no'' = (''permitrootlogin'', [''no''])"
  "ssh_line id ''Include sshd_config.d/*.conf'' = (''include'', [''sshd_config.d/*.conf''])"
  "ssh_line id ''PasswordAuthentication yes'' = (''passwordauthentication'', [''yes''])"
  by code_simp+

lemma example_include:
  "include_path ''sshd_config.d/*.conf'' = ''/etc/ssh/sshd_config.d/*.conf''"
  "is_pattern ''/etc/ssh/sshd_config.d/*.conf''"
  "globbed (\<lambda>p n. True) ''/etc/ssh/sshd_config.d/*.conf'' [(''50.conf'', False)] = [''/etc/ssh/sshd_config.d/50.conf'']"
  by code_simp+

lemma ssh_file_refused:
  "st_open t p = None \<Longrightarrow> ssh_file ulower glob t k p m s
    = (if max_ssh_files < Suc (ss_files s) then s\<lparr>ss_files := Suc (ss_files s)\<rparr>
       else cannot_read p m (touch_ssh p (s\<lparr>ss_files := Suc (ss_files s)\<rparr>)))"
  by (cases k) (simp_all add: ssh_read_with_def Let_def)

lemma example_files:
  "ss_files (ssh_file id (\<lambda>p n. True) (example_machine False) max_ssh_depth sshd_config_path False
     (new_ssh_state (touch sshd_config_path []))) \<le> max_ssh_files"
proof -
  obtain k where k: "max_ssh_depth = Suc k" by (simp add: max_ssh_depth_def)
  let ?t = "example_machine False" and ?p = "''/etc/ssh/sshd_config.d/50.conf''"
  have o: "st_open ?t sshd_config_path = Some (concat (map (\<lambda>l. l @ [CHR 0x0A]) example_main), False)"
    "st_open ?t ?p = None" "st_list ?t d = Found [(''50.conf'', False)]" for d
    by (simp_all add: example_machine_def sshd_config_path_def)
  have s: "scan_limited max_setup_file (concat (map (\<lambda>l. l @ [CHR 0x0A]) example_main), False) = (example_main, False)"
    by (rule scan_entries) (simp_all add: example_main_def max_setup_file_def has_suffix_def)
  have i: "expand (\<lambda>p n. True) ?t ''sshd_config.d/*.conf'' m st
    = ([?p], touch_ssh (file_dir ''/etc/ssh/sshd_config.d/*.conf'') st)" for m st
    by (simp add: expand_def example_include o Let_def)
  show ?thesis
    by (simp add: k ssh_read_with_def o s Let_def new_ssh_state_def max_ssh_files_def)
      (simp add: example_main_def example_lines i ssh_file_refused [OF o(2)] max_ssh_files_def split_beta)
qed

lemma example_sees: "sees (example_machine False) (example_machine True)"
proof -
  have "length (concat (map (\<lambda>l. l @ [CHR 0x0A]) example_main)) \<le> max_setup_file"
    by (simp add: example_main_def max_setup_file_def)
  then show ?thesis by (simp add: sees_def example_machine_def)
qed


text \<open>Past a hundred files the next is passed over, and nothing it decides is called unknown.\<close>

lemma later_file_is_passed_over:
  "max_ssh_files \<le> ss_files s \<Longrightarrow>
     ssh_resolve (ssh_file ulower glob t k p m s) = ssh_resolve s \<and> ss_unreadable (ssh_file ulower glob t k p m s) = ss_unreadable s"
  by (cases k) (auto simp: ssh_read_with_def ssh_resolve_def Let_def fun_eq_iff split: option.splits)

text \<open>Of two groups with one number a user whose group it is becomes a member of the later only.\<close>

lemma shared_number_loses_a_member:
  "map (\<lambda>g. (ag_group g, ag_members g)) (admin_groups_of [''sudo:x:27:'', ''admin:x:27:''] (Some [''ann:x:1000:27::/:/bin/sh'']))
    = [(''sudo'', []), (''admin'', [''ann''])]"
  by code_simp

section \<open>Two readers of apt's configuration\<close>

text \<open>What a file sets does not depend on what was set before it.\<close>

lemma apt_parse_map_add: "apt_parse ulower scope ts (c ++ conf) = c ++ apt_parse ulower scope ts conf"
  by (induction ulower scope ts conf rule: apt_parse.induct)
    (simp_all flip: fun_upd_def)

lemma read_apt_file_adds: "read_apt_file ulower t p conf = conf ++ read_apt_file ulower t p Map.empty"
  using apt_parse_map_add [of ulower "[]" _ conf Map.empty]
  by (simp add: read_apt_file_def parse_apt_conf_def split: option.split)

definition agrees_with :: "(string \<rightharpoonup> string) \<Rightarrow> updates_setup \<Rightarrow> bool" where
  "agrees_with conf u =
     (us_setting u = clip (or_empty (conf ''apt::periodic::unattended-upgrade'')) max_setup_value
      \<and> us_periodic_enable u = clip (or_empty (conf ''apt::periodic::enable'')) max_setup_value)"

lemma agrees_file:
  assumes "agrees_with conf u"
  shows "agrees_with (read_apt_file ulower t p conf) (apt_updates_file ulower t p u)"
  using assms unfolding read_apt_file_adds [of ulower t p conf]
  by (simp add: agrees_with_def apt_updates_file_def Let_def map_add_def or_empty_def split: option.split)

lemma agrees_files:
  "agrees_with conf u \<Longrightarrow> agrees_with (fold (read_apt_file ulower t) ps conf) (fold (apt_updates_file ulower t) ps u)"
  by (induction ps arbitrary: conf u) (simp_all add: agrees_file)

text \<open>
  C32: The setting told beside where it is decided is the one by which the updates are called
  automatic: of values no longer than are sent, both say that the updates install by themselves, or both that they
  do not.
\<close>

theorem update_settings_agree:
  assumes "length (or_empty (read_apt_config ulower t ''apt::periodic::unattended-upgrade'')) \<le> max_setup_value"
    and "length (or_empty (read_apt_config ulower t ''apt::periodic::enable'')) \<le> max_setup_value"
  shows "au_enabled (unattended_upgrades ulower (read_apt_config ulower t))
    = (us_setting (fst (apt_updates ulower t touched)) \<noteq> []
       \<and> us_setting (fst (apt_updates ulower t touched)) \<noteq> ''0''
       \<and> us_periodic_enable (fst (apt_updates ulower t touched)) \<noteq> ''0'')"
proof -
  let ?u = "fold (apt_updates_file ulower t) (apt_parts t @ [apt_conf_main]) (updates_of ''debian'' ''unattended-upgrades'')"
  have "agrees_with Map.empty (updates_of ''debian'' ''unattended-upgrades'')"
    by (simp add: agrees_with_def updates_of_def or_empty_def clip_id)
  then have "agrees_with (read_apt_config ulower t) ?u"
    unfolding read_apt_config_def by (rule agrees_files)
  then show ?thesis using assms
    by (simp add: agrees_with_def apt_updates_def unattended_upgrades_def auto_update_of_def clip_id Let_def)
qed

definition example_apt :: setup_tree where
  "example_apt =
     \<lparr>st_stat = (\<lambda>p. Missing), st_lstat_missing = (\<lambda>p. True),
      st_list = (\<lambda>d. Found [(''20auto-upgrades'', False), (''20auto-upgrades.save'', False)]),
      st_open = (\<lambda>p. if p = ''/etc/apt/apt.conf.d/20auto-upgrades''
        then Some (concat (map (\<lambda>l. l @ [CHR 0x0A])
          [''// written by hand'', ''APT { Periodic { Unattended-Upgrade '' @ [CHR 0x22] @ ''1'' @ [CHR 0x22] @ ''; }; };'']), False)
        else None)\<rparr>"

lemma example_apt_config:
  "read_apt_config id example_apt = [''apt::periodic::unattended-upgrade'' \<mapsto> ''1'']"
proof -
  let ?ls = "[''// written by hand'', ''APT { Periodic { Unattended-Upgrade '' @ [CHR 0x22] @ ''1'' @ [CHR 0x22] @ ''; }; };'']"
  let ?ts = "[Word ''APT'', Open, Word ''Periodic'', Open, Word ''Unattended-Upgrade'', Str ''1'', Semi, Close, Semi, Close, Semi]"
  have l: "file_lines_upto max_config_bytes (concat (map (\<lambda>l. l @ [CHR 0x0A]) ?ls)) = ?ls"
    by (rule file_lines_upto_entries) (simp add: max_config_bytes_def has_suffix_def)
  have k: "take max_config_bytes (concat (map (\<lambda>l. l @ [CHR 0x0A]) ?ls)) = concat (map (\<lambda>l. l @ [CHR 0x0A]) ?ls)"
    by (rule take_all) (simp add: max_config_bytes_def)
  have ts: "apt_tokens False ?ls = ?ts" by code_simp
  have p: "apt_parse id [] ?ts Map.empty = [''apt::periodic::unattended-upgrade'' \<mapsto> ''1'']"
  proof -
    have "apt_key id [''apt'', ''periodic''] (Word ''Unattended-Upgrade'') = ''apt::periodic::unattended-upgrade''"
      "to_lower id ''APT'' = ''apt''" "to_lower id ''Periodic'' = ''periodic''" by code_simp+
    then show ?thesis by simp
  qed
  have f: "read_apt_file id example_apt ''/etc/apt/apt.conf.d/20auto-upgrades'' Map.empty
    = [''apt::periodic::unattended-upgrade'' \<mapsto> ''1'']"
    using l k ts p by (simp only: read_apt_file_def parse_apt_conf_def example_apt_def setup_tree.simps if_True option.case prod.case refl)
  have a: "apt_parts example_apt = [''/etc/apt/apt.conf.d/20auto-upgrades'']"
  proof -
    have "apt_part_name ''20auto-upgrades''" "\<not> apt_part_name ''20auto-upgrades.save''" by code_simp+
    then show ?thesis by (simp add: apt_parts_def example_apt_def max_apt_files_def apt_conf_dir_def)
  qed
  show ?thesis
    unfolding read_apt_config_def a
    by (simp add: f) (simp add: read_apt_file_def example_apt_def apt_conf_main_def)
qed

theorem update_settings_agree_witness:
  "us_setting (fst (apt_updates id example_apt [])) \<noteq> [] \<and> us_setting (fst (apt_updates id example_apt [])) \<noteq> ''0''
     \<and> us_periodic_enable (fst (apt_updates id example_apt [])) \<noteq> ''0''"
proof -
  have "au_enabled (unattended_upgrades id (read_apt_config id example_apt))"
    by (simp add: example_apt_config unattended_upgrades_def or_empty_def Let_def auto_update_of_def)
  then show ?thesis
    using update_settings_agree [of id example_apt "[]"]
    by (simp add: example_apt_config or_empty_def max_setup_value_def)
qed

end
