(* ===== verification/System_Facts.thy ===== *)
theory System_Facts
  imports Auto_Update Push Proc_Parse
begin

text \<open>
  What the machine says of itself, \<^verbatim>\<open>internal/collect/system.go\<close>: whether a restart is due, from flag files
  and from the installed kernels, and the facts read from single files. The date of the subscription's end is
  read and printed by the argument \<open>expiry\<close> (\<^verbatim>\<open>time.Parse\<close>, then UTC and \<^verbatim>\<open>Format\<close>).
\<close>

section \<open>Versions\<close>

definition version_letter :: "char \<Rightarrow> bool" where
  "version_letter c = (97 \<le> byte_val c \<and> byte_val c \<le> 122 \<or> 65 \<le> byte_val c \<and> byte_val c \<le> 90)"

text \<open>A run of digits becomes one hash; of a byte that is no UTF-8 the replacement is written.\<close>

function shape_from :: "bool \<Rightarrow> string \<Rightarrow> string" where
  "shape_from in_digits s =
     (if s = [] then []
      else if is_digit (hd s) then (if in_digits then [] else ''#'') @ shape_from True (tl s)
      else (let w = rune_width s in
        if w = 0 then replacement @ shape_from False (tl s) else take w s @ shape_from False (drop w s)))"
  by pat_completeness auto
termination by (relation "measure (\<lambda>(b, s). length s)") auto

declare shape_from.simps [simp del]

definition kernel_shape :: "string \<Rightarrow> string" where
  "kernel_shape v = shape_from False v"

function version_segments :: "string \<Rightarrow> string list" where
  "version_segments s =
     (if s = [] then []
      else if is_digit (hd s) then takeWhile is_digit s # version_segments (dropWhile is_digit s)
      else if version_letter (hd s) then takeWhile version_letter s # version_segments (dropWhile version_letter s)
      else version_segments (tl s))"
  by pat_completeness auto
termination
proof (relation "measure length")
  fix s :: string
  have "length (dropWhile P (tl s)) < length s" if "s \<noteq> []" for P
    using that length_dropWhile_le [of P "tl s"] by (cases s) auto
  then show "s \<noteq> [] \<Longrightarrow> is_digit (hd s) \<Longrightarrow> (dropWhile is_digit s, s) \<in> measure length"
    "s \<noteq> [] \<Longrightarrow> \<not> is_digit (hd s) \<Longrightarrow> version_letter (hd s) \<Longrightarrow> (dropWhile version_letter s, s) \<in> measure length"
    by (cases s; simp)+
qed auto

declare version_segments.simps [simp del]

definition sign :: "int \<Rightarrow> int" where
  "sign n = (if 0 < n then 1 else if n < 0 then - 1 else 0)"

text \<open>\<^verbatim>\<open>strings.Compare\<close>.\<close>

definition compare_strings :: "string \<Rightarrow> string \<Rightarrow> int" where
  "compare_strings x y = (if x < y then - 1 else if x = y then 0 else 1)"

definition compare_segment :: "string \<Rightarrow> string \<Rightarrow> int" where
  "compare_segment x y =
     (let xn = is_digit (hd x); yn = is_digit (hd y) in
      if xn \<and> \<not> yn then 1
      else if \<not> xn \<and> yn then - 1
      else if xn
      then (let x = trim_left_of ''0'' x; y = trim_left_of ''0'' y in
        if length x \<noteq> length y then sign (int (length x) - int (length y)) else compare_strings x y)
      else compare_strings x y)"

fun compare_segments :: "string list \<Rightarrow> string list \<Rightarrow> int" where
  "compare_segments (x # xs) (y # ys) =
     (let c = compare_segment x y in if c \<noteq> 0 then c else compare_segments xs ys)"
| "compare_segments xs ys = sign (int (length xs) - int (length ys))"

definition compare_versions :: "string \<Rightarrow> string \<Rightarrow> int" where
  "compare_versions a b = compare_segments (version_segments a) (version_segments b)"

section \<open>Whether a restart is due\<close>

definition newest_of :: "string \<Rightarrow> string list \<Rightarrow> string" where
  "newest_of running installed =
     fold (\<lambda>v newest. if kernel_shape v = kernel_shape running \<and> 0 < compare_versions v newest then v else newest)
       installed running"

definition newer_kernel :: "string \<Rightarrow> string list \<Rightarrow> string option" where
  "newer_kernel running installed =
     (if running \<notin> set installed then None
      else (let newest = newest_of running installed in if newest \<noteq> running then Some newest else None))"

definition max_system_field :: nat where "max_system_field = 128"
definition max_boot_id :: nat where "max_boot_id = 64"

definition reboot_flags :: "(string \<times> string) list" where
  "reboot_flags = [(''/var/run/reboot-required'', ''flag_file''), (''/run/reboot-needed'', ''zypper'')]"

definition modules_roots :: "string list" where
  "modules_roots = [''/lib/modules'', ''/usr/lib/modules'']"

definition installed_kernels :: "setup_tree \<Rightarrow> string \<Rightarrow> (string \<times> bool) list \<Rightarrow> string list" where
  "installed_kernels t dir es =
     map fst (filter (\<lambda>e. snd e \<and> file_exists t (dir @ ''/'' @ fst e @ ''/modules.dep'')) es)"

fun kernel_evidence :: "setup_tree \<Rightarrow> string \<Rightarrow> string list \<Rightarrow> string option" where
  "kernel_evidence t running [] = None"
| "kernel_evidence t running (dir # rs) =
     (case st_list t dir of
        Found es \<Rightarrow>
          (let installed = installed_kernels t dir es in
           if running \<notin> set installed then kernel_evidence t running rs else newer_kernel running installed)
      | _ \<Rightarrow> kernel_evidence t running rs)"

definition reboot_required :: "setup_tree \<Rightarrow> string \<Rightarrow> bool \<times> string \<times> string" where
  "reboot_required t running =
     (case List.find (\<lambda>f. file_exists t (fst f)) reboot_flags of
        Some f \<Rightarrow> (True, snd f, [])
      | None \<Rightarrow>
          if running = [] then (False, [], [])
          else (case kernel_evidence t running modules_roots of
              None \<Rightarrow> (False, [], [])
            | Some v \<Rightarrow> (True, ''newer_kernel'', clip v max_system_field)))"

section \<open>Facts of single files\<close>

fun os_name :: "string list \<Rightarrow> string" where
  "os_name [] = []"
| "os_name (l # ls) =
     (case index_byte l CHR ''='' of None \<Rightarrow> os_name ls
      | Some i \<Rightarrow>
          if trim_space (take i l) \<noteq> ''PRETTY_NAME'' then os_name ls
          else (let q = [CHR 0x22, CHR 0x27] in trim_right_of q (trim_left_of q (trim_space (drop (Suc i) l)))))"

definition parse_os_release :: "string \<Rightarrow> string" where
  "parse_os_release s = os_name (fst (file_lines s))"

fun oom_kills :: "string list \<Rightarrow> 64 word option" where
  "oom_kills [] = None"
| "oom_kills (l # ls) =
     (case index_byte l CHR 0x20 of None \<Rightarrow> oom_kills ls
      | Some i \<Rightarrow> if take i l \<noteq> ''oom_kill'' then oom_kills ls else parse_uint64 (trim_space (drop (Suc i) l)))"

definition parse_oom_kills :: "string \<Rightarrow> 64 word option" where
  "parse_oom_kills s = oom_kills (fst (file_lines s))"

text \<open>How many updates wait, how many of them for security, and whether the file says either.\<close>

fun stamp_lines :: "(string \<Rightarrow> string) \<Rightarrow> string list \<Rightarrow> int \<times> int \<times> bool \<Rightarrow> int \<times> int \<times> bool" where
  "stamp_lines ulower [] r = r"
| "stamp_lines ulower (l # ls) (pending, security, ok) =
     stamp_lines ulower ls
       (case go_fields l of [] \<Rightarrow> (pending, security, ok)
        | w # ws \<Rightarrow>
          (case atoi w of None \<Rightarrow> (pending, security, ok)
           | Some n \<Rightarrow>
             if contains (to_lower ulower l) ''security'' then (pending, n, True)
             else if contains (to_lower ulower l) ''update'' then (n, security, True)
             else (pending, security, ok)))"

definition parse_update_stamp :: "(string \<Rightarrow> string) \<Rightarrow> string \<Rightarrow> int \<times> int \<times> bool" where
  "parse_update_stamp ulower s = stamp_lines ulower (split_on CHR 0x0A s) (0, 0, False)"

section \<open>The subscription\<close>

text \<open>\<^verbatim>\<open>Decoder.Decode\<close>: the first value of a stream, with the rest of it unread.\<close>

definition decode_first :: "'r reader \<Rightarrow> string \<Rightarrow> 'r \<Rightarrow> 'r \<times> verdict" where
  "decode_first rd s r =
     (case List.find (\<lambda>n. parse_json (take n s) \<noteq> None) [0..<Suc (length s)] of
        None \<Rightarrow> (r, Go_Json.Refused)
      | Some n \<Rightarrow> unmarshal rd (take n s) r)"

record pro_service =
  ps_name :: string
  ps_status :: string

record pro_cache =
  pc_attached :: "bool option"
  pc_expires :: "json option"
  pc_services :: "pro_service list"

record pro_status =
  pro_attached :: bool
  pro_livepatch :: string
  pro_esm_infra :: string
  pro_expires :: string

definition service_fields :: "(string \<times> pro_service reader) list" where
  "service_fields =
     [(''name'', in_field ps_name (\<lambda>x r. r\<lparr>ps_name := x\<rparr>) read_str),
      (''status'', in_field ps_status (\<lambda>x r. r\<lparr>ps_status := x\<rparr>) read_str)]"

definition pro_fields :: "(string \<times> pro_cache reader) list" where
  "pro_fields =
     [(''attached'', in_field pc_attached (\<lambda>x r. r\<lparr>pc_attached := x\<rparr>) (read_pointer read_bool False)),
      (''expires'', \<lambda>v r. (r\<lparr>pc_expires := Some v\<rparr>, Fine)),
      (''services'', in_field pc_services (\<lambda>x r. r\<lparr>pc_services := x\<rparr>)
         (read_slice (read_struct service_fields) \<lparr>ps_name = [], ps_status = []\<rparr>))]"

definition no_pro_cache :: pro_cache where
  "no_pro_cache = \<lparr>pc_attached = None, pc_expires = None, pc_services = []\<rparr>"

definition last_status :: "string \<Rightarrow> pro_service list \<Rightarrow> string" where
  "last_status n ss =
     (case List.find (\<lambda>s. ps_name s = n) (rev ss) of None \<Rightarrow> [] | Some s \<Rightarrow> clip (ps_status s) max_state_bytes)"

definition pro_expiry :: "(string \<Rightarrow> string option) \<Rightarrow> pro_cache \<Rightarrow> string" where
  "pro_expiry expiry c =
     (case pc_expires c of None \<Rightarrow> []
      | Some v \<Rightarrow>
        (case read_str v [] of (s, e) \<Rightarrow> if e = Fine then or_empty (expiry s) else []))"

definition parse_pro_status :: "(string \<Rightarrow> string option) \<Rightarrow> string \<Rightarrow> pro_status option" where
  "parse_pro_status expiry s =
     (case decode_first (read_struct pro_fields) s no_pro_cache of
        (c, e) \<Rightarrow>
          (case (pc_attached c, e) of
             (Some attached, Fine) \<Rightarrow>
               Some \<lparr>pro_attached = attached, pro_livepatch = last_status ''livepatch'' (pc_services c),
                     pro_esm_infra = last_status ''esm-infra'' (pc_services c),
                     pro_expires = (if attached then pro_expiry expiry c else [])\<rparr>
           | _ \<Rightarrow> None))"

end
