(* ===== verification/System_Props.thy ===== *)
theory System_Props
  imports System_Facts "HOL-Library.Product_Lexorder"
begin

text \<open>
  Versions are compared by one order, with runs of digits as numbers, and the kernel a restart is due
  for is the greatest of those installed that are of the running one's kind.
\<close>

section \<open>Numbers written in digits\<close>

definition digits_from :: "nat \<Rightarrow> string \<Rightarrow> nat" where
  "digits_from a s = foldl (\<lambda>n c. 10 * n + (byte_val c - 48)) a s"

lemma digits_from_simps [simp]:
  "digits_from a [] = a" "digits_from a (c # s) = digits_from (10 * a + (byte_val c - 48)) s"
  by (simp_all add: digits_from_def)

lemma digits_from_bounds:
  "list_all is_digit s \<Longrightarrow> a * 10 ^ length s \<le> digits_from a s \<and> digits_from a s < Suc a * 10 ^ length s"
proof (induction s arbitrary: a)
  case (Cons c s)
  let ?d = "byte_val c - 48"
  have d: "?d \<le> 9" using Cons.prems by (auto simp: is_digit_def)
  have IH: "(10 * a + ?d) * 10 ^ length s \<le> digits_from (10 * a + ?d) s"
    "digits_from (10 * a + ?d) s < Suc (10 * a + ?d) * 10 ^ length s"
    using Cons by simp_all
  have "10 * a * 10 ^ length s \<le> (10 * a + ?d) * 10 ^ length s" by (intro mult_right_mono) simp_all
  moreover have "Suc (10 * a + ?d) * 10 ^ length s \<le> (10 * a + 10) * 10 ^ length s"
    using d by (intro mult_right_mono) simp_all
  ultimately show ?case using IH by (simp add: algebra_simps)
qed simp

text \<open>Of two runs of the same length the order of the text is the order of the numbers.\<close>

lemma digits_from_less:
  "length s = length t \<Longrightarrow> list_all is_digit s \<Longrightarrow> list_all is_digit t \<Longrightarrow> a < b \<Longrightarrow> digits_from a s < digits_from b t"
proof -
  assume a: "length s = length t" "list_all is_digit s" "list_all is_digit t" "a < b"
  have "digits_from a s < Suc a * 10 ^ length s" using digits_from_bounds a by blast
  also have "\<dots> \<le> b * 10 ^ length t" using a by (intro mult_mono) simp_all
  also have "\<dots> \<le> digits_from b t" using digits_from_bounds a by blast
  finally show ?thesis .
qed

lemma digit_order:
  "is_digit c \<Longrightarrow> is_digit d \<Longrightarrow> (c < d \<longleftrightarrow> byte_val c - 48 < byte_val d - 48) \<and> (c = d \<longleftrightarrow> byte_val c - 48 = byte_val d - 48)"
proof -
  assume d: "is_digit c" "is_digit d"
  have "(c = d) = (byte_val c = byte_val d)" by simp
  moreover have "(c < d) = (byte_val c < byte_val d)" by (simp only: less_char_def)
  ultimately show ?thesis using d unfolding is_digit_def by linarith
qed

lemma digits_from_order:
  "length s = length t \<Longrightarrow> list_all is_digit s \<Longrightarrow> list_all is_digit t
    \<Longrightarrow> (digits_from a s < digits_from a t \<longleftrightarrow> s < t) \<and> (digits_from a s = digits_from a t \<longleftrightarrow> s = t)"
proof (induction s t arbitrary: a rule: list_induct2)
  case (Cons c s d t)
  let ?x = "byte_val c - 48" and ?y = "byte_val d - 48"
  have o: "(c < d \<longleftrightarrow> ?x < ?y) \<and> (c = d \<longleftrightarrow> ?x = ?y)" using digit_order Cons.prems by simp
  consider "?x < ?y" | "?x = ?y" | "?y < ?x" by linarith
  then show ?case
  proof cases
    case 1
    then have "digits_from (10 * a + ?x) s < digits_from (10 * a + ?y) t"
      using Cons by (intro digits_from_less) simp_all
    then show ?thesis using 1 o by auto
  next
    case 2
    then show ?thesis using Cons o by simp
  next
    case 3
    then have "digits_from (10 * a + ?y) t < digits_from (10 * a + ?x) s"
      using Cons by (intro digits_from_less) simp_all
    then show ?thesis using 3 o by auto
  qed
qed simp

lemma digits_value_from: "digits_value s = digits_from 0 s"
  by (simp add: digits_value_def digits_from_def)

lemma digits_value_zeros: "digits_value (trim_left_of ''0'' s) = digits_value s"
proof -
  have "byte_val (CHR ''0'') = 48" by code_simp
  then have "digits_from 0 (dropWhile (\<lambda>c. c \<in> set ''0'') s) = digits_from 0 s"
    by (induction s) auto
  then show ?thesis by (simp add: digits_value_from trim_left_of_def)
qed

text \<open>A number without leading zeros is the longer the greater.\<close>

lemma digits_value_length:
  assumes "length s < length t" "list_all is_digit s" "list_all is_digit t" "hd t \<noteq> CHR ''0''"
  shows "digits_value s < digits_value t"
proof -
  obtain c r where t: "t = c # r" using assms(1) by (cases t) auto
  have "digits_value s < 10 ^ length s" using digits_from_bounds [OF assms(2), of 0] by (simp add: digits_value_from)
  also have "\<dots> \<le> 10 ^ length r" using assms(1) t by (intro power_increasing) simp_all
  also have "\<dots> \<le> (byte_val c - 48) * 10 ^ length r"
  proof -
    have z: "byte_val (CHR ''0'') = 48" by code_simp
    have "byte_val c \<noteq> 48"
    proof
      assume "byte_val c = 48"
      then have "c = CHR ''0''" using z by (metis of_char_eq_iff)
      then show False using assms(4) t by simp
    qed
    then have "1 \<le> byte_val c - 48" using assms(3) t by (auto simp: is_digit_def)
    then show ?thesis by simp
  qed
  also have "\<dots> \<le> digits_value t"
    using digits_from_bounds [of r "byte_val c - 48"] assms(3) t by (simp add: digits_value_from)
  finally show ?thesis .
qed

section \<open>The order of versions\<close>

text \<open>A version is a list of words and numbers; a number is above a word, and the rest goes by the first difference.\<close>

definition segment_key :: "string \<Rightarrow> nat \<times> nat \<times> string" where
  "segment_key s = (if is_digit (hd s) then (1, digits_value s, []) else (0, 0, s))"

definition version_key :: "string \<Rightarrow> (nat \<times> nat \<times> string) list" where
  "version_key v = map segment_key (version_segments v)"

definition three_way :: "'a::linorder \<Rightarrow> 'a \<Rightarrow> int" where
  "three_way a b = (if a < b then - 1 else if a = b then 0 else 1)"

definition good_segment :: "string \<Rightarrow> bool" where
  "good_segment s = (s \<noteq> [] \<and> (is_digit (hd s) \<longrightarrow> list_all is_digit s))"

lemma good_segments: "list_all good_segment (version_segments v)"
proof (induction v rule: version_segments.induct)
  case (1 s)
  have t: "list_all is_digit (takeWhile is_digit s)" by (auto simp: list_all_iff dest: set_takeWhileD)
  have l: "\<not> is_digit c" if "version_letter c" for c using that by (auto simp: is_digit_def version_letter_def)
  show ?case
  proof (cases s)
    case Nil
    then show ?thesis by (simp add: version_segments.simps)
  next
    case (Cons c r)
    have d: "good_segment (takeWhile is_digit s)" if "is_digit c"
      using that t Cons by (simp add: good_segment_def)
    have w: "good_segment (takeWhile version_letter s)" if "version_letter c"
      using that l [of c] Cons by (simp add: good_segment_def)
    show ?thesis using 1 Cons d w by (subst version_segments.simps) simp
  qed
qed

lemma list_longer: "length a < length b \<Longrightarrow> b \<noteq> []"
  by auto

lemma compare_numbers:
  assumes "list_all is_digit x" "list_all is_digit y"
  shows "(let x = trim_left_of ''0'' x; y = trim_left_of ''0'' y in
        if length x \<noteq> length y then sign (int (length x) - int (length y)) else compare_strings x y)
    = three_way (digits_value x) (digits_value y)"
proof -
  let ?x = "trim_left_of ''0'' x" and ?y = "trim_left_of ''0'' y"
  have d: "list_all is_digit ?x" "list_all is_digit ?y"
    using assms by (auto simp: trim_left_of_def list_all_iff dest: set_dropWhileD)
  have z: "hd (trim_left_of ''0'' s) \<noteq> CHR ''0''" if "trim_left_of ''0'' s \<noteq> []" for s
    using that hd_dropWhile [of "\<lambda>c. c \<in> set ''0''" s] by (auto simp: trim_left_of_def)
  consider "length ?x < length ?y" | "length ?y < length ?x" | "length ?x = length ?y" by linarith
  then show ?thesis
  proof cases
    case 1
    then have "digits_value ?x < digits_value ?y" using d z [OF list_longer [OF 1]] by (intro digits_value_length)
    then show ?thesis using 1 by (simp add: three_way_def digits_value_zeros sign_def)
  next
    case 2
    then have "digits_value ?y < digits_value ?x" using d z [OF list_longer [OF 2]] by (intro digits_value_length)
    then show ?thesis using 2 by (simp add: three_way_def digits_value_zeros sign_def)
  next
    case 3
    then show ?thesis using digits_from_order [OF 3 d, of 0]
      by (simp add: three_way_def compare_strings_def digits_value_from [symmetric] digits_value_zeros)
  qed
qed

lemma compare_segment_key:
  assumes "good_segment x" "good_segment y"
  shows "compare_segment x y = three_way (segment_key x) (segment_key y)"
proof (cases "is_digit (hd x) \<and> is_digit (hd y)")
  case True
  then show ?thesis using assms compare_numbers [of x y]
    by (simp add: compare_segment_def good_segment_def segment_key_def three_way_def Let_def)
next
  case False
  then show ?thesis
    by (auto simp: compare_segment_def segment_key_def three_way_def compare_strings_def Let_def)
qed

lemma compare_segments_key:
  "list_all good_segment xs \<Longrightarrow> list_all good_segment ys \<Longrightarrow>
     compare_segments xs ys = three_way (map segment_key xs) (map segment_key ys)"
proof (induction xs ys rule: compare_segments.induct)
  case (1 x xs y ys)
  then show ?case using compare_segment_key [of x y] by (auto simp: three_way_def Let_def split: if_splits)
qed (auto simp: three_way_def sign_def neq_Nil_conv)

lemma compare_versions_key: "compare_versions a b = three_way (version_key a) (version_key b)"
  by (simp add: compare_versions_def version_key_def compare_segments_key good_segments)

lemma newer_version: "0 < compare_versions a b \<longleftrightarrow> version_key b < version_key a"
  by (auto simp: compare_versions_key three_way_def)

section \<open>The newest kernel\<close>

lemma newest_fold:
  defines "step \<equiv> \<lambda>running v newest. if kernel_shape v = kernel_shape running \<and> 0 < compare_versions v newest then v else newest"
  assumes "kernel_shape n = kernel_shape running"
  shows "kernel_shape (fold (step running) vs n) = kernel_shape running
    \<and> fold (step running) vs n \<in> insert n (set vs)
    \<and> version_key n \<le> version_key (fold (step running) vs n)
    \<and> (fold (step running) vs n \<noteq> n \<longrightarrow> version_key n < version_key (fold (step running) vs n))
    \<and> (\<forall>v\<in>set vs. kernel_shape v = kernel_shape running \<longrightarrow> version_key v \<le> version_key (fold (step running) vs n))"
  using assms(2)
proof (induction vs arbitrary: n)
  case (Cons v vs)
  show ?case
  proof (cases "kernel_shape v = kernel_shape running \<and> 0 < compare_versions v n")
    case True
    then have "version_key n < version_key v" by (simp add: newer_version)
    then show ?thesis using Cons.IH [of v] True by (auto simp: step_def)
  next
    case False
    then have "kernel_shape v = kernel_shape running \<longrightarrow> version_key v \<le> version_key n" by (auto simp: newer_version)
    then show ?thesis using Cons.IH [of n] Cons.prems False by (auto simp: step_def)
  qed
qed simp



end
