(* ===== verification/Mount_Watch.thy ===== *)
theory Mount_Watch
  imports Proc_Parse Go_Time
begin

text \<open>
  The mounts of a reading: which are measured and how long one that does not answer is left alone
  (\<^verbatim>\<open>internal/collect/mountwatch.go\<close>, \<^verbatim>\<open>readMounts\<close> and \<^verbatim>\<open>statMount\<close> of \<^verbatim>\<open>linux.go\<close>), and the disks a
  mount is stored on (\<^verbatim>\<open>blockstack.go\<close>). The probes run at once; what arrives in time, and in which order, is an
  argument.
\<close>

section \<open>Disks\<close>

definition max_mount_disks :: nat where "max_mount_disks = 8"
definition max_stack_depth :: nat where "max_stack_depth = 8"
definition max_disk_name :: nat where "max_disk_name = 32"

text \<open>
  What sysfs shows of a device's folder: whether it is a partition, the folders of the devices it is built on
  (those whose link resolves), whether there are any, and which block devices are hardware.
\<close>

record sysfs =
  sy_partition :: "string \<Rightarrow> bool"
  sy_slaves :: "string \<Rightarrow> string list"
  sy_stacked :: "string \<Rightarrow> bool"
  sy_hardware :: "string \<Rightarrow> bool"

primrec walk_down :: "sysfs \<Rightarrow> nat \<Rightarrow> string \<Rightarrow> string list \<Rightarrow> string list" where
  "walk_down f 0 d out = out"
| "walk_down f (Suc k) d out =
     (if max_mount_disks \<le> length out then out
      else if sy_partition f d then walk_down f k (file_dir d) out
      else if sy_stacked f d then fold (walk_down f k) (sy_slaves f d) out
      else if file_base d \<notin> set out \<and> sy_hardware f (file_base d) then out @ [file_base d]
      else out)"

text \<open>The depths from nought to \<open>max_stack_depth\<close> are walked; \<open>None\<close> is a start that does not resolve.\<close>

definition whole_disks_from :: "sysfs \<Rightarrow> string option \<Rightarrow> string list" where
  "whole_disks_from f start =
     (case start of None \<Rightarrow> []
      | Some d \<Rightarrow> sort (map (\<lambda>n. clip n max_disk_name) (walk_down f (Suc max_stack_depth) d [])))"

definition dev_major :: "64 word \<Rightarrow> 64 word" where
  "dev_major d = or (and (drop_bit 8 d) 0xfff) (and (drop_bit 32 d) 0xfffff000)"

definition dev_minor :: "64 word \<Rightarrow> 64 word" where
  "dev_minor d = or (and d 0xff) (and (drop_bit 12 d) 0xffffff00)"

text \<open>How the links of sysfs and of \<^verbatim>\<open>/dev\<close> resolve.\<close>

record device_links =
  dl_numbers :: "64 word \<Rightarrow> 64 word \<Rightarrow> string option"
  dl_class :: "string \<Rightarrow> string option"
  dl_dev :: "string \<Rightarrow> string option"

definition whole_disks_named :: "sysfs \<Rightarrow> device_links \<Rightarrow> string \<Rightarrow> string list" where
  "whole_disks_named f ls n =
     (if n = [] \<or> n = ''.'' \<or> n = ''..'' \<or> CHR ''/'' \<in> set n then [] else whole_disks_from f (dl_class ls n))"

definition mount_disks_of :: "sysfs \<Rightarrow> device_links \<Rightarrow> 64 word option \<Rightarrow> string \<Rightarrow> string list" where
  "mount_disks_of f ls dev d =
     (case dev of
        Some n \<Rightarrow>
          if dev_major n \<noteq> 0 then whole_disks_from f (dl_numbers ls (dev_major n) (dev_minor n))
          else if \<not> has_prefix d ''/dev/'' then []
          else whole_disks_named f ls (file_base (case dl_dev ls d of Some r \<Rightarrow> r | None \<Rightarrow> d))
      | None \<Rightarrow>
          if \<not> has_prefix d ''/dev/'' then []
          else whole_disks_named f ls (file_base (case dl_dev ls d of Some r \<Rightarrow> r | None \<Rightarrow> d)))"

section \<open>One mount\<close>

text \<open>What \<^verbatim>\<open>stat\<close> and \<^verbatim>\<open>statfs\<close> say of a mount point.\<close>

record mount_stat =
  fst_is_dir :: bool
  fst_dev :: "64 word option"
  fst_statfs :: bool
  fst_bsize :: int
  fst_blocks :: "64 word"
  fst_avail :: "64 word"
  fst_files :: "64 word"
  fst_ffree :: "64 word"

definition max_mount_text :: nat where "max_mount_text = 191"

definition stat_mount :: "sysfs \<Rightarrow> device_links \<Rightarrow> mount_stat option \<Rightarrow> mount_entry \<Rightarrow> mount option" where
  "stat_mount f ls st e =
     (case st of None \<Rightarrow> None
      | Some s \<Rightarrow>
        if \<not> fst_is_dir s \<or> \<not> fst_statfs s then None
        else (let total = i64 (sint (fst_blocks s) * fst_bsize s);
                  avail = i64 (sint (fst_avail s) * fst_bsize s);
                  inodes = inode_counts (fst_files s) (fst_ffree s)
              in if total \<le> 0 then None
                 else Some \<lparr>mount_point = clip (me_point e) max_mount_text, device = clip (me_device e) max_mount_text,
                   used_bytes = i64 (total - avail), total_bytes = total,
                   inodes_used = map_option fst inodes, inodes_total = map_option snd inodes,
                   mount_disks = mount_disks_of f ls (fst_dev s) (me_device e)\<rparr>))"

section \<open>All mounts\<close>

definition mount_timeout :: int where "mount_timeout = 2 * 1000000000"
definition unresponsive_retry :: int where "unresponsive_retry = 10 * 60 * 1000000000"

text \<open>The mounts that did not answer, and until when each is left alone.\<close>

type_synonym blocklist = "string \<rightharpoonup> go_time"

definition blocked :: "go_time \<Rightarrow> string \<Rightarrow> blocklist \<Rightarrow> bool \<times> blocklist" where
  "blocked now p b =
     (case b p of None \<Rightarrow> (False, b)
      | Some deadline \<Rightarrow> if deadline < now then (False, b(p := None)) else (True, b))"

definition block_mount :: "go_time \<Rightarrow> string \<Rightarrow> blocklist \<Rightarrow> blocklist" where
  "block_mount now p b = b(p \<mapsto> now + unresponsive_retry)"

definition sort_mounts :: "mount list \<Rightarrow> mount list" where
  "sort_mounts ms = sort_key mount_point ms"

text \<open>
  The answers that come in time, in their order: the mount's entry and what it measured. The mounts that
  have not answered by then are told in the order of the entries; the code's map gives them in any.
\<close>

type_synonym probe_answer = "string \<times> mount option"

definition probe_mounts :: "mount_entry list \<Rightarrow> probe_answer list \<Rightarrow> mount list \<times> string list" where
  "probe_mounts es arrivals =
     (let ms = List.map_filter snd (take (length es) arrivals) in
      if length es \<le> length arrivals then (sort_mounts ms, [])
      else (ms, filter (\<lambda>p. p \<notin> set (map fst arrivals)) (remdups (map me_point es))))"

fun live_mounts :: "go_time \<Rightarrow> mount_entry list \<Rightarrow> blocklist \<Rightarrow> mount_entry list \<times> blocklist" where
  "live_mounts now [] b = ([], b)"
| "live_mounts now (e # es) b =
     (case blocked now (me_point e) b of
        (stuck, b) \<Rightarrow> (case live_mounts now es b of (ls, b) \<Rightarrow> (if stuck then ls else e # ls, b)))"

text \<open>
  \<open>readMounts\<close>: of the mount table, at a time, with the answers the probes of the live mounts give and
  the time it is when they are over. Also given are the mounts that were probed.
\<close>

definition read_mounts ::
  "string option \<Rightarrow> go_time \<Rightarrow> (mount_entry list \<Rightarrow> probe_answer list) \<Rightarrow> go_time \<Rightarrow> blocklist
     \<Rightarrow> mount list option \<times> mount_entry list \<times> blocklist" where
  "read_mounts content now probe after b =
     (case map_option parse_mounts content of
        Some (es, False) \<Rightarrow>
          (case live_mounts now es b of
             (live, b) \<Rightarrow>
               (case probe_mounts live (probe live) of
                  (ms, unanswered) \<Rightarrow> (Some (dedupe_mounts ms []), live, fold (block_mount after) unanswered b)))
      | _ \<Rightarrow> (None, [], b))"

end
