(* ===== verification/List_Facts.thy ===== *)
theory List_Facts
  imports Prelude "HOL-Library.Multiset"
begin

text \<open>Lists whose order is an accident: of two with the same elements, what does not look at the order is the same.\<close>

lemma sort_key_mset:
  assumes "mset xs = mset ys" "distinct (map f ys)"
  shows "sort_key f xs = sort_key f ys"
proof (rule properties_for_sort_key)
  show "mset (sort_key f ys) = mset xs" using assms(1) by simp
  show "sorted (map f (sort_key f ys))" by simp
  fix k assume k: "k \<in> set (sort_key f ys)"
  have d: "distinct (map f xs)" using assms by (metis mset_map mset_eq_imp_distinct_iff)
  have one: "filter (\<lambda>x. f k = f x) zs = [k]" if "distinct (map f zs)" "k \<in> set zs" for zs
    using that by (induction zs) (auto simp: filter_empty_conv image_iff)
  have "k \<in> set xs" "k \<in> set ys" using k assms(1) by (auto dest: mset_eq_setD)
  then have "filter (\<lambda>x. f k = f x) xs = [k]" "filter (\<lambda>x. f k = f x) (sort_key f ys) = [k]"
    using d assms(2) one k by (auto simp: distinct_map)
  then show "filter (\<lambda>x. f k = f x) (sort_key f ys) = filter (\<lambda>x. f k = f x) xs" by simp
qed

lemma map_filter_mset: "mset xs = mset ys \<Longrightarrow> mset (List.map_filter f xs) = mset (List.map_filter f ys)"
  by (simp add: List.map_filter_def mset_filter)

lemma in_map_filter: "y \<in> set (List.map_filter f xs) \<longleftrightarrow> (\<exists>x\<in>set xs. f x = Some y)"
  by (induction xs) (auto simp: List.map_filter_simps split: option.split)

lemma same_entries_map_of: "mset xs = mset ys \<Longrightarrow> distinct (map fst ys) \<Longrightarrow> map_of xs = map_of ys"
  by (metis map_of_inject_set mset_eq_setD mset_map mset_eq_imp_distinct_iff)

end
