(* ===== verification/Mount_Props.thy ===== *)
theory Mount_Props
  imports Mount_Watch List_Facts
begin

text \<open>
  What is measured does not depend on which mount answers first, as long as all do; a mount that does not answer is not
  asked again for ten minutes; and the disks told of a mount are those under it.
\<close>

section \<open>The order of the answers\<close>

text \<open>
  When every mount answers in time, the mounts told are the same in whatever order the answers come,
  for mounts at different places.
\<close>

theorem mounts_do_not_depend_on_the_order:
  assumes "mset arrivals = mset others" "length es \<le> length arrivals"
    "length arrivals \<le> length es" "distinct (map mount_point (List.map_filter snd others))"
  shows "probe_mounts es arrivals = probe_mounts es others"
proof -
  have "length others = length arrivals" using assms(1) by (metis size_mset)
  then show ?thesis using assms sort_key_mset [OF map_filter_mset [OF assms(1)] assms(4)]
    by (simp add: probe_mounts_def sort_mounts_def Let_def)
qed

definition example_mount :: "string \<Rightarrow> mount" where
  "example_mount p = \<lparr>mount_point = p, device = ''/dev/sda1'', used_bytes = 5, total_bytes = 10,
     inodes_used = None, inodes_total = None, mount_disks = [''sda'']\<rparr>"

definition example_entry :: "string \<Rightarrow> mount_entry" where
  "example_entry p = \<lparr>me_device = ''/dev/sda1'', me_point = p, me_fstype = ''ext4''\<rparr>"

theorem mounts_do_not_depend_on_the_order_witness:
  "probe_mounts [example_entry ''/'', example_entry ''/srv''] [(''/srv'', Some (example_mount ''/srv'')), (''/'', Some (example_mount ''/''))]
     = probe_mounts [example_entry ''/'', example_entry ''/srv''] [(''/'', Some (example_mount ''/'')), (''/srv'', Some (example_mount ''/srv''))]"
  by (rule mounts_do_not_depend_on_the_order)
    (simp_all add: List.map_filter_simps example_mount_def)

text \<open>
  When one does not answer, the others are told in the order they came: of two places one file system is
  mounted at, the one that is told is the one whose answer came first.
\<close>

lemma late_mounts_depend_on_the_order:
  "map mount_point (dedupe_mounts (fst (probe_mounts [example_entry ''/'', example_entry ''/srv'', example_entry ''/net'']
      [(''/srv'', Some (example_mount ''/srv'')), (''/'', Some (example_mount ''/''))])) []) = [''/srv'']
   \<and> map mount_point (dedupe_mounts (fst (probe_mounts [example_entry ''/'', example_entry ''/srv'', example_entry ''/net'']
      [(''/'', Some (example_mount ''/'')), (''/srv'', Some (example_mount ''/srv''))])) []) = [''/'']"
  by code_simp

section \<open>A mount that does not answer\<close>

text \<open>One collection of the mounts: the table, when it begins, what the probes answer and when they are over.\<close>

type_synonym mount_round = "string option \<times> go_time \<times> (mount_entry list \<Rightarrow> probe_answer list) \<times> go_time"

fun mount_rounds :: "mount_round list \<Rightarrow> blocklist \<Rightarrow> mount_entry list list" where
  "mount_rounds [] b = []"
| "mount_rounds ((c, now, probe, after) # rs) b =
     (case read_mounts c now probe after b of (ms, live, b) \<Rightarrow> live # mount_rounds rs b)"

lemma live_mounts_blocked:
  "b p = Some d \<Longrightarrow> now \<le> d \<Longrightarrow> live_mounts now es b = (live, b2) \<Longrightarrow> p \<notin> me_point ` set live \<and> b2 p = Some d"
proof (induction es arbitrary: b live b2)
  case (Cons e es)
  obtain stuck b1 where s: "blocked now (me_point e) b = (stuck, b1)" by fastforce
  obtain ls where l: "live_mounts now es b1 = (ls, b2)" "live = (if stuck then ls else e # ls)"
    using Cons.prems(3) s by (auto split: prod.splits)
  have b1: "b1 p = Some d" and e: "me_point e = p \<longrightarrow> stuck"
    using s Cons.prems(1,2) by (auto simp: blocked_def split: option.splits if_splits)
  show ?case using Cons.IH [OF b1 Cons.prems(2) l(1)] l(2) e by auto
qed simp

lemma live_mounts_points: "live_mounts now es b = (live, b2) \<Longrightarrow> set live \<subseteq> set es"
proof (induction es arbitrary: b live b2)
  case (Cons e es)
  then show ?case by (fastforce split: prod.splits if_splits)
qed simp

lemma block_others: "p \<notin> set ps \<Longrightarrow> fold (block_mount t) ps b p = b p"
  by (induction ps arbitrary: b) (simp_all add: block_mount_def)

lemma block_one: "p \<in> set ps \<Longrightarrow> fold (block_mount t) ps b p = Some (t + unresponsive_retry)"
proof (induction ps arbitrary: b)
  case (Cons q ps)
  have "block_mount t p b p = Some (t + unresponsive_retry)" for b by (simp add: block_mount_def)
  then show ?case using Cons by (cases "p \<in> set ps") (auto simp: block_others)
qed simp

lemma read_mounts_blocked:
  assumes "b p = Some d" "now \<le> d" "read_mounts c now probe after b = (ms, live, b2)"
  shows "p \<notin> me_point ` set live \<and> b2 p = Some d"
proof (cases "map_option parse_mounts c")
  case None
  then show ?thesis using assms by (auto simp: read_mounts_def)
next
  case (Some t)
  obtain es broke where t: "t = (es, broke)" by fastforce
  show ?thesis
  proof (cases broke)
    case True
    then show ?thesis using assms Some t by (auto simp: read_mounts_def)
  next
    case False
    obtain ls b1 where l: "live_mounts now es b = (ls, b1)" by fastforce
    have p: "p \<notin> me_point ` set ls" "b1 p = Some d" using live_mounts_blocked [OF assms(1,2) l] by simp_all
    then have "p \<notin> set (snd (probe_mounts ls (probe ls)))" by (auto simp: probe_mounts_def Let_def)
    then show ?thesis using assms(3) Some t False l p
      by (auto simp: read_mounts_def block_others split: prod.splits)
  qed
qed

lemma rounds_blocked:
  "b p = Some d \<Longrightarrow> \<forall>(c, now, probe, after)\<in>set rs. now \<le> d \<Longrightarrow> live \<in> set (mount_rounds rs b) \<Longrightarrow> p \<notin> me_point ` set live"
proof (induction rs arbitrary: b)
  case (Cons r rs)
  obtain c now probe after where r: "r = (c, now, probe, after)" by (cases r) auto
  obtain ms l b2 where m: "read_mounts c now probe after b = (ms, l, b2)" by (cases "read_mounts c now probe after b") auto
  have a: "p \<notin> me_point ` set l \<and> b2 p = Some d"
    using read_mounts_blocked [OF Cons.prems(1) _ m] Cons.prems(2) r by simp
  then show ?case using Cons r m by auto
qed simp

text \<open>
  C30: A mount that was asked and did not answer is not asked again in any collection that begins within ten
  minutes of the end of that one, so of its probes at most one more hangs in ten minutes.
\<close>

theorem stuck_mount_is_left_alone:
  assumes "read_mounts c now probe after b = (ms, live, b2)"
    and "p \<in> me_point ` set live" "length (probe live) < length live" "p \<notin> fst ` set (probe live)"
    and "\<forall>(c, now, probe, t)\<in>set rs. now \<le> after + unresponsive_retry"
  shows "list_all (\<lambda>l. p \<notin> me_point ` set l) (mount_rounds rs b2)"
proof -
  obtain es broke where t: "map_option parse_mounts c = Some (es, broke)"
    using assms(1,2) by (cases "map_option parse_mounts c") (auto simp: read_mounts_def)
  have "\<not> broke" using assms(1,2) t by (auto simp: read_mounts_def)
  moreover obtain ls b1 where l: "live_mounts now es b = (ls, b1)" by fastforce
  ultimately have r: "live = ls" "b2 = fold (block_mount after) (snd (probe_mounts ls (probe ls))) b1"
    using assms(1) t by (auto simp: read_mounts_def split: prod.splits)
  have "p \<in> set (snd (probe_mounts ls (probe ls)))"
    using assms(2-4) r(1) by (auto simp: probe_mounts_def Let_def)
  then have "b2 p = Some (after + unresponsive_retry)" using r(2) block_one by simp
  then show ?thesis using rounds_blocked [of b2 p _ rs] assms(5) unfolding list_all_iff by blast
qed

theorem stuck_mount_is_left_alone_witness:
  "list_all (\<lambda>l. ''/net'' \<notin> me_point ` set l)
     (mount_rounds [(Some ''nfs:/ /net nfs rw 0 0'', 60000000000, \<lambda>es. [], 62000000000)]
       (snd (snd (read_mounts (Some ''nfs:/ /net nfs rw 0 0'') 0 (\<lambda>es. []) 2000000000 Map.empty))))"
proof -
  have w: "go_fields ''nfs:/ /net nfs rw 0 0'' = [''nfs:/'', ''/net'', ''nfs'', ''rw'', ''0'', ''0'']" by code_simp
  have l: "file_lines ''nfs:/ /net nfs rw 0 0'' = ([''nfs:/ /net nfs rw 0 0''], False)"
    by (simp add: file_lines_def trim_suffix_def has_suffix_def)
  have "mount_of_line ''nfs:/ /net nfs rw 0 0'' = Some \<lparr>me_device = ''nfs:/'', me_point = ''/net'', me_fstype = ''nfs''\<rparr>"
    by (simp add: mount_of_line_def w pseudo_filesystems_def)
  then have "parse_mounts ''nfs:/ /net nfs rw 0 0'' = ([\<lparr>me_device = ''nfs:/'', me_point = ''/net'', me_fstype = ''nfs''\<rparr>], False)"
    by (simp add: parse_mounts_def l mounts_of_lines_def)
  then have r: "read_mounts (Some ''nfs:/ /net nfs rw 0 0'') 0 (\<lambda>es. []) 2000000000 Map.empty
      = (Some [], [\<lparr>me_device = ''nfs:/'', me_point = ''/net'', me_fstype = ''nfs''\<rparr>],
         block_mount 2000000000 ''/net'' Map.empty)"
    by (simp add: read_mounts_def blocked_def probe_mounts_def List.map_filter_simps)
  show ?thesis unfolding r snd_conv
    by (rule stuck_mount_is_left_alone [OF r]) (simp_all add: unresponsive_retry_def)
qed

section \<open>Disks\<close>

text \<open>How the C library puts the two numbers of a device into one, for numbers of 32 bits.\<close>

definition make_dev :: "64 word \<Rightarrow> 64 word \<Rightarrow> 64 word" where
  "make_dev ma mi =
     or (or (push_bit 32 (and ma 0xfffff000)) (push_bit 8 (and ma 0xfff)))
        (or (push_bit 12 (and mi 0xffffff00)) (and mi 0xff))"

lemma dev_masks:
  "(0xfff :: 64 word) = mask 12" "(0xff :: 64 word) = mask 8"
  "(0xfffff000 :: 64 word) = push_bit 12 (mask 20)" "(0xffffff00 :: 64 word) = push_bit 8 (mask 24)"
  by (simp_all add: mask_eq_exp_minus_1 push_bit_eq_mult)

lemma small_word_bit: "(w :: 64 word) < 2 ^ 32 \<Longrightarrow> bit w n \<Longrightarrow> n < 32"
proof -
  assume w: "w < 2 ^ 32" and b: "bit w n"
  have "uint w < 2 ^ 32" using w by (simp add: word_less_def)
  then have "take_bit 32 (uint w) = uint w" by (simp add: take_bit_int_eq_self)
  moreover have "bit (uint w) n" using b bit_imp_le_length [OF b] by (simp add: bit_uint_iff)
  ultimately show ?thesis by (metis bit_take_bit_iff)
qed

lemma make_dev_bit:
  "bit (make_dev ma mi) m \<longleftrightarrow> m < 64 \<and>
     (44 \<le> m \<and> bit ma (m - 32) \<or> 8 \<le> m \<and> m < 20 \<and> bit ma (m - 8)
      \<or> 20 \<le> m \<and> m < 44 \<and> bit mi (m - 12) \<or> m < 8 \<and> bit mi m)"
proof -
  consider "m < 8" | "8 \<le> m \<and> m < 20" | "20 \<le> m \<and> m < 44" | "44 \<le> m \<and> m < 64" | "64 \<le> m" by linarith
  then show ?thesis
    by cases (auto simp: make_dev_def dev_masks bit_or_iff bit_and_iff bit_push_bit_iff bit_mask_iff)
qed

text \<open>
  A device's number gives back both of the numbers it was made of, all 32 bits of them.
\<close>

theorem device_numbers_read_back:
  assumes "ma < 2 ^ 32" "mi < 2 ^ 32"
  shows "dev_major (make_dev ma mi) = ma \<and> dev_minor (make_dev ma mi) = mi"
proof
  show "dev_major (make_dev ma mi) = ma"
  proof (rule bit_word_eqI)
    fix n assume "n < LENGTH(64)"
    have s: "bit ma n \<Longrightarrow> n < 32" by (rule small_word_bit [OF assms(1)])
    have m: "bit (0xfff :: 64 word) n = (n < 12)" "bit (0xfffff000 :: 64 word) n = (12 \<le> n \<and> n < 32)"
      by (auto simp: dev_masks bit_push_bit_iff bit_mask_iff)
    have "bit (dev_major (make_dev ma mi)) n = (bit (make_dev ma mi) (8 + n) \<and> n < 12 \<or> bit (make_dev ma mi) (32 + n) \<and> 12 \<le> n \<and> n < 32)"
      by (simp add: dev_major_def bit_or_iff bit_and_iff bit_drop_bit_eq m del: bit_numeral_word_iff)
    also have "\<dots> = bit ma n"
      unfolding make_dev_bit using s by (cases "n < 12") auto
    finally show "bit (dev_major (make_dev ma mi)) n = bit ma n" .
  qed
  show "dev_minor (make_dev ma mi) = mi"
  proof (rule bit_word_eqI)
    fix n assume "n < LENGTH(64)"
    have s: "bit mi n \<Longrightarrow> n < 32" by (rule small_word_bit [OF assms(2)])
    have m: "bit (0xff :: 64 word) n = (n < 8)" "bit (0xffffff00 :: 64 word) n = (8 \<le> n \<and> n < 32)"
      by (auto simp: dev_masks bit_push_bit_iff bit_mask_iff)
    have "bit (dev_minor (make_dev ma mi)) n = (bit (make_dev ma mi) n \<and> n < 8 \<or> bit (make_dev ma mi) (12 + n) \<and> 8 \<le> n \<and> n < 32)"
      by (simp add: dev_minor_def bit_or_iff bit_and_iff bit_drop_bit_eq m del: bit_numeral_word_iff)
    also have "\<dots> = bit mi n"
      unfolding make_dev_bit using s by (cases "n < 8") auto
    finally show "bit (dev_minor (make_dev ma mi)) n = bit mi n" .
  qed
qed

theorem device_numbers_read_back_witness:
  "dev_major (make_dev 259 1048577) = 259 \<and> dev_minor (make_dev 259 1048577) = 1048577"
  by (rule device_numbers_read_back) simp_all

text \<open>The disks reached from a device through at most so many links.\<close>

primrec disks_under :: "sysfs \<Rightarrow> nat \<Rightarrow> string \<Rightarrow> string set" where
  "disks_under f 0 d = {}"
| "disks_under f (Suc k) d =
     (if sy_partition f d then disks_under f k (file_dir d)
      else if sy_stacked f d then \<Union> (disks_under f k ` set (sy_slaves f d))
      else if sy_hardware f (file_base d) then {file_base d} else {})"

lemma walk_down_grows: "\<exists>xs. walk_down f k d out = out @ xs"
proof (induction k arbitrary: d out)
  case (Suc k)
  have "\<exists>xs. fold (walk_down f k) ds out = out @ xs" for ds out
  proof (induction ds arbitrary: out)
    case (Cons e ds)
    then show ?case using Suc [of e out] by (metis append_assoc fold_simps(2))
  qed simp
  then show ?case using Suc by auto
qed simp

lemma fold_walk_grows: "\<exists>xs. fold (walk_down f k) ds out = out @ xs"
proof (induction ds arbitrary: out)
  case (Cons e ds)
  then show ?case using walk_down_grows [of f k e out] by (metis append_assoc fold_simps(2))
qed simp

lemma walk_down_bound: "length out \<le> max_mount_disks \<Longrightarrow> length (walk_down f k d out) \<le> max_mount_disks"
proof (induction k arbitrary: d out)
  case (Suc k)
  have "length out \<le> max_mount_disks \<Longrightarrow> length (fold (walk_down f k) ds out) \<le> max_mount_disks" for ds out
    using Suc.IH by (induction ds arbitrary: out) simp_all
  then show ?case using Suc by simp
qed simp

lemma walk_down_set:
  "length (walk_down f k d out) < max_mount_disks \<Longrightarrow> set (walk_down f k d out) = set out \<union> disks_under f k d"
proof (induction k arbitrary: d out)
  case (Suc k)
  have f: "length (fold (walk_down f k) ds out) < max_mount_disks
    \<Longrightarrow> set (fold (walk_down f k) ds out) = set out \<union> \<Union> (disks_under f k ` set ds)" for ds out
  proof (induction ds arbitrary: out)
    case (Cons e ds)
    obtain xs where "fold (walk_down f k) ds (walk_down f k e out) = walk_down f k e out @ xs"
      using fold_walk_grows by blast
    then have "length (walk_down f k e out) < max_mount_disks" using Cons.prems by simp
    then show ?case using Cons Suc.IH by auto
  qed simp
  show ?case
  proof (cases "max_mount_disks \<le> length out")
    case True
    then show ?thesis using Suc.prems by simp
  next
    case False
    then show ?thesis using Suc f [of "sy_slaves f d" out] by auto
  qed
qed simp

lemma walk_down_distinct: "distinct out \<Longrightarrow> distinct (walk_down f k d out)"
proof (induction k arbitrary: d out)
  case (Suc k)
  have "distinct out \<Longrightarrow> distinct (fold (walk_down f k) ds out)" for ds out
    using Suc.IH by (induction ds arbitrary: out) simp_all
  then show ?case using Suc by auto
qed simp


end
