(* ===== verification/Processes.thy ===== *)
theory Processes
  imports Packages Go_Seconds Login_Unit
begin

text \<open>
  The list of processes of a reading: \<^verbatim>\<open>readProcesses\<close> of \<^verbatim>\<open>internal/collect/linux.go\<close>, with what each process belongs
  to (\<^verbatim>\<open>cgroup.go\<close>) and the services it hosts (\<^verbatim>\<open>hosted.go\<close>). What the files of \<^verbatim>\<open>/proc\<close> hold when they
  are read is an argument; a file that cannot be read is \<open>None\<close>.
\<close>

section \<open>What a process belongs to\<close>

definition short_id :: "string \<Rightarrow> string" where
  "short_id s = take 12 s"

text \<open>\<^verbatim>\<open>hex.DecodeString\<close> of as many bytes as make pairs.\<close>

definition is_hex_id :: "string \<Rightarrow> bool" where
  "is_hex_id s = (12 \<le> length s \<and> list_all is_hex (take (length s - length s mod 2) s))"

definition max_unit_name :: nat where "max_unit_name = 255"
definition max_command :: nat where "max_command = 255"

text \<open>The segments of a path from the last; the owner is the first that names one: a unit, or a container.\<close>

fun owner_of :: "string list \<Rightarrow> (string \<times> string) option" where
  "owner_of [] = None"
| "owner_of (seg # rest) =
     (if has_prefix seg ''docker-'' \<and> has_suffix seg ''.scope''
      then Some ([], short_id (trim_suffix (trim_prefix seg ''docker-'') ''.scope''))
      else if has_prefix seg ''libpod-'' \<and> has_suffix seg ''.scope''
      then Some ([], short_id (trim_suffix (trim_prefix seg ''libpod-'') ''.scope''))
      else if rest \<noteq> [] \<and> hd rest = ''docker'' \<and> is_hex_id seg then Some ([], short_id seg)
      else if has_suffix seg ''.service'' then Some (clip (reported seg) max_unit_name, [])
      else owner_of rest)"

definition cgroup_path :: "string \<Rightarrow> string option" where
  "cgroup_path l =
     (case index_byte l CHR '':'' of None \<Rightarrow> None
      | Some i \<Rightarrow>
        (case index_byte (drop (Suc i) l) CHR '':'' of None \<Rightarrow> None
         | Some j \<Rightarrow> Some (drop (i + j + 2) l)))"

fun owner_lines :: "string list \<Rightarrow> string \<times> string" where
  "owner_lines [] = ([], [])"
| "owner_lines (l # ls) =
     (case Option.bind (cgroup_path l)
             (\<lambda>p. owner_of (rev (split_on CHR ''/'' (trim_right_of ''/'' (trim_left_of ''/'' p))))) of
        Some o2 \<Rightarrow> o2
      | None \<Rightarrow> owner_lines ls)"

definition parse_cgroup_owner :: "string \<Rightarrow> string \<times> string" where
  "parse_cgroup_owner body = owner_lines (split_on CHR 0x0A body)"

section \<open>One process\<close>

definition user_hz :: int where "user_hz = 100"

text \<open>
  What is read of \<^verbatim>\<open>/proc\<close>: the names in it, the stat file of the machine, and of each process its stat, statm,
  command line and cgroup, what the packages read, and its stat again after the interval.
\<close>

record proc_reads =
  pr_names :: "string list option"
  pr_machine :: "string option"
  pr_stat :: "int \<Rightarrow> string option"
  pr_statm :: "int \<Rightarrow> string option"
  pr_cmdline :: "int \<Rightarrow> string option"
  pr_cgroup :: "int \<Rightarrow> string option"
  pr_view :: "int \<Rightarrow> proc_view"
  pr_later :: "int \<Rightarrow> string option"

definition booted_at :: "proc_reads \<Rightarrow> int" where
  "booted_at r = (case Option.bind (pr_machine r) parse_boot_time of None \<Rightarrow> 0 | Some t \<Rightarrow> t)"

text \<open>The division of Go cuts towards zero.\<close>

definition started_at :: "int \<Rightarrow> proc_times \<Rightarrow> go_time" where
  "started_at booted t = i64 (booted + sgn (pt_start t) * (\<bar>pt_start t\<bar> div user_hz)) * second_ns"

definition full_command :: "string \<Rightarrow> string" where
  "full_command args = trim_space (map (\<lambda>c. if c = CHR 0x00 then CHR 0x20 else c) args)"

definition shown_command :: "bool \<Rightarrow> string \<Rightarrow> string option \<Rightarrow> string" where
  "shown_command with_args comm cmdline =
     (case (if with_args then cmdline else None) of
        Some a \<Rightarrow> if full_command a \<noteq> [] then clip (full_command a) max_command else clip comm max_command
      | None \<Rightarrow> clip comm max_command)"

definition read_process :: "bool \<Rightarrow> int \<Rightarrow> proc_reads \<Rightarrow> string \<Rightarrow> (process \<times> proc_times option) option" where
  "read_process with_args page_size r n =
     (case atoi_strict n of None \<Rightarrow> None
      | Some pid \<Rightarrow>
        (case pr_stat r pid of None \<Rightarrow> None
         | Some stat \<Rightarrow>
           (case parse_proc_comm stat of None \<Rightarrow> None
            | Some comm \<Rightarrow>
              (let t = parse_proc_times stat in
               Some (\<lparr>p_command = shown_command with_args comm (pr_cmdline r pid), p_cpu = None,
                      p_memory = Option.bind (pr_statm r pid) (\<lambda>s. parse_statm_rss s page_size),
                      p_pid = pid,
                      p_started = (if 0 < booted_at r then map_option (started_at (booted_at r)) t else None),
                      p_unit = [], p_container = [], p_package = None, p_services = []\<rparr>, t)))))"

definition with_owner :: "proc_reads \<Rightarrow> process \<Rightarrow> process" where
  "with_owner r p =
     (case pr_cgroup r (p_pid p) of None \<Rightarrow> p
      | Some body \<Rightarrow> (case parse_cgroup_owner body of (u, c) \<Rightarrow> p\<lparr>p_unit := u, p_container := c\<rparr>))"

text \<open>The share of one processor between two readings of one process; a process of another start is another one.\<close>

definition cpu_share :: "int \<Rightarrow> proc_times \<Rightarrow> proc_times \<Rightarrow> rat option" where
  "cpu_share interval was now =
     (if pt_start now \<noteq> pt_start was \<or> pt_cpu now < pt_cpu was then None
      else (let ticks = fl (seconds_of interval * of_int user_hz) in
        Some (min (fl (float_div (float_of_int (uint (pt_cpu now - pt_cpu was))) ticks * 100)) 100)))"

definition with_share :: "int \<Rightarrow> (int \<rightharpoonup> proc_times) \<Rightarrow> proc_reads \<Rightarrow> process \<Rightarrow> process" where
  "with_share interval earlier r p =
     (case (earlier (p_pid p), Option.bind (pr_later r (p_pid p)) parse_proc_times) of
        (Some was, Some now) \<Rightarrow> (case cpu_share interval was now of None \<Rightarrow> p | Some c \<Rightarrow> p\<lparr>p_cpu := Some c\<rparr>)
      | _ \<Rightarrow> p)"

section \<open>The list\<close>

definition times_of :: "(process \<times> proc_times option) list \<Rightarrow> (int \<rightharpoonup> proc_times)" where
  "times_of ps =
     fold (\<lambda>(p, t) m. case t of None \<Rightarrow> m | Some x \<Rightarrow> m(p_pid p \<mapsto> x)) ps Map.empty"

definition read_processes ::
  "bool \<Rightarrow> int \<Rightarrow> int \<Rightarrow> int \<Rightarrow> proc_reads \<Rightarrow> dpkg_folder \<Rightarrow> go_time \<Rightarrow> package_index option
     \<Rightarrow> process list option \<times> package_index option" where
  "read_processes with_args limit interval page_size r d now x =
     (case pr_names r of None \<Rightarrow> (None, x)
      | Some names \<Rightarrow>
        (let ps = List.map_filter (read_process with_args page_size r) names;
             top = map (with_owner r) (top_by_memory (map fst ps) limit)
         in case attach_packages d (pr_view r) now x top of
              (top, x) \<Rightarrow>
                (Some (if 0 < interval \<and> top \<noteq> [] then map (with_share interval (times_of ps) r) top else top), x)))"

section \<open>The services a process hosts\<close>

definition max_hosted_services :: nat where "max_hosted_services = 16"
definition max_hosted_name :: nat where "max_hosted_name = 128"

definition attach_hosted :: "(int \<Rightarrow> string list) \<Rightarrow> process \<Rightarrow> process" where
  "attach_hosted hosted p =
     (if p_pid p \<le> 0 then p
      else (let ns = take max_hosted_services
                  (sort (filter (\<lambda>n. n \<noteq> []) (map (\<lambda>n. clip n max_hosted_name) (hosted (p_pid p)))))
            in if ns = [] then p else p\<lparr>p_services := ns\<rparr>))"

end
