(* ===== verification/Process_Props.thy ===== *)
theory Process_Props
  imports Processes
begin

text \<open>
  What the list of processes says of each: its own name, the unit or container it is in without the name of a login,
  a package only outside containers, and a share of processor time of this very process.
\<close>

section \<open>What it belongs to\<close>

definition told_unit :: "string \<Rightarrow> bool" where
  "told_unit u = (u = [] \<or> (\<exists>v. \<not> is_instance v \<and> u = clip v max_unit_name))"

lemma reported_private: "\<not> is_instance (reported u)"
  using reported_facts(3) [of u] by (cases "is_instance u") (auto simp: reported_def)

lemma told_unit_reported: "told_unit (clip (reported u) max_unit_name)"
  unfolding told_unit_def using reported_private by blast

lemma told_unit_none [simp]: "told_unit []"
  by (simp add: told_unit_def)

lemma owner_of_told: "owner_of segs = Some o2 \<Longrightarrow> told_unit (fst o2)"
proof (induction segs)
  case (Cons seg segs)
  then show ?case by (auto simp: told_unit_reported split: if_splits)
qed simp

lemma owner_lines_told: "told_unit (fst (owner_lines ls))"
proof (induction ls)
  case (Cons l ls)
  let ?o = "Option.bind (cgroup_path l)
    (\<lambda>p. owner_of (rev (split_on CHR ''/'' (trim_right_of ''/'' (trim_left_of ''/'' p)))))"
  show ?case
  proof (cases ?o)
    case None
    then show ?thesis using Cons.IH by simp
  next
    case (Some o2)
    then obtain segs where "owner_of segs = Some o2" by (auto simp: bind_eq_Some_conv)
    then show ?thesis using Some owner_of_told by simp
  qed
qed simp

lemma with_owner_fields [simp]:
  "p_pid (with_owner r p) = p_pid p" "p_command (with_owner r p) = p_command p" "p_cpu (with_owner r p) = p_cpu p"
  "p_package (with_owner r p) = p_package p"
  by (simp_all add: with_owner_def split: option.split prod.split)

lemma with_owner_told: "told_unit (p_unit p) \<Longrightarrow> told_unit (p_unit (with_owner r p))"
  using owner_lines_told by (simp add: with_owner_def parse_cgroup_owner_def split: option.split prod.split) (metis fst_conv)

section \<open>The share of the processor\<close>

lemma seconds_nonneg: "0 < d \<Longrightarrow> 0 \<le> seconds_of d"
proof -
  assume d: "0 < d"
  have s: "0 < second_ns" by (simp add: second_ns_def)
  have "d div second_ns * second_ns \<le> d"
    using pos_mod_sign [OF s, of d] minus_div_mult_eq_mod [of d second_ns] by linarith
  then have "rat_of_int (d div second_ns) * rat_of_int second_ns \<le> rat_of_int d"
    by (metis of_int_le_iff of_int_mult)
  moreover have "0 \<le> d div second_ns" using d s by (simp add: pos_imp_zdiv_nonneg_iff)
  ultimately show ?thesis using d s
    by (auto simp: seconds_of_def Let_def float_div_def intro!: fl_nonneg add_nonneg_nonneg divide_nonneg_nonneg)
qed

lemma cpu_share_range:
  assumes "0 < interval" "cpu_share interval was now = Some c"
  shows "0 \<le> c \<and> c \<le> 100 \<and> pt_start now = pt_start was \<and> pt_cpu was \<le> pt_cpu now"
proof -
  have t: "0 \<le> fl (seconds_of interval * of_int user_hz)"
    using seconds_nonneg [OF assms(1)] by (intro fl_nonneg) (simp add: user_hz_def)
  have "0 \<le> fl (float_div (float_of_int (uint (pt_cpu now - pt_cpu was))) (fl (seconds_of interval * of_int user_hz)) * 100)"
    using t by (auto simp: float_div_def simp del: of_int_uint intro!: fl_nonneg divide_nonneg_nonneg mult_nonneg_nonneg)
  then show ?thesis using assms(2) by (auto simp: cpu_share_def Let_def not_less split: if_splits)
qed

section \<open>The list\<close>

text \<open>
  What is claimed of one entry: with command lines switched off, its command is the name the kernel has for the process.
\<close>

definition told_truly :: "bool \<Rightarrow> proc_reads \<Rightarrow> process \<Rightarrow> bool" where
  "told_truly with_args r p =
     (told_unit (p_unit p)
      \<and> (p_container p = [] \<or> p_package p = None)
      \<and> (with_args \<or> (\<exists>comm. Option.bind (pr_stat r (p_pid p)) parse_proc_comm = Some comm \<and> p_command p = clip comm max_command))
      \<and> (case p_cpu p of None \<Rightarrow> True
         | Some c \<Rightarrow> 0 \<le> c \<and> c \<le> 100 \<and>
            (\<exists>was now. Option.bind (pr_stat r (p_pid p)) parse_proc_times = Some was
               \<and> Option.bind (pr_later r (p_pid p)) parse_proc_times = Some now
               \<and> pt_start now = pt_start was \<and> pt_cpu was \<le> pt_cpu now)))"

lemma read_process_told:
  "read_process with_args page_size r n = Some (p, t) \<Longrightarrow>
     told_truly with_args r p \<and> p_package p = None \<and> p_cpu p = None
     \<and> (t \<noteq> None \<longrightarrow> Option.bind (pr_stat r (p_pid p)) parse_proc_times = t)"
  by (auto simp: read_process_def told_truly_def told_unit_def shown_command_def Let_def split: option.splits)

lemma with_owner_truly:
  "told_truly with_args r p \<Longrightarrow> p_package p = None \<Longrightarrow> told_truly with_args r (with_owner r p)"
  by (cases "p_cpu p") (simp_all add: told_truly_def with_owner_told)

lemma attach_process_truly: "told_truly with_args r p \<Longrightarrow> told_truly with_args r (attach_process x v p)"
  by (auto simp: attach_process_def told_truly_def split: option.split prod.split)

lemma attach_packages_told:
  "list_all (told_truly with_args r) ps \<Longrightarrow>
     list_all (told_truly with_args r) (fst (attach_packages d v now x ps))
     \<and> map p_pid (fst (attach_packages d v now x ps)) = map p_pid ps
     \<and> length (fst (attach_packages d v now x ps)) = length ps"
proof -
  assume a: "list_all (told_truly with_args r) ps"
  have p: "p_pid (attach_process x v p) = p_pid p" for x p
    by (simp add: attach_process_def split: option.split prod.split)
  have "fst (attach_packages d v now x ps) = ps \<or> (\<exists>y. fst (attach_packages d v now x ps) = map (attach_process y v) ps)"
    by (cases x; cases "ps = []"; cases "refresh_index d now (the x)"; cases "fst (refresh_index d now (the x))")
      (auto simp: attach_packages_def)
  then show ?thesis using a by (auto simp: list_all_iff attach_process_truly p comp_def)
qed

lemma times_of_from:
  assumes "\<forall>(p, t)\<in>set ps. t \<noteq> None \<longrightarrow> f (p_pid p) = t" and "times_of ps pid = Some w"
  shows "f pid = Some w"
proof -
  have "(\<forall>pid w. m pid = Some w \<longrightarrow> f pid = Some w) \<Longrightarrow> (\<forall>(p, t)\<in>set ps. t \<noteq> None \<longrightarrow> f (p_pid p) = t) \<Longrightarrow>
      fold (\<lambda>(p, t) m. case t of None \<Rightarrow> m | Some x \<Rightarrow> m(p_pid p \<mapsto> x)) ps m pid = Some w \<Longrightarrow> f pid = Some w" for m
  proof (induction ps arbitrary: m)
    case (Cons q ps)
    obtain p t where q: "q = (p, t)" by (cases q)
    let ?m = "case t of None \<Rightarrow> m | Some x \<Rightarrow> m(p_pid p \<mapsto> x)"
    have "\<forall>pid w. ?m pid = Some w \<longrightarrow> f pid = Some w" using Cons.prems(1,2) q by (cases t) simp_all
    then show ?case using Cons.IH [of ?m] Cons.prems(2,3) q by simp
  qed simp
  from this [of Map.empty] show ?thesis using assms by (simp add: times_of_def)
qed

lemma with_share_truly:
  assumes "told_truly with_args r p" "0 < interval"
    and "\<And>w. earlier (p_pid p) = Some w \<Longrightarrow> Option.bind (pr_stat r (p_pid p)) parse_proc_times = Some w"
  shows "told_truly with_args r (with_share interval earlier r p)"
proof (cases "\<exists>was now c. earlier (p_pid p) = Some was \<and> Option.bind (pr_later r (p_pid p)) parse_proc_times = Some now
    \<and> cpu_share interval was now = Some c")
  case False
  then have "with_share interval earlier r p = p" by (auto simp: with_share_def split: option.splits)
  then show ?thesis using assms(1) by simp
next
  case True
  then obtain was now c where c: "earlier (p_pid p) = Some was" "Option.bind (pr_later r (p_pid p)) parse_proc_times = Some now"
    "cpu_share interval was now = Some c" by blast
  then show ?thesis using assms(1) assms(3) [OF c(1)] cpu_share_range [OF assms(2) c(3)]
    by (simp add: with_share_def told_truly_def)
qed


definition example_reads :: proc_reads where
  "example_reads =
     \<lparr>pr_names = Some [''1'', ''12'', ''self''], pr_machine = Some ''btime 1700000000'',
      pr_stat = (\<lambda>n. if n = 12 then Some ''12 (nginx) S 1 1 1 0 -1 0 0 0 0 0 100 50 0 0 20 0 1 0 700'' else None),
      pr_statm = (\<lambda>n. if n = 12 then Some ''500 40 30'' else None),
      pr_cmdline = (\<lambda>n. Some ''nginx --token secret''),
      pr_cgroup = (\<lambda>n. Some ''0::/system.slice/nginx.service''),
      pr_view = (\<lambda>n. \<lparr>pv_stat = None, pv_exe = None, pv_cmdline = None\<rparr>),
      pr_later = (\<lambda>n. Some ''12 (nginx) S 1 1 1 0 -1 0 0 0 0 0 110 65 0 0 20 0 1 0 700'')\<rparr>"

definition no_dpkg :: dpkg_folder where
  "no_dpkg = \<lparr>df_mtime = None, df_status = None, df_entries = None, df_list = (\<lambda>_. None)\<rparr>"

lemma example_processes:
  "fst (read_processes False 5 1000000000 4096 example_reads no_dpkg 0 None) =
     Some [\<lparr>p_command = ''nginx'', p_cpu = Some 25, p_memory = Some 163840, p_pid = 12,
            p_started = Some 1700000007000000000, p_unit = ''nginx.service'', p_container = [],
            p_package = None, p_services = []\<rparr>]"
  by code_simp


text \<open>
  A service inside a container, as where a container runs its own systemd, is told as a service of the machine, and
  outside any container.
\<close>

lemma inner_service_hides_the_container:
  "parse_cgroup_owner ''0::/system.slice/docker-0123456789abcdef.scope/system.slice/nginx.service'' = (''nginx.service'', [])"
  by code_simp

end
