(* ===== verification/Traffic.thy ===== *)
theory Traffic
  imports Mount_Watch Go_Seconds "HOL-Library.AList" "HOL-Library.Product_Lexorder"
begin

text \<open>
  The rates of a reading: \<^verbatim>\<open>internal/collect/traffic.go\<close> and \<^verbatim>\<open>traffic_linux.go\<close>. A map of Go is an association
  list with one entry per key, in the order in which the code happens to range over it; what \<^verbatim>\<open>/proc\<close> holds is an
  argument, a file that cannot be opened \<open>None\<close>. Counters are words of 64 bits and wrap as the code's do.
\<close>

section \<open>The counters\<close>

record disk_counters =
  dc_read :: "64 word"
  dc_written :: "64 word"
  dc_busy_ms :: "64 word"
  dc_busy_known :: bool

record traffic_reading =
  tr_at :: go_time
  tr_net :: "(string \<times> 64 word \<times> 64 word) list option"
  tr_disk :: "(string \<times> disk_counters) list option"

definition net_dev_line :: "string \<Rightarrow> (string \<times> 64 word \<times> 64 word) option" where
  "net_dev_line l =
     (case cut_at CHR '':'' l of
        (n, Some r) \<Rightarrow>
          (let f = go_fields r in
           if length f < 9 then None
           else (case (parse_uint64 (f ! 0), parse_uint64 (f ! 8)) of
               (Some rx, Some tx) \<Rightarrow> Some (trim_space n, rx, tx)
             | _ \<Rightarrow> None))
      | (_, None) \<Rightarrow> None)"

definition diskstats_line :: "string \<Rightarrow> (string \<times> disk_counters) option" where
  "diskstats_line l =
     (let f = go_fields l in
      if length f < 10 then None
      else (case (parse_uint64 (f ! 5), parse_uint64 (f ! 9)) of
          (Some r, Some w) \<Rightarrow>
            (let ticks = (if 13 \<le> length f then parse_uint64 (f ! 12) else None) in
             Some (f ! 2, \<lparr>dc_read = r * 512, dc_written = w * 512,
                           dc_busy_ms = (case ticks of None \<Rightarrow> 0 | Some t \<Rightarrow> t), dc_busy_known = (ticks \<noteq> None)\<rparr>))
        | _ \<Rightarrow> None))"

text \<open>A later line of the same name replaces an earlier one.\<close>

definition table_of :: "(string \<Rightarrow> (string \<times> 'v) option) \<Rightarrow> string \<Rightarrow> (string \<times> 'v) list" where
  "table_of f s = fold (\<lambda>(k, v). AList.update k v) (List.map_filter f (fst (file_lines s))) []"

definition parse_net_dev :: "string \<Rightarrow> (string \<times> 64 word \<times> 64 word) list" where
  "parse_net_dev s = table_of net_dev_line s"

definition parse_diskstats :: "string \<Rightarrow> (string \<times> disk_counters) list" where
  "parse_diskstats s = table_of diskstats_line s"

definition only_physical :: "(string \<Rightarrow> bool) \<Rightarrow> bool \<Rightarrow> (string \<times> 'v) list \<Rightarrow> (string \<times> 'v) list" where
  "only_physical physical fallback all =
     (let out = filter (\<lambda>(n, _). physical n) all in
      if out = [] \<and> fallback then filter (\<lambda>(n, _). n \<noteq> ''lo'') all else out)"

definition max_traffic_bytes :: nat where "max_traffic_bytes = 1048576"

definition read_traffic ::
  "go_time \<Rightarrow> string option \<Rightarrow> string option \<Rightarrow> (string \<Rightarrow> bool) \<Rightarrow> traffic_reading" where
  "read_traffic now net disk there =
     \<lparr>tr_at = now,
      tr_net = map_option (\<lambda>s. only_physical (\<lambda>n. there (''/sys/class/net/'' @ n @ ''/device'')) True
                 (parse_net_dev (take max_traffic_bytes s))) net,
      tr_disk = map_option (\<lambda>s. only_physical (\<lambda>n. there (''/sys/block/'' @ n @ ''/device'')) False
                 (parse_diskstats (take max_traffic_bytes s))) disk\<rparr>"

section \<open>The rates\<close>

record disk_activity =
  dk_name :: string
  dk_read_bps :: int
  dk_write_bps :: int
  dk_busy :: "rat option"

record traffic_rates =
  ra_in :: "int option"
  ra_out :: "int option"
  ra_read :: "int option"
  ra_write :: "int option"
  ra_disks :: "disk_activity list"

definition no_rates :: traffic_rates where
  "no_rates = \<lparr>ra_in = None, ra_out = None, ra_read = None, ra_write = None, ra_disks = []\<rparr>"

definition max_disks :: nat where "max_disks = 32"

text \<open>\<^verbatim>\<open>int64\<close> of a float cuts towards zero; of one out of range it is what the processor makes of it.\<close>

definition float_to_int64 :: "(rat \<Rightarrow> int) \<Rightarrow> rat \<Rightarrow> int" where
  "float_to_int64 beyond x =
     (let t = (if x < 0 then - \<lfloor>- x\<rfloor> else \<lfloor>x\<rfloor>) in
      if - 9223372036854775808 \<le> t \<and> t \<le> 9223372036854775807 then t else beyond x)"

definition rate_of :: "(rat \<Rightarrow> int) \<Rightarrow> 64 word \<Rightarrow> rat \<Rightarrow> int" where
  "rate_of beyond n secs = float_to_int64 beyond (float_div (float_of_int (uint n)) secs)"

text \<open>Of one device in both readings, the bytes since the first; none when a counter went backwards.\<close>

definition moved :: "(string \<times> 64 word \<times> 64 word) list \<Rightarrow> string \<times> 64 word \<times> 64 word \<Rightarrow> (64 word \<times> 64 word) option" where
  "moved prev = (\<lambda>(n, a, b).
     (case map_of prev n of None \<Rightarrow> None
      | Some (a0, b0) \<Rightarrow> if a < a0 \<or> b < b0 then None else Some (a - a0, b - b0)))"

definition rates ::
  "(rat \<Rightarrow> int) \<Rightarrow> (string \<times> 64 word \<times> 64 word) list option \<Rightarrow> (string \<times> 64 word \<times> 64 word) list option \<Rightarrow> rat
     \<Rightarrow> int option \<times> int option" where
  "rates beyond prev cur secs =
     (case (prev, cur) of
        (Some p, Some c) \<Rightarrow>
          (case fold (\<lambda>(x, y) (a, b). (a + x, b + y)) (List.map_filter (moved p) c) (0, 0) of
             (a, b) \<Rightarrow> (Some (rate_of beyond a secs), Some (rate_of beyond b secs)))
      | _ \<Rightarrow> (None, None))"

definition disk_bytes :: "(string \<times> disk_counters) list \<Rightarrow> (string \<times> 64 word \<times> 64 word) list" where
  "disk_bytes ds = map (\<lambda>(n, d). (n, dc_read d, dc_written d)) ds"

definition busy_percent :: "disk_counters \<Rightarrow> disk_counters \<Rightarrow> rat \<Rightarrow> rat option" where
  "busy_percent was now secs =
     (if dc_busy_known now \<and> dc_busy_known was \<and> dc_busy_ms was \<le> dc_busy_ms now
      then (let pct = fl (float_div (float_of_int (uint (dc_busy_ms now - dc_busy_ms was))) (fl (secs * 1000)) * 100)
            in Some (float_div (of_int (math_round (fl (min (max pct 0) 100 * 10)))) 10))
      else None)"

definition activity ::
  "(rat \<Rightarrow> int) \<Rightarrow> (string \<times> disk_counters) list \<Rightarrow> rat \<Rightarrow> string \<times> disk_counters \<Rightarrow> disk_activity option" where
  "activity beyond prev secs = (\<lambda>(n, now).
     (case map_of prev n of None \<Rightarrow> None
      | Some was \<Rightarrow>
        if dc_read now < dc_read was \<or> dc_written now < dc_written was then None
        else Some \<lparr>dk_name = clip n max_disk_name, dk_read_bps = rate_of beyond (dc_read now - dc_read was) secs,
                   dk_write_bps = rate_of beyond (dc_written now - dc_written was) secs, dk_busy = busy_percent was now secs\<rparr>))"

definition busy_of :: "disk_activity \<Rightarrow> rat" where
  "busy_of d = (case dk_busy d of None \<Rightarrow> - 1 | Some b \<Rightarrow> b)"

definition disk_rank :: "disk_activity \<Rightarrow> rat \<times> int \<times> string" where
  "disk_rank d = (- busy_of d, - i64 (dk_read_bps d + dk_write_bps d), dk_name d)"

definition per_disk ::
  "(rat \<Rightarrow> int) \<Rightarrow> (string \<times> disk_counters) list option \<Rightarrow> (string \<times> disk_counters) list option \<Rightarrow> rat \<Rightarrow> disk_activity list" where
  "per_disk beyond prev cur secs =
     (case (prev, cur) of
        (Some p, Some c) \<Rightarrow> take max_disks (sort_key disk_rank (List.map_filter (activity beyond p secs) c))
      | _ \<Rightarrow> [])"

section \<open>The tracker\<close>

type_synonym traffic_tracker = "traffic_reading option"

definition new_traffic_tracker :: traffic_tracker where
  "new_traffic_tracker = None"

definition observe :: "(rat \<Rightarrow> int) \<Rightarrow> traffic_tracker \<Rightarrow> traffic_reading \<Rightarrow> traffic_rates \<times> traffic_tracker" where
  "observe beyond t cur =
     ((case t of None \<Rightarrow> no_rates
       | Some prev \<Rightarrow>
         (let secs = seconds_of (time_sub (tr_at cur) (tr_at prev)) in
          if secs < 1 then no_rates
          else (case (rates beyond (tr_net prev) (tr_net cur) secs,
                      rates beyond (map_option disk_bytes (tr_disk prev)) (map_option disk_bytes (tr_disk cur)) secs) of
              ((i, out), (r, w)) \<Rightarrow>
                \<lparr>ra_in = i, ra_out = out, ra_read = r, ra_write = w,
                 ra_disks = per_disk beyond (tr_disk prev) (tr_disk cur) secs\<rparr>))),
      Some cur)"

end
