(* ===== verification/Go_Float_Facts.thy ===== *)
theory Go_Float_Facts
  imports Go_Float
begin

text \<open>Whole numbers of up to 53 bits are floats, and rounding does not step over them.\<close>

lemma double_step: "(a :: int) < 2 * (m div 2) + 2 \<Longrightarrow> m div 2 < b \<Longrightarrow> a < 2 * b"
  by linarith

lemma bit_count_Suc: "0 < n \<Longrightarrow> 0 < bit_count n \<and> 2 ^ nat (bit_count n - 1) \<le> n \<and> n < 2 ^ nat (bit_count n)"
proof (induction n rule: bit_count.induct)
  case (1 n)
  show ?case
  proof (cases "n = 1")
    case True
    then show ?thesis by (simp add: bit_count.simps [of 1] bit_count.simps [of 0])
  next
    case False
    then have h: "0 < n div 2" using 1(2) by linarith
    have "bit_count n = bit_count (n div 2) + 1" using 1(2) by (subst bit_count.simps) simp
    moreover have ih: "0 < bit_count (n div 2)" "2 ^ nat (bit_count (n div 2) - 1) \<le> n div 2" "n div 2 < 2 ^ nat (bit_count (n div 2))"
      using 1 h by simp_all
    moreover have "nat (bit_count (n div 2)) = Suc (nat (bit_count (n div 2) - 1))" using ih(1) by simp
    moreover have "nat (bit_count (n div 2) + 1) = Suc (nat (bit_count (n div 2)))" using ih(1) by simp
    moreover have "2 * (n div 2) \<le> n" "n < 2 * (n div 2) + 2" by presburger+
    moreover have "2 ^ Suc (nat (bit_count (n div 2) - 1)) = 2 * (2 :: int) ^ nat (bit_count (n div 2) - 1)"
      "2 ^ Suc (nat (bit_count (n div 2))) = 2 * (2 :: int) ^ nat (bit_count (n div 2))" by simp_all
    ultimately show ?thesis using double_step [of n n "2 ^ nat (bit_count (n div 2))"] by (simp del: power_Suc)
  qed
qed

lemma pow2_powi: "pow2 e = 2 powi e"
  by (simp add: pow2_def power_int_def power_one_over)

lemma pow2_diff: "pow2 (a - b) = pow2 a / pow2 b"
  unfolding pow2_powi by (rule power_int_diff) simp

lemma pow2_nat: "0 \<le> e \<Longrightarrow> pow2 e = of_int (2 ^ nat e)"
  by (simp add: pow2_def)

lemma pow2_less: "a < b \<Longrightarrow> 2 * pow2 a \<le> pow2 b"
proof -
  assume "a < b"
  have "pow2 (b - a) = of_int (2 ^ nat (b - a))" using \<open>a < b\<close> by (simp add: pow2_nat)
  moreover have "(2 :: int) ^ 1 \<le> 2 ^ nat (b - a)" using \<open>a < b\<close> by (intro power_increasing) auto
  then have "rat_of_int 2 \<le> of_int (2 ^ nat (b - a))" by (simp only: of_int_le_iff power_one_right)
  ultimately have "2 \<le> pow2 (b - a)" by simp
  then show ?thesis by (simp add: pow2_diff field_simps)
qed

lemma exponent_below:
  assumes "0 < q"
  shows "pow2 (exponent_of q) \<le> q"
proof -
  obtain n d where nd: "quotient_of q = (n, d)" by fastforce
  have d: "0 < d" and q: "q = of_int n / of_int d" using nd by (auto simp: quotient_of_denom_pos quotient_of_div)
  have n: "0 < n" using assms d q by (simp add: zero_less_divide_iff)
  have "rat_of_int (2 ^ nat (bit_count n - 1)) \<le> of_int n" "rat_of_int d \<le> of_int (2 ^ nat (bit_count d))"
    using bit_count_Suc [OF n] bit_count_Suc [OF d] by linarith+
  then have "pow2 (bit_count n - 1) \<le> of_int n" "of_int d \<le> pow2 (bit_count d)"
    using bit_count_Suc [OF n] bit_count_Suc [OF d] by (simp_all add: pow2_nat)
  then have "pow2 (bit_count n - 1 - bit_count d) \<le> q"
    unfolding pow2_diff [of "bit_count n - 1"] q using d n by (intro frac_le) simp_all
  then have "pow2 (bit_count n - bit_count d - 1) \<le> q" by (simp add: algebra_simps)
  then show ?thesis by (simp add: exponent_of_def nd Let_def)
qed

text \<open>Of what is below a number of 53 bits, the last place is a fraction of one.\<close>

lemma last_place:
  assumes "0 < q" "q < 2 ^ 53"
  shows "\<exists>k. pow2 (max (exponent_of q - 52) (- 1074)) = 1 / 2 ^ k"
proof -
  have "exponent_of q < 53"
  proof (rule ccontr)
    assume "\<not> exponent_of q < 53"
    then have "2 ^ 53 \<le> pow2 (exponent_of q)"
      using pow2_less [of 53 "exponent_of q"] by (cases "exponent_of q = 53") (auto simp: pow2_def)
    then show False using exponent_below [OF assms(1)] assms(2) by simp
  qed
  then have "max (exponent_of q - 52) (- 1074) \<le> 0" by simp
  then show ?thesis by (cases "max (exponent_of q - 52) (- 1074) = 0") (auto simp: pow2_def intro: exI [of _ 0])
qed

lemma fl_whole:
  assumes "0 \<le> n" "n < 2 ^ 53"
  shows "fl (of_int n) = of_int n"
proof (cases "n = 0")
  case False
  then have q: "0 < rat_of_int n" "rat_of_int n < 2 ^ 53" using assms of_int_less_iff [of n "2 ^ 53", where 'a = rat] by simp_all
  obtain k where k: "pow2 (max (exponent_of (rat_of_int n) - 52) (- 1074)) = 1 / 2 ^ k" using last_place [OF q] by blast
  have "round_even (rat_of_int n * 2 ^ k) = n * 2 ^ k" using round_even_int [of "n * 2 ^ k"] by simp
  then show ?thesis using q(1) by (simp add: fl_def round_up_to_float_def Let_def k)
qed simp

lemma fl_below:
  assumes "0 \<le> q" "q \<le> of_int n" "n < 2 ^ 53"
  shows "fl q \<le> of_int n"
proof (cases "q = 0")
  case True
  then show ?thesis using assms(2) by simp
next
  case False
  have "rat_of_int n < 2 ^ 53" using assms(3) of_int_less_iff [of n "2 ^ 53", where 'a = rat] by simp
  then have q: "0 < q" "q < 2 ^ 53" using assms False by linarith+
  obtain k where k: "pow2 (max (exponent_of q - 52) (- 1074)) = 1 / 2 ^ k" using last_place [OF q] by blast
  have "round_even (q * 2 ^ k) \<le> round_even (of_int (n * 2 ^ k))" using assms(2) by (intro round_even_mono) simp
  then have "rat_of_int (round_even (q * 2 ^ k)) \<le> of_int n * 2 ^ k"
    by (metis of_int_le_iff of_int_mult of_int_numeral of_int_power round_even_int)
  then show ?thesis using q(1) by (simp add: fl_def round_up_to_float_def Let_def k divide_le_eq)
qed

end
