(* ===== verification/Traffic_Props.thy ===== *)
theory Traffic_Props
  imports Traffic List_Facts Go_Float_Facts
begin

text \<open>
  The rates do not depend on the order in which Go ranges over its maps, and what is told of a disk is of this disk, with
  counters that went forward.
\<close>

section \<open>The order of the maps\<close>

text \<open>Two readings that differ in the order of their maps only.\<close>

definition same_table :: "(string \<times> 'v) list option \<Rightarrow> (string \<times> 'v) list option \<Rightarrow> bool" where
  "same_table x y = rel_option (\<lambda>xs ys. mset xs = mset ys \<and> distinct (map fst ys)) x y"

definition same_reading :: "traffic_reading \<Rightarrow> traffic_reading \<Rightarrow> bool" where
  "same_reading p q = (tr_at p = tr_at q \<and> same_table (tr_net p) (tr_net q) \<and> same_table (tr_disk p) (tr_disk q))"

lemma total_mset:
  assumes "mset xs = mset ys"
  shows "fold (\<lambda>(x :: 64 word, y :: 64 word) (a, b). (a + x, b + y)) xs s = fold (\<lambda>(x, y) (a, b). (a + x, b + y)) ys s"
  by (rule fun_cong [OF fold_multiset_equiv [OF _ assms]]) (auto simp: fun_eq_iff algebra_simps)

lemma rates_order:
  assumes "same_table p q" "same_table c d"
  shows "rates beyond p c secs = rates beyond q d secs"
proof (cases "p = None \<or> c = None")
  case True
  then show ?thesis using assms by (auto simp: same_table_def rates_def split: option.splits)
next
  case False
  then obtain ps qs cs ds where e: "p = Some ps" "q = Some qs" "c = Some cs" "d = Some ds"
    using assms by (auto simp: same_table_def option_rel_Some1)
  then have m: "mset ps = mset qs" "distinct (map fst qs)" "mset cs = mset ds" using assms by (auto simp: same_table_def)
  have "moved ps = moved qs" using same_entries_map_of [OF m(1,2)] by (simp add: moved_def)
  then show ?thesis unfolding e rates_def using total_mset [OF map_filter_mset [OF m(3), of "moved qs"]] by simp
qed

lemma disk_bytes_order: "same_table p q \<Longrightarrow> same_table (map_option disk_bytes p) (map_option disk_bytes q)"
  by (cases p; cases q) (auto simp: same_table_def disk_bytes_def comp_def case_prod_beta)

lemma activity_names:
  "inj_on (\<lambda>n. clip n max_disk_name) (fst ` set cs) \<Longrightarrow> distinct (map fst cs) \<Longrightarrow>
     distinct (map disk_rank (List.map_filter (activity beyond p secs) cs))"
proof -
  have n: "dk_name a = clip (fst c) max_disk_name" if "activity beyond p secs c = Some a" for c a
    using that by (auto simp: activity_def split: prod.splits option.splits if_splits)
  have s: "snd (snd (disk_rank a)) \<in> (\<lambda>n. clip n max_disk_name) ` fst ` set cs" if m: "a \<in> set (List.map_filter (activity beyond p secs) cs)" for a cs
  proof -
    obtain c where "c \<in> set cs" "activity beyond p secs c = Some a" using m unfolding in_map_filter by blast
    then show ?thesis using n by (simp add: disk_rank_def)
  qed
  show "inj_on (\<lambda>n. clip n max_disk_name) (fst ` set cs) \<Longrightarrow> distinct (map fst cs) \<Longrightarrow> ?thesis"
  proof (induction cs)
    case (Cons c cs)
    show ?case
    proof (cases "activity beyond p secs c")
      case (Some a)
      have "disk_rank a \<notin> disk_rank ` set (List.map_filter (activity beyond p secs) cs)"
      proof
        assume "disk_rank a \<in> disk_rank ` set (List.map_filter (activity beyond p secs) cs)"
        then obtain b where b: "b \<in> set (List.map_filter (activity beyond p secs) cs)" "disk_rank a = disk_rank b" by blast
        then have "clip (fst c) max_disk_name \<in> (\<lambda>n. clip n max_disk_name) ` fst ` set cs"
          using s [OF b(1)] n [OF Some] by (simp add: disk_rank_def)
        then show False using Cons.prems by (auto simp: inj_on_def)
      qed
      then show ?thesis using Cons Some by (simp add: List.map_filter_simps)
    qed (use Cons in \<open>simp add: List.map_filter_simps\<close>)
  qed (simp add: List.map_filter_simps)
qed

lemma per_disk_order:
  assumes "same_table p q" "same_table c d" "inj_on (\<lambda>n. clip n max_disk_name) (fst ` set (the d))"
  shows "per_disk beyond p c secs = per_disk beyond q d secs"
proof (cases "p = None \<or> c = None")
  case True
  then show ?thesis using assms by (auto simp: same_table_def per_disk_def split: option.splits)
next
  case False
  then obtain ps qs cs ds where e: "p = Some ps" "q = Some qs" "c = Some cs" "d = Some ds"
    using assms(1,2) by (auto simp: same_table_def option_rel_Some1)
  then have m: "mset ps = mset qs" "distinct (map fst qs)" "mset cs = mset ds" "distinct (map fst ds)"
    using assms by (auto simp: same_table_def)
  have "activity beyond ps secs = activity beyond qs secs" using same_entries_map_of [OF m(1,2)] by (simp add: activity_def)
  then show ?thesis unfolding e per_disk_def
    using sort_key_mset [OF map_filter_mset [OF m(3), of "activity beyond qs secs"] activity_names [OF _ m(4)]] assms(3) e by simp
qed

text \<open>
  The rates of an observation do not depend on the order in which the maps of the two readings are
  ranged over, as long as no two disks have the same first 32 bytes of a name.
\<close>

theorem rates_do_not_depend_on_the_order:
  assumes "same_reading p q" "same_reading c d" "inj_on (\<lambda>n. clip n max_disk_name) (fst ` set (the (tr_disk d)))"
  shows "fst (observe beyond (Some p) c) = fst (observe beyond (Some q) d)"
  using assms rates_order [of "tr_net p" "tr_net q" "tr_net c" "tr_net d"]
    rates_order [OF disk_bytes_order disk_bytes_order, of "tr_disk p" "tr_disk q" "tr_disk c" "tr_disk d"]
    per_disk_order [of "tr_disk p" "tr_disk q" "tr_disk c" "tr_disk d"]
  by (simp add: observe_def same_reading_def Let_def)

text \<open>Of one interface and two disks, the maps the other way round.\<close>

definition example_disk :: "64 word \<Rightarrow> 64 word \<Rightarrow> disk_counters" where
  "example_disk r b = \<lparr>dc_read = r, dc_written = 0, dc_busy_ms = b, dc_busy_known = True\<rparr>"

definition example_reading :: "go_time \<Rightarrow> 64 word \<Rightarrow> bool \<Rightarrow> traffic_reading" where
  "example_reading t n b =
     \<lparr>tr_at = t, tr_net = Some [(''eth0'', n, n)],
      tr_disk = Some (if b then [(''sda'', example_disk n n), (''sdb'', example_disk n 0)]
                      else [(''sdb'', example_disk n 0), (''sda'', example_disk n n)])\<rparr>"

lemma rates_do_not_depend_on_the_order_witness:
  "fst (observe (\<lambda>_. 0) (Some (example_reading 0 500 True)) (example_reading 2000000000 1500 True))
     = fst (observe (\<lambda>_. 0) (Some (example_reading 0 500 False)) (example_reading 2000000000 1500 False))"
proof (rule rates_do_not_depend_on_the_order)
  show "same_reading (example_reading 0 500 True) (example_reading 0 500 False)"
    "same_reading (example_reading 2000000000 1500 True) (example_reading 2000000000 1500 False)"
    by (simp_all add: same_reading_def same_table_def example_reading_def add_mset_commute)
  show "inj_on (\<lambda>n. clip n max_disk_name) (fst ` set (the (tr_disk (example_reading 2000000000 1500 False))))"
    by (simp add: example_reading_def clip_id max_disk_name_def)
qed

text \<open>What is read of \<^verbatim>\<open>/proc\<close> has one entry for a name.\<close>

lemma table_distinct: "distinct (map fst (table_of f s))"
proof -
  have "distinct (map fst (fold (\<lambda>(k, v). AList.update k v) xs t))" if "distinct (map fst t)" for xs t
    using that by (induction xs arbitrary: t) (auto simp: distinct_update)
  from this [of "[]"] show ?thesis by (simp add: table_of_def)
qed

lemma physical_distinct: "distinct (map fst xs) \<Longrightarrow> distinct (map fst (only_physical physical fallback xs))"
  by (simp add: only_physical_def Let_def distinct_map_filter)

lemma reading_distinct:
  "tr_net (read_traffic now net disk there) = Some n \<Longrightarrow> distinct (map fst n)"
  "tr_disk (read_traffic now net disk there) = Some d \<Longrightarrow> distinct (map fst d)"
  using physical_distinct [OF table_distinct]
  by (auto simp: read_traffic_def parse_net_dev_def parse_diskstats_def)

section \<open>The disks\<close>

text \<open>What a row says: a disk of both readings, whose counters went forward, and the rates at which they did.\<close>

definition told_rightly :: "(string \<times> disk_counters) list \<Rightarrow> (string \<times> disk_counters) list \<Rightarrow> disk_activity \<Rightarrow> bool" where
  "told_rightly p c d =
     (\<exists>n was now. map_of p n = Some was \<and> (n, now) \<in> set c \<and> dk_name d = clip n max_disk_name
        \<and> dc_read was \<le> dc_read now \<and> dc_written was \<le> dc_written now
        \<and> (uint (dc_read now - dc_read was) < 2 ^ 53 \<longrightarrow> 0 \<le> dk_read_bps d \<and> dk_read_bps d \<le> uint (dc_read now) - uint (dc_read was))
        \<and> (uint (dc_written now - dc_written was) < 2 ^ 53 \<longrightarrow>
             0 \<le> dk_write_bps d \<and> dk_write_bps d \<le> uint (dc_written now) - uint (dc_written was))
        \<and> (case dk_busy d of None \<Rightarrow> True | Some b \<Rightarrow> 0 \<le> b \<and> b \<le> 100 \<and> dc_busy_ms was \<le> dc_busy_ms now))"

lemma rate_within:
  assumes "1 \<le> secs" "uint n < 2 ^ 53"
  shows "0 \<le> rate_of beyond n secs \<and> rate_of beyond n secs \<le> uint n"
proof -
  have w: "fl (rat_of_int (uint n)) = of_int (uint n)" by (rule fl_whole) (use assms in simp_all)
  have n0: "0 \<le> rat_of_int (uint n)" using uint_ge_0 [of n] by (simp only: of_int_0_le_iff)
  have q: "0 \<le> rat_of_int (uint n) / secs" "rat_of_int (uint n) / secs \<le> of_int (uint n)"
    using n0 assms(1) divide_left_mono [OF assms(1) n0] by (simp_all del: of_int_uint)
  have f: "0 \<le> fl (rat_of_int (uint n) / secs)" "fl (rat_of_int (uint n) / secs) \<le> of_int (uint n)"
    using fl_nonneg [OF q(1)] fl_below [OF q assms(2)] by simp_all
  then have "0 \<le> \<lfloor>fl (rat_of_int (uint n) / secs)\<rfloor>" "\<lfloor>fl (rat_of_int (uint n) / secs)\<rfloor> \<le> uint n"
    by (simp_all add: floor_le_iff)
  moreover have "uint n \<le> 9223372036854775807" using assms(2) by simp
  moreover from calculation have "- 9223372036854775808 \<le> \<lfloor>fl (rat_of_int (uint n) / secs)\<rfloor>"
    "\<lfloor>fl (rat_of_int (uint n) / secs)\<rfloor> \<le> 9223372036854775807" by linarith+
  ultimately have "rate_of beyond n secs = \<lfloor>fl (rat_of_int (uint n) / secs)\<rfloor>"
    using f(1) unfolding rate_of_def float_to_int64_def float_div_def w Let_def by (simp only: not_less [symmetric] if_False if_True simp_thms)
  then show ?thesis using \<open>0 \<le> \<lfloor>fl (rat_of_int (uint n) / secs)\<rfloor>\<close> \<open>\<lfloor>fl (rat_of_int (uint n) / secs)\<rfloor> \<le> uint n\<close> by simp
qed

lemma busy_within:
  assumes "1 \<le> secs" "busy_percent was now secs = Some b"
  shows "0 \<le> b \<and> b \<le> 100 \<and> dc_busy_ms was \<le> dc_busy_ms now"
proof -
  define m where "m = min (max (fl (float_div (float_of_int (uint (dc_busy_ms now - dc_busy_ms was))) (fl (secs * 1000)) * 100)) 0) 100"
  have m: "0 \<le> m * 10" "m * 10 \<le> of_int 1000" by (simp_all add: m_def)
  have "0 \<le> fl (m * 10)" "fl (m * 10) \<le> of_int 1000" using fl_nonneg [OF m(1)] fl_below [OF m] by simp_all
  then have r: "0 \<le> math_round (fl (m * 10))" "math_round (fl (m * 10)) \<le> 1000"
    by (simp_all add: math_round_def le_floor_iff floor_le_iff)
  then have d: "0 \<le> rat_of_int (math_round (fl (m * 10))) / 10" "rat_of_int (math_round (fl (m * 10))) / 10 \<le> of_int 100" by simp_all
  have "b = fl (rat_of_int (math_round (fl (m * 10))) / 10)" "dc_busy_ms was \<le> dc_busy_ms now"
    using assms(2) by (auto simp: busy_percent_def m_def float_div_def Let_def split: if_splits)
  then show ?thesis using fl_nonneg [OF d(1)] fl_below [OF d] by simp
qed

text \<open>
  C37: Of the disks told, at most 32, each is in both readings and its counters went forward; its rates are
  from nought to the bytes it moved, of less than nine petabytes, and its share of busy time from nought to
  a hundred: a counter that was reset never gives a rate.
\<close>

theorem disk_rows_are_of_live_disks:
  assumes "tr_disk p = Some ps" "tr_disk c = Some cs"
  shows "length (ra_disks (fst (observe beyond (Some p) c))) \<le> 32
    \<and> list_all (told_rightly ps cs) (ra_disks (fst (observe beyond (Some p) c)))"
proof (cases "seconds_of (time_sub (tr_at c) (tr_at p)) < 1")
  case True
  then show ?thesis by (simp add: observe_def no_rates_def)
next
  case False
  let ?s = "seconds_of (time_sub (tr_at c) (tr_at p))"
  have r: "told_rightly ps cs a" if x: "x \<in> set cs" "activity beyond ps ?s x = Some a" for x a
  proof -
    obtain n now where y: "x = (n, now)" by (cases x)
    then obtain was where w: "map_of ps n = Some was" "\<not> dc_read now < dc_read was" "\<not> dc_written now < dc_written was"
      "a = \<lparr>dk_name = clip n max_disk_name, dk_read_bps = rate_of beyond (dc_read now - dc_read was) ?s,
          dk_write_bps = rate_of beyond (dc_written now - dc_written was) ?s, dk_busy = busy_percent was now ?s\<rparr>"
      using x(2) by (auto simp: activity_def split: option.splits if_splits)
    have u: "uint (dc_read now - dc_read was) = uint (dc_read now) - uint (dc_read was)"
      "uint (dc_written now - dc_written was) = uint (dc_written now) - uint (dc_written was)"
      using w(2,3) unfolding not_less word_le_def by (simp_all only: uint_sub_lem)
    have "uint (dc_read now - dc_read was) < 2 ^ 53 \<longrightarrow>
        0 \<le> dk_read_bps a \<and> dk_read_bps a \<le> uint (dc_read now) - uint (dc_read was)"
      "uint (dc_written now - dc_written was) < 2 ^ 53 \<longrightarrow>
        0 \<le> dk_write_bps a \<and> dk_write_bps a \<le> uint (dc_written now) - uint (dc_written was)"
      using rate_within [of ?s "dc_read now - dc_read was" beyond]
        rate_within [of ?s "dc_written now - dc_written was" beyond] False
      unfolding w(4) u disk_activity.simps not_less by blast+
    then show ?thesis unfolding told_rightly_def
      using w x(1) y busy_within [of ?s was now] False
      by - (rule exI [of _ n], rule exI [of _ was], rule exI [of _ now], auto simp: not_less split: option.split)
  qed
  have "fst (observe beyond (Some p) c) = (case (rates beyond (tr_net p) (tr_net c) ?s,
      rates beyond (map_option disk_bytes (tr_disk p)) (map_option disk_bytes (tr_disk c)) ?s) of
      ((i, out), (r, w)) \<Rightarrow> \<lparr>ra_in = i, ra_out = out, ra_read = r, ra_write = w,
         ra_disks = per_disk beyond (tr_disk p) (tr_disk c) ?s\<rparr>)"
    using False by (simp add: observe_def Let_def)
  then have o: "ra_disks (fst (observe beyond (Some p) c)) = per_disk beyond (Some ps) (Some cs) ?s"
    using assms by (simp split: prod.split)
  show ?thesis unfolding o using r
    by (auto simp: per_disk_def max_disks_def list_all_iff in_map_filter dest!: in_set_takeD)
qed

text \<open>A disk that moved a thousand bytes in two seconds, busy for half of it, and one whose counter was reset.\<close>

definition example_disks :: "go_time \<Rightarrow> (string \<times> disk_counters) list \<Rightarrow> traffic_reading" where
  "example_disks t ds = \<lparr>tr_at = t, tr_net = None, tr_disk = Some ds\<rparr>"

lemma example_rows:
  "ra_disks (fst (observe (\<lambda>_. 0) (Some (example_disks 0 [(''sda'', example_disk 500 500), (''sdb'', example_disk 500 500)]))
     (example_disks 2000000000 [(''sdb'', example_disk 7 7), (''sda'', example_disk 1500 1500)])))
   = [\<lparr>dk_name = ''sda'', dk_read_bps = 500, dk_write_bps = 0, dk_busy = Some 50\<rparr>]"
  by code_simp

lemma disk_rows_are_of_live_disks_witness:
  "list_all (told_rightly [(''sda'', example_disk 500 500), (''sdb'', example_disk 500 500)]
      [(''sdb'', example_disk 7 7), (''sda'', example_disk 1500 1500)])
    [\<lparr>dk_name = ''sda'', dk_read_bps = 500, dk_write_bps = 0, dk_busy = Some 50\<rparr>]"
  using disk_rows_are_of_live_disks [of "example_disks 0 [(''sda'', example_disk 500 500), (''sdb'', example_disk 500 500)]" _
      "example_disks 2000000000 [(''sdb'', example_disk 7 7), (''sda'', example_disk 1500 1500)]" _ "\<lambda>_. 0"]
  unfolding example_rows by (simp add: example_disks_def)

end
