(* ===== verification/Renewers.thy ===== *)
theory Renewers
  imports System_Facts Disk_Usage
begin

text \<open>
  What renews certificates on the machine: \<^verbatim>\<open>internal/collect/renewers.go\<close> and \<^verbatim>\<open>renewers_linux.go\<close>, read through a
  view of the file tree. The reading of a certificate, \<^verbatim>\<open>pem.Decode\<close> and \<^verbatim>\<open>x509.ParseCertificate\<close>, is an argument:
  of the bytes of a file, the DNS names, the common name and the end of a certificate, if they are one.
\<close>

section \<open>The view of the file tree\<close>

text \<open>
  A folder's entries come in the order of \<^verbatim>\<open>os.ReadDir\<close>: the name, whether it is a folder, and what \<^verbatim>\<open>Info\<close> says, whether
  it is a regular file and its permissions. A file gives the bytes that can be read and whether reading then fails.
\<close>

record renewer_entry =
  re_name :: string
  re_dir :: bool
  re_info :: "(bool \<times> nat) option"

record renewer_tree =
  rt_list :: "string \<Rightarrow> renewer_entry list looked"
  rt_open :: "string \<Rightarrow> (string \<times> bool) looked"
  rt_lstat :: "string \<Rightarrow> (nat \<times> bool) option"

type_synonym certificate_reader = "string \<Rightarrow> (string list \<times> string \<times> go_time) option"

section \<open>What is told\<close>

record renewer =
  rw_tool :: string
  rw_name :: string
  rw_domains :: "string list"
  rw_guessed :: bool
  rw_not_after :: "go_time option"
  rw_source :: string
  rw_authenticator :: string
  rw_installer :: string
  rw_hooks :: "string list option"
  rw_unit :: string
  rw_last_run :: "go_time option"
  rw_last_result :: string
  rw_next_run :: "go_time option"
  rw_unreadable :: bool
  rw_mode :: string
  rw_root_owned :: bool

definition renewer_of :: "string \<Rightarrow> string \<Rightarrow> renewer" where
  "renewer_of tool name =
     \<lparr>rw_tool = tool, rw_name = name, rw_domains = [], rw_guessed = False, rw_not_after = None, rw_source = [],
      rw_authenticator = [], rw_installer = [], rw_hooks = None, rw_unit = [], rw_last_run = None, rw_last_result = [],
      rw_next_run = None, rw_unreadable = False, rw_mode = [], rw_root_owned = False\<rparr>"

definition max_renewers :: nat where "max_renewers = 50"
definition max_renewer_domains :: nat where "max_renewer_domains = 100"
definition max_domain :: nat where "max_domain = 253"
definition max_renewer_source :: nat where "max_renewer_source = 512"
definition max_authenticator :: nat where "max_authenticator = 64"
definition max_renewer_bytes :: nat where "max_renewer_bytes = 4194304"

definition certbot_renewal_dir :: string where "certbot_renewal_dir = ''/etc/letsencrypt/renewal''"
definition certbot_hooks_dir :: string where "certbot_hooks_dir = ''/etc/letsencrypt/renewal-hooks''"
definition certbot_cli_ini :: string where "certbot_cli_ini = ''/etc/letsencrypt/cli.ini''"

definition caddy_stores :: "string list" where
  "caddy_stores = [''/var/lib/caddy/.local/share/caddy/certificates'', ''/var/lib/caddy/certificates'']"

definition traefik_stores :: "string list" where
  "traefik_stores = [''/etc/traefik/acme.json'', ''/etc/traefik/acme/acme.json'', ''/etc/traefik/letsencrypt/acme.json'',
     ''/letsencrypt/acme.json'', ''/opt/traefik/acme.json'']"

definition unreadable_store :: "renewer_tree \<Rightarrow> string \<Rightarrow> string \<Rightarrow> renewer" where
  "unreadable_store t tool path =
     (let r = (renewer_of tool [])\<lparr>rw_source := clip path max_renewer_source, rw_unreadable := True\<rparr> in
      case rt_lstat t path of None \<Rightarrow> r
      | Some (mode, owned) \<Rightarrow> r\<lparr>rw_mode := octal_mode mode, rw_root_owned := owned\<rparr>)"

text \<open>The names in lower case, each once, up to as many as are told.\<close>

fun clean_from :: "(string \<Rightarrow> string) \<Rightarrow> string list \<Rightarrow> string list \<Rightarrow> string list" where
  "clean_from ulower out [] = out"
| "clean_from ulower out (d # ds) =
     (let d = to_lower ulower (trim_space d) in
      if d = [] \<or> d \<in> set out \<or> max_domain < length d then clean_from ulower out ds
      else if length (out @ [d]) = max_renewer_domains then out @ [d]
      else clean_from ulower (out @ [d]) ds)"

definition clean_domains :: "(string \<Rightarrow> string) \<Rightarrow> string list \<Rightarrow> string list" where
  "clean_domains ulower ds = clean_from ulower [] ds"

definition parse_cert_pem :: "(string \<Rightarrow> string) \<Rightarrow> certificate_reader \<Rightarrow> string \<Rightarrow> (string list \<times> go_time) option" where
  "parse_cert_pem ulower x509 raw =
     (case x509 raw of None \<Rightarrow> None
      | Some (dns, cn, ends) \<Rightarrow> Some (clean_domains ulower (if dns = [] \<and> cn \<noteq> [] then [cn] else dns), ends))"

definition read_cert_file ::
  "(string \<Rightarrow> string) \<Rightarrow> certificate_reader \<Rightarrow> renewer_tree \<Rightarrow> string \<Rightarrow> (string list \<times> go_time) option" where
  "read_cert_file ulower x509 t path =
     (case rt_open t path of
        Found (s, fails) \<Rightarrow>
          if fails \<and> length s < max_renewer_bytes then None else parse_cert_pem ulower x509 (take max_renewer_bytes s)
      | _ \<Rightarrow> None)"

section \<open>certbot\<close>

definition is_none :: "string \<Rightarrow> bool" where
  "is_none v = (v = [] \<or> v = ''None'')"

record certbot_renewal =
  cb_renewer :: renewer
  cb_cert :: string
  cb_hooks :: "string list"
  cb_section :: string
  cb_webroot :: "string list"

definition certbot_setting :: "string \<Rightarrow> string \<Rightarrow> certbot_renewal \<Rightarrow> certbot_renewal" where
  "certbot_setting key v c =
     (let params = (cb_section c = ''renewalparams''); r = cb_renewer c in
      if cb_section c = [] \<and> key = ''cert'' then c\<lparr>cb_cert := v\<rparr>
      else if params \<and> key = ''authenticator'' then c\<lparr>cb_renewer := r\<lparr>rw_authenticator := clip v max_authenticator\<rparr>\<rparr>
      else if params \<and> key = ''installer'' \<and> \<not> is_none v
      then c\<lparr>cb_renewer := r\<lparr>rw_installer := clip v max_authenticator\<rparr>\<rparr>
      else if params \<and> (key = ''renew_hook'' \<or> key = ''deploy_hook'') \<and> \<not> is_none v
      then c\<lparr>cb_hooks := List.insert ''deploy'' (cb_hooks c)\<rparr>
      else if params \<and> key = ''post_hook'' \<and> \<not> is_none v then c\<lparr>cb_hooks := List.insert ''post'' (cb_hooks c)\<rparr>
      else if cb_section c = ''webroot_map'' then c\<lparr>cb_webroot := cb_webroot c @ [key]\<rparr>
      else c)"

definition certbot_line :: "string \<Rightarrow> certbot_renewal \<Rightarrow> certbot_renewal" where
  "certbot_line l c =
     (let l = trim_space l in
      if l = [] \<or> has_prefix l ''#'' then c
      else if has_prefix l ''['' then c\<lparr>cb_section := trim_right_of ''[] '' (trim_left_of ''[] '' l)\<rparr>
      else (case cut_at CHR ''='' l of
          (_, None) \<Rightarrow> c
        | (k, Some v) \<Rightarrow> certbot_setting (trim_space k) (trim_space v) c))"

text \<open>Without \<^verbatim>\<open>-\<close> and four digits at the end, where there are.\<close>

definition lineage_name :: "string \<Rightarrow> string" where
  "lineage_name n =
     (let k = length n - 5 in
      if 5 \<le> length n \<and> n ! k = CHR ''-'' \<and> list_all is_digit (drop (Suc k) n) then take k n else n)"

definition parse_certbot_renewal :: "(string \<Rightarrow> string) \<Rightarrow> string \<Rightarrow> string \<Rightarrow> certbot_renewal" where
  "parse_certbot_renewal ulower lineage s =
     (let c = fold certbot_line (fst (file_lines s))
            \<lparr>cb_renewer = renewer_of ''certbot'' (clip lineage 255), cb_cert = [], cb_hooks = [], cb_section = [], cb_webroot = []\<rparr>;
          r = cb_renewer c
      in if cb_webroot c \<noteq> [] then c\<lparr>cb_renewer := r\<lparr>rw_domains := clean_domains ulower (cb_webroot c)\<rparr>\<rparr>
         else if lineage_name lineage \<noteq> []
         then c\<lparr>cb_renewer := r\<lparr>rw_domains := clean_domains ulower [lineage_name lineage], rw_guessed := True\<rparr>\<rparr>
         else c)"

definition cli_hook :: "string \<Rightarrow> string option" where
  "cli_hook l =
     (let l = trim_space l in
      if l = [] \<or> has_prefix l ''#'' \<or> has_prefix l '';'' then None
      else (case cut_at CHR ''='' l of
          (k, v) \<Rightarrow>
            (let key = map (\<lambda>c. if c = CHR ''_'' then CHR ''-'' else c) (trim_space k) in
             if is_none (case v of None \<Rightarrow> [] | Some v \<Rightarrow> trim_space v) then None
             else if key = ''deploy-hook'' \<or> key = ''renew-hook'' then Some ''deploy''
             else if key = ''post-hook'' then Some ''post'' else None)))"

definition parse_certbot_cli_ini :: "string \<Rightarrow> string list" where
  "parse_certbot_cli_ini s = remdups (List.map_filter cli_hook (fst (file_lines s)))"

text \<open>A hook is a regular file that somebody may execute.\<close>

definition is_hook :: "renewer_entry \<Rightarrow> bool" where
  "is_hook e = (case re_info e of None \<Rightarrow> False
     | Some (regular, perm) \<Rightarrow> regular \<and> (odd perm \<or> odd (perm div 8) \<or> odd (perm div 64)))"

definition hook_kinds :: "string list" where
  "hook_kinds = [''deploy'', ''post'']"

definition hook_folder :: "renewer_tree \<Rightarrow> string \<Rightarrow> renewer_entry list looked" where
  "hook_folder t kind = rt_list t (certbot_hooks_dir @ ''/'' @ kind)"

definition read_certbot_global_hooks :: "renewer_tree \<Rightarrow> string list \<times> bool" where
  "read_certbot_global_hooks t =
     (filter (\<lambda>k. list_ex is_hook (found_or [] (hook_folder t k))) hook_kinds
        @ (case rt_open t certbot_cli_ini of
             Found (s, _) \<Rightarrow> parse_certbot_cli_ini (take max_renewer_bytes s) | _ \<Rightarrow> []),
      list_all (\<lambda>k. hook_folder t k \<noteq> Auto_Update.Refused) hook_kinds \<and> rt_open t certbot_cli_ini \<noteq> Auto_Update.Refused)"

definition merge_hooks :: "string list \<Rightarrow> string list \<times> bool \<Rightarrow> string list option" where
  "merge_hooks lineage g =
     (case g of (global, known) \<Rightarrow>
        (let all = remdups (lineage @ global) in
         if \<not> known \<and> all = [] then None else Some (sort all)))"

definition certbot_entry ::
  "(string \<Rightarrow> string) \<Rightarrow> certificate_reader \<Rightarrow> renewer_tree \<Rightarrow> renewer_entry \<Rightarrow> renewer" where
  "certbot_entry ulower x509 t e =
     (let path = path_join certbot_renewal_dir (re_name e) in
      case rt_open t path of
        Found (s, _) \<Rightarrow>
          (let c = parse_certbot_renewal ulower (trim_suffix (re_name e) ''.conf'') (take max_renewer_bytes s);
               r = (cb_renewer c)\<lparr>rw_source := clip path max_renewer_source,
                                  rw_hooks := merge_hooks (cb_hooks c) (read_certbot_global_hooks t)\<rparr>
           in case (if cb_cert c = [] then None else read_cert_file ulower x509 t (path_join ''/'' (cb_cert c))) of
                None \<Rightarrow> r
              | Some (names, ends) \<Rightarrow> r\<lparr>rw_domains := names, rw_guessed := False, rw_not_after := Some ends\<rparr>)
      | _ \<Rightarrow> unreadable_store t ''certbot'' path)"

definition read_certbot :: "(string \<Rightarrow> string) \<Rightarrow> certificate_reader \<Rightarrow> renewer_tree \<Rightarrow> renewer list" where
  "read_certbot ulower x509 t =
     (case rt_list t certbot_renewal_dir of
        Missing \<Rightarrow> []
      | Auto_Update.Refused \<Rightarrow> [unreadable_store t ''certbot'' certbot_renewal_dir]
      | Found es \<Rightarrow> map (certbot_entry ulower x509 t) (filter (\<lambda>e. \<not> re_dir e \<and> has_suffix (re_name e) ''.conf'') es))"

section \<open>Caddy\<close>

definition sans_fields :: "(string \<times> string list reader) list" where
  "sans_fields = [(''sans'', read_slice read_str [])]"

definition read_caddy_cert ::
  "(string \<Rightarrow> string) \<Rightarrow> certificate_reader \<Rightarrow> renewer_tree \<Rightarrow> string \<Rightarrow> string \<Rightarrow> string \<Rightarrow> renewer" where
  "read_caddy_cert ulower x509 t store issuer name =
     (let rel = path_join (path_join (path_join store issuer) name) name;
          r = (renewer_of ''caddy'' (clip name 255))\<lparr>rw_source := clip (rel @ ''.crt'') max_renewer_source\<rparr>
      in case read_cert_file ulower x509 t (rel @ ''.crt'') of
           Some (names, ends) \<Rightarrow> r\<lparr>rw_domains := names, rw_not_after := Some ends\<rparr>
         | None \<Rightarrow>
           (let sans = (case rt_open t (rel @ ''.json'') of
                  Found (s, _) \<Rightarrow>
                    (case decode_first (read_struct sans_fields) (take max_renewer_bytes s) [] of
                       (sans, Fine) \<Rightarrow> clean_domains ulower sans | _ \<Rightarrow> [])
                | _ \<Rightarrow> [])
            in if sans \<noteq> [] then r\<lparr>rw_domains := sans, rw_source := clip (rel @ ''.json'') max_renewer_source\<rparr>
               else unreadable_store t ''caddy'' (rel @ ''.crt'')))"

definition read_caddy_issuer ::
  "(string \<Rightarrow> string) \<Rightarrow> certificate_reader \<Rightarrow> renewer_tree \<Rightarrow> string \<Rightarrow> string \<Rightarrow> renewer list" where
  "read_caddy_issuer ulower x509 t store issuer =
     (case rt_list t (path_join store issuer) of
        Found ns \<Rightarrow> map (\<lambda>n. read_caddy_cert ulower x509 t store issuer (re_name n)) (filter re_dir ns)
      | _ \<Rightarrow> [unreadable_store t ''caddy'' (path_join store issuer)])"

definition read_caddy_store ::
  "(string \<Rightarrow> string) \<Rightarrow> certificate_reader \<Rightarrow> renewer_tree \<Rightarrow> string \<Rightarrow> renewer list" where
  "read_caddy_store ulower x509 t store =
     (case rt_list t store of
        Missing \<Rightarrow> []
      | Auto_Update.Refused \<Rightarrow> [unreadable_store t ''caddy'' store]
      | Found es \<Rightarrow> concat (map (\<lambda>e. read_caddy_issuer ulower x509 t store (re_name e)) (filter re_dir es)))"

definition read_caddy :: "(string \<Rightarrow> string) \<Rightarrow> certificate_reader \<Rightarrow> renewer_tree \<Rightarrow> renewer list" where
  "read_caddy ulower x509 t = concat (map (read_caddy_store ulower x509 t) caddy_stores)"

section \<open>Traefik\<close>

text \<open>\<^verbatim>\<open>base64.StdEncoding\<close>: line breaks do not count, and only the last four may be padded.\<close>

definition base64_value :: "char \<Rightarrow> nat option" where
  "base64_value c =
     (let n = byte_val c in
      if 65 \<le> n \<and> n \<le> 90 then Some (n - 65)
      else if 97 \<le> n \<and> n \<le> 122 then Some (n - 71)
      else if is_digit c then Some (n + 4)
      else if c = CHR ''+'' then Some 62 else if c = CHR ''/'' then Some 63 else None)"

fun base64_groups :: "string \<Rightarrow> string option" where
  "base64_groups [] = Some []"
| "base64_groups (a # b # c # d # s) =
     (case (base64_value a, base64_value b, base64_value c, base64_value d) of
        (Some i, Some j, Some k, Some l) \<Rightarrow>
          map_option ((@) [byte (i * 4 + j div 16), byte (j mod 16 * 16 + k div 4), byte (k mod 4 * 64 + l)]) (base64_groups s)
      | (Some i, Some j, Some k, None) \<Rightarrow>
          if d = CHR ''='' \<and> s = [] then Some [byte (i * 4 + j div 16), byte (j mod 16 * 16 + k div 4)] else None
      | (Some i, Some j, None, None) \<Rightarrow>
          if c = CHR ''='' \<and> d = CHR ''='' \<and> s = [] then Some [byte (i * 4 + j div 16)] else None
      | _ \<Rightarrow> None)"
| "base64_groups s = None"

definition base64_decode :: "string \<Rightarrow> string option" where
  "base64_decode s = base64_groups (filter (\<lambda>c. c \<noteq> CHR 0x0A \<and> c \<noteq> CHR 0x0D) s)"

record traefik_cert =
  tc_main :: string
  tc_sans :: "string list"
  tc_certificate :: string

definition no_traefik_cert :: traefik_cert where
  "no_traefik_cert = \<lparr>tc_main = [], tc_sans = [], tc_certificate = []\<rparr>"

definition traefik_fields :: "(string \<times> traefik_cert reader) list" where
  "traefik_fields =
     [(''domain'', read_struct
         [(''main'', in_field tc_main (\<lambda>x r. r\<lparr>tc_main := x\<rparr>) read_str),
          (''sans'', in_field tc_sans (\<lambda>x r. r\<lparr>tc_sans := x\<rparr>) (read_slice read_str []))]),
      (''certificate'', in_field tc_certificate (\<lambda>x r. r\<lparr>tc_certificate := x\<rparr>) read_str)]"

text \<open>The certificates of each resolver; a later one of the same name replaces an earlier one.\<close>

fun read_resolvers :: "(string \<times> json) list \<Rightarrow> (string \<times> traefik_cert list) list \<Rightarrow> (string \<times> traefik_cert list) list \<times> verdict" where
  "read_resolvers [] m = (m, Fine)"
| "read_resolvers ((k, v) # ms) m =
     (case read_struct [(''Certificates'', read_slice (read_struct traefik_fields) no_traefik_cert)] v [] of
        (x, e) \<Rightarrow>
          (if e = Go_Json.Refused then (m, e)
           else case read_resolvers ms ((unquote_json k, x) # filter (\<lambda>(n, _). n \<noteq> unquote_json k) m) of
             (m2, e2) \<Rightarrow> (m2, worse e e2)))"

fun read_traefik_map :: "(string \<times> traefik_cert list) list reader" where
  "read_traefik_map (JObj ms) m = read_resolvers ms m"
| "read_traefik_map JNull m = ([], Fine)"
| "read_traefik_map v m = (m, Wrong)"

definition traefik_renewer :: "(string \<Rightarrow> string) \<Rightarrow> certificate_reader \<Rightarrow> traefik_cert \<Rightarrow> renewer" where
  "traefik_renewer ulower x509 c =
     (let r = (renewer_of ''traefik'' (clip (tc_main c) 255))\<lparr>rw_domains := clean_domains ulower (tc_main c # tc_sans c)\<rparr> in
      case Option.bind (base64_decode (tc_certificate c)) (parse_cert_pem ulower x509) of
        None \<Rightarrow> r | Some (names, ends) \<Rightarrow> r\<lparr>rw_domains := names, rw_not_after := Some ends\<rparr>)"

definition parse_traefik_store :: "(string \<Rightarrow> string) \<Rightarrow> certificate_reader \<Rightarrow> string \<Rightarrow> renewer list" where
  "parse_traefik_store ulower x509 s =
     (case decode_first read_traefik_map s [] of
        (m, Fine) \<Rightarrow> concat (map (\<lambda>(_, cs). map (traefik_renewer ulower x509) cs) (sort_key fst m))
      | _ \<Rightarrow> [])"

definition read_traefik_store ::
  "(string \<Rightarrow> string) \<Rightarrow> certificate_reader \<Rightarrow> renewer_tree \<Rightarrow> string \<Rightarrow> renewer list" where
  "read_traefik_store ulower x509 t store =
     (case rt_open t store of
        Missing \<Rightarrow> []
      | Auto_Update.Refused \<Rightarrow> [unreadable_store t ''traefik'' store]
      | Found (s, _) \<Rightarrow>
          map (\<lambda>r. r\<lparr>rw_source := clip store max_renewer_source\<rparr>) (parse_traefik_store ulower x509 (take max_renewer_bytes s)))"

definition read_traefik :: "(string \<Rightarrow> string) \<Rightarrow> certificate_reader \<Rightarrow> renewer_tree \<Rightarrow> renewer list" where
  "read_traefik ulower x509 t = concat (map (read_traefik_store ulower x509 t) traefik_stores)"

section \<open>All of them\<close>

definition read_renewers :: "(string \<Rightarrow> string) \<Rightarrow> certificate_reader \<Rightarrow> renewer_tree \<Rightarrow> renewer list" where
  "read_renewers ulower x509 t =
     take max_renewers (read_certbot ulower x509 t @ read_caddy ulower x509 t @ read_traefik ulower x509 t)"

definition has_readable_tool :: "renewer list \<Rightarrow> string \<Rightarrow> bool" where
  "has_readable_tool rs tool = list_ex (\<lambda>r. rw_tool r = tool \<and> \<not> rw_unreadable r) rs"

record certbot_run =
  cr_unit :: string
  cr_last :: "go_time option"
  cr_next :: "go_time option"
  cr_result :: string

definition apply_certbot_run :: "certbot_run \<Rightarrow> renewer list \<Rightarrow> renewer list" where
  "apply_certbot_run run rs =
     map (\<lambda>r. if rw_tool r \<noteq> ''certbot'' \<or> rw_unreadable r then r
              else r\<lparr>rw_unit := cr_unit run, rw_last_run := cr_last run, rw_next_run := cr_next run,
                     rw_last_result := cr_result run\<rparr>) rs"

text \<open>
  What the bus answers: the units with their paths, and of a timer when it last and next fires, of a service how it
  ended. No answer, or the zero time, is \<open>None\<close>.
\<close>

record timer_bus =
  tb_units :: "(string \<times> string) list option"
  tb_last :: "string \<Rightarrow> go_time option"
  tb_next :: "string \<Rightarrow> go_time option"
  tb_result :: "string \<Rightarrow> string option"

definition certbot_units :: "string list" where
  "certbot_units = [''certbot'', ''snap.certbot.renew'', ''certbot-renew'']"

definition unit_path :: "(string \<times> string) list \<Rightarrow> string \<Rightarrow> string" where
  "unit_path us n = (case map_of (rev us) n of None \<Rightarrow> [] | Some p \<Rightarrow> p)"

definition certbot_run_of :: "timer_bus \<Rightarrow> (string \<times> string) list \<Rightarrow> string \<Rightarrow> certbot_run" where
  "certbot_run_of b us base =
     (let timer = unit_path us (base @ ''.timer''); svc = unit_path us (base @ ''.service''); last = tb_last b timer in
      \<lparr>cr_unit = base @ ''.timer'', cr_last = last, cr_next = tb_next b timer,
       cr_result = (if svc \<noteq> [] \<and> last \<noteq> None
                    then (case tb_result b svc of None \<Rightarrow> [] | Some s \<Rightarrow> clip s max_state_bytes) else [])\<rparr>)"

definition collect_renewers ::
  "(string \<Rightarrow> string) \<Rightarrow> certificate_reader \<Rightarrow> renewer_tree \<Rightarrow> timer_bus \<Rightarrow> renewer list" where
  "collect_renewers ulower x509 t b =
     (let rs = read_renewers ulower x509 t in
      if \<not> has_readable_tool rs ''certbot'' then rs
      else (case tb_units b of None \<Rightarrow> rs
        | Some us \<Rightarrow>
          (case List.find (\<lambda>base. unit_path us (base @ ''.timer'') \<noteq> []) certbot_units of None \<Rightarrow> rs
           | Some base \<Rightarrow> apply_certbot_run (certbot_run_of b us base) rs)))"

end
