(* ===== verification/Renewers_Props.thy ===== *)
theory Renewers_Props
  imports Renewers
begin

text \<open>
  A store that refuses is told as such; a certificate is told to have no hooks only when all the places of hooks were read
  and set none; and what is told is within bounds.
\<close>

section \<open>Stores that refuse\<close>

definition told_unreadable :: "string \<Rightarrow> string \<Rightarrow> renewer \<Rightarrow> bool" where
  "told_unreadable tool path r = (rw_tool r = tool \<and> rw_unreadable r \<and> rw_source r = clip path max_renewer_source)"

lemma unreadable_store_told [simp]: "told_unreadable tool path (unreadable_store t tool path)"
  by (simp add: unreadable_store_def told_unreadable_def renewer_of_def Let_def split: option.split)

text \<open>The places that may refuse, and whether they do.\<close>

definition refuses :: "renewer_tree \<Rightarrow> string \<Rightarrow> string \<Rightarrow> bool" where
  "refuses t tool path =
     (tool = ''certbot'' \<and> path = certbot_renewal_dir \<and> rt_list t path = Auto_Update.Refused
      \<or> tool = ''caddy'' \<and> path \<in> set caddy_stores \<and> rt_list t path = Auto_Update.Refused
      \<or> tool = ''traefik'' \<and> path \<in> set traefik_stores \<and> rt_open t path = Auto_Update.Refused)"

lemma refusing_store_found:
  assumes "refuses t tool path"
  shows "\<exists>r\<in>set (read_certbot ulower x509 t @ read_caddy ulower x509 t @ read_traefik ulower x509 t). told_unreadable tool path r"
proof -
  consider "tool = ''certbot''" "path = certbot_renewal_dir" "rt_list t path = Auto_Update.Refused"
    | "tool = ''caddy''" "path \<in> set caddy_stores" "rt_list t path = Auto_Update.Refused"
    | "tool = ''traefik''" "path \<in> set traefik_stores" "rt_open t path = Auto_Update.Refused"
    using assms unfolding refuses_def by blast
  then show ?thesis
  proof cases
    case 1
    then have "read_certbot ulower x509 t = [unreadable_store t tool path]" by (simp add: read_certbot_def)
    then show ?thesis by simp
  next
    case 2
    then have "unreadable_store t tool path \<in> set (read_caddy_store ulower x509 t path)" by (simp add: read_caddy_store_def)
    then have "unreadable_store t tool path \<in> set (read_caddy ulower x509 t)" using 2(2) by (auto simp: read_caddy_def)
    then show ?thesis using unreadable_store_told by (metis Un_iff set_append)
  next
    case 3
    then have "unreadable_store t tool path \<in> set (read_traefik_store ulower x509 t path)" by (simp add: read_traefik_store_def)
    then have "unreadable_store t tool path \<in> set (read_traefik ulower x509 t)" using 3(2) by (auto simp: read_traefik_def)
    then show ?thesis using unreadable_store_told by (metis Un_iff set_append)
  qed
qed

text \<open>
  C38: A folder or store of a renewer that is there and refuses to be read is told as unreadable under
  its own path, or fifty others are told.
\<close>

theorem refusing_store_is_told:
  assumes "refuses t tool path"
  shows "list_ex (told_unreadable tool path) (read_renewers ulower x509 t) \<or> length (read_renewers ulower x509 t) = 50"
proof -
  let ?all = "read_certbot ulower x509 t @ read_caddy ulower x509 t @ read_traefik ulower x509 t"
  have "take 50 ?all = ?all" if "length (take 50 ?all) \<noteq> 50" using that by (simp add: min_def split: if_splits)
  then show ?thesis
    using refusing_store_found [OF assms, of ulower x509]
    unfolding read_renewers_def max_renewers_def list_ex_iff by metis
qed

text \<open>A machine whose Traefik keeps its store to itself.\<close>

definition example_stores :: renewer_tree where
  "example_stores =
     \<lparr>rt_list = (\<lambda>_. Missing),
      rt_open = (\<lambda>p. if p = ''/etc/traefik/acme.json'' then Auto_Update.Refused else Missing),
      rt_lstat = (\<lambda>_. Some (384, True))\<rparr>"

lemma refusing_store_is_told_witness:
  "list_ex (told_unreadable ''traefik'' ''/etc/traefik/acme.json'') (read_renewers id (\<lambda>_. None) example_stores)"
proof -
  have "refuses example_stores ''traefik'' ''/etc/traefik/acme.json''"
    by (simp add: refuses_def example_stores_def traefik_stores_def)
  moreover have "length (read_renewers id (\<lambda>_. None) example_stores) \<noteq> 50" by code_simp
  ultimately show ?thesis using refusing_store_is_told by blast
qed

section \<open>Hooks\<close>

text \<open>Nothing there runs after a renewal: the place is missing, or was read and sets no hook.\<close>

definition folder_is_quiet :: "renewer_entry list looked \<Rightarrow> bool" where
  "folder_is_quiet x = (x \<noteq> Auto_Update.Refused \<and> (\<forall>e\<in>set (found_or [] x). \<not> is_hook e))"

definition defaults_are_quiet :: "(string \<times> bool) looked \<Rightarrow> bool" where
  "defaults_are_quiet x =
     (x \<noteq> Auto_Update.Refused
      \<and> (\<forall>s b. x = Found (s, b) \<longrightarrow> (\<forall>l\<in>set (fst (file_lines (take max_renewer_bytes s))). cli_hook l = None)))"

lemma merge_none: "merge_hooks lineage g = Some [] \<longleftrightarrow> snd g \<and> lineage = [] \<and> fst g = []"
proof -
  have "sort (remdups xs) = [] \<longleftrightarrow> xs = []" for xs :: "string list"
    by (metis length_0_conv length_sort remdups_eq_nil_iff)
  then show ?thesis by (cases g) (simp add: merge_hooks_def Let_def, blast)
qed

lemma no_mapped: "List.map_filter f xs = [] \<longleftrightarrow> (\<forall>x\<in>set xs. f x = None)"
  by (induction xs) (auto simp: List.map_filter_simps split: option.split)

lemma global_quiet:
  "snd (read_certbot_global_hooks t) \<and> fst (read_certbot_global_hooks t) = [] \<longleftrightarrow>
     (\<forall>k\<in>set hook_kinds. folder_is_quiet (hook_folder t k)) \<and> defaults_are_quiet (rt_open t certbot_cli_ini)"
proof -
  have c: "(case x of Found (s, _) \<Rightarrow> parse_certbot_cli_ini (take max_renewer_bytes s) | _ \<Rightarrow> []) = [] \<and> x \<noteq> Auto_Update.Refused
      \<longleftrightarrow> defaults_are_quiet x" for x :: "(string \<times> bool) looked"
    by (cases x) (auto simp: defaults_are_quiet_def parse_certbot_cli_ini_def no_mapped)
  show ?thesis
    unfolding read_certbot_global_hooks_def c [symmetric]
    by (auto simp: folder_is_quiet_def list_all_iff list_ex_iff filter_empty_conv)
qed


text \<open>A certificate by the webroot, with a note in the folder of deploy hooks that nobody may execute.\<close>

definition example_lines :: "string list" where
  "example_lines = [''cert = /etc/letsencrypt/live/example.com/cert.pem'', ''[renewalparams]'', ''authenticator = webroot'']"

definition example_conf :: string where
  "example_conf = concat (map (\<lambda>l. l @ [CHR 0x0A]) example_lines)"

definition example_certbot :: renewer_tree where
  "example_certbot =
     \<lparr>rt_list = (\<lambda>p. if p = ''/etc/letsencrypt/renewal-hooks/deploy''
                then Found [\<lparr>re_name = ''README'', re_dir = False, re_info = Some (True, 420)\<rparr>] else Missing),
      rt_open = (\<lambda>p. if p = ''/etc/letsencrypt/renewal/example.com.conf'' then Found (example_conf, False) else Missing),
      rt_lstat = (\<lambda>_. None)\<rparr>"


section \<open>Bounds\<close>

definition clean_name :: "(string \<Rightarrow> string) \<Rightarrow> string \<Rightarrow> bool" where
  "clean_name ulower d = (d \<noteq> [] \<and> length d \<le> max_domain \<and> (\<exists>x. d = to_lower ulower (trim_space x)))"

definition clean_names :: "(string \<Rightarrow> string) \<Rightarrow> string list \<Rightarrow> bool" where
  "clean_names ulower ds = (distinct ds \<and> length ds \<le> max_renewer_domains \<and> list_all (clean_name ulower) ds)"

lemma clean_from_clean:
  "clean_names ulower out \<Longrightarrow> length out < max_renewer_domains \<Longrightarrow> clean_names ulower (clean_from ulower out ds)"
proof (induction ds arbitrary: out)
  case (Cons d ds)
  let ?d = "to_lower ulower (trim_space d)"
  have "clean_names ulower (out @ [?d])" if "?d \<noteq> []" "?d \<notin> set out" "length ?d \<le> max_domain"
    using Cons.prems that by (auto simp: clean_names_def clean_name_def)
  then show ?case using Cons by (auto simp: Let_def not_less)
qed simp

lemma clean_domains_clean [simp]: "clean_names ulower (clean_domains ulower ds)"
  unfolding clean_domains_def by (rule clean_from_clean) (simp_all add: clean_names_def max_renewer_domains_def)

lemma clean_none [simp]: "clean_names ulower []"
  by (simp add: clean_names_def)

lemma cert_names_clean: "read_cert_file ulower x509 t path = Some (names, ends) \<Longrightarrow> clean_names ulower names"
  by (auto simp: read_cert_file_def parse_cert_pem_def split: looked.splits option.splits prod.splits if_splits)

text \<open>What is kept of the lines of a configuration: the tool, and no names yet.\<close>

definition plain_renewer :: "(string \<Rightarrow> string) \<Rightarrow> renewer \<Rightarrow> bool" where
  "plain_renewer ulower r =
     (clean_names ulower (rw_domains r) \<and> length (rw_source r) \<le> max_renewer_source \<and> length (rw_name r) \<le> 255
      \<and> length (rw_authenticator r) \<le> max_authenticator \<and> length (rw_installer r) \<le> max_authenticator)"

lemma plain_start [simp]: "length n \<le> 255 \<Longrightarrow> plain_renewer ulower (renewer_of tool n)"
  by (simp add: plain_renewer_def renewer_of_def)

lemma plain_unreadable [simp]: "plain_renewer ulower (unreadable_store t tool path)"
  by (simp add: unreadable_store_def plain_renewer_def renewer_of_def length_clip Let_def split: option.split)

lemma certbot_line_plain: "plain_renewer ulower (cb_renewer c) \<Longrightarrow> plain_renewer ulower (cb_renewer (certbot_line l c))"
  by (simp add: certbot_line_def certbot_setting_def plain_renewer_def length_clip Let_def split: prod.split option.split)

lemma certbot_lines_plain: "plain_renewer ulower (cb_renewer c) \<Longrightarrow> plain_renewer ulower (cb_renewer (fold certbot_line ls c))"
  by (induction ls arbitrary: c) (simp_all add: certbot_line_plain)

lemma parse_certbot_plain: "plain_renewer ulower (cb_renewer (parse_certbot_renewal ulower lineage s))"
proof -
  let ?c = "fold certbot_line (fst (file_lines s))
    \<lparr>cb_renewer = renewer_of ''certbot'' (clip lineage 255), cb_cert = [], cb_hooks = [], cb_section = [], cb_webroot = []\<rparr>"
  have "plain_renewer ulower (cb_renewer ?c)" by (rule certbot_lines_plain) (simp add: length_clip)
  then show ?thesis by (simp add: parse_certbot_renewal_def Let_def plain_renewer_def)
qed

text \<open>What is told of a certificate keeps this: its source is clipped, and its names are clean.\<close>

lemma plain_told:
  "plain_renewer ulower r \<Longrightarrow> plain_renewer ulower (r\<lparr>rw_source := clip p max_renewer_source, rw_hooks := h\<rparr>)"
  "plain_renewer ulower r \<Longrightarrow> clean_names ulower ds \<Longrightarrow> plain_renewer ulower (r\<lparr>rw_domains := ds, rw_guessed := b, rw_not_after := x\<rparr>)"
  "plain_renewer ulower r \<Longrightarrow> clean_names ulower ds \<Longrightarrow> plain_renewer ulower (r\<lparr>rw_domains := ds, rw_not_after := x\<rparr>)"
  "plain_renewer ulower r \<Longrightarrow> plain_renewer ulower (r\<lparr>rw_source := clip p max_renewer_source\<rparr>)"
  "plain_renewer ulower r \<Longrightarrow> clean_names ulower ds \<Longrightarrow>
     plain_renewer ulower (r\<lparr>rw_domains := ds, rw_source := clip p max_renewer_source\<rparr>)"
  "plain_renewer ulower r \<Longrightarrow> clean_names ulower ds \<Longrightarrow> plain_renewer ulower (r\<lparr>rw_domains := ds\<rparr>)"
  by (simp_all add: plain_renewer_def length_clip)

lemma certbot_entry_plain: "plain_renewer ulower (certbot_entry ulower x509 t e)"
proof (cases "rt_open t (path_join certbot_renewal_dir (re_name e))")
  case (Found x)
  obtain s b where x: "x = (s, b)" by (cases x)
  let ?c = "parse_certbot_renewal ulower (trim_suffix (re_name e) ''.conf'') (take max_renewer_bytes s)"
  show ?thesis
    unfolding certbot_entry_def Let_def Found x looked.case prod.case
    by (cases "if cb_cert ?c = [] then None else read_cert_file ulower x509 t (path_join ''/'' (cb_cert ?c))")
      (auto intro!: plain_told parse_certbot_plain cert_names_clean split: if_splits)
qed (simp_all add: certbot_entry_def Let_def)

lemma caddy_cert_plain: "plain_renewer ulower (read_caddy_cert ulower x509 t store issuer n)"
proof -
  let ?rel = "path_join (path_join (path_join store issuer) n) n"
  show ?thesis
  proof (cases "read_cert_file ulower x509 t (?rel @ ''.crt'')")
    case None
    have "clean_names ulower (case rt_open t (?rel @ ''.json'') of
        Found (s, _) \<Rightarrow> (case decode_first (read_struct sans_fields) (take max_renewer_bytes s) [] of
           (sans, Fine) \<Rightarrow> clean_domains ulower sans | _ \<Rightarrow> []) | _ \<Rightarrow> [])"
      by (simp split: looked.split prod.split verdict.split)
    then show ?thesis unfolding read_caddy_cert_def Let_def None option.case
      by (simp add: plain_told length_clip)
  next
    case (Some y)
    then show ?thesis
      by (cases y) (auto simp: read_caddy_cert_def Let_def length_clip intro!: plain_told dest: cert_names_clean)
  qed
qed

lemma traefik_plain: "plain_renewer ulower (traefik_renewer ulower x509 c)"
proof (cases "Option.bind (base64_decode (tc_certificate c)) (parse_cert_pem ulower x509)")
  case None
  then show ?thesis by (simp add: traefik_renewer_def plain_told length_clip)
next
  case (Some y)
  moreover obtain names ends where y: "y = (names, ends)" by (cases y)
  ultimately have "clean_names ulower names"
    by (auto simp: bind_eq_Some_conv parse_cert_pem_def split: option.splits prod.splits)
  then show ?thesis unfolding traefik_renewer_def Some y by (simp add: plain_told length_clip)
qed

lemma certbot_plain: "list_all (plain_renewer ulower) (read_certbot ulower x509 t)"
  by (simp add: read_certbot_def list_all_iff certbot_entry_plain split: looked.split)

lemma caddy_plain: "list_all (plain_renewer ulower) (read_caddy ulower x509 t)"
proof -
  have i: "list_all (plain_renewer ulower) (read_caddy_issuer ulower x509 t store n)" for store n
    by (simp add: read_caddy_issuer_def list_all_iff caddy_cert_plain split: looked.split)
  have "list_all (plain_renewer ulower) (read_caddy_store ulower x509 t store)" for store
    using i by (auto simp: read_caddy_store_def list_all_iff split: looked.split)
  then show ?thesis by (auto simp: read_caddy_def list_all_iff)
qed

lemma traefik_store_plain: "list_all (plain_renewer ulower) (read_traefik_store ulower x509 t store)"
proof -
  have "list_all (plain_renewer ulower) (parse_traefik_store ulower x509 s)" for s
    by (auto simp: parse_traefik_store_def list_all_iff traefik_plain split: prod.split verdict.split)
  then show ?thesis by (auto simp: read_traefik_store_def list_all_iff intro!: plain_told split: looked.split)
qed

text \<open>
  Whatever the files hold, at most fifty certificates are told, each with at most a hundred names,
  in lower case, each once and none empty or longer than a name may be, and with its other words clipped.
\<close>

theorem renewers_are_bounded:
  "length (collect_renewers ulower x509 t b) \<le> 50 \<and> list_all (plain_renewer ulower) (collect_renewers ulower x509 t b)"
proof -
  have "list_all (plain_renewer ulower) (read_renewers ulower x509 t)"
    using certbot_plain caddy_plain traefik_store_plain
    by (auto simp: read_renewers_def read_traefik_def list_all_iff dest!: in_set_takeD)
  moreover have "plain_renewer ulower r \<Longrightarrow> plain_renewer ulower (r\<lparr>rw_unit := u, rw_last_run := l, rw_next_run := n, rw_last_result := x\<rparr>)"
    for r u l n x by (simp add: plain_renewer_def)
  moreover have "length (read_renewers ulower x509 t) \<le> 50" by (simp add: read_renewers_def max_renewers_def)
  ultimately show ?thesis
    by (auto simp: collect_renewers_def apply_certbot_run_def list_all_iff Let_def split: option.split)
qed

end
