(* ===== verification/Netip.thy ===== *)
theory Netip
  imports Listening
begin

text \<open>
  \<^verbatim>\<open>netip.ParseAddr\<close>, and the addresses the server names, \<^verbatim>\<open>KnownPeerSet\<close> of \<^verbatim>\<open>internal/collect/listening.go\<close>. An address
  that was read is the address and its zone, which is empty for most.
\<close>

section \<open>Reading an address\<close>

text \<open>Four numbers of up to three digits, none with a nought in front.\<close>

definition ipv4_field :: "string \<Rightarrow> nat option" where
  "ipv4_field s =
     (if s = [] \<or> \<not> list_all is_digit s \<or> 3 < length s \<or> (hd s = CHR ''0'' \<and> tl s \<noteq> []) \<or> 255 < digits_value s then None
      else Some (digits_value s))"

definition parse_ipv4 :: "string \<Rightarrow> nat option" where
  "parse_ipv4 s =
     (case map ipv4_field (split_on CHR ''.'' s) of
        [Some a, Some b, Some c, Some d] \<Rightarrow> Some (((a * 256 + b) * 256 + c) * 256 + d)
      | _ \<Rightarrow> None)"

definition hex_group :: "string \<Rightarrow> nat" where
  "hex_group s = foldl (\<lambda>n c. 16 * n + unhex c) 0 s"

text \<open>
  The groups of 16 bits, at most as many as are still wanted; before which of them the ellipsis was, if there was one; and
  what is left of the text.
\<close>

fun ipv6_groups :: "nat \<Rightarrow> nat list \<Rightarrow> nat option \<Rightarrow> string \<Rightarrow> (nat list \<times> nat option \<times> string) option" where
  "ipv6_groups 0 gs e s = Some (gs, e, s)"
| "ipv6_groups (Suc n) gs e s =
     (let h = takeWhile is_hex s; r = dropWhile is_hex s; g = gs @ [hex_group h] in
      if h = [] \<or> 4 < length h then None
      else if has_prefix r ''.''
      then (if (e = None \<and> length gs \<noteq> 6) \<or> 6 < length gs then None
            else map_option (\<lambda>w. (gs @ [w div 65536, w mod 65536], e, [])) (parse_ipv4 s))
      else if r = [] then Some (g, e, [])
      else if hd r \<noteq> CHR '':'' \<or> tl r = [] then None
      else if hd (tl r) = CHR '':''
      then (if e \<noteq> None then None
            else if tl (tl r) = [] then Some (g, Some (length g), [])
            else ipv6_groups n g (Some (length g)) (tl (tl r)))
      else ipv6_groups n g e (tl r))"

definition fill_groups :: "nat list \<times> nat option \<times> string \<Rightarrow> nat list option" where
  "fill_groups x =
     (case x of (gs, e, s) \<Rightarrow>
        if s \<noteq> [] then None
        else if length gs < 8
        then map_option (\<lambda>k. take k gs @ replicate (8 - length gs) 0 @ drop k gs) e
        else if e \<noteq> None then None else Some gs)"

definition number_of_groups :: "nat list \<Rightarrow> nat" where
  "number_of_groups gs = foldl (\<lambda>n g. n * 65536 + g) 0 gs"

definition parse_ipv6 :: "string \<Rightarrow> (ip_addr \<times> string) option" where
  "parse_ipv6 t =
     (case cut_at CHR ''%'' t of (s, z) \<Rightarrow>
        if z = Some [] then None
        else map_option (\<lambda>gs. (V6 (word_of_nat (number_of_groups gs)), case z of None \<Rightarrow> [] | Some z \<Rightarrow> z))
          (if s = ''::'' then Some (replicate 8 0)
           else Option.bind (if has_prefix s ''::'' then ipv6_groups 8 [] (Some 0) (drop 2 s) else ipv6_groups 8 [] None s)
                  fill_groups))"

text \<open>The first dot, colon or percent sign says which kind of address it is.\<close>

definition parse_addr :: "string \<Rightarrow> (ip_addr \<times> string) option" where
  "parse_addr s =
     (case List.find (\<lambda>c. c \<in> {CHR ''.'', CHR '':'', CHR ''%''}) s of
        None \<Rightarrow> None
      | Some c \<Rightarrow>
        if c = CHR ''.'' then map_option (\<lambda>n. (V4 (word_of_nat n), [])) (parse_ipv4 s)
        else if c = CHR '':'' then parse_ipv6 s
        else None)"

text \<open>\<^verbatim>\<open>Unmap\<close> takes an IPv4 address out of IPv6, and its zone with it; \<^verbatim>\<open>IsLoopback\<close> looks at the address taken out.\<close>

definition unmapped :: "ip_addr \<times> string \<Rightarrow> ip_addr \<times> string" where
  "unmapped x =
     (case x of (V6 w, z) \<Rightarrow> (case unmap_v6 (unat w) of V4 v \<Rightarrow> (V4 v, []) | V6 v \<Rightarrow> (V6 v, z)) | _ \<Rightarrow> x)"

definition loopback_addr :: "ip_addr \<times> string \<Rightarrow> bool" where
  "loopback_addr x = is_loopback (fst (unmapped x))"

definition unspecified_addr :: "ip_addr \<times> string \<Rightarrow> bool" where
  "unspecified_addr x = (is_unspecified (fst x) \<and> snd x = [])"

definition link_local_addr :: "ip_addr \<times> string \<Rightarrow> bool" where
  "link_local_addr x = is_link_local (fst (unmapped x))"

text \<open>\<^verbatim>\<open>String\<close> of an address taken out.\<close>

definition addr_string :: "ip_addr \<times> string \<Rightarrow> string" where
  "addr_string x = ip_string (fst x) @ (if snd x = [] then [] else CHR ''%'' # snd x)"

section \<open>The addresses the server names\<close>

definition max_known_peer_addresses :: nat where "max_known_peer_addresses = 4096"

fun known_peers_from :: "(ip_addr \<times> string) list \<Rightarrow> string list \<Rightarrow> (ip_addr \<times> string) list" where
  "known_peers_from known [] = known"
| "known_peers_from known (s # ss) =
     (if max_known_peer_addresses \<le> length known then known
      else (case parse_addr (trim_space s) of
          None \<Rightarrow> known_peers_from known ss
        | Some a \<Rightarrow>
          if unspecified_addr a \<or> loopback_addr a then known_peers_from known ss
          else known_peers_from (List.insert (unmapped a) known) ss))"

text \<open>An address of a socket table has no zone, and is in the set only as one without.\<close>

definition known_peer_set :: "string list \<Rightarrow> ip_addr list" where
  "known_peer_set ss = map fst (filter (\<lambda>a. snd a = []) (known_peers_from [] ss))"

end
