(* ===== verification/Netip_Props.thy ===== *)
theory Netip_Props
  imports Netip
begin

text \<open>An address reads back as it is printed, and so the server's addresses are those the agent told it of.\<close>

section \<open>Decimal and hexadecimal numbers\<close>

lemma digits_value_snoc: "digits_value (s @ [c]) = 10 * digits_value s + (byte_val c - 48)"
  by (simp add: digits_value_def)

lemma digit_byte: "n < 10 \<Longrightarrow> is_digit (byte (48 + n)) \<and> byte_val (byte (48 + n)) = 48 + n"
  by (simp add: byte_def is_digit_def)

lemma decimal_digits_read:
  "n < 10 ^ k \<Longrightarrow> 0 < k \<Longrightarrow>
     digits_value (decimal_digits k n) = n \<and> list_all is_digit (decimal_digits k n) \<and> decimal_digits k n \<noteq> []
     \<and> length (decimal_digits k n) \<le> k \<and> (hd (decimal_digits k n) = CHR ''0'' \<longrightarrow> n = 0 \<and> length (decimal_digits k n) = 1)"
proof (induction k arbitrary: n)
  case (Suc k)
  show ?case
  proof (cases "n < 10")
    case True
    have "byte (48 + n) = CHR ''0'' \<longrightarrow> n = 0" using digit_byte [OF True] by auto
    then show ?thesis using True digit_byte [OF True] by (simp add: digits_value_def)
  next
    case False
    then have k: "0 < k" using Suc.prems by (cases k) auto
    have ih: "digits_value (decimal_digits k (n div 10)) = n div 10" "list_all is_digit (decimal_digits k (n div 10))"
      "decimal_digits k (n div 10) \<noteq> []" "length (decimal_digits k (n div 10)) \<le> k"
      "hd (decimal_digits k (n div 10)) = CHR ''0'' \<longrightarrow> n div 10 = 0"
      using Suc.IH [of "n div 10"] Suc.prems k by (simp_all add: less_mult_imp_div_less)
    have "n div 10 \<noteq> 0" using False by simp
    then show ?thesis using False ih digit_byte [of "n mod 10"] by (simp add: digits_value_snoc)
  qed
qed simp

lemma ipv4_field_read: "n < 256 \<Longrightarrow> ipv4_field (decimal_digits 3 n) = Some n"
  using decimal_digits_read [of n 3] by (auto simp: ipv4_field_def hd_conv_nth length_Suc_conv)

lemma split_join: "xs \<noteq> [] \<Longrightarrow> \<forall>x\<in>set xs. c \<notin> set x \<Longrightarrow> split_on c (join_with [c] xs) = xs"
proof (induction xs rule: induct_list012)
  case (2 x)
  then show ?case by (simp add: split_on_id)
next
  case (3 x y zs)
  have "split_on c (x @ c # t) = x # split_on c t" if "c \<notin> set x" for x t
    using that by (induction x) auto
  then show ?case using 3 by simp
qed simp

lemma no_dot_digits: "list_all is_digit s \<Longrightarrow> CHR ''.'' \<notin> set s \<and> CHR '':'' \<notin> set s \<and> CHR ''%'' \<notin> set s"
  by (auto simp: list_all_iff is_digit_def)

definition quad :: "nat \<Rightarrow> nat list" where
  "quad n = map (\<lambda>i. n div 2 ^ (8 * (3 - i)) mod 256) [0..<4]"

lemma ip_string_4: "ip_string (V4 w) = join_with ''.'' (map (decimal_digits 3) (quad (unat w)))"
  by (simp add: ip_string_def quad_def comp_def)

lemma quad_sum: "n < 2 ^ 32 \<Longrightarrow> quad n = [a, b, c, d] \<Longrightarrow> ((a * 256 + b) * 256 + c) * 256 + d = n"
proof -
  assume n: "n < 2 ^ 32" and q: "quad n = [a, b, c, d]"
  have e: "a = n div 256 div 256 div 256 mod 256" "b = n div 256 div 256 mod 256" "c = n div 256 mod 256" "d = n mod 256"
    using q by (simp_all add: quad_def upt_conv_Cons div_mult2_eq [symmetric])
  have "n div 256 div 256 div 256 < 256" using n by simp
  then have "a = n div 256 div 256 div 256" using e(1) by simp
  then show ?thesis unfolding e(2-4) by (simp only: div_mult_mod_eq)
qed

lemma parse_ipv4_read: "n < 2 ^ 32 \<Longrightarrow> parse_ipv4 (join_with ''.'' (map (decimal_digits 3) (quad n))) = Some n"
proof -
  assume n: "n < 2 ^ 32"
  have lt: "\<forall>x\<in>set (quad n). x < 256" by (auto simp: quad_def)
  then have "\<forall>x\<in>set (map (decimal_digits 3) (quad n)). CHR ''.'' \<notin> set x"
    using decimal_digits_read [of _ 3] no_dot_digits by fastforce
  moreover have ne: "quad n \<noteq> []" by (simp add: quad_def)
  ultimately have s: "split_on CHR ''.'' (join_with ''.'' (map (decimal_digits 3) (quad n))) = map (decimal_digits 3) (quad n)"
    by (intro split_join) auto
  obtain a b c d where q: "quad n = [a, b, c, d]" by (simp add: quad_def upt_conv_Cons)
  show ?thesis using lt quad_sum [OF n q] unfolding parse_ipv4_def s by (simp add: q ipv4_field_read)
qed

lemma find_first: "(\<forall>c\<in>set s. \<not> P c) \<Longrightarrow> List.find P (s @ t) = List.find P t"
  by (induction s) auto

lemma parse_addr_4: "parse_addr (ip_string (V4 w)) = Some (V4 w, [])"
proof -
  obtain a b c d where q: "quad (unat w) = [a, b, c, d]" by (simp add: quad_def upt_conv_Cons)
  have "a < 256" using q by (auto simp: quad_def upt_conv_Cons)
  then have "\<forall>c\<in>set (decimal_digits 3 a). c \<notin> {CHR ''.'', CHR '':'', CHR ''%''}"
    using decimal_digits_read [of a 3] no_dot_digits by fastforce
  then have "List.find (\<lambda>c. c \<in> {CHR ''.'', CHR '':'', CHR ''%''}) (ip_string (V4 w)) = Some CHR ''.''"
    by (simp add: ip_string_4 q find_first)
  moreover have "parse_ipv4 (ip_string (V4 w)) = Some (unat w)"
    unfolding ip_string_4 using unsigned_less [of w] by (intro parse_ipv4_read) simp
  ultimately show ?thesis by (simp add: parse_addr_def)
qed

section \<open>IPv6\<close>

definition hex_or_colon :: "char \<Rightarrow> bool" where
  "hex_or_colon c = (is_hex c \<or> c = CHR '':'')"

lemma hex_group_snoc: "hex_group (s @ [c]) = 16 * hex_group s + unhex c"
  by (simp add: hex_group_def)

lemma hex_digit_read:
  assumes "n < 16"
  shows "is_hex (if n < 10 then byte (48 + n) else byte (87 + n)) \<and> unhex (if n < 10 then byte (48 + n) else byte (87 + n)) = n"
proof -
  have "byte_val (byte (48 + n)) = 48 + n" "byte_val (byte (87 + n)) = 87 + n" using assms by (simp_all add: byte_def)
  then show ?thesis using assms by (simp add: is_hex_def unhex_def is_digit_def)
qed

lemma hex_number_read:
  "n < 16 ^ k \<Longrightarrow> 0 < k \<Longrightarrow>
     hex_group (hex_number k n) = n \<and> list_all is_hex (hex_number k n) \<and> hex_number k n \<noteq> [] \<and> length (hex_number k n) \<le> k"
proof (induction k arbitrary: n)
  case (Suc k)
  have d: "is_hex (if n mod 16 < 10 then byte (48 + n mod 16) else byte (87 + n mod 16))"
    "unhex (if n mod 16 < 10 then byte (48 + n mod 16) else byte (87 + n mod 16)) = n mod 16"
    using hex_digit_read [of "n mod 16"] by simp_all
  show ?case
  proof (cases "n < 16")
    case True
    then show ?thesis using d by (simp add: hex_group_def Let_def split del: if_split)
  next
    case False
    then have k: "0 < k" using Suc.prems by (cases k) auto
    have ih: "hex_group (hex_number k (n div 16)) = n div 16" "list_all is_hex (hex_number k (n div 16))"
      "length (hex_number k (n div 16)) \<le> k"
      using Suc.IH [of "n div 16"] Suc.prems k by (simp_all add: less_mult_imp_div_less)
    then show ?thesis using False d by (simp add: hex_group_snoc Let_def split del: if_split)
  qed
qed simp

lemma group_read:
  assumes "x < 65536"
  shows "hex_group (hex_number 4 x) = x" "list_all is_hex (hex_number 4 x)" "hex_number 4 x \<noteq> []" "length (hex_number 4 x) \<le> 4"
  using hex_number_read [of x 4] assms by simp_all

lemma no_colon: "\<not> is_hex CHR '':''" "\<not> is_hex CHR ''.''" "\<not> is_hex CHR ''%''"
  by code_simp+

lemma hex_prefix:
  "list_all is_hex h \<Longrightarrow> takeWhile is_hex (h @ CHR '':'' # t) = h \<and> dropWhile is_hex (h @ CHR '':'' # t) = CHR '':'' # t"
  by (induction h) (auto simp: no_colon)

lemma hex_only: "list_all is_hex h \<Longrightarrow> takeWhile is_hex h = h \<and> dropWhile is_hex h = []"
  by (induction h) auto

definition printed :: "nat list \<Rightarrow> string" where
  "printed xs = join_with '':'' (map (hex_number 4) xs)"

lemma printed_simps: "printed [] = []" "printed [x] = hex_number 4 x"
  "printed (x # y # zs) = hex_number 4 x @ CHR '':'' # printed (y # zs)"
  by (simp_all add: printed_def)

lemma printed_hd: "x < 65536 \<Longrightarrow> printed (x # xs) \<noteq> [] \<and> is_hex (hd (printed (x # xs)))"
  using group_read [of x] by (cases xs) (auto simp: printed_simps hd_append list_all_iff)

lemma printed_chars: "\<forall>x\<in>set xs. x < 65536 \<Longrightarrow> list_all hex_or_colon (printed xs)"
proof (induction xs rule: induct_list012)
  case (2 x)
  then show ?case using group_read [of x] by (auto simp: printed_simps list_all_iff hex_or_colon_def)
next
  case (3 x y zs)
  then show ?case using group_read [of x] by (auto simp: printed_simps list_all_iff hex_or_colon_def)
qed (simp add: printed_simps)

text \<open>One group and a colon, and the last group.\<close>

lemma groups_step:
  assumes "x < 65536" "t \<noteq> []" "hd t \<noteq> CHR '':''"
  shows "ipv6_groups (Suc n) gs e (hex_number 4 x @ CHR '':'' # t) = ipv6_groups n (gs @ [x]) e t"
  using group_read [OF assms(1)] hex_prefix [OF group_read(2) [OF assms(1)], of t] assms(2,3) by (simp add: Let_def)

lemma groups_last:
  assumes "x < 65536"
  shows "ipv6_groups (Suc n) gs e (hex_number 4 x) = Some (gs @ [x], e, [])"
  using group_read [OF assms] hex_only [OF group_read(2) [OF assms]]
  by (simp add: Let_def del: takeWhile_eq_all_conv dropWhile_eq_Nil_conv)

lemma groups_ellipsis:
  assumes "x < 65536"
  shows "ipv6_groups (Suc n) gs None (hex_number 4 x @ CHR '':'' # CHR '':'' # t) =
    (if t = [] then Some (gs @ [x], Some (Suc (length gs)), []) else ipv6_groups n (gs @ [x]) (Some (Suc (length gs))) t)"
  using group_read [OF assms] hex_prefix [OF group_read(2) [OF assms], of "CHR '':'' # t"] by (simp add: Let_def)

lemma hex_not_colon: "is_hex c \<Longrightarrow> c \<noteq> CHR '':''"
  using no_colon by blast

lemma groups_read:
  "xs \<noteq> [] \<Longrightarrow> length xs \<le> n \<Longrightarrow> \<forall>x\<in>set xs. x < 65536 \<Longrightarrow> ipv6_groups n gs e (printed xs) = Some (gs @ xs, e, [])"
proof (induction xs arbitrary: n gs rule: induct_list012)
  case (2 x)
  then obtain m where "n = Suc m" by (cases n) auto
  then show ?case using 2 groups_last by (simp add: printed_simps)
next
  case (3 x y zs)
  then obtain m where m: "n = Suc m" by (cases n) auto
  have h: "printed (y # zs) \<noteq> []" "hd (printed (y # zs)) \<noteq> CHR '':''"
    using printed_hd [of y zs] hex_not_colon 3 by auto
  show ?case unfolding m printed_simps using groups_step [OF _ h, of x] "3.IH"(2) [of m "gs @ [x]"] "3.prems" m by simp
qed simp

lemma groups_read_ellipsis:
  "xs \<noteq> [] \<Longrightarrow> length xs \<le> n \<Longrightarrow> \<forall>x\<in>set xs. x < 65536 \<Longrightarrow>
     ipv6_groups n gs None (printed xs @ CHR '':'' # CHR '':'' # t) =
       (if t = [] then Some (gs @ xs, Some (length gs + length xs), [])
        else ipv6_groups (n - length xs) (gs @ xs) (Some (length gs + length xs)) t)"
proof (induction xs arbitrary: n gs rule: induct_list012)
  case (2 x)
  then obtain m where "n = Suc m" by (cases n) auto
  then show ?case using 2 groups_ellipsis by (simp add: printed_simps)
next
  case (3 x y zs)
  then obtain m where m: "n = Suc m" by (cases n) auto
  have h: "printed (y # zs) @ CHR '':'' # CHR '':'' # t \<noteq> []" "hd (printed (y # zs) @ CHR '':'' # CHR '':'' # t) \<noteq> CHR '':''"
    using printed_hd [of y zs] hex_not_colon 3 by (auto simp: hd_append)
  show ?case unfolding m printed_simps using groups_step [OF _ h, of x m gs None] "3.IH"(2) [of m "gs @ [x]"] "3.prems" m
    by (simp del: ipv6_groups.simps)
qed simp

section \<open>The groups of a number\<close>

lemma groups_of_bound: "\<forall>x\<in>set (groups_of n). x < 65536"
  by (auto simp: groups_of_def)

lemma length_groups_of [simp]: "length (groups_of n) = 8"
  by (simp add: groups_of_def)

lemma groups_sum: "n < 2 ^ 128 \<Longrightarrow> number_of_groups (groups_of n) = n"
proof -
  assume n: "n < 2 ^ 128"
  define q where "q i = n div 2 ^ (16 * i)" for i
  have s: "q (Suc i) * 65536 + q i mod 65536 = q i" for i
  proof -
    have "q (Suc i) = q i div 65536" by (simp add: q_def power_add div_mult2_eq mult.commute [of 65536])
    then show ?thesis by simp
  qed
  have s7: "q 7 * 65536 + q 6 mod 65536 = q 6" "q 6 * 65536 + q 5 mod 65536 = q 5" "q 5 * 65536 + q 4 mod 65536 = q 4"
    "q 4 * 65536 + q 3 mod 65536 = q 3" "q 3 * 65536 + q 2 mod 65536 = q 2" "q 2 * 65536 + q 1 mod 65536 = q 1"
    "q 1 * 65536 + q 0 mod 65536 = q 0"
    using s [of 6] s [of 5] s [of 4] s [of 3] s [of 2] s [of 1] s [of 0] by (simp_all add: numeral_2_eq_2 [symmetric])
  have "q 7 < 65536" using n unfolding q_def by (simp add: less_mult_imp_div_less)
  then have t: "q 7 mod 65536 = q 7" by simp
  have u: "[0..<8] = [0, 1, 2, 3, 4, 5, 6, 7 :: nat]" by (simp add: upt_conv_Cons)
  have "groups_of n = [q 7 mod 65536, q 6 mod 65536, q 5 mod 65536, q 4 mod 65536, q 3 mod 65536, q 2 mod 65536, q 1 mod 65536, q 0 mod 65536]"
    by (simp add: groups_of_def q_def u)
  then have "number_of_groups (groups_of n) = q 0"
    unfolding number_of_groups_def by (simp only: foldl.simps t s7 mult_zero_left add_0)
  then show ?thesis by (simp add: q_def)
qed

lemma zero_run_part: "zero_run g i = k \<Longrightarrow> take i g @ replicate k 0 @ drop (i + k) g = g"
proof -
  assume k: "zero_run g i = k"
  have "takeWhile (\<lambda>x. x = 0) xs = replicate (length (takeWhile (\<lambda>x. x = 0) xs)) 0" for xs :: "nat list"
    by (induction xs) auto
  then have "replicate k 0 @ drop k (drop i g) = drop i g"
    using takeWhile_dropWhile_id [of "\<lambda>x. x = 0" "drop i g"] k by (metis dropWhile_eq_drop zero_run_def)
  then show ?thesis by (metis add.commute append_take_drop_id drop_drop)
qed

lemma longest_run_found:
  "longest_run g = (i, k) \<Longrightarrow> i = 8 \<or> i < 8 \<and> zero_run g i = k \<and> 1 < k"
proof -
  have "case foldl (\<lambda>(i, n) j. if n < zero_run g j then (j, zero_run g j) else (i, n)) (8, 1) js of
      (i, k) \<Rightarrow> 1 \<le> k \<and> (i = 8 \<or> i < 8 \<and> zero_run g i = k \<and> 1 < k)" if "\<forall>j\<in>set js. j < 8" for js
    using that by (induction js rule: rev_induct) (auto split: prod.splits)
  from this [of "[0..<8]"] show "longest_run g = (i, k) \<Longrightarrow> ?thesis" by (simp add: longest_run_def)
qed

section \<open>The round trip\<close>

lemma zero_run_length: "zero_run g i \<le> length g - i"
  by (metis length_drop length_takeWhile_le zero_run_def)

lemma fill_read:
  assumes "length g = 8" "zero_run g i = k" "1 < k" "i < 8"
  shows "fill_groups (take i g @ drop (i + k) g, Some i, []) = Some g"
proof -
  have "i + k \<le> 8" using zero_run_length [of g i] assms by simp
  then have "length (take i g @ drop (i + k) g) = 8 - k" using assms by simp
  moreover have "8 - (8 - k) = k" using \<open>i + k \<le> 8\<close> by simp
  ultimately show ?thesis using zero_run_part [OF assms(2)] assms(3,4) by (simp add: fill_groups_def assms(1))
qed

lemma printed_groups:
  assumes "w = printed g" "length g = 8" "\<forall>x\<in>set g. x < 65536"
  shows "Option.bind (ipv6_groups 8 [] None w) fill_groups = Some g"
proof -
  have "g \<noteq> []" using assms(2) by auto
  then show ?thesis using groups_read [of g 8 "[]" None] assms by (simp add: fill_groups_def del: ipv6_groups.simps)
qed

text \<open>What is printed with an ellipsis.\<close>

lemma ellipsis_groups:
  assumes g: "length g = 8" "\<forall>x\<in>set g. x < 65536" and run: "zero_run g i = k" "1 < k" "i < 8"
  shows "(let s = printed (take i g) @ ''::'' @ printed (drop (i + k) g) in
      if s = ''::'' then Some (replicate 8 0)
      else Option.bind (if has_prefix s ''::'' then ipv6_groups 8 [] (Some 0) (drop 2 s) else ipv6_groups 8 [] None s) fill_groups)
    = Some g"
proof -
  let ?xs = "take i g" and ?ys = "drop (i + k) g"
  have ik: "i + k \<le> 8" using zero_run_length [of g i] run g by simp
  have xs: "\<forall>x\<in>set ?xs. x < 65536" and ys: "\<forall>x\<in>set ?ys. x < 65536" using g(2) by (auto dest: in_set_takeD in_set_dropD)
  have fill: "fill_groups (?xs @ ?ys, Some i, []) = Some g" by (rule fill_read) (use g run in simp_all)
  have ye: "printed ?ys = [] \<longleftrightarrow> ?ys = []" using printed_hd ys by (cases ?ys) (auto simp: printed_simps)
  show ?thesis
  proof (cases "i = 0")
    case True
    show ?thesis
    proof (cases "?ys = []")
      case e: True
      then have "k = 8" using True ik g(1) by simp
      then have "g = replicate 8 0" using zero_run_part [OF run(1)] True e by simp
      then show ?thesis using True e by (simp add: printed_simps)
    next
      case False
      then have "ipv6_groups 8 [] (Some 0) (printed ?ys) = Some (?ys, Some 0, [])"
        using groups_read [OF False _ ys, of 8 "[]" "Some 0"] g(1) by simp
      then show ?thesis using True False ye fill by (simp add: printed_simps del: ipv6_groups.simps)
    qed
  next
    case False
    then obtain x zs where x: "?xs = x # zs" using g(1) by (cases ?xs) auto
    have li: "length ?xs = i" using g(1) run(3) by simp
    have ne: "?xs \<noteq> []" using x by simp
    have h: "printed ?xs \<noteq> []" "hd (printed ?xs) \<noteq> CHR '':''" using printed_hd [of x zs] hex_not_colon xs x by auto
    then have p: "\<not> has_prefix (printed ?xs @ ''::'' @ printed ?ys) ''::''" "printed ?xs @ ''::'' @ printed ?ys \<noteq> ''::''"
      by (cases "printed ?xs"; simp add: has_prefix_def)+
    have "ipv6_groups 8 [] None (printed ?xs @ ''::'' @ printed ?ys) = Some (?xs @ ?ys, Some i, [])"
    proof (cases "?ys = []")
      case True
      then show ?thesis using groups_read_ellipsis [OF ne _ xs, of 8 "[]" "printed ?ys"] li ye run(3)
        by (simp del: ipv6_groups.simps)
    next
      case False
      have "ipv6_groups (8 - i) ?xs (Some i) (printed ?ys) = Some (?xs @ ?ys, Some i, [])"
        by (rule groups_read [OF False _ ys]) (use g(1) in simp)
      then show ?thesis using groups_read_ellipsis [OF ne _ xs, of 8 "[]" "printed ?ys"] li ye run(3) False
        by (simp del: ipv6_groups.simps)
    qed
    then show ?thesis using p fill by (simp add: Let_def del: ipv6_groups.simps)
  qed
qed

lemma ip_string_6:
  "ip_string (V6 w) = (case longest_run (groups_of (unat w)) of (i, k) \<Rightarrow>
     if i = 8 then printed (groups_of (unat w))
     else printed (take i (groups_of (unat w))) @ ''::'' @ printed (drop (i + k) (groups_of (unat w))))"
  by (simp add: ip_string_def printed_def Let_def take_map drop_map split: prod.split)

lemma find_colon:
  "list_all hex_or_colon s \<Longrightarrow> CHR '':'' \<in> set s \<Longrightarrow> List.find (\<lambda>c. c \<in> {CHR ''.'', CHR '':'', CHR ''%''}) s = Some CHR '':''"
  by (induction s) (auto simp: hex_or_colon_def no_colon)

lemma printed_colon: "CHR '':'' \<in> set (printed (x # y # zs))"
  by (simp add: printed_simps)

lemma no_prefix: "\<forall>x\<in>set (g # gs). x < 65536 \<Longrightarrow> printed (g # gs) \<noteq> ''::'' \<and> \<not> has_prefix (printed (g # gs)) ''::''"
proof -
  assume "\<forall>x\<in>set (g # gs). x < 65536"
  then have "printed (g # gs) \<noteq> []" "hd (printed (g # gs)) \<noteq> CHR '':''" using printed_hd [of g gs] hex_not_colon by auto
  then show ?thesis by (cases "printed (g # gs)") (auto simp: has_prefix_def)
qed

lemma parse_addr_6: "parse_addr (ip_string (V6 w)) = Some (V6 w, [])"
proof -
  define g where "g = groups_of (unat w)"
  have g: "length g = 8" "\<forall>x\<in>set g. x < 65536" using groups_of_bound by (simp_all add: g_def)
  obtain i k where r: "longest_run g = (i, k)" by fastforce
  define s where "s = ip_string (V6 w)"
  obtain a b gs where ab: "g = a # b # gs" using g(1) by (cases g rule: remdups_adj.cases) auto
  have sub: "\<forall>x\<in>set (take i g). x < 65536" "\<forall>x\<in>set (drop (i + k) g). x < 65536"
    using g(2) by (auto dest: in_set_takeD in_set_dropD)
  have c: "list_all hex_or_colon s \<and> CHR '':'' \<in> set s"
  proof (cases "i = 8")
    case True
    then have "s = printed g" by (simp add: s_def ip_string_6 r [unfolded g_def] g_def)
    then show ?thesis using printed_chars [OF g(2)] printed_colon by (simp add: ab)
  next
    case False
    then have "s = printed (take i g) @ ''::'' @ printed (drop (i + k) g)" by (simp add: s_def ip_string_6 r [unfolded g_def] g_def)
    then show ?thesis using printed_chars [OF sub(1)] printed_chars [OF sub(2)] by (simp add: hex_or_colon_def)
  qed
  have "(if s = ''::'' then Some (replicate 8 0)
      else Option.bind (if has_prefix s ''::'' then ipv6_groups 8 [] (Some 0) (drop 2 s) else ipv6_groups 8 [] None s) fill_groups) = Some g"
  proof (cases "i = 8")
    case True
    then have e: "s = printed g" by (simp add: s_def ip_string_6 r [unfolded g_def] g_def)
    then show ?thesis using no_prefix [of a "b # gs"] g(2) printed_groups [OF e g] ab by (simp del: ipv6_groups.simps)
  next
    case False
    then have e: "s = printed (take i g) @ ''::'' @ printed (drop (i + k) g)" by (simp add: s_def ip_string_6 r [unfolded g_def] g_def)
    have l: "zero_run g i = k" "1 < k" "i < 8" using longest_run_found [OF r] False by simp_all
    show ?thesis using ellipsis_groups [OF g l] unfolding e Let_def .
  qed
  moreover have "CHR ''%'' \<notin> set s" using c no_colon by (auto simp: list_all_iff hex_or_colon_def)
  then have "cut_at CHR ''%'' s = (s, None)" by (auto simp: cut_at_def takeWhile_eq_all_conv)
  moreover have "number_of_groups g = unat w" unfolding g_def using unsigned_less [of w] by (intro groups_sum) simp
  ultimately have "parse_ipv6 s = Some (V6 w, [])" by (simp add: parse_ipv6_def del: ipv6_groups.simps)
  then show ?thesis using find_colon c by (simp add: parse_addr_def s_def del: ipv6_groups.simps)
qed

lemma parse_addr_string: "parse_addr (ip_string a) = Some (a, [])"
  by (cases a) (simp_all add: parse_addr_4 parse_addr_6)

section \<open>The addresses the server names\<close>

definition addr_byte :: "char \<Rightarrow> bool" where
  "addr_byte c = (hex_or_colon c \<or> c = CHR ''.'')"

lemma ip_string_bytes: "list_all addr_byte (ip_string a)"
proof (cases a)
  case (V4 w)
  have "list_all is_digit (decimal_digits 3 x)" if "x \<in> set (quad n)" for x n
    using decimal_digits_read [of x 3] that by (auto simp: quad_def)
  moreover have "list_all addr_byte (join_with ''.'' ss)" if "\<forall>s\<in>set ss. list_all is_digit s" for ss
    using that by (induction ss rule: induct_list012)
      (auto simp: list_all_iff addr_byte_def hex_or_colon_def is_hex_def)
  ultimately show ?thesis by (simp add: V4 ip_string_4)
next
  case (V6 w)
  have p: "list_all addr_byte (printed xs)" if "set xs \<subseteq> set (groups_of n)" for xs n
    using printed_chars [of xs] groups_of_bound that by (fastforce simp: list_all_iff addr_byte_def)
  show ?thesis unfolding V6 ip_string_6
    using p [OF set_take_subset] p [OF set_drop_subset] p [OF subset_refl]
    by (auto simp: addr_byte_def hex_or_colon_def split: prod.split)
qed

lemma ip_string_nonempty: "ip_string a \<noteq> []"
proof
  assume "ip_string a = []"
  then have "parse_addr [] = Some (a, [])" using parse_addr_string [of a] by simp
  then show False by (simp add: parse_addr_def)
qed

lemma addr_no_space: "list_all addr_byte s \<Longrightarrow> s \<noteq> [] \<Longrightarrow> trim_space s = s"
proof (rule trim_space_plain)
  assume a: "list_all addr_byte s" and "s \<noteq> []"
  have r: "list_all (\<lambda>r. list_ex (\<lambda>c. \<not> addr_byte c) r) space_runes" by code_simp
  have "\<not> set r \<subseteq> set s" if "r \<in> set space_runes" for r
    using a r that by (auto simp: list_all_iff list_ex_iff)
  then have "\<not> has_prefix s r \<and> \<not> has_prefix (rev s) (rev r)" if "r \<in> set space_runes" for r
    using that by (metis has_prefix_iff set_append set_rev sup_ge1)
  then show "starts_plain s" "ends_plain s" using \<open>s \<noteq> []\<close> by (simp_all add: starts_plain_def space_width_zero ends_plain_def)
qed

text \<open>An address the agent tells of: not mapped, not its own loopback, and one.\<close>

definition tellable :: "ip_addr \<Rightarrow> bool" where
  "tellable a = (\<not> is_unspecified a \<and> \<not> is_loopback a \<and> (case a of V4 w \<Rightarrow> True | V6 w \<Rightarrow> unat w div 2 ^ 32 \<noteq> 65535))"

lemma tellable_read: "tellable a \<Longrightarrow> unmapped (a, []) = (a, []) \<and> \<not> unspecified_addr (a, []) \<and> \<not> loopback_addr (a, [])"
  by (cases a) (auto simp: tellable_def unmapped_def unmap_v6_def unspecified_addr_def loopback_addr_def)

lemma known_peers_named:
  "list_all tellable as \<Longrightarrow> length known + length as \<le> max_known_peer_addresses \<Longrightarrow>
     set (known_peers_from known (map ip_string as)) = set known \<union> (\<lambda>a. (a, [])) ` set as"
proof (induction "as" arbitrary: known)
  case (Cons a "as")
  have t: "tellable a" using Cons.prems(1) by simp
  have "known_peers_from known (map ip_string (a # as)) = known_peers_from (List.insert (a, []) known) (map ip_string as)"
    using Cons.prems(2) tellable_read [OF t] by (simp add: addr_no_space ip_string_bytes ip_string_nonempty parse_addr_string)
  moreover have "length (List.insert (a, []) known) + length as \<le> max_known_peer_addresses"
    using Cons.prems(2) by (simp add: List.insert_def)
  ultimately show ?case using Cons.IH [of "List.insert (a, []) known"] Cons.prems(1) by auto
qed simp



end
