(* ===== verification/Containers_Main.thy ===== *)
theory Containers_Main
  imports Services Netip Processes
begin

text \<open>
  What runs in each container, and the ports Docker publishes for it: \<^verbatim>\<open>internal/collect/containers_main.go\<close>. What
  \<^verbatim>\<open>/sys/fs/cgroup\<close> and \<^verbatim>\<open>/proc\<close> hold is an argument; a file or folder that cannot be read is \<open>None\<close>.
\<close>

section \<open>What is read\<close>

text \<open>
  The list of processes in a file, the names in a folder and whether they are folders, in the order of
  \<^verbatim>\<open>os.ReadDir\<close>; of a process its stat and command line and the tables of its network; of each name in \<^verbatim>\<open>/proc\<close>
  its comm and command line.
\<close>

record container_reads =
  cm_file :: "string \<Rightarrow> string option"
  cm_folder :: "string \<Rightarrow> (string \<times> bool) list option"
  cm_stat :: "int \<Rightarrow> string option"
  cm_cmdline :: "int \<Rightarrow> string option"
  cm_fib_trie :: "int \<Rightarrow> string option"
  cm_if_inet6 :: "int \<Rightarrow> string option"
  cm_names :: "string list option"
  cm_comm :: "string \<Rightarrow> string option"
  cm_proxy_cmdline :: "string \<Rightarrow> string option"

definition max_published_ports :: nat where "max_published_ports = 32"
definition max_cgroup_procs :: nat where "max_cgroup_procs = 65536"
definition max_fib_trie :: nat where "max_fib_trie = 262144"
definition max_proc_entries :: nat where "max_proc_entries = 200000"
definition max_shim_skips :: nat where "max_shim_skips = 64"
definition max_proxy_cmdline :: nat where "max_proxy_cmdline = 4096"

definition init_shims :: "string list" where
  "init_shims = [''tini'', ''docker-init'', ''dumb-init'', ''catatonit'']"

section \<open>The main process\<close>

definition read_cgroup_procs :: "container_reads \<Rightarrow> string \<Rightarrow> int list" where
  "read_cgroup_procs r path =
     (case cm_file r path of None \<Rightarrow> []
      | Some s \<Rightarrow> filter (\<lambda>p. 0 < p) (List.map_filter (\<lambda>l. atoi_strict (trim_space l)) (fst (file_lines (take max_cgroup_procs s)))))"

definition cgroup_bases :: "string list" where
  "cgroup_bases = [''/sys/fs/cgroup'', ''/sys/fs/cgroup/unified'', ''/sys/fs/cgroup/systemd'', ''/sys/fs/cgroup/pids'']"

text \<open>The processes of a scope, or of the first sixteen entries below it.\<close>

definition scope_procs :: "container_reads \<Rightarrow> string \<Rightarrow> int list" where
  "scope_procs r dir =
     (let own = read_cgroup_procs r (dir @ ''/cgroup.procs'') in
      if own \<noteq> [] then own
      else (case cm_folder r dir of None \<Rightarrow> []
        | Some es \<Rightarrow> concat (map (\<lambda>(n, _). read_cgroup_procs r (dir @ ''/'' @ n @ ''/cgroup.procs'')) (filter snd (take 16 es)))))"

fun first_procs :: "container_reads \<Rightarrow> string \<Rightarrow> string list \<Rightarrow> int list" where
  "first_procs r cgroup [] = []"
| "first_procs r cgroup (b # bs) =
     (let ps = scope_procs r (path_join b cgroup) in if ps \<noteq> [] then ps else first_procs r cgroup bs)"

definition comm_of :: "container_reads \<Rightarrow> int \<Rightarrow> string option" where
  "comm_of r pid = Option.bind (cm_stat r pid) parse_proc_comm"

text \<open>The first process that is not a shim, and otherwise the first.\<close>

fun past_shims :: "container_reads \<Rightarrow> (int \<times> string) option \<Rightarrow> int list \<Rightarrow> (int \<times> string) option" where
  "past_shims r first [] = first"
| "past_shims r first (p # ps) =
     (case comm_of r p of None \<Rightarrow> past_shims r first ps
      | Some comm \<Rightarrow>
        if comm \<notin> set init_shims then Some (p, comm)
        else past_shims r (if first = None then Some (p, comm) else first) ps)"

definition main_process :: "container_reads \<Rightarrow> string \<Rightarrow> (int \<times> string) option" where
  "main_process r cgroup =
     (if cgroup = [] then None
      else past_shims r None (take max_shim_skips (sort (first_procs r cgroup cgroup_bases))))"

section \<open>The addresses of a network namespace\<close>

text \<open>The address a line names, and after it whether a line says that it is local.\<close>

fun fib_lines :: "(ip_addr \<times> string) option \<Rightarrow> (ip_addr \<times> string) list \<Rightarrow> string list \<Rightarrow> (ip_addr \<times> string) list" where
  "fib_lines here out [] = out"
| "fib_lines here out (l # ls) =
     (case cut_prefix (trim_space l) ''|-- '' of
        Some rest \<Rightarrow> fib_lines (parse_addr (trim_space rest)) out ls
      | None \<Rightarrow>
        (case (has_prefix (trim_space l) ''/32 host LOCAL'', here) of
           (True, Some a) \<Rightarrow> fib_lines here (if loopback_addr a \<or> a \<in> set out then out else out @ [a]) ls
         | _ \<Rightarrow> fib_lines here out ls))"

definition parse_fib_trie_local :: "string \<Rightarrow> (ip_addr \<times> string) list" where
  "parse_fib_trie_local s = fib_lines None [] (fst (file_lines s))"

definition inet6_line :: "string \<Rightarrow> (ip_addr \<times> string) option" where
  "inet6_line l =
     (case go_fields l of
        h # f \<Rightarrow>
          (let a = (V6 (word_of_nat (hex_group h)), []) in
           if length f < 5 \<or> length h \<noteq> 32 \<or> \<not> list_all is_hex h \<or> loopback_addr a \<or> link_local_addr a then None else Some a)
      | [] \<Rightarrow> None)"

definition parse_if_inet6 :: "string \<Rightarrow> (ip_addr \<times> string) list" where
  "parse_if_inet6 s = List.map_filter inet6_line (fst (file_lines s))"

definition namespace_addresses :: "container_reads \<Rightarrow> int \<Rightarrow> (ip_addr \<times> string) list" where
  "namespace_addresses r pid =
     (case cm_fib_trie r pid of None \<Rightarrow> [] | Some s \<Rightarrow> parse_fib_trie_local (take max_fib_trie s))
     @ (case cm_if_inet6 r pid of None \<Rightarrow> [] | Some s \<Rightarrow> parse_if_inet6 (take max_fib_trie s))"

section \<open>Docker's proxies\<close>

record proxy_port =
  px_container :: "ip_addr \<times> string"
  px_port :: published_port

definition proxy_names :: "string list" where
  "proxy_names = [''proto'', ''host-ip'', ''host-port'', ''container-ip'', ''container-port'']"

fun proxy_flags :: "string list \<Rightarrow> (string \<rightharpoonup> string) \<Rightarrow> (string \<rightharpoonup> string)" where
  "proxy_flags [] m = m"
| "proxy_flags (a # as) m =
     (let n = trim_left_of ''-'' a in
      if n = a then proxy_flags as m
      else (case cut_at CHR ''='' n of
          (k, Some v) \<Rightarrow> proxy_flags as (m(k \<mapsto> v))
        | (_, None) \<Rightarrow>
          if n \<in> set proxy_names
          then (case as of [] \<Rightarrow> m | v # rest \<Rightarrow> proxy_flags rest (m(n \<mapsto> v)))
          else proxy_flags as m))"

definition port_number :: "string \<Rightarrow> int option" where
  "port_number s = (case atoi s of None \<Rightarrow> None | Some n \<Rightarrow> if n < 1 \<or> 65535 < n then None else Some n)"

definition parse_docker_proxy :: "string list \<Rightarrow> proxy_port option" where
  "parse_docker_proxy args =
     (let m = proxy_flags (tl args) Map.empty;
          flag = (\<lambda>k. case m k of None \<Rightarrow> [] | Some v \<Rightarrow> v);
          proto = (if flag ''proto'' = [] then ''tcp'' else flag ''proto'')
      in if proto \<notin> {''tcp'', ''udp'', ''sctp''} then None
         else (case (port_number (flag ''host-port''), port_number (flag ''container-port''), parse_addr (flag ''container-ip'')) of
             (Some h, Some c, Some a) \<Rightarrow>
               Some \<lparr>px_container = unmapped a,
                     px_port = \<lparr>pp_protocol = proto,
                       pp_host_ip = (case parse_addr (flag ''host-ip'') of None \<Rightarrow> [] | Some b \<Rightarrow> addr_string (unmapped b)),
                       pp_host_port = h, pp_container_port = c\<rparr>\<rparr>
           | _ \<Rightarrow> None))"

definition proxy_args :: "string \<Rightarrow> string list" where
  "proxy_args body = split_on CHR 0x00 (trim_right_of [CHR 0x00] (take max_proxy_cmdline body))"

definition docker_proxy_of :: "container_reads \<Rightarrow> string \<Rightarrow> proxy_port option" where
  "docker_proxy_of r n =
     (if atoi_strict n = None \<or> map_option trim_space (cm_comm r n) \<noteq> Some ''docker-proxy'' then None
      else Option.bind (cm_proxy_cmdline r n) (\<lambda>b. parse_docker_proxy (proxy_args b)))"

definition docker_proxies :: "container_reads \<Rightarrow> proxy_port list" where
  "docker_proxies r =
     (case cm_names r of None \<Rightarrow> [] | Some ns \<Rightarrow> List.map_filter (docker_proxy_of r) (take max_proc_entries ns))"

section \<open>The containers\<close>

definition describe_main :: "container_reads \<Rightarrow> bool \<Rightarrow> container \<Rightarrow> container" where
  "describe_main r with_args c =
     (case main_process r (ct_cgroup c) of None \<Rightarrow> c
      | Some (pid, comm) \<Rightarrow>
        c\<lparr>ct_main_pid := pid, ct_main_process := clip comm max_command,
          ct_main_command :=
            (case (if with_args then cm_cmdline r pid else None) of None \<Rightarrow> ct_main_command c
             | Some b \<Rightarrow> if full_command b = [] then ct_main_command c else clip (full_command b) max_command)\<rparr>)"

definition container_addresses :: "container_reads \<Rightarrow> container \<Rightarrow> (ip_addr \<times> string) list" where
  "container_addresses r c =
     (case main_process r (ct_cgroup c) of None \<Rightarrow> [] | Some (pid, _) \<Rightarrow> namespace_addresses r pid)"

text \<open>Which container an address is of; the last one that lists it.\<close>

definition by_address :: "container_reads \<Rightarrow> container list \<Rightarrow> (ip_addr \<times> string \<rightharpoonup> nat)" where
  "by_address r cs =
     map_of (rev (concat (map (\<lambda>(i, c). map (\<lambda>a. (a, i)) (container_addresses r c)) (List.enumerate 0 cs))))"

definition publish :: "(ip_addr \<times> string \<rightharpoonup> nat) \<Rightarrow> proxy_port \<Rightarrow> container list \<Rightarrow> container list" where
  "publish m p cs =
     (case m (px_container p) of None \<Rightarrow> cs
      | Some i \<Rightarrow>
        if max_published_ports \<le> length (ct_ports (cs ! i)) then cs
        else cs[i := (cs ! i)\<lparr>ct_ports := ct_ports (cs ! i) @ [px_port p]\<rparr>])"

definition port_order :: "published_port \<Rightarrow> int \<times> string \<times> string" where
  "port_order p = (pp_host_port p, pp_protocol p, pp_host_ip p)"

definition describe_containers :: "container_reads \<Rightarrow> bool \<Rightarrow> container list \<Rightarrow> container list" where
  "describe_containers r with_args cs =
     (let m = by_address r cs in
      if list_all (\<lambda>c. container_addresses r c = []) cs then map (describe_main r with_args) cs
      else map (\<lambda>c. c\<lparr>ct_ports := sort_key port_order (ct_ports c)\<rparr>) 
          (fold (publish m) (docker_proxies r) (map (describe_main r with_args) cs)))"

end
