(* ===== verification/Containers_Main_Props.thy ===== *)
theory Containers_Main_Props
  imports Containers_Main Netip_Props
begin

text \<open>
  The command line Docker starts a proxy with reads back as the port, a port is told only of the container that has the
  address the proxy forwards to, and the main process is the first that is not a shim.
\<close>

section \<open>The command line of a proxy\<close>

text \<open>A number as Docker writes it, and the line.\<close>

definition port_text :: "int \<Rightarrow> string" where
  "port_text n = decimal_digits 5 (nat n)"

definition proxy_line :: "string \<Rightarrow> ip_addr \<Rightarrow> int \<Rightarrow> ip_addr \<Rightarrow> int \<Rightarrow> string list" where
  "proxy_line proto host hp cont cp =
     [''/usr/bin/docker-proxy'', ''-proto'', proto, ''-host-ip'', ip_string host, ''-host-port'', port_text hp,
      ''-container-ip'', ip_string cont, ''-container-port'', port_text cp]"

definition not_mapped :: "ip_addr \<Rightarrow> bool" where
  "not_mapped a = (case a of V4 w \<Rightarrow> True | V6 w \<Rightarrow> unat w div 2 ^ 32 \<noteq> 65535)"

lemma unmapped_same: "not_mapped a \<Longrightarrow> unmapped (a, []) = (a, [])"
  by (cases a) (auto simp: not_mapped_def unmapped_def unmap_v6_def)

lemma port_read: "1 \<le> n \<Longrightarrow> n \<le> 65535 \<Longrightarrow> port_number (port_text n) = Some n"
proof -
  assume n: "1 \<le> n" "n \<le> 65535"
  have d: "digits_value (port_text n) = nat n" "list_all is_digit (port_text n)" "port_text n \<noteq> []"
    using decimal_digits_read [of "nat n" 5] n by (simp_all add: port_text_def)
  have "\<not> has_prefix (port_text n) ''-''" "\<not> has_prefix (port_text n) ''+''"
    using d(2,3) by (cases "port_text n"; auto simp: has_prefix_def is_digit_def)+
  then have "atoi (port_text n) = Some n" using d n by (simp add: atoi_def parse_uint_def Let_def)
  then show ?thesis using n by (simp add: port_number_def)
qed

lemma flag_step:
  assumes "k \<in> set proxy_names"
  shows "proxy_flags ((CHR ''-'' # k) # v # rest) m = proxy_flags rest (m(k \<mapsto> v))"
proof -
  have "trim_left_of ''-'' (CHR ''-'' # k) = k" "CHR ''='' \<notin> set k"
    using assms by (auto simp: proxy_names_def trim_left_of_def)
  then show ?thesis using assms by (simp add: cut_at_def takeWhile_eq_all_conv Let_def)
qed

text \<open>
  C35: The command line Docker starts a proxy with is read as exactly what it says: the protocol, the
  address and port it listens on, and the address and port it forwards to.
\<close>

theorem proxy_line_reads_back:
  assumes "proto \<in> {''tcp'', ''udp'', ''sctp''}" "not_mapped host" "not_mapped cont"
    "1 \<le> hp" "hp \<le> 65535" "1 \<le> cp" "cp \<le> 65535"
  shows "parse_docker_proxy (proxy_line proto host hp cont cp) =
    Some \<lparr>px_container = (cont, []), px_port = \<lparr>pp_protocol = proto, pp_host_ip = ip_string host, pp_host_port = hp, pp_container_port = cp\<rparr>\<rparr>"
proof -
  have n: "''proto'' \<in> set proxy_names" "''host-ip'' \<in> set proxy_names" "''host-port'' \<in> set proxy_names"
    "''container-ip'' \<in> set proxy_names" "''container-port'' \<in> set proxy_names"
    by (simp_all add: proxy_names_def)
  have "proxy_flags (tl (proxy_line proto host hp cont cp)) Map.empty =
      Map.empty(''proto'' \<mapsto> proto, ''host-ip'' \<mapsto> ip_string host, ''host-port'' \<mapsto> port_text hp,
        ''container-ip'' \<mapsto> ip_string cont, ''container-port'' \<mapsto> port_text cp)"
    unfolding proxy_line_def list.sel
    by (simp only: flag_step [OF n(1)] flag_step [OF n(2)] flag_step [OF n(3)] flag_step [OF n(4)] flag_step [OF n(5)] proxy_flags.simps(1))
  moreover have "proto \<noteq> []" using assms(1) by auto
  ultimately show ?thesis using assms
    by (simp add: parse_docker_proxy_def port_read parse_addr_string unmapped_same addr_string_def Let_def)
qed

lemma proxy_line_reads_back_witness:
  "parse_docker_proxy (proxy_line ''tcp'' (V4 0) 8080 (V4 0xAC110002) 80) =
    Some \<lparr>px_container = (V4 0xAC110002, []), px_port = \<lparr>pp_protocol = ''tcp'', pp_host_ip = ip_string (V4 0), pp_host_port = 8080, pp_container_port = 80\<rparr>\<rparr>"
  by (rule proxy_line_reads_back) (simp_all add: not_mapped_def)

section \<open>Whose port it is\<close>

definition publishes :: "container_reads \<Rightarrow> container \<Rightarrow> published_port \<Rightarrow> bool" where
  "publishes r c p = (\<exists>x\<in>set (docker_proxies r). px_port x = p \<and> px_container x \<in> set (container_addresses r c))"

lemma described [simp]: "ct_cgroup (describe_main r b c) = ct_cgroup c" "ct_ports (describe_main r b c) = ct_ports c"
  by (simp_all add: describe_main_def split: option.split prod.split)

lemma by_address_lists:
  assumes "by_address r cs a = Some i"
  shows "i < length cs \<and> a \<in> set (container_addresses r (cs ! i))"
proof -
  have "(a, i) \<in> set (concat (map (\<lambda>(i, c). map (\<lambda>a. (a, i)) (container_addresses r c)) (List.enumerate 0 cs)))"
    using map_of_SomeD [OF assms [unfolded by_address_def]] by simp
  then show ?thesis by (auto simp: in_set_enumerate_eq)
qed

text \<open>The containers as they are filled: those there were, and of each no more ports than are told, all its own.\<close>

definition filling :: "container_reads \<Rightarrow> container list \<Rightarrow> container list \<Rightarrow> bool" where
  "filling r cs xs =
     (length xs = length cs \<and> (\<forall>i<length cs. ct_cgroup (xs ! i) = ct_cgroup (cs ! i)
        \<and> length (ct_ports (xs ! i)) \<le> 32 \<and> (\<forall>p\<in>set (ct_ports (xs ! i)). publishes r (cs ! i) p)))"

lemma publish_filling:
  assumes "filling r cs xs" "x \<in> set (docker_proxies r)"
  shows "filling r cs (publish (by_address r cs) x xs)"
proof (cases "by_address r cs (px_container x)")
  case None
  then show ?thesis using assms(1) by (simp add: publish_def)
next
  case (Some i)
  have "publishes r (cs ! i) (px_port x)" using by_address_lists [OF Some] assms(2) unfolding publishes_def by blast
  moreover have "i < length xs" using by_address_lists [OF Some] assms(1) by (simp add: filling_def)
  ultimately show ?thesis using assms(1) Some
    by (auto simp: publish_def filling_def max_published_ports_def nth_list_update)
qed

lemma publish_all_filling:
  "filling r cs xs \<Longrightarrow> set ps \<subseteq> set (docker_proxies r) \<Longrightarrow> filling r cs (fold (publish (by_address r cs)) ps xs)"
  by (induction ps arbitrary: xs) (auto simp: publish_filling)


text \<open>A container behind a proxy, by its own address.\<close>

definition example_container :: container where
  "example_container =
     \<lparr>ct_id = ''0123456789ab'', ct_runtime = ''docker'', ct_active_state = ''active'', ct_started = None, ct_restarts = None,
      ct_memory = None, ct_main_pid = 0, ct_main_process = [], ct_main_command = [], ct_ports = [],
      ct_cgroup = ''/system.slice/docker-0123456789ab.scope''\<rparr>"

definition example_container_reads :: container_reads where
  "example_container_reads =
     \<lparr>cm_file = (\<lambda>p. if p = ''/sys/fs/cgroup/system.slice/docker-0123456789ab.scope/cgroup.procs'' then Some ''40'' else None),
      cm_folder = (\<lambda>_. None),
      cm_stat = (\<lambda>p. if p = 40 then Some ''40 (nginx) S 1'' else None), cm_cmdline = (\<lambda>_. None),
      cm_fib_trie = (\<lambda>_. Some (''|-- 172.17.0.2'' @ [CHR 0x0A] @ ''/32 host LOCAL'')), cm_if_inet6 = (\<lambda>_. None),
      cm_names = Some [''77''], cm_comm = (\<lambda>_. Some ''docker-proxy''),
      cm_proxy_cmdline = (\<lambda>_. Some (join_with [CHR 0x00] (proxy_line ''tcp'' (V4 0) 8080 (V4 0xAC110002) 80)))\<rparr>"


section \<open>The main process\<close>

definition passed_over :: "container_reads \<Rightarrow> int \<Rightarrow> bool" where
  "passed_over r q = (\<forall>n. comm_of r q = Some n \<longrightarrow> n \<in> set init_shims)"

definition found_at :: "container_reads \<Rightarrow> int list \<Rightarrow> int \<times> string \<Rightarrow> bool" where
  "found_at r ps x =
     (comm_of r (fst x) = Some (snd x)
      \<and> (\<exists>xs ys. ps = xs @ fst x # ys \<and> list_all (passed_over r) xs \<and> (snd x \<in> set init_shims \<longrightarrow> list_all (passed_over r) ys)))"

lemma found_later: "found_at r ps x \<Longrightarrow> passed_over r q \<Longrightarrow> found_at r (q # ps) x"
  unfolding found_at_def by (metis append_Cons list.pred_inject(2))

lemma found_here:
  "comm_of r q = Some n \<Longrightarrow> n \<notin> set init_shims \<or> list_all (passed_over r) ps \<Longrightarrow> found_at r (q # ps) (q, n)"
  unfolding found_at_def by (metis append_Nil fst_conv list.pred_inject(1) snd_conv)

lemma past_shims_found:
  "past_shims r first ps = Some x \<Longrightarrow> found_at r ps x \<or> first = Some x \<and> list_all (passed_over r) ps"
proof (induction ps arbitrary: first)
  case (Cons q ps)
  show ?case
  proof (cases "comm_of r q")
    case None
    then have "passed_over r q" by (simp add: passed_over_def)
    then show ?thesis using Cons.IH [of first] Cons.prems None found_later [of r ps x q] by auto
  next
    case (Some n)
    show ?thesis
    proof (cases "n \<in> set init_shims")
      case False
      then have "x = (q, n)" using Cons.prems Some by simp
      then show ?thesis using found_here [OF Some] False by blast
    next
      case True
      then have q: "passed_over r q" using Some by (simp add: passed_over_def)
      have "past_shims r (if first = None then Some (q, n) else first) ps = Some x" using Cons.prems Some True by simp
      from Cons.IH [OF this] consider "found_at r ps x"
        | "(if first = None then Some (q, n) else first) = Some x" "list_all (passed_over r) ps" by blast
      then show ?thesis
      proof cases
        case 1
        then show ?thesis using found_later q by blast
      next
        case 2
        then show ?thesis using found_here [OF Some] q by (cases first) auto
      qed
    qed
  qed
qed simp

text \<open>
  The main process is one of the container's, told by the kernel's name for it; every one before it that can be read is a
  shim; and it is a shim itself only where all are.
\<close>

lemma main_process_is_past_the_shims:
  "main_process r g = Some x \<Longrightarrow> found_at r (take max_shim_skips (sort (first_procs r g cgroup_bases))) x"
  using past_shims_found [of r None _ x] by (auto simp: main_process_def split: if_splits)

end
