(* ===== verification/Spec2Isabelle.thy ===== *)
theory Spec2Isabelle
  imports Dbus_Props Journal_Props Config_Props Spool_Props Jobs_Props Push_Props Agent_Journal_Props Agent_Run_Props Jobrun_Props
    Services_Props Proc_Props Cron_Props Crontab_Props Disk_Usage_Props Listening_Props Packages_Props Setup_Props System_Props Mount_Props Process_Props
    Traffic_Props Renewers_Props Netip_Props Containers_Main_Props
begin

text \<open>
  A model of the InfraNest agent, the Go program under \<^verbatim>\<open>src/\<close>. The agent runs on a server, takes a
  reading of it at a fixed cadence, keeps the readings in a spool on disk and pushes them to a
  server over HTTPS; on the side it reports failed services with the last lines of their journal, and
  the cron jobs its own wrapper ran.

  \<^bold>\<open>The parts and how they interact.\<close>

  \<^item> The run loop (\<^verbatim>\<open>internal/agent/run.go\<close>: \<^verbatim>\<open>Agent_Run\<close>) collects a reading, adds it to the spool, sends
    what the spool holds, and reacts to the answer: what the server accepted is dropped, its cadence
    and its address are taken on, a failure lengthens the wait. It keeps a state file
    (\<^verbatim>\<open>internal/agent/state.go\<close>: \<^verbatim>\<open>Agent_State\<close>), watches the journal (\<^verbatim>\<open>internal/agent/journal.go\<close>:
    \<^verbatim>\<open>Agent_Journal\<close>) and trims a batch to what the server needs (\<^verbatim>\<open>internal/agent/batch.go\<close>:
    \<^verbatim>\<open>Agent_Batch\<close>). One run of the loop is a step relation, \<^verbatim>\<open>run_step\<close>, over the loop's state; what
    the machine, the clock, the disk and the network do in a round is the argument
    \<^verbatim>\<open>surroundings\<close>, and what the agent is built from is \<^verbatim>\<open>equipment\<close>.
  \<^item> The spool (\<^verbatim>\<open>internal/spool/spool.go\<close>: \<^verbatim>\<open>Spool\<close>) is a directory of files, one per reading; the disk is
    an association list of names and contents, and any operation on it may fail at any point
    (\<^verbatim>\<open>faults\<close>).
  \<^item> The push client (\<^verbatim>\<open>internal/push/client.go\<close>: \<^verbatim>\<open>Push\<close>) builds the body of a request and reads the
    answer; JSON is printed and parsed by \<^verbatim>\<open>Go_Json\<close>.
  \<^item> The settings (\<^verbatim>\<open>internal/config/\<close>: \<^verbatim>\<open>Config\<close>) come from the environment or a file, and vet the URL
    and every later move of it.
  \<^item> Job reports (\<^verbatim>\<open>internal/jobs/\<close>: \<^verbatim>\<open>Jobs\<close>) are taken from a folder anyone may write to; the wrapper
    that writes them is \<^verbatim>\<open>Jobrun\<close> (\<^verbatim>\<open>internal/jobrun/jobrun.go\<close>).
  \<^item> The journal reader (\<^verbatim>\<open>internal/journal/\<close>: \<^verbatim>\<open>Journal_File\<close>, \<^verbatim>\<open>Journal_Query\<close>) parses systemd's files
    itself, through a cache of blocks; \<^verbatim>\<open>Login_Unit\<close> (\<^verbatim>\<open>internal/loginunit/loginunit.go\<close>) decides which
    units let people in, so that nothing of a login is reported.
  \<^item> The D-Bus client (\<^verbatim>\<open>internal/dbus/\<close>: \<^verbatim>\<open>Dbus_Wire\<close>, \<^verbatim>\<open>Dbus_Conn\<close>, \<^verbatim>\<open>Dbus_Systemd\<close>) asks systemd for its
    units; \<^verbatim>\<open>Services\<close> (\<^verbatim>\<open>internal/collect/services_linux.go\<close>, \<^verbatim>\<open>containers.go\<close>) makes the list of
    services and containers of a reading from the answers.
  \<^item> The collectors of \<^verbatim>\<open>internal/collect/\<close> read the kernel's and the system's files: \<^verbatim>\<open>Proc_Parse\<close> models
    the parsers of \<^verbatim>\<open>proc.go\<close> and \<^verbatim>\<open>parse_extra.go\<close>; \<^verbatim>\<open>Processes\<close> the list of processes
    (\<^verbatim>\<open>readProcesses\<close> of \<^verbatim>\<open>linux.go\<close>, \<^verbatim>\<open>cgroup.go\<close>, \<^verbatim>\<open>hosted.go\<close>) with the packages of \<^verbatim>\<open>Packages\<close>
    (\<^verbatim>\<open>packages.go\<close>); \<^verbatim>\<open>Mount_Watch\<close> the mounts, those that hang, and the disks under them (\<^verbatim>\<open>readMounts\<close> of
    \<^verbatim>\<open>linux.go\<close>, \<^verbatim>\<open>mountwatch.go\<close>, \<^verbatim>\<open>blockstack.go\<close>); \<^verbatim>\<open>Disk_Usage\<close> the walk of \<^verbatim>\<open>diskusage.go\<close>; \<^verbatim>\<open>Cron\<close> the cron
    jobs (\<^verbatim>\<open>cron.go\<close>); \<^verbatim>\<open>Listening\<close> and \<^verbatim>\<open>Netip\<close> the ports and connections
    (\<^verbatim>\<open>listening.go\<close>); \<^verbatim>\<open>Containers_Main\<close> what runs in a container and what it publishes (\<^verbatim>\<open>containers_main.go\<close>);
    \<^verbatim>\<open>Traffic\<close> the rates of \<^verbatim>\<open>traffic.go\<close>; \<^verbatim>\<open>Renewers\<close> what renews certificates (\<^verbatim>\<open>renewers.go\<close>); \<^verbatim>\<open>Setup\<close> what \<^verbatim>\<open>setup.go\<close>
    says of sshd, administrators and updates; \<^verbatim>\<open>Auto_Update\<close> \<^verbatim>\<open>autoupdate.go\<close>; \<^verbatim>\<open>System_Facts\<close> kernels, reboots and
    the parsers of \<^verbatim>\<open>system.go\<close>. Each takes what the files hold as data: a tree, a record of reads, or the
    contents. \<^verbatim>\<open>Sample\<close> and \<^verbatim>\<open>Usage\<close> hold the parts of a reading the rest of the agent looks into.
  \<^item> Go's own library is modelled as far as the agent uses it: \<^verbatim>\<open>Go_Utf8\<close> (UTF-8), \<^verbatim>\<open>Go_Std\<close> (URLs,
    addresses, scanning lines), \<^verbatim>\<open>Go_Time\<close> (RFC 3339), \<^verbatim>\<open>Go_Json\<close> (\<^verbatim>\<open>encoding/json\<close>), \<^verbatim>\<open>Go_Float\<close>
    (\<^verbatim>\<open>float64\<close>, as rationals with rounding), \<^verbatim>\<open>Go_Seconds\<close> (\<^verbatim>\<open>Duration.Seconds\<close>), \<^verbatim>\<open>Go_Text\<close> (fields, cuts,
    prefixes), \<^verbatim>\<open>Netip\<close> (addresses).

  \<^bold>\<open>Conventions.\<close> A Go string is a list of bytes. A machine integer is a word where its wrap-around
  matters (offsets in a journal file, counters), and otherwise an \<^verbatim>\<open>int\<close> with the wrap-around written
  out (\<^verbatim>\<open>i64\<close>). A function that may panic, block or return is an \<^verbatim>\<open>outcome\<close> (\<^verbatim>\<open>Prelude\<close>); one that
  returns an error is a sum. A map of Go is a map, or an association list where its order is used. A
  time is a number of nanoseconds since 1970, the zero time of Go below them. A loop that is bounded by the
  code is recursion; one that need not end takes fuel and gives \<^verbatim>\<open>Diverges\<close> without enough of it: the fuel is an
  argument of the theorems that do not depend on it, and
  where a result is claimed to exist, the theorem says how much is enough. Regular expressions, the
  lax date parser, the matching of file patterns (\<^verbatim>\<open>glob\<close>) and the case mapping of Unicode are arguments
  of the definitions that use them.

  \<^bold>\<open>The theorems.\<close>

  \<^item> \<^verbatim>\<open>Agent_Run_Facts\<close>, \<^verbatim>\<open>Agent_Run_Props\<close>: over any number of rounds, with any faults, what was
    delivered and what waits is what was collected; nothing is dropped without an answer; waits,
    back-off and address stay in bounds.
  \<^item> \<^verbatim>\<open>Agent_Journal_Props\<close>: a failure is told once; what waits for a push names no login.
  \<^item> \<^verbatim>\<open>Spool_Facts\<close>, \<^verbatim>\<open>Spool_Props\<close>: the spool refines a bounded queue (\<^verbatim>\<open>bounded_queue\<close>), and an addition
    that fails changes nothing.
  \<^item> \<^verbatim>\<open>Jobs_Props\<close>, \<^verbatim>\<open>Jobrun_Props\<close>: a report taken is vetted whatever is swapped in the folder; what the
    wrapper reports is what the command did.
  \<^item> \<^verbatim>\<open>Go_Json_Facts\<close>, \<^verbatim>\<open>Push_Props\<close>: what is printed reads back, and a request carries the batch.
  \<^item> \<^verbatim>\<open>Config_Facts\<close>, \<^verbatim>\<open>Config_Props\<close>: loaded settings are safe, and a move stays on its domain.
  \<^item> \<^verbatim>\<open>Journal_Cache\<close> (\<^verbatim>\<open>unseen_cache\<close>), \<^verbatim>\<open>Journal_Walk\<close>, \<^verbatim>\<open>Journal_Props\<close>: caches are invisible, the walk
    moves forward and ends, and a private key or a login name does not get out.
  \<^item> \<^verbatim>\<open>Dbus_Values\<close>, \<^verbatim>\<open>Dbus_Skip\<close>, \<^verbatim>\<open>Dbus_Readers\<close> (\<^verbatim>\<open>wire_reader\<close>), \<^verbatim>\<open>Dbus_Reply\<close>, \<^verbatim>\<open>Dbus_Props\<close>: encoding and
    decoding agree with the specification of D-Bus; on 64-bit platforms nothing panics.
  \<^item> \<^verbatim>\<open>Services_Props\<close>, \<^verbatim>\<open>Proc_Props\<close>: a failed unit is never cut from the list, a container's restarts
    are its later starts, the kernel's escapes are read back, and a process name is data.
  \<^item> \<^verbatim>\<open>Process_Props\<close>, \<^verbatim>\<open>Packages_Props\<close>: a process is told under its own unit or container and with its own share of
    the processor, and a package is the one dpkg's lists name.
  \<^item> \<^verbatim>\<open>Listening_Props\<close>, \<^verbatim>\<open>Disk_Usage_Props\<close>: no peer is sent that the server did not name, no exposed port is
    left out, and a scan that is not marked partial has counted everything.
  \<^item> \<^verbatim>\<open>Crontab_Props\<close>, \<^verbatim>\<open>Cron_Props\<close>: a crontab reads back, and a job's arguments stay on the machine.
  \<^item> \<^verbatim>\<open>Setup_Props\<close>, \<^verbatim>\<open>System_Props\<close>, \<^verbatim>\<open>Mount_Props\<close>: a reported sshd setting is the one in force or called
    unknown, the newest kernel is found by a total order on versions, and a mount that hangs is left alone.

  \<^item> \<^verbatim>\<open>Netip_Props\<close>, \<^verbatim>\<open>Containers_Main_Props\<close>: an address reads back as it is printed, the peers the server names are
    those matched, and a port is told only of the container whose network has the address it goes to.
  \<^item> \<^verbatim>\<open>Go_Float_Facts\<close>, \<^verbatim>\<open>List_Facts\<close>, \<^verbatim>\<open>Traffic_Props\<close>: rounding keeps whole numbers, and with it a rate is never more than
    the bytes that moved, whatever order Go ranges over its maps in.
  \<^item> \<^verbatim>\<open>Renewers_Props\<close>: a store that refuses is told as such, and no hook is told only where there is none.

  \<^bold>\<open>Not modelled.\<close> Sockets, deadlines, signals, process execution and the file system itself are
  arguments, and so is the reading of a certificate, \<^verbatim>\<open>pem\<close> and \<^verbatim>\<open>x509\<close>. Left out are the readers of single
  files for RAID, pressure and time (\<^verbatim>\<open>raid.go\<close>, \<^verbatim>\<open>pressure.go\<close>, \<^verbatim>\<open>timesync_linux.go\<close>), which are regular
  expressions and floats of arbitrary form; \<^verbatim>\<open>Collect\<close> and \<^verbatim>\<open>CollectSystem\<close> themselves, which fill the fields of
  a reading from calls of the kernel; Windows; and the command line, status and diagnostics of \<^verbatim>\<open>cmd/infranest-agent\<close> and
  \<^verbatim>\<open>internal/agent\<close>.
\<close>

end
